(* ===== verification/Go_Base.thy ===== *)
theory Go_Base
  imports Main "HOL-Library.Sublist" "HOL-Library.Char_ord" "HOL-Library.List_Lexorder"
begin

text \<open>
  Prelude of the mcp-audit development: the fragment of the Go language and of its standard
  library that every component uses, with the lemma collections the component proofs share.

  \<^item> A Go \<open>string\<close>, \<open>[]byte\<close> and \<open>json.RawMessage\<close> is a list of bytes (type \<open>string\<close>); a nil
    slice and an empty one are both \<open>[]\<close>, since the code only tests lengths.
  \<^item> A \<open>time.Time\<close> is the number of nanoseconds since Go's zero time (an \<open>int\<close>), so
    \<open>IsZero\<close> is \<open>t = 0\<close>, \<open>Before\<close> and \<open>After\<close> are the order and \<open>UTC\<close> is the identity on
    instants; a \<open>time.Duration\<close> is an \<open>int\<close> count of nanoseconds.
  \<^item> An \<open>error\<close> is its message; a fallible function returns \<open>err + 'a\<close>, an operation that
    only fails or not returns \<open>err option\<close>.
  \<^item> \<open>strings.ToLower\<close>, \<open>EqualFold\<close> and \<open>TrimSpace\<close> are modelled on ASCII: bytes from 0x80 up
    are neither letters with a case nor white space here.
\<close>

named_theorems go_defs \<open>definitions unfolded by the component proofs\<close>
named_theorems go_intro \<open>facts about the Go library used as introduction rules\<close>

type_synonym err = string
type_synonym 'a res = "err + 'a"
type_synonym go_time = int
type_synonym duration = int

abbreviation IsZero :: "go_time \<Rightarrow> bool" where
  "IsZero t \<equiv> t = 0"

definition milliseconds :: "int \<Rightarrow> duration" where
  "milliseconds n = n * 1000000"

definition seconds :: "int \<Rightarrow> duration" where
  "seconds n = n * 1000000000"

subsection \<open>Signed 64-bit integers\<close>

text \<open>Go's \<open>int\<close>, \<open>int64\<close> and \<open>time.Duration\<close> wrap around modulo \<open>2 ^ 64\<close>.\<close>

definition max_int64 :: int where
  "max_int64 = 9223372036854775807"

definition min_int64 :: int where
  "min_int64 = - 9223372036854775808"

definition wrap64 :: "int \<Rightarrow> int" where
  "wrap64 x = (x + 9223372036854775808) mod 18446744073709551616 - 9223372036854775808"

definition int64 :: "int \<Rightarrow> bool" where
  "int64 x \<longleftrightarrow> min_int64 \<le> x \<and> x \<le> max_int64"

lemma wrap64_range: "int64 (wrap64 x)"
  using pos_mod_bound [of 18446744073709551616 "x + 9223372036854775808"]
    pos_mod_sign [of 18446744073709551616 "x + 9223372036854775808"]
  by (simp add: int64_def wrap64_def max_int64_def min_int64_def)

lemma wrap64_id [simp]: "int64 x \<Longrightarrow> wrap64 x = x"
  by (simp add: int64_def wrap64_def max_int64_def min_int64_def)

subsection \<open>Characters\<close>

definition is_space :: "char \<Rightarrow> bool" where
  "is_space c \<longleftrightarrow> c \<in> set [CHR 0x20, CHR 0x09, CHR 0x0A, CHR 0x0B, CHR 0x0C, CHR 0x0D]"

definition lower_char :: "char \<Rightarrow> char" where
  "lower_char c =
     (let n = (of_char c :: nat) in if 65 \<le> n \<and> n \<le> 90 then char_of (n + 32) else c)"

definition is_digit :: "char \<Rightarrow> bool" where
  "is_digit c \<longleftrightarrow> (let n = (of_char c :: nat) in 48 \<le> n \<and> n \<le> 57)"

definition digit_val :: "char \<Rightarrow> nat" where
  "digit_val c = of_char c - 48"

lemma lower_char_idem [simp]: "lower_char (lower_char c) = lower_char c"
proof (cases "65 \<le> (of_char c :: nat) \<and> (of_char c :: nat) \<le> 90")
  case True
  then have "(of_char (lower_char c) :: nat) = of_char c + 32"
    by (simp add: lower_char_def Let_def of_char_of)
  with True show ?thesis by (simp add: lower_char_def [of "lower_char c"])
qed (auto simp: lower_char_def)

subsection \<open>Package strings\<close>

definition ToLower :: "string \<Rightarrow> string" where
  "ToLower s = map lower_char s"

definition EqualFold :: "string \<Rightarrow> string \<Rightarrow> bool" where
  "EqualFold s t \<longleftrightarrow> ToLower s = ToLower t"

definition TrimLeftFunc :: "(char \<Rightarrow> bool) \<Rightarrow> string \<Rightarrow> string" where
  "TrimLeftFunc p s = dropWhile p s"

definition TrimRightFunc :: "(char \<Rightarrow> bool) \<Rightarrow> string \<Rightarrow> string" where
  "TrimRightFunc p s = rev (dropWhile p (rev s))"

definition TrimSpace :: "string \<Rightarrow> string" where
  "TrimSpace s = TrimRightFunc is_space (TrimLeftFunc is_space s)"

definition HasPrefix :: "string \<Rightarrow> string \<Rightarrow> bool" where
  "HasPrefix s p \<longleftrightarrow> prefix p s"

definition TrimPrefix :: "string \<Rightarrow> string \<Rightarrow> string" where
  "TrimPrefix s p = (if prefix p s then drop (length p) s else s)"

definition HasSuffix :: "string \<Rightarrow> string \<Rightarrow> bool" where
  "HasSuffix s p \<longleftrightarrow> suffix p s"

definition TrimSuffix :: "string \<Rightarrow> string \<Rightarrow> string" where
  "TrimSuffix s p = (if suffix p s then take (length s - length p) s else s)"

definition Contains :: "string \<Rightarrow> string \<Rightarrow> bool" where
  "Contains s p \<longleftrightarrow> sublist p s"

definition ContainsFunc :: "string \<Rightarrow> (char \<Rightarrow> bool) \<Rightarrow> bool" where
  "ContainsFunc s p \<longleftrightarrow> list_ex p s"

definition ContainsAny :: "string \<Rightarrow> string \<Rightarrow> bool" where
  "ContainsAny s cs \<longleftrightarrow> list_ex (\<lambda>c. c \<in> set cs) s"

text \<open>\<open>strings.Cut\<close> around a one-byte separator: before, after, found.\<close>

fun Cut :: "string \<Rightarrow> char \<Rightarrow> string \<times> string \<times> bool" where
  "Cut [] sep = ([], [], False)"
| "Cut (c # s) sep =
     (if c = sep then ([], s, True)
      else (case Cut s sep of (b, a, ok) \<Rightarrow> (c # b, a, ok)))"

lemma Fields_decreases:
  assumes "dropWhile is_space s \<noteq> []"
  shows "length (dropWhile (\<lambda>c. \<not> is_space c) (dropWhile is_space s)) < length s"
proof -
  obtain c t where ct: "dropWhile is_space s = c # t" "\<not> is_space c"
    using assms by (metis hd_dropWhile list.collapse)
  have "length (dropWhile (\<lambda>c. \<not> is_space c) (c # t)) \<le> length t"
    using ct(2) length_dropWhile_le [of "\<lambda>c. \<not> is_space c" t] by simp
  also have "length t < length (dropWhile is_space s)" using ct(1) by simp
  also have "\<dots> \<le> length s" by (rule length_dropWhile_le)
  finally show ?thesis using ct(1) by simp
qed

text \<open>\<open>strings.Fields\<close>: the maximal runs of non-space characters.\<close>

function Fields :: "string \<Rightarrow> string list" where
  "Fields s =
     (let t = dropWhile is_space s
      in if t = [] then []
         else takeWhile (\<lambda>c. \<not> is_space c) t # Fields (dropWhile (\<lambda>c. \<not> is_space c) t))"
  by pat_completeness auto
termination
  by (relation "measure length") (simp_all add: Fields_decreases del: dropWhile_eq_Nil_conv)

declare Fields.simps [simp del]

subsection \<open>Decimal numbers\<close>

fun show_nat :: "nat \<Rightarrow> string" where
  "show_nat n =
     (if n < 10 then [char_of (48 + n)] else show_nat (n div 10) @ [char_of (48 + n mod 10)])"

declare show_nat.simps [simp del]

definition Itoa :: "int \<Rightarrow> string" where
  "Itoa i = (if i < 0 then CHR ''-'' # show_nat (nat (- i)) else show_nat (nat i))"

definition digits_value :: "string \<Rightarrow> nat" where
  "digits_value s = foldl (\<lambda>a c. 10 * a + digit_val c) 0 s"

text \<open>
  \<open>strconv.Atoi\<close> and \<open>strconv.ParseInt(s, 10, 64)\<close>: an optional sign and at least one digit,
  with a value in the 64-bit range.
\<close>

definition Atoi :: "string \<Rightarrow> int option" where
  "Atoi s =
     (let neg = prefix ''-'' s;
          ds = (if prefix ''-'' s \<or> prefix ''+'' s then tl s else s);
          v = (if neg then - int (digits_value ds) else int (digits_value ds))
      in if ds \<noteq> [] \<and> list_all is_digit ds \<and> int64 v then Some v else None)"

subsection \<open>Facts about the string functions\<close>

lemma ToLower_idem [simp]: "ToLower (ToLower s) = ToLower s"
  by (simp add: ToLower_def)

lemma ToLower_Nil [simp]: "ToLower [] = []"
  by (simp add: ToLower_def)

lemma ToLower_eq_Nil [simp]: "ToLower s = [] \<longleftrightarrow> s = []"
  by (simp add: ToLower_def)

lemma EqualFold_sym: "EqualFold s t \<longleftrightarrow> EqualFold t s"
  by (auto simp: EqualFold_def)

lemma TrimRightFunc_subset: "set (TrimRightFunc p s) \<subseteq> set s"
  by (auto simp: TrimRightFunc_def dest: set_dropWhileD)

lemma TrimSpace_Nil [simp]: "TrimSpace [] = []"
  by (simp add: TrimSpace_def TrimRightFunc_def TrimLeftFunc_def)

lemma Ball_dropWhile: "(\<forall>c \<in> set (dropWhile P s). P c) \<longleftrightarrow> (\<forall>c \<in> set s. P c)"
  by (induction s) auto

lemma TrimSpace_eq_Nil: "TrimSpace s = [] \<longleftrightarrow> list_all is_space s"
  by (simp add: TrimSpace_def TrimRightFunc_def TrimLeftFunc_def list_all_iff
      Ball_dropWhile del: dropWhile_eq_Nil_conv)
    (simp add: Ball_dropWhile)

lemma TrimRightFunc_last:
  "TrimRightFunc p s \<noteq> [] \<Longrightarrow> \<not> p (last (TrimRightFunc p s))"
  unfolding TrimRightFunc_def
  by (metis hd_dropWhile last_rev rev_is_Nil_conv)

lemma TrimSpace_no_space: "\<not> list_ex is_space s \<Longrightarrow> TrimSpace s = s"
proof -
  assume h: "\<not> list_ex is_space s"
  have "dropWhile is_space t = t" if "set t \<subseteq> set s" for t
    using that h by (cases t) (auto simp: list_ex_iff)
  then show ?thesis
    by (simp add: TrimSpace_def TrimRightFunc_def TrimLeftFunc_def)
qed

lemma Cut_append: "sep \<notin> set b \<Longrightarrow> Cut (b @ sep # a) sep = (b, a, True)"
  by (induction b) auto

lemma Cut_foundD: "Cut s sep = (b, a, True) \<Longrightarrow> s = b @ sep # a \<and> sep \<notin> set b"
  by (induction s arbitrary: b) (auto split: prod.splits if_splits)

lemma Cut_found: "Cut s sep = (b, a, True) \<longleftrightarrow> s = b @ sep # a \<and> sep \<notin> set b"
  by (auto simp: Cut_append dest: Cut_foundD)

lemma Cut_not_found: "Cut s sep = (b, a, False) \<Longrightarrow> b = s \<and> a = [] \<and> sep \<notin> set s"
  by (induction s arbitrary: b) (auto split: prod.splits if_splits)

lemma Contains_append: "Contains s p \<Longrightarrow> Contains (u @ s @ v) p"
  by (auto simp: Contains_def sublist_def) (metis append.assoc)

lemma Contains_refl [simp]: "Contains s s"
  by (simp add: Contains_def)

subsection \<open>Facts about decimal numbers\<close>

lemma show_nat_digits: "list_all is_digit (show_nat n)"
proof (induction n rule: show_nat.induct)
  case (1 n)
  have d: "is_digit (char_of (48 + k :: nat))" if "k < 10" for k
    using that by (simp add: is_digit_def of_char_of)
  from 1 d show ?case
    by (subst show_nat.simps) (auto simp: d)
qed

lemma show_nat_not_Nil [simp]: "show_nat n \<noteq> []"
  by (subst show_nat.simps) simp

lemma digits_value_snoc: "digits_value (s @ [c]) = 10 * digits_value s + digit_val c"
  by (simp add: digits_value_def)

lemma digits_value_show_nat: "digits_value (show_nat n) = n"
proof (induction n rule: show_nat.induct)
  case (1 n)
  have d: "digit_val (char_of (48 + k :: nat)) = k" if "k < 10" for k
    using that by (simp add: digit_val_def of_char_of)
  show ?case
  proof (cases "n < 10")
    case True
    then have "digits_value [char_of (48 + n)] = n"
      by (simp add: digits_value_def d)
    with True show ?thesis by (subst show_nat.simps) simp
  next
    case False
    with 1 have "digits_value (show_nat (n div 10) @ [char_of (48 + n mod 10)]) = n"
      by (simp add: digits_value_snoc d)
    with False show ?thesis by (subst show_nat.simps) simp
  qed
qed

lemma show_nat_hd: "hd (show_nat n) \<noteq> CHR ''-'' \<and> hd (show_nat n) \<noteq> CHR ''+''"
proof -
  have "is_digit (hd (show_nat n))"
    using show_nat_digits [of n] by (metis hd_in_set list_all_iff show_nat_not_Nil)
  then show ?thesis by (auto simp: is_digit_def)
qed

lemma prefix_singleton: "prefix [c] s \<longleftrightarrow> s \<noteq> [] \<and> hd s = c"
  by (cases s) auto

lemma Atoi_Itoa: "int64 i \<Longrightarrow> Atoi (Itoa i) = Some i"
  using show_nat_digits [of "nat i"] show_nat_digits [of "nat (- i)"]
    show_nat_hd [of "nat i"]
  by (auto simp: Atoi_def Itoa_def Let_def prefix_singleton digits_value_show_nat)

lemma show_nat_inj: "show_nat m = show_nat n \<Longrightarrow> m = n"
  by (metis digits_value_show_nat)

lemma show_nat_no_minus: "show_nat n \<noteq> CHR ''-'' # s"
  using show_nat_hd [of n] by auto

lemma Itoa_inj: "Itoa i = Itoa j \<Longrightarrow> i = j"
  using show_nat_no_minus show_nat_no_minus [THEN not_sym]
  by (auto simp: Itoa_def split: if_splits dest!: show_nat_inj)

end
