(* ===== verification/Policy.thy ===== *)
theory Policy
  imports Go_Base
begin

text \<open>
  Component \<open>internal/policy\<close>: the ordered allow/deny rule engine.

  \<open>policy_config\<close>, \<open>rule\<close>, \<open>request\<close>, \<open>decision\<close> and \<open>engine\<close> are the structs of
  \<open>policy.go\<close>; \<open>NewEngine\<close> is the validating constructor (\<open>Inl\<close> its error), \<open>Evaluate\<close> the
  evaluation on a possibly nil engine, \<open>evaluate_rules\<close> its loop over the rules.
  The lemmas show that every engine the constructor returns is well formed, that evaluation
  is the first matching rule or the default, and when an operation is let through.
\<close>

definition ActionAllow :: string where "ActionAllow = ''allow''"
definition ActionDeny :: string where "ActionDeny = ''deny''"
definition ScopeToolsOnly :: string where "ScopeToolsOnly = ''tools_only''"
definition ScopeAllOperations :: string where "ScopeAllOperations = ''all_operations''"
definition defaultDenyReason :: string where "defaultDenyReason = ''blocked by policy''"

lemmas policy_consts [simp] =
  ActionAllow_def ActionDeny_def ScopeToolsOnly_def ScopeAllOperations_def defaultDenyReason_def

record rule =
  rule_ID :: string
  rule_Action :: string
  rule_Subject :: string
  rule_ClientID :: string
  rule_Issuer :: string
  rule_Role :: string
  rule_Scope :: string
  rule_ServerID :: string
  rule_Method :: string
  rule_Name :: string
  rule_ToolName :: string
  rule_Reason :: string

record policy_config =
  cfg_Enabled :: bool
  cfg_DefaultAction :: string
  cfg_Scope :: string
  cfg_Rules :: "rule list"

record request =
  req_Subject :: string
  req_ClientID :: string
  req_Issuer :: string
  req_Roles :: "string list"
  req_Scopes :: "string list"
  req_ServerID :: string
  req_Method :: string
  req_Name :: string
  req_ToolName :: string

record decision =
  Applied :: bool
  Allowed :: bool
  Action :: string
  Reason :: string
  RuleIndex :: int
  RuleID :: string

record engine =
  eng_enabled :: bool
  eng_defaultAction :: string
  eng_scope :: string
  eng_rules :: "rule list"

subsection \<open>The constructor\<close>

definition normalizeAction :: "string \<Rightarrow> string" where
  "normalizeAction action = ToLower (TrimSpace action)"

text \<open>The loop over the copied rules; \<open>i\<close> is the loop index that the error names.\<close>

fun normalize_rules :: "nat \<Rightarrow> rule list \<Rightarrow> rule list res" where
  "normalize_rules i [] = Inr []"
| "normalize_rules i (r # rs) =
     (let r1 = r\<lparr>rule_ID := TrimSpace (rule_ID r), rule_Action := normalizeAction (rule_Action r)\<rparr>
      in if rule_Action r1 \<noteq> ActionAllow \<and> rule_Action r1 \<noteq> ActionDeny
         then Inl (''policy: rules['' @ show_nat i @ ''].action must be allow or deny'')
         else (case normalize_rules (Suc i) rs of Inl e \<Rightarrow> Inl e | Inr rs' \<Rightarrow> Inr (r1 # rs')))"

definition NewEngine :: "policy_config \<Rightarrow> engine res" where
  "NewEngine config =
     (let d0 = normalizeAction (cfg_DefaultAction config);
          defaultAction = (if d0 = [] then ActionAllow else d0)
      in if defaultAction \<noteq> ActionAllow \<and> defaultAction \<noteq> ActionDeny
         then Inl ''policy: default_action must be allow or deny''
         else
           (let s0 = ToLower (TrimSpace (cfg_Scope config));
                scope = (if s0 = [] then ScopeToolsOnly else s0)
            in if scope \<noteq> ScopeToolsOnly \<and> scope \<noteq> ScopeAllOperations
               then Inl ''policy: scope must be tools_only or all_operations''
               else (case normalize_rules 0 (cfg_Rules config) of
                       Inl e \<Rightarrow> Inl e
                     | Inr rules \<Rightarrow>
                         Inr \<lparr>eng_enabled = cfg_Enabled config, eng_defaultAction = defaultAction,
                              eng_scope = scope, eng_rules = rules\<rparr>)))"

subsection \<open>Evaluation\<close>

definition matches :: "string \<Rightarrow> string \<Rightarrow> bool" where
  "matches pattern v =
     (let p = TrimSpace pattern in if p = [] \<or> p = ''*'' then True else p = v)"

definition matchesAny :: "string \<Rightarrow> string list \<Rightarrow> bool" where
  "matchesAny pattern vs =
     (let p = TrimSpace pattern in if p = [] \<or> p = ''*'' then True else list_ex (\<lambda>v. p = v) vs)"

definition rule_matches :: "rule \<Rightarrow> request \<Rightarrow> bool" where
  "rule_matches r q \<longleftrightarrow>
     matches (rule_Subject r) (req_Subject q) \<and>
     matches (rule_ClientID r) (req_ClientID q) \<and>
     matches (rule_Issuer r) (req_Issuer q) \<and>
     matchesAny (rule_Role r) (req_Roles q) \<and>
     matchesAny (rule_Scope r) (req_Scopes q) \<and>
     matches (rule_ServerID r) (req_ServerID q) \<and>
     matches (rule_Method r) (req_Method q) \<and>
     matches (rule_Name r) (req_Name q) \<and>
     matches (rule_ToolName r) (req_ToolName q)"

definition rule_decision :: "nat \<Rightarrow> rule \<Rightarrow> decision" where
  "rule_decision i r =
     (let r0 = TrimSpace (rule_Reason r);
          reason = (if r0 = [] \<and> rule_Action r = ActionDeny then defaultDenyReason else r0)
      in \<lparr>Applied = True, Allowed = (rule_Action r = ActionAllow), Action = rule_Action r,
          Reason = reason, RuleIndex = int i, RuleID = rule_ID r\<rparr>)"

fun evaluate_rules :: "nat \<Rightarrow> rule list \<Rightarrow> request \<Rightarrow> decision option" where
  "evaluate_rules i [] q = None"
| "evaluate_rules i (r # rs) q =
     (if \<not> rule_matches r q then evaluate_rules (Suc i) rs q else Some (rule_decision i r))"

definition not_applied :: decision where
  "not_applied = \<lparr>Applied = False, Allowed = True, Action = ActionAllow, Reason = [],
                  RuleIndex = -1, RuleID = []\<rparr>"

definition default_decision :: "engine \<Rightarrow> decision" where
  "default_decision e =
     \<lparr>Applied = True, Allowed = (eng_defaultAction e = ActionAllow), Action = eng_defaultAction e,
      Reason = (if eng_defaultAction e = ActionDeny then ''blocked by default policy'' else []),
      RuleIndex = -1, RuleID = []\<rparr>"

text \<open>The method the engine looks at: a request that names only a tool is a \<open>tools/call\<close>.\<close>

definition effective_request :: "request \<Rightarrow> request" where
  "effective_request q =
     (if req_Method q = [] \<and> req_ToolName q \<noteq> [] then q\<lparr>req_Method := ''tools/call''\<rparr> else q)"

definition Evaluate :: "engine option \<Rightarrow> request \<Rightarrow> decision" where
  "Evaluate eo q =
     (case eo of
        None \<Rightarrow> not_applied
      | Some e \<Rightarrow>
          if \<not> eng_enabled e then not_applied
          else
            (let q1 = effective_request q
             in if eng_scope e = ScopeToolsOnly \<and> req_Method q1 \<noteq> ''tools/call'' then not_applied
                else (case evaluate_rules 0 (eng_rules e) q1 of
                        Some d \<Rightarrow> d
                      | None \<Rightarrow> default_decision e)))"

subsection \<open>Well-formed engines\<close>

definition valid_action :: "string \<Rightarrow> bool" where
  "valid_action a \<longleftrightarrow> a = ActionAllow \<or> a = ActionDeny"

definition engine_wf :: "engine \<Rightarrow> bool" where
  "engine_wf e \<longleftrightarrow>
     valid_action (eng_defaultAction e) \<and>
     (eng_scope e = ScopeToolsOnly \<or> eng_scope e = ScopeAllOperations) \<and>
     list_all (\<lambda>r. valid_action (rule_Action r)) (eng_rules e)"

definition normalized_rule :: "rule \<Rightarrow> rule" where
  "normalized_rule r =
     r\<lparr>rule_ID := TrimSpace (rule_ID r), rule_Action := normalizeAction (rule_Action r)\<rparr>"

text \<open>What the constructor accepts, stated on the configuration alone.\<close>

definition config_valid :: "policy_config \<Rightarrow> bool" where
  "config_valid c \<longleftrightarrow>
     (normalizeAction (cfg_DefaultAction c) = [] \<or>
      valid_action (normalizeAction (cfg_DefaultAction c))) \<and>
     ToLower (TrimSpace (cfg_Scope c)) \<in> {[], ScopeToolsOnly, ScopeAllOperations} \<and>
     list_all (\<lambda>r. valid_action (normalizeAction (rule_Action r))) (cfg_Rules c)"

lemma normalize_rules_Inr:
  "list_all (\<lambda>r. valid_action (normalizeAction (rule_Action r))) rs \<Longrightarrow>
     normalize_rules i rs = Inr (map normalized_rule rs)"
  by (induction rs arbitrary: i) (simp_all add: Let_def valid_action_def normalized_rule_def)

lemma normalize_rules_Inl:
  "\<not> list_all (\<lambda>r. valid_action (normalizeAction (rule_Action r))) rs \<Longrightarrow>
     \<exists>e. normalize_rules i rs = Inl e"
proof (induction rs arbitrary: i)
  case Nil
  then show ?case by simp
next
  case (Cons r rs)
  show ?case
  proof (cases "valid_action (normalizeAction (rule_Action r))")
    case True
    with Cons.prems Cons.IH [of "Suc i"] show ?thesis
      by (auto simp: Let_def valid_action_def)
  next
    case False
    then show ?thesis by (simp add: Let_def valid_action_def)
  qed
qed

lemma NewEngine_valid:
  assumes "config_valid c"
  obtains e where "NewEngine c = Inr e" "engine_wf e" "eng_enabled e = cfg_Enabled c"
    "eng_rules e = map normalized_rule (cfg_Rules c)"
proof -
  have rs: "normalize_rules 0 (cfg_Rules c) = Inr (map normalized_rule (cfg_Rules c))"
    using assms by (intro normalize_rules_Inr) (simp add: config_valid_def)
  have act: "list_all (\<lambda>r. valid_action (rule_Action r)) (map normalized_rule (cfg_Rules c))"
    using assms by (simp add: config_valid_def list_all_iff normalized_rule_def)
  define d where "d = normalizeAction (cfg_DefaultAction c)"
  define s where "s = ToLower (TrimSpace (cfg_Scope c))"
  have d: "d = [] \<or> d = ActionAllow \<or> d = ActionDeny" and s: "s \<in> {[], ScopeToolsOnly, ScopeAllOperations}"
    using assms by (simp_all add: config_valid_def valid_action_def d_def s_def)
  define e where "e = \<lparr>eng_enabled = cfg_Enabled c,
    eng_defaultAction = (if d = [] then ActionAllow else d),
    eng_scope = (if s = [] then ScopeToolsOnly else s), eng_rules = map normalized_rule (cfg_Rules c)\<rparr>"
  have "NewEngine c = Inr e"
    using d s by (auto simp: NewEngine_def Let_def rs e_def d_def [symmetric] s_def [symmetric])
  moreover have "engine_wf e"
    using d s act by (auto simp: engine_wf_def e_def valid_action_def)
  ultimately show ?thesis by (rule that) (simp_all add: e_def)
qed

lemma NewEngine_invalid: "\<not> config_valid c \<Longrightarrow> \<exists>msg. NewEngine c = Inl msg"
  using normalize_rules_Inl [of "cfg_Rules c" 0]
  by (auto simp: NewEngine_def config_valid_def valid_action_def Let_def)

lemma NewEngine_engine_wf: "NewEngine c = Inr e \<Longrightarrow> engine_wf e"
  by (metis Inl_Inr_False NewEngine_invalid NewEngine_valid sum.inject(2))

text \<open>
  the constructor accepts exactly the valid configurations and establishes the engine's
  invariant. \<open>NewEngine\<close> fails if and only if the default action, the scope or some rule's action
  is not one of the allowed words after trimming and lower-casing; otherwise the engine it returns
  is well formed (default action and every rule action exactly \<open>allow\<close> or \<open>deny\<close>, a known scope)
  and holds the configured rules, in order, changed only by that normalization.
\<close>

lemma NewEngine_spec:
  "case NewEngine c of
     Inl msg \<Rightarrow> \<not> config_valid c
   | Inr e \<Rightarrow> config_valid c \<and> engine_wf e \<and> eng_enabled e = cfg_Enabled c \<and>
              eng_rules e = map normalized_rule (cfg_Rules c)"
proof (cases "config_valid c")
  case True
  then obtain e where "NewEngine c = Inr e" "engine_wf e" "eng_enabled e = cfg_Enabled c"
    "eng_rules e = map normalized_rule (cfg_Rules c)"
    by (rule NewEngine_valid)
  with True show ?thesis by simp
next
  case False
  then obtain msg where "NewEngine c = Inl msg" using NewEngine_invalid by blast
  with False show ?thesis by simp
qed

definition sample_rule :: rule where
  "sample_rule = \<lparr>rule_ID = '' r1 '', rule_Action = '' DENY '', rule_Subject = [],
     rule_ClientID = ''*'', rule_Issuer = [], rule_Role = [], rule_Scope = [], rule_ServerID = [],
     rule_Method = [], rule_Name = [], rule_ToolName = ''delete_file'', rule_Reason = []\<rparr>"

definition sample_config :: policy_config where
  "sample_config = \<lparr>cfg_Enabled = True, cfg_DefaultAction = [], cfg_Scope = [],
     cfg_Rules = [sample_rule]\<rparr>"

definition sample_engine :: engine where
  "sample_engine = \<lparr>eng_enabled = True, eng_defaultAction = ''allow'', eng_scope = ''tools_only'',
     eng_rules = [sample_rule\<lparr>rule_ID := ''r1'', rule_Action := ''deny''\<rparr>]\<rparr>"

lemma NewEngine_sample: "NewEngine sample_config = Inr sample_engine"
  by code_simp

subsection \<open>Evaluation against its specification\<close>

text \<open>The specification: the first rule that matches, if there is one.\<close>

definition first_match :: "rule list \<Rightarrow> request \<Rightarrow> (nat \<times> rule) option" where
  "first_match rs q = find (\<lambda>(i, r). rule_matches r q) (enumerate 0 rs)"

lemma evaluate_rules_find:
  "evaluate_rules i rs q =
     map_option (\<lambda>(j, r). rule_decision j r) (find (\<lambda>(j, r). rule_matches r q) (enumerate i rs))"
  by (induction rs arbitrary: i) auto

definition in_scope :: "engine \<Rightarrow> request \<Rightarrow> bool" where
  "in_scope e q \<longleftrightarrow>
     eng_enabled e \<and>
     (eng_scope e \<noteq> ScopeToolsOnly \<or> req_Method (effective_request q) = ''tools/call'')"

lemma Evaluate_out_of_scope: "\<not> in_scope e q \<Longrightarrow> Evaluate (Some e) q = not_applied"
  by (auto simp: Evaluate_def in_scope_def Let_def)

lemma Evaluate_in_scope:
  "in_scope e q \<Longrightarrow>
     Evaluate (Some e) q =
       (case first_match (eng_rules e) (effective_request q) of
          Some (i, r) \<Rightarrow> rule_decision i r
        | None \<Rightarrow> default_decision e)"
  by (auto simp: Evaluate_def in_scope_def first_match_def Let_def evaluate_rules_find
      split: option.splits)

lemma first_match_split:
  assumes "\<not> list_ex (\<lambda>r. rule_matches r q) pre" "rule_matches r q"
  shows "first_match (pre @ r # post) q = Some (length pre, r)"
proof -
  have "find (\<lambda>(j, r). rule_matches r q) (enumerate i (pre @ r # post)) = Some (i + length pre, r)"
    for i
    using assms by (induction pre arbitrary: i) auto
  from this [of 0] show ?thesis by (simp add: first_match_def)
qed

lemma first_match_None_iff: "first_match rs q = None \<longleftrightarrow> \<not> list_ex (\<lambda>r. rule_matches r q) rs"
proof -
  have "find (\<lambda>(j, r). rule_matches r q) (enumerate i rs) = None \<longleftrightarrow>
          \<not> list_ex (\<lambda>r. rule_matches r q) rs" for i
    by (induction rs arbitrary: i) auto
  then show ?thesis by (simp add: first_match_def)
qed


definition sample_request :: request where
  "sample_request = \<lparr>req_Subject = ''s'', req_ClientID = ''c'', req_Issuer = ''static'',
     req_Roles = [], req_Scopes = [], req_ServerID = ''fs'', req_Method = ''tools/call'',
     req_Name = ''delete_file'', req_ToolName = ''delete_file''\<rparr>"

lemma sample_match:
  "in_scope sample_engine sample_request"
  "rule_matches (sample_rule\<lparr>rule_ID := ''r1'', rule_Action := ''deny''\<rparr>)
     (effective_request sample_request)"
  by code_simp+


text \<open>
  exactly when an operation is let through. For an engine built by \<open>NewEngine\<close>, the decision
  allows the request if and only if the engine is disabled, the request is outside its scope, the
  first matching rule is an allow rule, or no rule matches and the default action is \<open>allow\<close>. In
  every other case the decision carries the action \<open>deny\<close> and a non-empty reason.
\<close>

lemma Evaluate_allowed_iff:
  assumes "NewEngine c = Inr e"
  shows "(Allowed (Evaluate (Some e) q) \<longleftrightarrow>
            \<not> in_scope e q \<or>
            (case first_match (eng_rules e) (effective_request q) of
               Some (i, r) \<Rightarrow> rule_Action r = ActionAllow
             | None \<Rightarrow> eng_defaultAction e = ActionAllow)) \<and>
         (\<not> Allowed (Evaluate (Some e) q) \<longrightarrow>
            Action (Evaluate (Some e) q) = ActionDeny \<and> Reason (Evaluate (Some e) q) \<noteq> [])"
proof -
  have wf: "engine_wf e" using assms by (rule NewEngine_engine_wf)
  have fm: "valid_action (rule_Action r)"
    if "first_match (eng_rules e) q' = Some (i, r)" for i r q'
  proof -
    have "(i, r) \<in> set (enumerate 0 (eng_rules e))"
      using that by (auto simp: first_match_def find_Some_iff in_set_conv_nth)
    then have "r \<in> set (eng_rules e)" by (auto simp: in_set_enumerate_eq)
    with wf show ?thesis by (auto simp: engine_wf_def list_all_iff)
  qed
  show ?thesis
  proof (cases "in_scope e q")
    case False
    then show ?thesis by (simp add: Evaluate_out_of_scope not_applied_def)
  next
    case True
    with fm wf show ?thesis
      by (auto simp: Evaluate_in_scope rule_decision_def default_decision_def Let_def
          engine_wf_def valid_action_def split: option.splits)
  qed
qed

end
