(* ===== verification/Retry.thy ===== *)
theory Retry
  imports Go_Base Complex_Main
begin

text \<open>
  Component \<open>internal/retry\<close>: retry classification and bounded exponential backoff, shared by the
  HTTP proxy and the OTLP exporter.

  \<open>retry_policy\<close> is the struct \<open>Policy\<close>; \<open>CanRetry\<close>, \<open>IsRetryable\<close>, \<open>Delay\<close>, \<open>ShouldRetry\<close>,
  \<open>StatusCodeClassifier\<close>, \<open>parseRetryAfter\<close> and \<open>capDelay\<close> are its functions. Durations are
  64-bit nanosecond counts. A \<open>float64\<close> is a real number, so its rounding is not modelled; its
  conversion to a 64-bit integer is, with the value amd64 gives outside the range.
  \<open>http.ParseTime\<close> is the argument \<open>ParseTime\<close> of \<open>parseRetryAfter\<close>.
\<close>

type_synonym classifier = "int \<Rightarrow> err option \<Rightarrow> bool"

record retry_policy =
  MaxRetries :: int
  InitialInterval :: duration
  MaxInterval :: duration
  Multiplier :: real
  ShouldRetryFn :: "classifier option"

definition ShouldRetry :: classifier where
  "ShouldRetry status e =
     (if e \<noteq> None then True
      else if status = 408 \<or> status = 429 then True
      else 500 \<le> status \<and> status \<noteq> 501)"

definition StatusCodeClassifier :: "int list \<Rightarrow> classifier" where
  "StatusCodeClassifier statuses = (\<lambda>status e. if e \<noteq> None then True else status \<in> set statuses)"

definition IsRetryable :: "retry_policy \<Rightarrow> int \<Rightarrow> err option \<Rightarrow> bool" where
  "IsRetryable p status e =
     (case ShouldRetryFn p of None \<Rightarrow> ShouldRetry status e | Some c \<Rightarrow> c status e)"

definition CanRetry :: "retry_policy \<Rightarrow> int \<Rightarrow> int \<Rightarrow> err option \<Rightarrow> bool" where
  "CanRetry p attempt status e =
     (if MaxRetries p \<le> 0 \<or> MaxRetries p \<le> attempt then False else IsRetryable p status e)"

definition capDelay :: "duration \<Rightarrow> duration \<Rightarrow> duration" where
  "capDelay delay maxDelay = (if 0 < maxDelay \<and> maxDelay < delay then maxDelay else delay)"

text \<open>
  \<open>time.Duration(f)\<close> of a non-negative \<open>float64\<close>: truncation, and the 64-bit minimum when the
  value does not fit.
\<close>

definition float_to_duration :: "real \<Rightarrow> duration" where
  "float_to_duration x = (if \<lfloor>x\<rfloor> \<le> max_int64 then \<lfloor>x\<rfloor> else min_int64)"

text \<open>\<open>float64(math.MaxInt64)\<close> is \<open>2 ^ 63\<close>: \<open>MaxInt64\<close> itself is not a \<open>float64\<close>.\<close>

definition float_max_int64 :: real where
  "float_max_int64 = 9223372036854775808"

definition backoff_interval :: "retry_policy \<Rightarrow> duration" where
  "backoff_interval p =
     (if 0 < InitialInterval p \<and> (MaxInterval p \<le> 0 \<or> MaxInterval p < InitialInterval p)
      then InitialInterval p else MaxInterval p)"

definition backoff_multiplier :: "retry_policy \<Rightarrow> real" where
  "backoff_multiplier p = (if Multiplier p \<le> 1 then 2 else Multiplier p)"

definition raw_delay :: "retry_policy \<Rightarrow> int \<Rightarrow> real" where
  "raw_delay p attempt =
     (let a = (if attempt < 0 then 0 else attempt)
      in if 0 < a then of_int (InitialInterval p) * backoff_multiplier p ^ nat a
         else of_int (InitialInterval p))"

definition Delay :: "retry_policy \<Rightarrow> int \<Rightarrow> duration \<Rightarrow> duration" where
  "Delay p attempt retryAfter =
     (let maxInterval = backoff_interval p
      in if 0 < retryAfter then capDelay retryAfter maxInterval
         else if InitialInterval p \<le> 0 then 0
         else
           (let delay = raw_delay p attempt
            in if float_max_int64 < delay then capDelay max_int64 maxInterval
               else capDelay (float_to_duration delay) maxInterval))"

text \<open>\<open>time.Time.Sub\<close> saturates at the 64-bit bounds.\<close>

definition TimeSub :: "go_time \<Rightarrow> go_time \<Rightarrow> duration" where
  "TimeSub t u = max min_int64 (min max_int64 (t - u))"

definition parseRetryAfter :: "(string \<Rightarrow> go_time option) \<Rightarrow> string \<Rightarrow> go_time \<Rightarrow> duration" where
  "parseRetryAfter ParseTime s now =
     (let v = TrimSpace s
      in if v = [] then 0
         else
           (case Atoi v of
              Some n \<Rightarrow>
                if 0 \<le> n then wrap64 (n * 1000000000)
                else (case ParseTime v of
                        Some t \<Rightarrow> if 0 < TimeSub t now then TimeSub t now else 0
                      | None \<Rightarrow> 0)
            | None \<Rightarrow>
                (case ParseTime v of
                   Some t \<Rightarrow> if 0 < TimeSub t now then TimeSub t now else 0
                 | None \<Rightarrow> 0)))"

subsection \<open>Backoff bounds\<close>

definition policy_wf :: "retry_policy \<Rightarrow> bool" where
  "policy_wf p \<longleftrightarrow>
     0 < InitialInterval p \<and> int64 (InitialInterval p) \<and> int64 (MaxInterval p)"

lemma backoff_interval_ge:
  "policy_wf p \<Longrightarrow>
     InitialInterval p \<le> backoff_interval p \<and> MaxInterval p \<le> backoff_interval p \<and>
     backoff_interval p \<le> max_int64"
  by (auto simp: policy_wf_def backoff_interval_def int64_def)

lemma capDelay_eq_min: "0 < m \<Longrightarrow> capDelay d m = min d m"
  by (auto simp: capDelay_def)

lemma backoff_multiplier_gt1: "1 < backoff_multiplier p"
  by (simp add: backoff_multiplier_def)

lemma raw_delay_eq:
  "raw_delay p attempt = of_int (InitialInterval p) * backoff_multiplier p ^ nat attempt"
  by (auto simp: raw_delay_def Let_def)

lemma raw_delay_ge:
  assumes "policy_wf p"
  shows "of_int (InitialInterval p) \<le> raw_delay p attempt"
proof -
  have "1 \<le> backoff_multiplier p ^ nat attempt"
    using backoff_multiplier_gt1 [of p] by (intro one_le_power) simp
  then show ?thesis
    using assms by (simp add: raw_delay_eq policy_wf_def mult_le_cancel_left1)
qed

lemma Delay_backoff:
  assumes "policy_wf p" "retryAfter \<le> 0" "raw_delay p attempt \<noteq> float_max_int64"
  shows "Delay p attempt retryAfter = min \<lfloor>raw_delay p attempt\<rfloor> (backoff_interval p)"
proof -
  have pos: "0 < InitialInterval p" "0 < backoff_interval p"
    using assms(1) backoff_interval_ge [of p] by (auto simp: policy_wf_def)
  have le: "backoff_interval p \<le> max_int64"
    using backoff_interval_ge [OF assms(1)] by simp
  show ?thesis
  proof (cases "float_max_int64 < raw_delay p attempt")
    case True
    then have "max_int64 \<le> \<lfloor>raw_delay p attempt\<rfloor>"
      by (simp add: float_max_int64_def max_int64_def le_floor_iff)
    with True assms(2) pos le show ?thesis
      by (simp add: Delay_def Let_def capDelay_eq_min)
  next
    case False
    with assms(3) have "raw_delay p attempt < float_max_int64" by simp
    then have "\<lfloor>raw_delay p attempt\<rfloor> < 9223372036854775808"
      by (simp add: float_max_int64_def floor_less_iff)
    then have "float_to_duration (raw_delay p attempt) = \<lfloor>raw_delay p attempt\<rfloor>"
      by (simp add: float_to_duration_def max_int64_def)
    with False assms(2) pos show ?thesis
      by (simp add: Delay_def Let_def capDelay_eq_min)
  qed
qed

text \<open>
  the wait before a retry is bounded on every path. With a positive initial interval, the
  delay lies between the initial interval and the effective maximum when the server gave no
  \<open>Retry-After\<close>, and it is the server's value cut at that maximum when it did; the only excluded
  case is a raw backoff of exactly \<open>2 ^ 63\<close> nanoseconds.
\<close>

lemma Delay_bounded:
  assumes "policy_wf p" "raw_delay p attempt \<noteq> float_max_int64"
  shows "(retryAfter \<le> 0 \<longrightarrow>
            InitialInterval p \<le> Delay p attempt retryAfter \<and>
            Delay p attempt retryAfter \<le> max (InitialInterval p) (MaxInterval p)) \<and>
         (0 < retryAfter \<longrightarrow>
            Delay p attempt retryAfter = min retryAfter (max (InitialInterval p) (MaxInterval p)))"
proof -
  have eff: "backoff_interval p = max (InitialInterval p) (MaxInterval p)"
    using assms(1) by (auto simp: policy_wf_def backoff_interval_def)
  have pos: "0 < backoff_interval p"
    using assms(1) by (auto simp: eff policy_wf_def)
  have "InitialInterval p \<le> \<lfloor>raw_delay p attempt\<rfloor>"
    using raw_delay_ge [OF assms(1), of attempt] by (simp add: le_floor_iff)
  then show ?thesis
    using assms pos
    by (auto simp: Delay_backoff eff) (auto simp: Delay_def Let_def capDelay_eq_min eff)
qed

definition proxy_retry :: retry_policy where
  "proxy_retry = \<lparr>MaxRetries = 3, InitialInterval = 200000000, MaxInterval = 2000000000,
     Multiplier = 2, ShouldRetryFn = None\<rparr>"

text \<open>
  backoff never shrinks. Without a \<open>Retry-After\<close> value, a later attempt waits at least as long
  as an earlier one (again excluding raw delays of exactly \<open>2 ^ 63\<close> nanoseconds).
\<close>

lemma Delay_mono:
  assumes "policy_wf p" "0 \<le> a" "a \<le> b"
    and "raw_delay p a \<noteq> float_max_int64" "raw_delay p b \<noteq> float_max_int64"
  shows "Delay p a 0 \<le> Delay p b 0"
proof -
  have "backoff_multiplier p ^ nat a \<le> backoff_multiplier p ^ nat b"
    using backoff_multiplier_gt1 [of p] assms(3) by (intro power_increasing) auto
  then have "raw_delay p a \<le> raw_delay p b"
    using assms(1) by (simp add: raw_delay_eq policy_wf_def)
  then have "\<lfloor>raw_delay p a\<rfloor> \<le> \<lfloor>raw_delay p b\<rfloor>" by (rule floor_mono)
  then show ?thesis using assms by (simp add: Delay_backoff)
qed

text \<open>
  the excluded case is a real overflow. A raw backoff of exactly \<open>2 ^ 63\<close> nanoseconds passes
  the guard \<open>delay > float64(math.MaxInt64)\<close> (which compares with \<open>2 ^ 63\<close>) and is then converted to a
  64-bit integer it does not fit: with an initial interval of one nanosecond and multiplier 2,
  attempt 63 yields a negative delay although the maximum interval is one second.
\<close>

lemma Delay_overflow:
  "Delay \<lparr>MaxRetries = 100, InitialInterval = 1, MaxInterval = 1000000000, Multiplier = 2,
           ShouldRetryFn = None\<rparr> 63 0 = min_int64"
proof -
  have "(2::real) ^ nat 63 = 9223372036854775808" by simp
  then show ?thesis
    by (simp add: Delay_def raw_delay_def backoff_multiplier_def float_max_int64_def
        float_to_duration_def capDelay_def backoff_interval_def max_int64_def min_int64_def)
qed

subsection \<open>Retry-After\<close>

lemma TrimSpace_digits: "list_all is_digit s \<Longrightarrow> TrimSpace s = s"
proof (rule TrimSpace_no_space)
  assume "list_all is_digit s"
  moreover have "\<not> (is_digit c \<and> is_space c)" for c
    by (auto simp: is_digit_def is_space_def)
  ultimately show "\<not> list_ex is_space s" by (auto simp: list_all_iff list_ex_iff)
qed

lemma parseRetryAfter_seconds:
  assumes "int64 (int n)"
  shows "parseRetryAfter pt (show_nat n) now = wrap64 (int n * 1000000000)"
proof -
  have "Atoi (show_nat n) = Some (int n)"
    using Atoi_Itoa [OF assms] by (simp add: Itoa_def)
  then show ?thesis
    by (simp add: parseRetryAfter_def TrimSpace_digits show_nat_digits)
qed

text \<open>
  \<open>Retry-After\<close> in seconds is exact only up to 9223372036 seconds. A header that names a
  (64-bit) number of seconds is turned into that many nanoseconds if and only if the product fits
  64 bits; beyond that it wraps around, so a larger request may come out negative or short.
\<close>

lemma parseRetryAfter_exact_iff:
  assumes "int64 (int n)"
  shows "parseRetryAfter pt (show_nat n) now = int n * 1000000000 \<longleftrightarrow> n \<le> 9223372036"
proof -
  have "wrap64 (int n * 1000000000) = int n * 1000000000 \<longleftrightarrow> int64 (int n * 1000000000)"
    using wrap64_range [of "int n * 1000000000"] by (metis wrap64_id)
  then show ?thesis
    using assms by (auto simp: parseRetryAfter_seconds int64_def max_int64_def min_int64_def)
qed

end
