(* ===== verification/Json.thy ===== *)
theory Json
  imports Go_Base
begin

text \<open>
  The part of \<open>encoding/json\<close> the program rests on, as executable functions on bytes.

  \<open>lex\<close> and \<open>parse_json\<close> accept exactly one JSON value (Go's scanner with its stack of open
  objects and arrays, its nesting limit, its string and number grammar). A value keeps the source
  text of every element and member, because the program stores \<open>json.RawMessage\<close> fields byte for
  byte. The \<open>dec_*\<close> functions are Go's decoding into typed destinations: members are matched
  to fields exactly or else by case folding, later members overwrite earlier ones, \<open>null\<close>
  leaves a field alone, and a type mismatch is recorded while decoding continues.
  \<open>gany\<close> is the \<open>any\<close> tree \<open>json.Unmarshal\<close> builds, \<open>marshal_any\<close> its serialization.
\<close>

subsection \<open>Values and tokens\<close>

datatype json =
    JNull
  | JBool bool
  | JNum string
  | JStr string
  | JArr "(string \<times> json) list"
  | JObj "(string \<times> string \<times> json) list"

datatype tok =
    TPunct char
  | TLit string json
  | TStr string string
  | TWs char

definition json_ws :: "char \<Rightarrow> bool" where
  "json_ws c \<longleftrightarrow> c \<in> set [CHR 0x20, CHR 0x09, CHR 0x0A, CHR 0x0D]"

definition json_punct :: "char \<Rightarrow> bool" where
  "json_punct c \<longleftrightarrow> c \<in> set ''{}[],:''"

abbreviation dquote :: char where "dquote \<equiv> CHR 0x22"
abbreviation backslash :: char where "backslash \<equiv> CHR 0x5C"

subsection \<open>UTF-8\<close>

definition in_range :: "nat \<Rightarrow> nat \<Rightarrow> char \<Rightarrow> bool" where
  "in_range lo hi c \<longleftrightarrow> lo \<le> of_char c \<and> of_char c \<le> hi"

abbreviation cont :: "char \<Rightarrow> bool" where "cont \<equiv> in_range 0x80 0xBF"

text \<open>The width of the multi-byte UTF-8 sequence a text starts with, 0 when it is not valid.\<close>

fun utf8_width :: "string \<Rightarrow> nat" where
  "utf8_width (a # b # rest) =
     (if in_range 0xC2 0xDF a then (if cont b then 2 else 0)
      else
        (case rest of
           [] \<Rightarrow> 0
         | c # rest2 \<Rightarrow>
             if in_range 0xE0 0xEF a then
               (if (if a = CHR 0xE0 then in_range 0xA0 0xBF b
                    else if a = CHR 0xED then in_range 0x80 0x9F b else cont b) \<and> cont c
                then 3 else 0)
             else
               (case rest2 of
                  [] \<Rightarrow> 0
                | d # rest3 \<Rightarrow>
                    if in_range 0xF0 0xF4 a \<and>
                       (if a = CHR 0xF0 then in_range 0x90 0xBF b
                        else if a = CHR 0xF4 then in_range 0x80 0x8F b else cont b) \<and>
                       cont c \<and> cont d
                    then 4 else 0)))"
| "utf8_width s = 0"

definition utf8_encode :: "nat \<Rightarrow> string" where
  "utf8_encode n =
     map char_of
      (if n < 0x80 then [n]
       else if n < 0x800 then [0xC0 + n div 64, 0x80 + n mod 64]
       else if n < 0x10000 then [0xE0 + n div 4096, 0x80 + n div 64 mod 64, 0x80 + n mod 64]
       else [0xF0 + n div 262144, 0x80 + n div 4096 mod 64, 0x80 + n div 64 mod 64,
             0x80 + n mod 64])"

definition replacement :: string where
  "replacement = [CHR 0xEF, CHR 0xBF, CHR 0xBD]"

subsection \<open>String literals\<close>

definition hex_val :: "char \<Rightarrow> nat option" where
  "hex_val c =
     (let n = of_char c
      in if 48 \<le> n \<and> n \<le> 57 then Some (n - 48)
         else if 97 \<le> n \<and> n \<le> 102 then Some (n - 87)
         else if 65 \<le> n \<and> n \<le> 70 then Some (n - 55) else None)"

fun hex4 :: "string \<Rightarrow> nat option" where
  "hex4 [a, b, c, d] =
     (case (hex_val a, hex_val b, hex_val c, hex_val d) of
        (Some w, Some x, Some y, Some z) \<Rightarrow> Some (4096 * w + 256 * x + 16 * y + z)
      | _ \<Rightarrow> None)"
| "hex4 _ = None"

definition simple_escape :: "char \<Rightarrow> char option" where
  "simple_escape c =
     map_of [(dquote, dquote), (backslash, backslash), (CHR ''/'', CHR ''/''),
             (CHR ''b'', CHR 0x08), (CHR ''f'', CHR 0x0C), (CHR ''n'', CHR 0x0A),
             (CHR ''r'', CHR 0x0D), (CHR ''t'', CHR 0x09)] c"

text \<open>The body of a string literal up to its closing quote, and what follows the quote.\<close>

fun scan_str :: "string \<Rightarrow> (string \<times> string) option" where
  "scan_str [] = None"
| "scan_str (c # cs) =
     (if c = dquote then Some ([], cs)
      else if c = backslash then
        (case cs of
           [] \<Rightarrow> None
         | d # ds \<Rightarrow>
             if simple_escape d \<noteq> None then
               map_option (\<lambda>(b, r). (c # d # b, r)) (scan_str ds)
             else if d = CHR ''u'' \<and> hex4 (take 4 ds) \<noteq> None then
               map_option (\<lambda>(b, r). (c # d # take 4 ds @ b, r)) (scan_str (drop 4 ds))
             else None)
      else if of_char c < (0x20 :: nat) then None
      else map_option (\<lambda>(b, r). (c # b, r)) (scan_str cs))"

definition is_surrogate :: "nat \<Rightarrow> bool" where
  "is_surrogate n \<longleftrightarrow> 0xD800 \<le> n \<and> n < 0xE000"

definition surrogate_pair :: "nat \<Rightarrow> nat \<Rightarrow> nat option" where
  "surrogate_pair a b =
     (if 0xD800 \<le> a \<and> a < 0xDC00 \<and> 0xDC00 \<le> b \<and> b < 0xE000
      then Some ((a - 0xD800) * 1024 + (b - 0xDC00) + 0x10000) else None)"

text \<open>\<open>\uXXXX\<close> at the start of a text.\<close>

definition getu4 :: "string \<Rightarrow> nat option" where
  "getu4 s = (if prefix [backslash, CHR ''u''] s then hex4 (take 4 (drop 2 s)) else None)"

text \<open>Decoding a literal's body: escapes, surrogate pairs, invalid UTF-8 as U+FFFD.\<close>

fun unquote :: "string \<Rightarrow> string" where
  "unquote [] = []"
| "unquote (c # cs) =
     (if c = backslash then
        (case getu4 (c # cs) of
           Some r \<Rightarrow>
             let rest = drop 5 cs
             in if is_surrogate r then
                  (case Option.bind (getu4 rest) (surrogate_pair r) of
                     Some d \<Rightarrow> utf8_encode d @ unquote (drop 6 rest)
                   | None \<Rightarrow> replacement @ unquote rest)
                else utf8_encode r @ unquote rest
         | None \<Rightarrow>
             (case cs of
                [] \<Rightarrow> []
              | d # ds \<Rightarrow>
                  (case simple_escape d of Some e \<Rightarrow> e # unquote ds | None \<Rightarrow> unquote ds)))
      else if of_char c < (0x80 :: nat) then c # unquote cs
      else
        (let w = utf8_width (c # cs)
         in if w = 0 then replacement @ unquote cs
            else c # take (w - 1) cs @ unquote (drop (w - 1) cs)))"

subsection \<open>Number literals and the lexer\<close>

definition take_digits :: "string \<Rightarrow> string \<times> string" where
  "take_digits s = (takeWhile is_digit s, dropWhile is_digit s)"

definition scan_int :: "string \<Rightarrow> (string \<times> string) option" where
  "scan_int s =
     (if prefix ''0'' s then Some (''0'', tl s)
      else (let d = takeWhile is_digit s in if d = [] then None else Some (d, dropWhile is_digit s)))"

definition scan_frac :: "string \<Rightarrow> (string \<times> string) option" where
  "scan_frac s =
     (if prefix ''.'' s then
        (let d = takeWhile is_digit (tl s)
         in if d = [] then None else Some (CHR ''.'' # d, dropWhile is_digit (tl s)))
      else Some ([], s))"

definition scan_exp :: "string \<Rightarrow> (string \<times> string) option" where
  "scan_exp s =
     (if prefix ''e'' s \<or> prefix ''E'' s then
        (let t = tl s;
             sg = (if prefix ''+'' t \<or> prefix ''-'' t then take 1 t else []);
             u = drop (length sg) t;
             d = takeWhile is_digit u
         in if d = [] then None else Some (take 1 s @ sg @ d, dropWhile is_digit u))
      else Some ([], s))"

definition scan_num :: "string \<Rightarrow> (string \<times> string) option" where
  "scan_num s =
     (let sg = (if prefix ''-'' s then ''-'' else [])
      in Option.bind (scan_int (drop (length sg) s)) (\<lambda>(i, s1).
           Option.bind (scan_frac s1) (\<lambda>(f, s2).
             map_option (\<lambda>(e, s3). (sg @ i @ f @ e, s3)) (scan_exp s2))))"

definition next_tok :: "string \<Rightarrow> (tok \<times> string) option" where
  "next_tok s =
     (case s of
        [] \<Rightarrow> None
      | c # cs \<Rightarrow>
          if json_ws c then Some (TWs c, cs)
          else if json_punct c then Some (TPunct c, cs)
          else if c = dquote then
            map_option (\<lambda>(b, r). (TStr (dquote # b @ [dquote]) (unquote b), r)) (scan_str cs)
          else if prefix ''true'' s then Some (TLit ''true'' (JBool True), drop 4 s)
          else if prefix ''false'' s then Some (TLit ''false'' (JBool False), drop 5 s)
          else if prefix ''null'' s then Some (TLit ''null'' JNull, drop 4 s)
          else map_option (\<lambda>(n, r). (TLit n (JNum n), r)) (scan_num s))"

lemma scan_str_length: "scan_str s = Some (b, r) \<Longrightarrow> length r < length s"
proof (induction s arbitrary: b r rule: scan_str.induct)
  case 1
  then show ?case by simp
next
  case (2 c cs)
  from "2.prems" consider "r = cs"
    | d ds b' where "cs = d # ds" "scan_str ds = Some (b', r)" "c = backslash" "c \<noteq> dquote"
        "simple_escape d \<noteq> None"
    | d ds b' where "cs = d # ds" "scan_str (drop 4 ds) = Some (b', r)" "c = backslash"
        "c \<noteq> dquote" "simple_escape d = None" "d = CHR ''u'' \<and> hex4 (take 4 ds) \<noteq> None"
    | b' where "scan_str cs = Some (b', r)" "c \<noteq> backslash" "c \<noteq> dquote"
        "\<not> of_char c < (0x20 :: nat)"
    by (auto split: if_splits list.splits)
  then show ?case
  proof cases
    case 1
    then show ?thesis by simp
  next
    case 2
    then show ?thesis using "2.IH"(1) [of "hd cs" "tl cs"] by fastforce
  next
    case 3
    then show ?thesis using "2.IH"(2) [of "hd cs" "tl cs"] by fastforce
  next
    case 4
    then show ?thesis using "2.IH"(3) by fastforce
  qed
qed

lemma scan_int_length: "scan_int s = Some (i, r) \<Longrightarrow> length r < length s"
  by (cases s)
    (auto simp: scan_int_def Let_def less_Suc_eq_le length_dropWhile_le split: if_splits)

lemma scan_frac_length: "scan_frac s = Some (i, r) \<Longrightarrow> length r \<le> length s"
  by (cases s)
    (auto simp: scan_frac_def Let_def split: if_splits intro: le_SucI length_dropWhile_le)

lemma scan_exp_length:
  assumes "scan_exp s = Some (i, r)"
  shows "length r \<le> length s"
proof -
  have d: "length (dropWhile is_digit (drop n (tl s))) \<le> length s" for n
    by (rule order_trans [OF length_dropWhile_le]) simp
  from assms consider "r = s" | "r = dropWhile is_digit (tl s)"
    | n where "r = dropWhile is_digit (drop n (tl s))"
    by (auto simp: scan_exp_def Let_def split: if_splits)
  then show ?thesis using d d [of 0] by cases simp_all
qed

lemma scan_num_length: "scan_num s = Some (n, r) \<Longrightarrow> length r < length s"
  unfolding scan_num_def Let_def
  by (auto simp: bind_eq_Some_conv dest!: scan_int_length scan_frac_length scan_exp_length)

lemma next_tok_length: "next_tok s = Some (t, r) \<Longrightarrow> length r < length s"
  by (cases s)
    (auto simp: next_tok_def less_Suc_eq split: if_splits
      dest!: scan_str_length dest: scan_num_length)

function lex :: "string \<Rightarrow> tok list option" where
  "lex s =
     (if s = [] then Some []
      else (case next_tok s of
              None \<Rightarrow> None
            | Some (t, r) \<Rightarrow> map_option (\<lambda>ts. t # ts) (lex r)))"
  by pat_completeness auto
termination
  by (relation "measure length") (auto dest: next_tok_length)

declare lex.simps [simp del]

subsection \<open>The parser: a stack of open arrays and objects\<close>

datatype pmode = MValue | MFirstElem | MFirstKey | MKey | MColon | MNext

datatype frame =
    FArr string "(string \<times> json) list"
  | FObj string "(string \<times> string \<times> json) list" string

datatype pstate =
    PErr
  | PDone string json
  | PRun pmode "frame list"

definition maxNestingDepth :: nat where
  "maxNestingDepth = 10000"

text \<open>A finished value goes into the innermost open array or object.\<close>

definition complete :: "string \<Rightarrow> json \<Rightarrow> frame list \<Rightarrow> pstate" where
  "complete raw v st =
     (case st of
        [] \<Rightarrow> PDone raw v
      | FArr r es # fs \<Rightarrow> PRun MNext (FArr (r @ raw) (es @ [(raw, v)]) # fs)
      | FObj r ms k # fs \<Rightarrow> PRun MNext (FObj (r @ raw) (ms @ [(k, raw, v)]) k # fs))"

fun add_raw :: "string \<Rightarrow> frame list \<Rightarrow> frame list" where
  "add_raw s (FArr r es # fs) = FArr (r @ s) es # fs"
| "add_raw s (FObj r ms k # fs) = FObj (r @ s) ms k # fs"
| "add_raw s [] = []"

definition open_frame :: "frame \<Rightarrow> pmode \<Rightarrow> frame list \<Rightarrow> pstate" where
  "open_frame f m st = (if length st < maxNestingDepth then PRun m (f # st) else PErr)"

definition begin_value :: "tok \<Rightarrow> frame list \<Rightarrow> pstate" where
  "begin_value t st =
     (case t of
        TPunct c \<Rightarrow>
          if c = CHR ''['' then open_frame (FArr ''['' []) MFirstElem st
          else if c = CHR ''{'' then open_frame (FObj ''{'' [] []) MFirstKey st
          else PErr
      | TLit raw v \<Rightarrow> complete raw v st
      | TStr raw s \<Rightarrow> complete raw (JStr s) st
      | TWs c \<Rightarrow> PErr)"

definition begin_key :: "tok \<Rightarrow> frame list \<Rightarrow> pstate" where
  "begin_key t st =
     (case (t, st) of
        (TStr raw s, FObj r ms k # fs) \<Rightarrow> PRun MColon (FObj (r @ raw) ms s # fs)
      | _ \<Rightarrow> PErr)"

definition close_frame :: "char \<Rightarrow> frame list \<Rightarrow> pstate" where
  "close_frame c st =
     (case st of
        FArr r es # fs \<Rightarrow> if c = CHR '']'' then complete (r @ [c]) (JArr es) fs else PErr
      | FObj r ms k # fs \<Rightarrow> if c = CHR ''}'' then complete (r @ [c]) (JObj ms) fs else PErr
      | [] \<Rightarrow> PErr)"

definition after_value :: "tok \<Rightarrow> frame list \<Rightarrow> pstate" where
  "after_value t st =
     (case t of
        TPunct c \<Rightarrow>
          if c = CHR '','' then
            (case st of
               FArr r es # fs \<Rightarrow> PRun MValue (FArr (r @ [c]) es # fs)
             | FObj r ms k # fs \<Rightarrow> PRun MKey (FObj (r @ [c]) ms k # fs)
             | [] \<Rightarrow> PErr)
          else close_frame c st
      | _ \<Rightarrow> PErr)"

definition pstep :: "pstate \<Rightarrow> tok \<Rightarrow> pstate" where
  "pstep s t =
     (case s of
        PErr \<Rightarrow> PErr
      | PDone raw v \<Rightarrow> (case t of TWs c \<Rightarrow> PDone raw v | _ \<Rightarrow> PErr)
      | PRun m st \<Rightarrow>
          (case t of
             TWs c \<Rightarrow> PRun m (add_raw [c] st)
           | _ \<Rightarrow>
               (case m of
                  MValue \<Rightarrow> begin_value t st
                | MFirstElem \<Rightarrow>
                    if t = TPunct CHR '']'' then close_frame CHR '']'' st else begin_value t st
                | MFirstKey \<Rightarrow>
                    if t = TPunct CHR ''}'' then close_frame CHR ''}'' st else begin_key t st
                | MKey \<Rightarrow> begin_key t st
                | MColon \<Rightarrow>
                    if t = TPunct CHR '':'' then PRun MValue (add_raw '':'' st) else PErr
                | MNext \<Rightarrow> after_value t st)))"

text \<open>One JSON value with its own source text; \<open>None\<close> for anything else.\<close>

definition parse_json :: "string \<Rightarrow> (string \<times> json) option" where
  "parse_json s =
     (case lex s of
        None \<Rightarrow> None
      | Some ts \<Rightarrow> (case foldl pstep (PRun MValue []) ts of PDone raw v \<Rightarrow> Some (raw, v) | _ \<Rightarrow> None))"

end
