(* ===== verification/Json_Codec.thy ===== *)
theory Json_Codec
  imports Json "HOL-Library.Multiset"
begin

text \<open>
  Typed decoding and serialization of \<open>encoding/json\<close>: destinations of the shapes the program
  declares (strings, booleans, 64-bit integers, raw messages, pointers, structs, slices), the
  \<open>any\<close> tree, and the serialization of strings and trees. Numbers decoded into \<open>any\<close> become
  \<open>float64\<close>: the argument \<open>numfmt\<close> is parsing a number literal as \<open>float64\<close> and formatting the
  result again, \<open>None\<close> when the literal is out of range and \<open>json.Unmarshal\<close> fails.
\<close>

subsection \<open>Decoding into typed destinations\<close>

text \<open>A decoder takes the source text, the value and the old content; the flag is an error.\<close>

type_synonym 'a dec = "string \<Rightarrow> json \<Rightarrow> 'a \<Rightarrow> 'a \<times> bool"

definition dec_string :: "string dec" where
  "dec_string raw v old =
     (case v of JStr s \<Rightarrow> (s, False) | JNull \<Rightarrow> (old, False) | _ \<Rightarrow> (old, True))"

definition dec_bool :: "bool dec" where
  "dec_bool raw v old =
     (case v of JBool b \<Rightarrow> (b, False) | JNull \<Rightarrow> (old, False) | _ \<Rightarrow> (old, True))"

definition dec_int :: "int dec" where
  "dec_int raw v old =
     (case v of
        JNum n \<Rightarrow> (case Atoi n of Some i \<Rightarrow> (i, False) | None \<Rightarrow> (old, True))
      | JNull \<Rightarrow> (old, False)
      | _ \<Rightarrow> (old, True))"

definition dec_raw :: "string dec" where
  "dec_raw raw v old = (raw, False)"

definition dec_ptr :: "'a \<Rightarrow> 'a dec \<Rightarrow> 'a option dec" where
  "dec_ptr zero d raw v old =
     (case v of
        JNull \<Rightarrow> (None, False)
      | _ \<Rightarrow>
          (case d raw v (case old of None \<Rightarrow> zero | Some x \<Rightarrow> x) of (x, e) \<Rightarrow> (Some x, e)))"

definition dec_slice :: "'a \<Rightarrow> 'a dec \<Rightarrow> 'a list dec" where
  "dec_slice zero d raw v old =
     (case v of
        JArr es \<Rightarrow>
          (let rs = map (\<lambda>(r, w). d r w zero) es in (map fst rs, list_ex snd rs))
      | JNull \<Rightarrow> ([], False)
      | _ \<Rightarrow> (old, True))"

text \<open>Go's case folding of member names, with the two non-ASCII letters that fold to ASCII.\<close>

definition upper_char :: "char \<Rightarrow> char" where
  "upper_char c =
     (let n = (of_char c :: nat) in if 97 \<le> n \<and> n \<le> 122 then char_of (n - 32) else c)"

fun fold_name :: "string \<Rightarrow> string" where
  "fold_name [] = []"
| "fold_name (c # cs) =
     (if prefix [CHR 0xE2, CHR 0x84, CHR 0xAA] (c # cs) then CHR ''K'' # fold_name (drop 2 cs)
      else if prefix [CHR 0xC5, CHR 0xBF] (c # cs) then CHR ''S'' # fold_name (drop 1 cs)
      else upper_char c # fold_name cs)"

definition find_field :: "(string \<times> 'a dec) list \<Rightarrow> string \<Rightarrow> 'a dec option" where
  "find_field fields k =
     (case map_of fields k of
        Some d \<Rightarrow> Some d
      | None \<Rightarrow> map_of (map (\<lambda>(n, d). (fold_name n, d)) fields) (fold_name k))"

definition dec_member :: "(string \<times> 'a dec) list \<Rightarrow> 'a \<times> bool \<Rightarrow> string \<times> string \<times> json \<Rightarrow> 'a \<times> bool" where
  "dec_member fields xe m =
     (case (xe, m) of
        ((x, e), (k, r, w)) \<Rightarrow>
          (case find_field fields k of
             None \<Rightarrow> (x, e)
           | Some d \<Rightarrow> (case d r w x of (x', e') \<Rightarrow> (x', e \<or> e'))))"

definition dec_struct :: "(string \<times> 'a dec) list \<Rightarrow> 'a dec" where
  "dec_struct fields raw v old =
     (case v of
        JObj members \<Rightarrow> foldl (dec_member fields) (old, False) members
      | JNull \<Rightarrow> (old, False)
      | _ \<Rightarrow> (old, True))"

definition dec_field :: "('a \<Rightarrow> 'f) \<Rightarrow> (('f \<Rightarrow> 'f) \<Rightarrow> 'a \<Rightarrow> 'a) \<Rightarrow> 'f dec \<Rightarrow> 'a dec" where
  "dec_field get upd d raw v x =
     (case d raw v (get x) of (f, e) \<Rightarrow> (upd (\<lambda>_. f) x, e))"

text \<open>\<open>json.Unmarshal\<close> into a fresh destination: \<open>None\<close> when it returns an error.\<close>

definition Unmarshal :: "'a dec \<Rightarrow> 'a \<Rightarrow> string \<Rightarrow> 'a option" where
  "Unmarshal d zero s =
     (case parse_json s of
        None \<Rightarrow> None
      | Some (raw, v) \<Rightarrow> (case d raw v zero of (x, e) \<Rightarrow> if e then None else Some x))"

subsection \<open>The any tree\<close>

datatype gany =
    ANil
  | ABool bool
  | ANum string
  | AStr string
  | AArr "gany list"
  | AObj "(string \<times> gany) list"

text \<open>A Go map is kept as the list of its members sorted by key.\<close>

fun map_put :: "'k::linorder \<Rightarrow> 'v \<Rightarrow> ('k \<times> 'v) list \<Rightarrow> ('k \<times> 'v) list" where
  "map_put k v [] = [(k, v)]"
| "map_put k v ((k', v') # kvs) =
     (if k < k' then (k, v) # (k', v') # kvs
      else if k = k' then (k, v) # kvs
      else (k', v') # map_put k v kvs)"

fun to_any :: "(string \<Rightarrow> string option) \<Rightarrow> json \<Rightarrow> gany option"
  and to_any_elems :: "(string \<Rightarrow> string option) \<Rightarrow> (string \<times> json) list \<Rightarrow> gany list option"
  and to_any_members :: "(string \<Rightarrow> string option) \<Rightarrow> (string \<times> string \<times> json) list \<Rightarrow>
        (string \<times> gany) list \<Rightarrow> (string \<times> gany) list option"
where
  "to_any nf JNull = Some ANil"
| "to_any nf (JBool b) = Some (ABool b)"
| "to_any nf (JNum n) = map_option ANum (nf n)"
| "to_any nf (JStr s) = Some (AStr s)"
| "to_any nf (JArr es) = map_option AArr (to_any_elems nf es)"
| "to_any nf (JObj ms) = map_option AObj (to_any_members nf ms [])"
| "to_any_elems nf [] = Some []"
| "to_any_elems nf ((r, v) # es) =
     (case to_any nf v of
        None \<Rightarrow> None
      | Some a \<Rightarrow> map_option (\<lambda>as. a # as) (to_any_elems nf es))"
| "to_any_members nf [] acc = Some acc"
| "to_any_members nf ((k, r, v) # ms) acc =
     (case to_any nf v of
        None \<Rightarrow> None
      | Some a \<Rightarrow> to_any_members nf ms (map_put k a acc))"

definition Unmarshal_any :: "(string \<Rightarrow> string option) \<Rightarrow> string \<Rightarrow> gany option" where
  "Unmarshal_any nf s = Option.bind (parse_json s) (\<lambda>(raw, v). to_any nf v)"

subsection \<open>Serialization\<close>

definition hex_digit :: "nat \<Rightarrow> char" where
  "hex_digit n = (if n < 10 then char_of (48 + n) else char_of (87 + n))"

definition u_escape :: "nat \<Rightarrow> string" where
  "u_escape n = [backslash, CHR ''u'', hex_digit (n div 4096 mod 16), hex_digit (n div 256 mod 16),
     hex_digit (n div 16 mod 16), hex_digit (n mod 16)]"

definition esc_ascii :: "char \<Rightarrow> string" where
  "esc_ascii c =
     (if c = dquote \<or> c = backslash then [backslash, c]
      else if c = CHR 0x08 then [backslash, CHR ''b'']
      else if c = CHR 0x0C then [backslash, CHR ''f'']
      else if c = CHR 0x0A then [backslash, CHR ''n'']
      else if c = CHR 0x0D then [backslash, CHR ''r'']
      else if c = CHR 0x09 then [backslash, CHR ''t'']
      else if of_char c < (0x20 :: nat) \<or> c = CHR ''<'' \<or> c = CHR ''>'' \<or> c = CHR ''&''
      then u_escape (of_char c)
      else [c])"

fun esc_string :: "string \<Rightarrow> string" where
  "esc_string [] = []"
| "esc_string (c # cs) =
     (if of_char c < (0x80 :: nat) then esc_ascii c @ esc_string cs
      else
        (let w = utf8_width (c # cs)
         in if w = 0 then u_escape 0xFFFD @ esc_string cs
            else if prefix [CHR 0xE2, CHR 0x80, CHR 0xA8] (c # cs)
            then u_escape 0x2028 @ esc_string (drop 2 cs)
            else if prefix [CHR 0xE2, CHR 0x80, CHR 0xA9] (c # cs)
            then u_escape 0x2029 @ esc_string (drop 2 cs)
            else c # take (w - 1) cs @ esc_string (drop (w - 1) cs)))"

definition quote_string :: "string \<Rightarrow> string" where
  "quote_string s = dquote # esc_string s @ [dquote]"

fun marshal_any :: "gany \<Rightarrow> string"
  and marshal_elems :: "gany list \<Rightarrow> string"
  and marshal_members :: "(string \<times> gany) list \<Rightarrow> string"
where
  "marshal_any ANil = ''null''"
| "marshal_any (ABool b) = (if b then ''true'' else ''false'')"
| "marshal_any (ANum n) = n"
| "marshal_any (AStr s) = quote_string s"
| "marshal_any (AArr as) = CHR ''['' # marshal_elems as @ '']''"
| "marshal_any (AObj kvs) = CHR ''{'' # marshal_members kvs @ ''}''"
| "marshal_elems [] = []"
| "marshal_elems [a] = marshal_any a"
| "marshal_elems (a # b # as) = marshal_any a @ '','' @ marshal_elems (b # as)"
| "marshal_members [] = []"
| "marshal_members [(k, a)] = quote_string k @ '':'' @ marshal_any a"
| "marshal_members ((k, a) # kv # kvs) =
     quote_string k @ '':'' @ marshal_any a @ '','' @ marshal_members (kv # kvs)"

fun join :: "string \<Rightarrow> string list \<Rightarrow> string" where
  "join sep [] = []"
| "join sep [s] = s"
| "join sep (s # t # ts) = s @ sep @ join sep (t # ts)"

text \<open>\<open>json.Marshal\<close> of a struct: the members present, in field order.\<close>

definition marshal_struct :: "(string \<times> string) list \<Rightarrow> string" where
  "marshal_struct fields =
     CHR ''{'' # join '','' (map (\<lambda>(k, v). quote_string k @ '':'' @ v) fields) @ ''}''"

subsection \<open>Sorted maps\<close>

lemma map_of_map_put [simp]: "map_of (map_put k v m) k' = (if k' = k then Some v else map_of m k')"
  by (induction k v m rule: map_put.induct) auto

lemma set_map_put_fst: "set (map fst (map_put k v m)) = insert k (set (map fst m))"
  by (induction k v m rule: map_put.induct) auto

lemma map_put_sorted:
  "\<lbrakk>sorted (map fst m); distinct (map fst m)\<rbrakk> \<Longrightarrow>
     sorted (map fst (map_put k v m)) \<and> distinct (map fst (map_put k v m))"
proof (induction k v m rule: map_put.induct)
  case (2 k v k' v' kvs)
  have "set (map fst (map_put k v kvs)) = insert k (fst ` set kvs)"
    by (metis image_set set_map_put_fst)
  with 2 show ?case by (fastforce simp: image_iff)
qed simp

lemma mset_map_put:
  "\<lbrakk>sorted (map fst m); distinct (map fst m)\<rbrakk> \<Longrightarrow>
     mset (map_put k v m) = add_mset (k, v) (mset (filter (\<lambda>e. fst e \<noteq> k) m))"
proof (induction k v m rule: map_put.induct)
  case (2 k v k' v' kvs)
  have "filter (\<lambda>e. fst e \<noteq> k) kvs = kvs" if "k \<le> k'"
    using that 2(2,3) by (intro filter_True) (force simp: image_iff)
  then have "k \<le> k' \<Longrightarrow> mset (filter (\<lambda>e. fst e \<noteq> k) kvs) = mset kvs" by simp
  with 2 show ?case by (auto simp del: mset_filter)
qed simp

end
