(* ===== verification/Middleware.thy ===== *)
theory Middleware
  imports Json_Codec
begin

text \<open>
  Component \<open>internal/middleware\<close>: parameter redaction (\<open>redact.go\<close>) and the per-client,
  per-tool rate limiter (\<open>ratelimit.go\<close>).

  A \<open>*Redactor\<close> is a \<open>redactor option\<close> (\<open>None\<close> is nil). The token bucket of
  \<open>golang.org/x/time/rate\<close> is third-party code: its constructor \<open>mk\<close> (interval and burst) and
  its \<open>Allow\<close> method \<open>tb\<close> (now and bucket, giving the decision and the new bucket) are
  arguments of the limiter. The lemmas describe redaction path by path, and show that one key's
  decisions are those of a private bucket.
\<close>

section \<open>Redaction\<close>

definition DefaultRedactPatterns :: "string list" where
  "DefaultRedactPatterns =
     [''password'', ''token'', ''secret'', ''api_key'', ''bearer'', ''authorization'']"

record redactor =
  red_enabled :: bool
  red_patterns :: "string list"

definition NewRedactor :: "bool \<Rightarrow> string list \<Rightarrow> redactor" where
  "NewRedactor enabled patterns =
     (let ps = (if length patterns = 0 then DefaultRedactPatterns else patterns);
          normalized = filter (\<lambda>p. p \<noteq> []) (map (\<lambda>p. TrimSpace (ToLower p)) ps)
      in \<lparr>red_enabled = enabled, red_patterns = normalized\<rparr>)"

definition sensitive :: "redactor \<Rightarrow> string \<Rightarrow> bool" where
  "sensitive r key = list_ex (\<lambda>pattern. Contains (ToLower key) pattern) (red_patterns r)"

definition REDACTED :: string where
  "REDACTED = ''[REDACTED]''"

fun redactValue :: "redactor \<Rightarrow> gany \<Rightarrow> string \<Rightarrow> gany" where
  "redactValue r v key =
     (if sensitive r key then AStr REDACTED
      else
        (case v of
           AObj typed \<Rightarrow> AObj (map (\<lambda>(k, w). (k, redactValue r w k)) typed)
         | AArr typed \<Rightarrow> AArr (map (\<lambda>w. redactValue r w key) typed)
         | _ \<Rightarrow> v))"

declare redactValue.simps [simp del]

definition Redact :: "(string \<Rightarrow> string option) \<Rightarrow> redactor option \<Rightarrow> string \<Rightarrow> string" where
  "Redact nf r raw =
     (case r of
        None \<Rightarrow> raw
      | Some r \<Rightarrow>
          if \<not> red_enabled r \<or> length raw = 0 then raw
          else
            (case Unmarshal_any nf raw of
               None \<Rightarrow> raw
             | Some v \<Rightarrow> marshal_any (redactValue r v [])))"

subsection \<open>What redaction does, path by path\<close>

datatype path_step = Key string | Idx nat

fun walk :: "path_step list \<Rightarrow> gany \<Rightarrow> gany option" where
  "walk [] v = Some v"
| "walk (Key k # p) (AObj kvs) = Option.bind (map_of kvs k) (walk p)"
| "walk (Idx i # p) (AArr vs) = (if i < length vs then walk p (vs ! i) else None)"
| "walk (s # p) v = None"

definition step_hidden :: "redactor \<Rightarrow> path_step \<Rightarrow> bool" where
  "step_hidden r s \<longleftrightarrow> (case s of Key k \<Rightarrow> sensitive r k | Idx i \<Rightarrow> False)"

definition redactor_wf :: "redactor \<Rightarrow> bool" where
  "redactor_wf r \<longleftrightarrow> [] \<notin> set (red_patterns r)"

fun last_key :: "string \<Rightarrow> path_step list \<Rightarrow> string" where
  "last_key key [] = key"
| "last_key key (Key k # p) = last_key k p"
| "last_key key (Idx i # p) = last_key key p"

lemma NewRedactor_wf: "redactor_wf (NewRedactor enabled patterns)"
  by (auto simp: redactor_wf_def NewRedactor_def Let_def)

lemma sensitive_root: "redactor_wf r \<Longrightarrow> \<not> sensitive r []"
  by (auto simp: sensitive_def redactor_wf_def list_ex_iff Contains_def)

lemma redact_sensitive: "sensitive r key \<Longrightarrow> redactValue r v key = AStr REDACTED"
  by (simp add: redactValue.simps)

lemma redact_plain:
  assumes "\<not> sensitive r key"
  shows "redactValue r (AObj kvs) key = AObj (map (\<lambda>(k, w). (k, redactValue r w k)) kvs)"
    and "redactValue r (AArr vs) key = AArr (map (\<lambda>w. redactValue r w key) vs)"
    and "redactValue r ANil key = ANil" "redactValue r (ABool b) key = ABool b"
    and "redactValue r (ANum n) key = ANum n" "redactValue r (AStr s) key = AStr s"
  using assms by (simp_all add: redactValue.simps)

lemma map_of_map_key: "map_of (map (\<lambda>(k, w). (k, f k w)) kvs) k = map_option (f k) (map_of kvs k)"
  by (induction kvs) auto

lemma walk_redact_visible:
  assumes "\<not> sensitive r key" and "list_all (\<lambda>s. \<not> step_hidden r s) p"
  shows "walk p (redactValue r v key) = map_option (\<lambda>w. redactValue r w (last_key key p)) (walk p v)"
  using assms
proof (induction p v arbitrary: key rule: walk.induct)
  case (2 k p kvs)
  then show ?case
    by (cases "map_of kvs k")
      (auto simp: redact_plain map_of_map_key [of "\<lambda>k w. redactValue r w k"] step_hidden_def)
qed (auto simp: redact_plain)

lemma walk_redact_hidden:
  assumes "\<not> sensitive r key" and "list_all (\<lambda>s. \<not> step_hidden r s) p" and "sensitive r k"
  shows "walk (p @ Key k # q) (redactValue r v key) =
     (if walk (p @ [Key k]) v \<noteq> None \<and> q = [] then Some (AStr REDACTED) else None)"
  using assms(1,2)
proof (induction p v arbitrary: key rule: walk.induct)
  case (1 v)
  have q: "walk q (AStr REDACTED) = (if q = [] then Some (AStr REDACTED) else None)"
    by (cases q) auto
  show ?case
    using 1 assms(3)
    by (cases v)
      (auto simp: redact_plain map_of_map_key [of "\<lambda>k w. redactValue r w k"]
        redact_sensitive q split: option.splits Option.bind_splits)
next
  case (2 k' p kvs)
  then show ?case
    by (cases "map_of kvs k'")
      (auto simp: redact_plain map_of_map_key [of "\<lambda>k w. redactValue r w k"] step_hidden_def)
qed (auto simp: redact_plain)

text \<open>The first sensitive key on a path and what follows it.\<close>

definition hidden_from :: "redactor \<Rightarrow> path_step list \<Rightarrow> path_step list" where
  "hidden_from r p = dropWhile (\<lambda>s. \<not> step_hidden r s) p"

lemma hidden_from_split:
  assumes "hidden_from r p = s # q"
  obtains p' k where "p = p' @ Key k # q" "s = Key k" "sensitive r k"
    "list_all (\<lambda>s. \<not> step_hidden r s) p'"
proof -
  have p: "p = takeWhile (\<lambda>s. \<not> step_hidden r s) p @ s # q"
    using assms by (metis hidden_from_def takeWhile_dropWhile_id)
  have "step_hidden r s"
    using assms hd_dropWhile [of "\<lambda>s. \<not> step_hidden r s" p] by (simp add: hidden_from_def)
  then obtain k where "s = Key k" "sensitive r k"
    by (auto simp: step_hidden_def split: path_step.splits)
  moreover have "list_all (\<lambda>s. \<not> step_hidden r s) (takeWhile (\<lambda>s. \<not> step_hidden r s) p)"
    by (auto simp: list_all_iff dest: set_takeWhileD)
  ultimately show thesis using that p by blast
qed

lemma hidden_from_Nil: "hidden_from r p = [] \<longleftrightarrow> list_all (\<lambda>s. \<not> step_hidden r s) p"
  by (simp add: hidden_from_def list_all_iff)

lemma last_key_plain:
  "\<lbrakk>\<not> sensitive r key; list_all (\<lambda>s. \<not> step_hidden r s) p\<rbrakk> \<Longrightarrow> \<not> sensitive r (last_key key p)"
  by (induction key p rule: last_key.induct) (auto simp: step_hidden_def)

text \<open>Values that redaction copies when no key on their path is sensitive.\<close>

fun is_leaf :: "gany \<Rightarrow> bool" where
  "is_leaf (AObj kvs) = False"
| "is_leaf (AArr vs) = False"
| "is_leaf v = True"

lemma redact_leaf: "\<lbrakk>\<not> sensitive r key; is_leaf v\<rbrakk> \<Longrightarrow> redactValue r v key = v"
  by (cases v) (simp_all add: redact_plain)

lemma redact_idem: "redactValue r (redactValue r v key) key = redactValue r v key"
proof (induction r v key rule: redactValue.induct)
  case (1 r v key)
  show ?case
  proof (cases "sensitive r key")
    case False
    then show ?thesis
      using 1 by (cases v) (auto simp: redact_plain intro!: map_idI)
  qed (simp add: redact_sensitive)
qed

text \<open>
  C35: Redaction of a decoded parameter tree, at every path. On a path with a sensitive key the
  value under the first such key is the redaction marker and nothing below it is left; a scalar
  on a path without sensitive keys is kept as it was; redacting again changes nothing.
\<close>
theorem redact_paths:
  assumes "r = NewRedactor enabled patterns"
  shows "(case hidden_from r p of
            s # q \<Rightarrow> walk p (redactValue r v []) =
                       (if walk p v \<noteq> None \<and> q = [] then Some (AStr REDACTED)
                        else None)
          | [] \<Rightarrow> (case walk p v of
                     None \<Rightarrow> walk p (redactValue r v []) = None
                   | Some w \<Rightarrow> is_leaf w \<longrightarrow> walk p (redactValue r v []) = Some w)) \<and>
         redactValue r (redactValue r v []) [] = redactValue r v []"
proof -
  have root: "\<not> sensitive r []"
    using assms NewRedactor_wf sensitive_root by blast
  show ?thesis
  proof (cases "hidden_from r p")
    case Nil
    then have "list_all (\<lambda>s. \<not> step_hidden r s) p" by (simp add: hidden_from_Nil)
    with walk_redact_visible [OF root this, of v] last_key_plain [OF root this] Nil
    show ?thesis by (auto simp: redact_leaf redact_idem split: option.splits)
  next
    case (Cons s q)
    then obtain p' k where p: "p = p' @ Key k # q" "sensitive r k"
      "list_all (\<lambda>s. \<not> step_hidden r s) p'" by (rule hidden_from_split)
    have "q = [] \<longrightarrow> walk (p' @ [Key k]) v = walk p v" by (simp add: p(1))
    with walk_redact_hidden [OF root p(3,2), of q v] Cons p(1) show ?thesis
      by (auto simp: redact_idem)
  qed
qed

theorem redact_paths_witness:
  "walk [Key ''a'', Key ''API_Token''] (redactValue (NewRedactor True [])
     (AObj [(''a'', AObj [(''API_Token'', AStr ''x'')])]) []) = Some (AStr REDACTED)"
proof -
  have "hidden_from (NewRedactor True []) [Key ''a'', Key ''API_Token''] = [Key ''API_Token'']"
    by code_simp
  then show ?thesis
    using redact_paths [where enabled = True and patterns = "[]"
        and p = "[Key ''a'', Key ''API_Token'']"
        and v = "AObj [(''a'', AObj [(''API_Token'', AStr ''x'')])]", OF refl]
    by simp
qed



section \<open>Rate limiting\<close>

record 'l rate_limiter =
  rl_enabled :: bool
  rl_requestsPerMinute :: int
  rl_limiters :: "string \<rightharpoonup> 'l"

definition NewRateLimiter :: "bool \<Rightarrow> int \<Rightarrow> 'l rate_limiter" where
  "NewRateLimiter enabled requestsPerMinute =
     \<lparr>rl_enabled = enabled,
      rl_requestsPerMinute = (if requestsPerMinute \<le> 0 then 60 else requestsPerMinute),
      rl_limiters = Map.empty\<rparr>"

definition limiter_key :: "string \<Rightarrow> string \<Rightarrow> string" where
  "limiter_key clientID toolName =
     clientID @ '':'' @ (if toolName = [] then ''unknown'' else toolName)"

definition RateLimiter_Allow ::
  "(duration \<Rightarrow> int \<Rightarrow> 'l) \<Rightarrow> (go_time \<Rightarrow> 'l \<Rightarrow> bool \<times> 'l) \<Rightarrow> go_time \<Rightarrow> string \<Rightarrow> string \<Rightarrow>
   'l rate_limiter option \<Rightarrow> bool \<times> 'l rate_limiter option" where
  "RateLimiter_Allow mk tb now clientID toolName lp =
     (case lp of
        None \<Rightarrow> (True, lp)
      | Some l \<Rightarrow>
          if \<not> rl_enabled l then (True, lp)
          else
            (let key = limiter_key clientID toolName;
                 limiter = (case rl_limiters l key of
                              Some b \<Rightarrow> b
                            | None \<Rightarrow> mk (seconds 60 div rl_requestsPerMinute l)
                                        (rl_requestsPerMinute l))
             in case tb now limiter of
                  (ok, b) \<Rightarrow> (ok, Some (l\<lparr>rl_limiters := (rl_limiters l)(key \<mapsto> b)\<rparr>))))"

text \<open>A history of calls against one limiter, and against one token bucket.\<close>

type_synonym call = "go_time \<times> string \<times> string"

fun run_calls :: "(duration \<Rightarrow> int \<Rightarrow> 'l) \<Rightarrow> (go_time \<Rightarrow> 'l \<Rightarrow> bool \<times> 'l) \<Rightarrow>
    'l rate_limiter option \<Rightarrow> call list \<Rightarrow> bool list" where
  "run_calls mk tb l [] = []"
| "run_calls mk tb l ((now, c, t) # calls) =
     (case RateLimiter_Allow mk tb now c t l of (ok, l') \<Rightarrow> ok # run_calls mk tb l' calls)"

fun run_bucket :: "(go_time \<Rightarrow> 'l \<Rightarrow> bool \<times> 'l) \<Rightarrow> 'l \<Rightarrow> go_time list \<Rightarrow> bool list" where
  "run_bucket tb b [] = []"
| "run_bucket tb b (now # ts) = (case tb now b of (ok, b') \<Rightarrow> ok # run_bucket tb b' ts)"

definition key_of :: "call \<Rightarrow> string" where
  "key_of call = (case call of (now, c, t) \<Rightarrow> limiter_key c t)"

definition decisions_for :: "string \<Rightarrow> call list \<Rightarrow> bool list \<Rightarrow> bool list" where
  "decisions_for k calls oks = map snd (filter (\<lambda>(c, ok). key_of c = k) (zip calls oks))"

definition times_for :: "string \<Rightarrow> call list \<Rightarrow> go_time list" where
  "times_for k calls = map fst (filter (\<lambda>c. key_of c = k) calls)"

definition bucket_at :: "(duration \<Rightarrow> int \<Rightarrow> 'l) \<Rightarrow> 'l rate_limiter \<Rightarrow> string \<Rightarrow> 'l" where
  "bucket_at mk l k =
     (case rl_limiters l k of
        Some b \<Rightarrow> b
      | None \<Rightarrow> mk (seconds 60 div rl_requestsPerMinute l) (rl_requestsPerMinute l))"

lemma run_calls_key:
  assumes "rl_enabled l"
  shows "decisions_for k calls (run_calls mk tb (Some l) calls) =
         run_bucket tb (bucket_at mk l k) (times_for k calls)"
  using assms
proof (induction calls arbitrary: l)
  case Nil
  then show ?case by (simp add: decisions_for_def times_for_def)
next
  case (Cons call calls)
  obtain now c t where call: "call = (now, c, t)" by (cases call)
  obtain ok b where tb: "tb now (bucket_at mk l (limiter_key c t)) = (ok, b)" by fastforce
  define l' where "l' = l\<lparr>rl_limiters := (rl_limiters l)(limiter_key c t \<mapsto> b)\<rparr>"
  have step: "RateLimiter_Allow mk tb now c t (Some l) = (ok, Some l')"
    using Cons.prems tb by (simp add: RateLimiter_Allow_def Let_def bucket_at_def l'_def)
  have "bucket_at mk l' k = (if k = limiter_key c t then b else bucket_at mk l k)"
    by (simp add: bucket_at_def l'_def split: option.split)
  moreover have "rl_enabled l'" using Cons.prems by (simp add: l'_def)
  moreover note Cons.IH [of l']
  ultimately show ?case
    using tb by (auto simp: call step decisions_for_def times_for_def key_of_def)
qed

text \<open>
  Isolation of the rate limiter. In any history of calls on an enabled limiter, the decisions
  for one key are those of one private token bucket, created with the configured rate and
  burst, on that key's calls alone: no other client or tool uses up its tokens.
\<close>
lemma limiter_isolation:
  "decisions_for k calls (run_calls mk tb (Some (NewRateLimiter True rpm)) calls) =
   (let n = (if rpm \<le> 0 then 60 else rpm)
    in run_bucket tb (mk (seconds 60 div n) n) (times_for k calls))"
  using run_calls_key [of "NewRateLimiter True rpm" k calls mk tb]
  by (simp add: NewRateLimiter_def bucket_at_def)

text \<open>
  Two calls share a bucket exactly when client and tool agree (an empty tool name being
  \<open>unknown\<close>), for client identifiers without a colon.
\<close>
lemma limiter_key_inj:
  assumes "CHR '':'' \<notin> set c1" and "CHR '':'' \<notin> set c2"
  shows "limiter_key c1 t1 = limiter_key c2 t2 \<longleftrightarrow>
     c1 = c2 \<and> (if t1 = [] then ''unknown'' else t1) = (if t2 = [] then ''unknown'' else t2)"
proof
  assume "limiter_key c1 t1 = limiter_key c2 t2"
  then have "Cut (limiter_key c1 t1) CHR '':'' = Cut (limiter_key c2 t2) CHR '':''" by simp
  then show "c1 = c2 \<and>
      (if t1 = [] then ''unknown'' else t1) = (if t2 = [] then ''unknown'' else t2)"
    using assms by (simp add: limiter_key_def Cut_append)
qed (simp add: limiter_key_def)

text \<open>
  The key is not injective in general: client \<open>a:b\<close> calling \<open>c\<close> and client \<open>a\<close> calling
  \<open>b:c\<close> draw from the same bucket.
\<close>
lemma limiter_key_collision:
  "\<exists>c1 t1 c2 t2. c1 \<noteq> c2 \<and> t1 \<noteq> t2 \<and> t1 \<noteq> [] \<and> t2 \<noteq> [] \<and>
     limiter_key c1 t1 = limiter_key c2 t2"
  by (rule exI [of _ "''a:b''"], rule exI [of _ "''c''"], rule exI [of _ "''a''"],
      rule exI [of _ "''b:c''"]) (simp add: limiter_key_def)

end
