(* ===== verification/Go_Http.thy ===== *)
theory Go_Http
  imports Json_Codec
begin

text \<open>
  The fragment of \<open>net/http\<close>, \<open>fmt\<close> and \<open>encoding/json\<close>'s stream decoder the request path uses:
  header maps with canonical keys, \<open>%q\<close> formatting, decoding one value from a stream. Texts of
  errors that the standard library produces are abbreviated by \<open>json_error\<close>.
\<close>

subsection \<open>Headers\<close>

text \<open>
  An \<open>http.Header\<close> is the list of its entries, one per canonical key (\<open>net/http\<close> stores
  received headers that way), each with its values in order of arrival.
\<close>

type_synonym header = "(string \<times> string list) list"

definition token_char :: "char \<Rightarrow> bool" where
  "token_char c \<longleftrightarrow>
     (let n = (of_char c :: nat)
      in 48 \<le> n \<and> n \<le> 57 \<or> 65 \<le> n \<and> n \<le> 90 \<or> 97 \<le> n \<and> n \<le> 122 \<or>
         c \<in> set [CHR ''!'', CHR ''#'', CHR ''$'', CHR ''%'', CHR ''&'', CHR 0x27, CHR ''*'',
                  CHR ''+'', CHR ''-'', CHR ''.'', CHR ''^'', CHR ''_'', CHR 0x60, CHR ''|'',
                  CHR ''~''])"

fun canonical_from :: "bool \<Rightarrow> string \<Rightarrow> string" where
  "canonical_from up [] = []"
| "canonical_from up (c # cs) =
     (if up then upper_char c else lower_char c) # canonical_from (c = CHR ''-'') cs"

definition CanonicalHeaderKey :: "string \<Rightarrow> string" where
  "CanonicalHeaderKey k = (if list_all token_char k then canonical_from True k else k)"

definition Header_Values :: "header \<Rightarrow> string \<Rightarrow> string list" where
  "Header_Values h k = (case map_of h (CanonicalHeaderKey k) of None \<Rightarrow> [] | Some vs \<Rightarrow> vs)"

definition Header_Get :: "header \<Rightarrow> string \<Rightarrow> string" where
  "Header_Get h k = (case Header_Values h k of [] \<Rightarrow> [] | v # vs \<Rightarrow> v)"

definition Header_Del :: "string \<Rightarrow> header \<Rightarrow> header" where
  "Header_Del k h = filter (\<lambda>e. fst e \<noteq> CanonicalHeaderKey k) h"

definition Header_Set :: "string \<Rightarrow> string \<Rightarrow> header \<Rightarrow> header" where
  "Header_Set k v h = (CanonicalHeaderKey k, [v]) # Header_Del k h"

lemma map_of_filter_key: "map_of (filter (\<lambda>e. fst e \<noteq> k) h) k' = (if k' = k then None else map_of h k')"
  by (induction h) auto

lemma Header_Values_Del:
  "Header_Values (Header_Del k h) k' =
     (if CanonicalHeaderKey k' = CanonicalHeaderKey k then [] else Header_Values h k')"
  by (simp add: Header_Values_def Header_Del_def map_of_filter_key)

lemma Header_Values_Set:
  "Header_Values (Header_Set k v h) k' =
     (if CanonicalHeaderKey k' = CanonicalHeaderKey k then [v] else Header_Values h k')"
  using Header_Values_Del [of k h k'] by (simp add: Header_Values_def Header_Set_def)

subsection \<open>Formatting\<close>

fun quote_chars :: "string \<Rightarrow> string" where
  "quote_chars [] = []"
| "quote_chars (c # cs) =
     (if c = dquote \<or> c = backslash then [backslash, c]
      else if c = CHR 0x0A then [backslash, CHR ''n'']
      else if c = CHR 0x0D then [backslash, CHR ''r'']
      else if c = CHR 0x09 then [backslash, CHR ''t'']
      else [c]) @ quote_chars cs"

definition Quote :: "string \<Rightarrow> string" where
  "Quote s = dquote # quote_chars s @ [dquote]"

definition json_error :: err where
  "json_error = ''<json error>''"

subsection \<open>One value from a stream\<close>

function decode_loop :: "pstate \<Rightarrow> string \<Rightarrow> (string \<times> json \<times> string) option" where
  "decode_loop st s =
     (case st of
        PErr \<Rightarrow> None
      | PDone raw v \<Rightarrow> Some (raw, v, s)
      | PRun m fs \<Rightarrow>
          (case next_tok s of
             None \<Rightarrow> None
           | Some (t, r) \<Rightarrow> decode_loop (pstep st t) r))"
  by pat_completeness auto
termination
  by (relation "measure (\<lambda>(st, s). length s)") (auto dest: next_tok_length)

declare decode_loop.simps [simp del]

text \<open>\<open>Decoder.Decode\<close> into a \<open>json.RawMessage\<close>: the value's text and the unread rest.\<close>

datatype decode_result = DEOF | DErr | DValue string json string

definition Decoder_Decode :: "string \<Rightarrow> decode_result" where
  "Decoder_Decode s =
     (if list_all json_ws s then DEOF
      else (case decode_loop (PRun MValue []) s of
              None \<Rightarrow> DErr
            | Some (raw, v, rest) \<Rightarrow> DValue raw v rest))"

lemma pstep_PErr [simp]: "foldl pstep PErr ts = PErr"
  by (induction ts) (simp_all add: pstep_def)

lemma next_tok_ws: "\<lbrakk>list_all json_ws s; s \<noteq> []\<rbrakk> \<Longrightarrow> next_tok s = Some (TWs (hd s), tl s)"
  by (cases s) (auto simp: next_tok_def)

lemma lex_ws: "list_all json_ws s \<Longrightarrow> lex s = Some (map TWs s)"
  by (induction s) (simp_all add: lex.simps next_tok_ws)

lemma pstep_done_ws: "foldl pstep (PDone raw v) (map TWs s) = PDone raw v"
  by (induction s) (simp_all add: pstep_def)

lemma decode_loop_parse:
  assumes "decode_loop st s = Some (raw, v, rest)" and "list_all json_ws rest"
  shows "\<exists>ts. lex s = Some ts \<and> foldl pstep st ts = PDone raw v"
  using assms
proof (induction st s rule: decode_loop.induct)
  case (1 st s)
  show ?case
  proof (cases st)
    case PErr
    with 1 show ?thesis by (simp add: decode_loop.simps)
  next
    case (PDone raw' v')
    with 1 show ?thesis by (simp add: decode_loop.simps lex_ws pstep_done_ws)
  next
    case (PRun m fs)
    with 1 obtain t r where n: "next_tok s = Some (t, r)"
      "decode_loop (pstep st t) r = Some (raw, v, rest)"
      by (subst (asm) (3) decode_loop.simps) (auto split: option.splits)
    with 1 PRun obtain ts where "lex r = Some ts" "foldl pstep (pstep st t) ts = PDone raw v"
      by blast
    moreover have "s \<noteq> []" using n(1) by (auto simp: next_tok_def)
    ultimately show ?thesis
      using n(1) by (intro exI [of _ "t # ts"]) (simp add: lex.simps [of s])
  qed
qed

lemma Decoder_Decode_parse:
  "\<lbrakk>Decoder_Decode s = DValue raw v rest; list_all json_ws rest\<rbrakk> \<Longrightarrow> parse_json s = Some (raw, v)"
  by (auto simp: Decoder_Decode_def parse_json_def split: if_splits option.splits
      dest!: decode_loop_parse)

end
