(* ===== verification/Mcp.thy ===== *)
theory Mcp
  imports Go_Http
begin

text \<open>
  Component \<open>internal/mcp\<close>: request inspection. \<open>message\<close> is the JSON-RPC view of
  \<open>message.go\<close>, \<open>DecodeMessages\<close> its bounded batch decoder; \<open>InspectRequest\<close>
  (\<open>metadata.go\<close>) checks the routing headers (\<open>headers.go\<close>) and the protocol revision
  (\<open>revision.go\<close>) against the body. The lemmas say what an accepted request guarantees: the
  headers agree with the body that the gateway's controls look at.
\<close>

definition HeaderMethod :: string where "HeaderMethod = ''Mcp-Method''"
definition HeaderName :: string where "HeaderName = ''Mcp-Name''"
definition HeaderProtocolVersion :: string where "HeaderProtocolVersion = ''Mcp-Protocol-Version''"
definition maxBatchMessages :: nat where "maxBatchMessages = 1024"
definition ProtocolLegacy20251125 :: string where "ProtocolLegacy20251125 = ''2025-11-25''"
definition Protocol20260728 :: string where "Protocol20260728 = ''2026-07-28''"

subsection \<open>Headers\<close>

record requestHeaders =
  rh_method :: string
  rh_name :: string
  rh_revision :: string

definition singleHeader :: "header \<Rightarrow> string \<Rightarrow> string res" where
  "singleHeader headers name =
     (case Header_Values headers name of
        [] \<Rightarrow> Inr []
      | [v] \<Rightarrow>
          if TrimSpace v = [] \<or> TrimSpace v \<noteq> v
          then Inl (''mcp: header '' @ name @ '' must be non-empty without surrounding whitespace'')
          else Inr (TrimSpace v)
      | _ \<Rightarrow> Inl (''mcp: header '' @ name @ '' must occur at most once''))"

definition inspectHeaders :: "header \<Rightarrow> requestHeaders res" where
  "inspectHeaders headers =
     (case singleHeader headers HeaderMethod of
        Inl e \<Rightarrow> Inl e
      | Inr method \<Rightarrow>
          (case singleHeader headers HeaderName of
             Inl e \<Rightarrow> Inl e
           | Inr name \<Rightarrow>
               (case singleHeader headers HeaderProtocolVersion of
                  Inl e \<Rightarrow> Inl e
                | Inr revision \<Rightarrow>
                    Inr \<lparr>rh_method = method, rh_name = name, rh_revision = revision\<rparr>)))"

subsection \<open>Messages\<close>

record message =
  msg_JSONRPC :: string
  msg_ID :: string
  msg_Method :: string
  msg_Params :: string

definition zero_message :: message where
  "zero_message = \<lparr>msg_JSONRPC = [], msg_ID = [], msg_Method = [], msg_Params = []\<rparr>"

definition message_fields :: "(string \<times> message dec) list" where
  "message_fields =
     [(''jsonrpc'', dec_field msg_JSONRPC msg_JSONRPC_update dec_string),
      (''id'', dec_field msg_ID msg_ID_update dec_raw),
      (''method'', dec_field msg_Method msg_Method_update dec_string),
      (''params'', dec_field msg_Params msg_Params_update dec_raw)]"

definition decodeMessage :: "string \<Rightarrow> message res" where
  "decodeMessage raw =
     (let trimmed = TrimSpace raw
      in if trimmed = [] \<or> hd trimmed \<noteq> CHR ''{'' then Inl ''request message must be an object''
         else
           (case Unmarshal (dec_struct message_fields) zero_message raw of
              None \<Rightarrow> Inl (''decode request message: '' @ json_error)
            | Some m \<Rightarrow>
                if msg_Method m = [] then Inl ''request method is required'' else Inr m))"

definition ensureJSONEOF :: "string \<Rightarrow> err option" where
  "ensureJSONEOF rest =
     (case Decoder_Decode rest of
        DEOF \<Rightarrow> None
      | DErr \<Rightarrow> Some (''mcp: decode trailing data: '' @ json_error)
      | DValue raw v r \<Rightarrow> Some ''mcp: multiple JSON values are not allowed'')"

fun decode_batch :: "nat \<Rightarrow> string list \<Rightarrow> message list res" where
  "decode_batch index [] = Inr []"
| "decode_batch index (raw # raws) =
     (case decodeMessage raw of
        Inl e \<Rightarrow> Inl (''mcp: request batch item '' @ show_nat index @ '': '' @ e)
      | Inr m \<Rightarrow>
          (case decode_batch (Suc index) raws of Inl e \<Rightarrow> Inl e | Inr ms \<Rightarrow> Inr (m # ms)))"

definition DecodeMessages :: "string \<Rightarrow> message list res" where
  "DecodeMessages raw =
     (case Decoder_Decode raw of
        DEOF \<Rightarrow> Inl (''mcp: decode request: '' @ ''EOF'')
      | DErr \<Rightarrow> Inl (''mcp: decode request: '' @ json_error)
      | DValue payload0 v rest \<Rightarrow>
          (case ensureJSONEOF rest of
             Some e \<Rightarrow> Inl e
           | None \<Rightarrow>
               (let payload = TrimSpace payload0
                in if payload = [] then Inl ''mcp: request is empty''
                   else if hd payload \<noteq> CHR ''['' then
                     (case decodeMessage payload of Inl e \<Rightarrow> Inl e | Inr m \<Rightarrow> Inr [m])
                   else
                     (case Unmarshal (dec_slice [] dec_raw) [] payload of
                        None \<Rightarrow> Inl (''mcp: decode request batch: '' @ json_error)
                      | Some rawMessages \<Rightarrow>
                          if rawMessages = [] then Inl ''mcp: request batch is empty''
                          else if length rawMessages > maxBatchMessages
                          then Inl (''mcp: request batch exceeds '' @ show_nat maxBatchMessages @
                                    '' messages'')
                          else decode_batch 0 rawMessages))))"

subsection \<open>Names, identifiers, kinds and revisions\<close>

record ref_params =
  ref_Name :: string
  ref_URI :: string

record name_params =
  np_Name :: string
  np_ToolName :: string
  np_URI :: string
  np_TaskID :: string
  np_Ref :: ref_params

definition ref_fields :: "(string \<times> ref_params dec) list" where
  "ref_fields =
     [(''name'', dec_field ref_Name ref_Name_update dec_string),
      (''uri'', dec_field ref_URI ref_URI_update dec_string)]"

definition name_fields :: "(string \<times> name_params dec) list" where
  "name_fields =
     [(''name'', dec_field np_Name np_Name_update dec_string),
      (''tool_name'', dec_field np_ToolName np_ToolName_update dec_string),
      (''uri'', dec_field np_URI np_URI_update dec_string),
      (''taskId'', dec_field np_TaskID np_TaskID_update dec_string),
      (''ref'', dec_field np_Ref np_Ref_update (dec_struct ref_fields))]"

definition zero_name_params :: name_params where
  "zero_name_params =
     \<lparr>np_Name = [], np_ToolName = [], np_URI = [], np_TaskID = [],
      np_Ref = \<lparr>ref_Name = [], ref_URI = []\<rparr>\<rparr>"

definition nameFromMessage :: "message \<Rightarrow> string" where
  "nameFromMessage m =
     (if length (msg_Params m) = 0 then []
      else
        (case Unmarshal (dec_struct name_fields) zero_name_params (msg_Params m) of
           None \<Rightarrow> []
         | Some ps \<Rightarrow>
             if np_Name ps \<noteq> [] then np_Name ps
             else if np_ToolName ps \<noteq> [] then np_ToolName ps
             else if np_URI ps \<noteq> [] then np_URI ps
             else if np_TaskID ps \<noteq> [] then np_TaskID ps
             else if ref_Name (np_Ref ps) \<noteq> [] then ref_Name (np_Ref ps)
             else ref_URI (np_Ref ps)))"

definition requestID :: "string \<Rightarrow> string" where
  "requestID raw =
     (if length raw = 0 \<or> raw = ''null'' then []
      else (case Unmarshal dec_string [] raw of Some v \<Rightarrow> v | None \<Rightarrow> raw))"

datatype request_kind =
    RequestKindUnknown | RequestKindTools | RequestKindResources | RequestKindPrompts
  | RequestKindCompletion | RequestKindLogging | RequestKindDiscovery | RequestKindTasks
  | RequestKindExtensions

definition classifyMethod :: "string \<Rightarrow> request_kind" where
  "classifyMethod method =
     (if method = ''server/discover'' then RequestKindDiscovery
      else
        (let family = fst (Cut method CHR ''/'')
         in if family = ''tools'' then RequestKindTools
            else if family = ''resources'' then RequestKindResources
            else if family = ''prompts'' then RequestKindPrompts
            else if family = ''completion'' then RequestKindCompletion
            else if family = ''logging'' then RequestKindLogging
            else if family = ''tasks'' then RequestKindTasks
            else if family = ''extensions'' then RequestKindExtensions
            else RequestKindUnknown))"

definition Supported :: "string \<Rightarrow> bool" where
  "Supported r \<longleftrightarrow> r = ProtocolLegacy20251125 \<or> r = Protocol20260728"

record meta_params =
  mp_ProtocolVersion :: string
  mp_ProtocolRevision :: string

record revision_params =
  rp_ProtocolVersion :: string
  rp_Meta :: meta_params

definition meta_fields :: "(string \<times> meta_params dec) list" where
  "meta_fields =
     [(''protocolVersion'', dec_field mp_ProtocolVersion mp_ProtocolVersion_update dec_string),
      (''protocolRevision'', dec_field mp_ProtocolRevision mp_ProtocolRevision_update dec_string)]"

definition revision_fields :: "(string \<times> revision_params dec) list" where
  "revision_fields =
     [(''protocolVersion'', dec_field rp_ProtocolVersion rp_ProtocolVersion_update dec_string),
      (''_meta'', dec_field rp_Meta rp_Meta_update (dec_struct meta_fields))]"

definition zero_revision_params :: revision_params where
  "zero_revision_params =
     \<lparr>rp_ProtocolVersion = [], rp_Meta = \<lparr>mp_ProtocolVersion = [], mp_ProtocolRevision = []\<rparr>\<rparr>"

definition revisionFromMessage :: "message \<Rightarrow> string" where
  "revisionFromMessage m =
     (if length (msg_Params m) = 0 then []
      else
        (case Unmarshal (dec_struct revision_fields) zero_revision_params (msg_Params m) of
           None \<Rightarrow> []
         | Some ps \<Rightarrow>
             if rp_ProtocolVersion ps \<noteq> [] then rp_ProtocolVersion ps
             else if mp_ProtocolRevision (rp_Meta ps) \<noteq> [] then mp_ProtocolRevision (rp_Meta ps)
             else mp_ProtocolVersion (rp_Meta ps)))"

definition protocolRevision :: "string \<Rightarrow> message \<Rightarrow> string res" where
  "protocolRevision headerRevision m =
     (let bodyRevision = revisionFromMessage m
      in if headerRevision \<noteq> [] then
           (if \<not> Supported headerRevision
            then Inl (''mcp: unsupported protocol revision '' @ Quote headerRevision)
            else if bodyRevision \<noteq> [] \<and> bodyRevision \<noteq> headerRevision
            then Inl (''mcp: protocol revision header '' @ Quote headerRevision @
                      '' does not match body '' @ Quote bodyRevision)
            else Inr headerRevision)
         else if bodyRevision \<noteq> [] then
           (if \<not> Supported bodyRevision
            then Inl (''mcp: unsupported protocol revision '' @ Quote bodyRevision)
            else Inr bodyRevision)
         else if msg_Method m = ''server/discover'' then Inr Protocol20260728
         else Inr ProtocolLegacy20251125)"

subsection \<open>Request metadata\<close>

record request_metadata =
  md_ProtocolRevision :: string
  md_Method :: string
  md_Name :: string
  md_RequestID :: string
  md_Kind :: "request_kind option"

text \<open>
  \<open>Kind\<close> is a string type in the code; \<open>None\<close> is its zero value, the empty string, which the
  metadata of a request without a body carries.
\<close>

definition MetadataFromMessage :: "message \<Rightarrow> request_metadata" where
  "MetadataFromMessage m =
     \<lparr>md_ProtocolRevision = [], md_Method = msg_Method m, md_Name = nameFromMessage m,
      md_RequestID = requestID (msg_ID m), md_Kind = Some (classifyMethod (msg_Method m))\<rparr>"

definition InspectRequest :: "header \<Rightarrow> string \<Rightarrow> request_metadata res" where
  "InspectRequest headers body =
     (case inspectHeaders headers of
        Inl e \<Rightarrow> Inl e
      | Inr ih \<Rightarrow>
          if TrimSpace body = [] then
            (if rh_method ih \<noteq> [] \<or> rh_name ih \<noteq> []
             then Inl ''mcp: method and name headers require a JSON-RPC request body''
             else
               (case protocolRevision (rh_revision ih) zero_message of
                  Inl e \<Rightarrow> Inl e
                | Inr revision \<Rightarrow>
                    Inr \<lparr>md_ProtocolRevision = revision, md_Method = [], md_Name = [],
                         md_RequestID = [], md_Kind = None\<rparr>))
          else
            (case DecodeMessages body of
               Inl e \<Rightarrow> Inl e
             | Inr [m] \<Rightarrow>
                 (let name = nameFromMessage m
                  in if rh_method ih \<noteq> [] \<and> rh_method ih \<noteq> msg_Method m
                     then Inl (''mcp: method header '' @ Quote (rh_method ih) @
                               '' does not match body '' @ Quote (msg_Method m))
                     else if rh_name ih \<noteq> [] \<and> rh_name ih \<noteq> name
                     then Inl (''mcp: name header '' @ Quote (rh_name ih) @
                               '' does not match body '' @ Quote name)
                     else
                       (case protocolRevision (rh_revision ih) m of
                          Inl e \<Rightarrow> Inl e
                        | Inr revision \<Rightarrow>
                            Inr \<lparr>md_ProtocolRevision = revision, md_Method = msg_Method m,
                                 md_Name = name, md_RequestID = requestID (msg_ID m),
                                 md_Kind = Some (classifyMethod (msg_Method m))\<rparr>))
             | Inr _ \<Rightarrow> Inl ''mcp: request metadata headers cannot describe a batch''))"

subsection \<open>What inspection guarantees\<close>

lemma singleHeader_cases:
  "singleHeader h n = Inr v \<longleftrightarrow>
     Header_Values h n = [] \<and> v = [] \<or> Header_Values h n = [v] \<and> v \<noteq> [] \<and> TrimSpace v = v"
  by (auto simp: singleHeader_def split: list.splits)

lemma decodeMessage_method: "decodeMessage raw = Inr m \<Longrightarrow> msg_Method m \<noteq> []"
  by (auto simp: decodeMessage_def Let_def split: if_splits option.splits)

lemma decode_batch_spec:
  "decode_batch i raws = Inr ms \<longleftrightarrow> list_all2 (\<lambda>raw m. decodeMessage raw = Inr m) raws ms"
  by (induction i raws arbitrary: ms rule: decode_batch.induct)
    (auto split: sum.splits simp: list_all2_Cons1)

lemma decode_batch_method:
  "decode_batch i raws = Inr ms \<Longrightarrow> length ms = length raws \<and> (\<forall>m \<in> set ms. msg_Method m \<noteq> [])"
  unfolding decode_batch_spec
  by (induction raws ms rule: list_all2_induct) (auto dest: decodeMessage_method)

text \<open>
  The decoder of request bodies is bounded and strict: what it accepts is one well-formed
  JSON value with nothing after it, between 1 and 1024 messages, each with a method.
\<close>
lemma DecodeMessages_bounds:
  assumes "DecodeMessages raw = Inr ms"
  shows "parse_json raw \<noteq> None \<and> 1 \<le> length ms \<and> length ms \<le> 1024 \<and>
     list_all (\<lambda>m. msg_Method m \<noteq> []) ms"
proof -
  from assms obtain p v rest where d: "Decoder_Decode raw = DValue p v rest"
    and e: "ensureJSONEOF rest = None"
    by (auto simp: DecodeMessages_def split: decode_result.splits option.splits)
  from e have "list_all json_ws rest"
    by (auto simp: ensureJSONEOF_def Decoder_Decode_def split: if_splits option.splits)
  with d have "parse_json raw \<noteq> None" by (simp add: Decoder_Decode_parse)
  with assms d e show ?thesis
    by (auto simp: DecodeMessages_def Let_def list_all_iff maxBatchMessages_def Suc_le_eq
        split: if_splits sum.splits option.splits dest: decodeMessage_method decode_batch_method)
qed

lemma protocolRevision_supported:
  "protocolRevision h m = Inr r \<Longrightarrow> Supported r \<and> (h \<noteq> [] \<longrightarrow> r = h) \<and>
     (revisionFromMessage m \<noteq> [] \<longrightarrow> r = revisionFromMessage m)"
  by (auto simp: protocolRevision_def Let_def Supported_def split: if_splits)

lemma inspectHeaders_cases:
  "inspectHeaders h = Inr ih \<longleftrightarrow>
     singleHeader h HeaderMethod = Inr (rh_method ih) \<and> singleHeader h HeaderName = Inr (rh_name ih) \<and>
     singleHeader h HeaderProtocolVersion = Inr (rh_revision ih)"
  by (cases ih) (auto simp: inspectHeaders_def split: sum.splits)

definition header_agrees :: "header \<Rightarrow> string \<Rightarrow> string \<Rightarrow> bool" where
  "header_agrees h n v \<longleftrightarrow> Header_Values h n = [] \<or> Header_Values h n = [v]"

lemma header_agreesI:
  "\<lbrakk>singleHeader h n = Inr v; v \<noteq> [] \<longrightarrow> v = w\<rbrakk> \<Longrightarrow> header_agrees h n w"
  by (auto simp: header_agrees_def singleHeader_cases)

text \<open>
  C33: No routing confusion. When inspection accepts a request with a body, the body is one
  message, the metadata is that message's method, name, identifier and kind, the revision is a
  supported one, and each of the three routing headers is absent or occurs once and equals
  what the body says.
\<close>
theorem InspectRequest_agrees:
  assumes "InspectRequest h body = Inr md" and "TrimSpace body \<noteq> []"
  shows "\<exists>m. DecodeMessages body = Inr [m] \<and>
     md = (MetadataFromMessage m)\<lparr>md_ProtocolRevision := md_ProtocolRevision md\<rparr> \<and>
     md_Method md \<noteq> [] \<and> Supported (md_ProtocolRevision md) \<and>
     (revisionFromMessage m = [] \<or> md_ProtocolRevision md = revisionFromMessage m) \<and>
     header_agrees h HeaderMethod (md_Method md) \<and>
     header_agrees h HeaderName (md_Name md) \<and>
     header_agrees h HeaderProtocolVersion (md_ProtocolRevision md)"
proof -
  from assms(1) obtain ih where ih: "inspectHeaders h = Inr ih"
    by (auto simp: InspectRequest_def split: sum.splits)
  from assms ih obtain m where m: "DecodeMessages body = Inr [m]"
    by (auto simp: InspectRequest_def split: sum.splits list.splits)
  with assms ih have a: "rh_method ih \<noteq> [] \<longrightarrow> rh_method ih = msg_Method m"
      "rh_name ih \<noteq> [] \<longrightarrow> rh_name ih = nameFromMessage m"
    and r: "protocolRevision (rh_revision ih) m = Inr (md_ProtocolRevision md)"
    and md: "md = (MetadataFromMessage m)\<lparr>md_ProtocolRevision := md_ProtocolRevision md\<rparr>"
    by (auto simp: InspectRequest_def Let_def MetadataFromMessage_def
        split: sum.splits if_splits)
  have f: "md_Method md = msg_Method m" "md_Name md = nameFromMessage m"
    by (subst md, simp add: MetadataFromMessage_def)+
  have "msg_Method m \<noteq> []"
    using m by (auto simp: DecodeMessages_def Let_def split: decode_result.splits option.splits
        if_splits sum.splits dest: decodeMessage_method decode_batch_method)
  moreover have "header_agrees h HeaderMethod (md_Method md)"
      "header_agrees h HeaderName (md_Name md)"
      "header_agrees h HeaderProtocolVersion (md_ProtocolRevision md)"
    using ih a f protocolRevision_supported [OF r]
    by (auto simp: inspectHeaders_cases intro!: header_agreesI)
  moreover note protocolRevision_supported [OF r]
  ultimately show ?thesis
    using m md f by (intro exI [of _ m]) (simp, blast)
qed

theorem InspectRequest_agrees_witness:
  "header_agrees [(HeaderMethod, [''tools/call''])] HeaderMethod ''tools/call''"
proof -
  let ?md = "\<lparr>md_ProtocolRevision = ''2025-11-25'', md_Method = ''tools/call'', md_Name = ''x'',
     md_RequestID = ''7'', md_Kind = Some RequestKindTools\<rparr>"
  let ?body = "''{\"id\":7,\"method\":\"tools/call\",\"params\":{\"name\":\"x\"}}''"
  have a: "InspectRequest [(HeaderMethod, [''tools/call''])] ?body = Inr ?md" by code_simp
  have b: "TrimSpace ?body \<noteq> []" by code_simp
  from InspectRequest_agrees [OF a b] show ?thesis by auto
qed

end
