(* ===== verification/Auth.thy ===== *)
theory Auth
  imports Go_Http
begin

text \<open>
  Component \<open>internal/auth\<close>: the principal, bearer tokens and the three authenticators
  (\<open>none.go\<close>, \<open>static_bearer.go\<close>, \<open>jwt.go\<close>).

  Arguments that stand for code outside the repository: \<open>sha\<close> is SHA-256; \<open>verify\<close> is
  \<open>jwt.ParseWithClaims\<close> with the options built from the configuration (\<open>None\<close> when it fails or
  the token is not valid) and \<open>getSubject\<close> its subject accessor; \<open>fetch\<close> is the HTTP GET of
  the key set, \<open>validJWKS\<close>, \<open>keyfuncInit\<close> and \<open>polls\<close> are the key cache. The locale
  \<open>authenticator\<close> is the interface the HTTP proxy relies on; each authenticator interprets it.
\<close>

subsection \<open>Principals\<close>

record principal =
  Subject :: string
  ClientID :: string
  Issuer :: string
  Roles :: "string list"
  Scopes :: "string list"
  Claims :: "(string \<times> gany) list"

fun cloneClaimValue :: "gany \<Rightarrow> gany" where
  "cloneClaimValue v =
     (case v of
        AObj typed \<Rightarrow> AObj (map (\<lambda>(key, item). (key, cloneClaimValue item)) typed)
      | AArr typed \<Rightarrow> AArr (map (\<lambda>item. cloneClaimValue item) typed)
      | _ \<Rightarrow> v)"

declare cloneClaimValue.simps [simp del]

definition clonePrincipal :: "principal option \<Rightarrow> principal option" where
  "clonePrincipal p =
     (case p of
        None \<Rightarrow> None
      | Some p \<Rightarrow> Some (p\<lparr>Claims := map (\<lambda>(key, v). (key, cloneClaimValue v)) (Claims p)\<rparr>))"

text \<open>The request context carries one principal.\<close>

definition WithPrincipal :: "principal option \<Rightarrow> principal option" where
  "WithPrincipal p = clonePrincipal p"

definition PrincipalFromContext :: "principal option \<Rightarrow> principal option \<times> bool" where
  "PrincipalFromContext ctx =
     (case ctx of None \<Rightarrow> (None, False) | Some p \<Rightarrow> (clonePrincipal (Some p), True))"

lemma cloneClaimValue_id: "cloneClaimValue v = v"
proof (induction v rule: cloneClaimValue.induct)
  case (1 v)
  then show ?case
    by (subst cloneClaimValue.simps) (auto split: gany.split intro!: map_idI)
qed

lemma clonePrincipal_id [simp]: "clonePrincipal p = p"
proof -
  have "map (\<lambda>(key, v). (key, cloneClaimValue v)) cs = cs"
    for cs :: "(string \<times> gany) list"
    by (auto simp: cloneClaimValue_id intro!: map_idI)
  then show ?thesis by (cases p) (simp_all add: clonePrincipal_def)
qed

subsection \<open>Bearer tokens\<close>

definition ErrMissingCredentials :: err where
  "ErrMissingCredentials = ''auth: bearer credentials are required''"

definition ErrInvalidCredentials :: err where
  "ErrInvalidCredentials = ''auth: bearer credentials are invalid''"

definition bearerToken :: "header \<Rightarrow> string res" where
  "bearerToken h =
     (case Header_Values h ''Authorization'' of
        [] \<Rightarrow> Inl ErrMissingCredentials
      | [v] \<Rightarrow>
          (case Cut v CHR 0x20 of
             (scheme, token, ok) \<Rightarrow>
               if \<not> ok \<or> \<not> EqualFold scheme ''Bearer'' \<or> token = [] \<or>
                  ContainsAny token [CHR 0x20, CHR 0x09, CHR 0x0D, CHR 0x0A]
               then Inl ErrInvalidCredentials
               else Inr token)
      | _ \<Rightarrow> Inl ErrInvalidCredentials)"

definition token_shape :: "string \<Rightarrow> bool" where
  "token_shape t \<longleftrightarrow> t \<noteq> [] \<and> \<not> ContainsAny t [CHR 0x20, CHR 0x09, CHR 0x0D, CHR 0x0A]"

lemma EqualFold_Bearer_no_space:
  assumes "EqualFold s ''Bearer''"
  shows "CHR 0x20 \<notin> set s"
proof
  assume "CHR 0x20 \<in> set s"
  then have "lower_char CHR 0x20 \<in> set (ToLower s)" by (simp add: ToLower_def)
  also have "ToLower s = ''bearer''"
  proof -
    have "ToLower ''Bearer'' = ''bearer''" by code_simp
    with assms show ?thesis by (simp add: EqualFold_def)
  qed
  finally show False by (simp add: lower_char_def)
qed

lemma Cut_bearer:
  "(case Cut v CHR 0x20 of (scheme, token, ok) \<Rightarrow>
      if \<not> ok \<or> \<not> EqualFold scheme ''Bearer'' \<or> \<not> token_shape token then Inl e else Inr token) =
   Inr t \<longleftrightarrow> token_shape t \<and> (\<exists>scheme. EqualFold scheme ''Bearer'' \<and> v = scheme @ CHR 0x20 # t)"
  (is "?lhs = Inr t \<longleftrightarrow> ?rhs")
proof
  assume "?lhs = Inr t"
  then show ?rhs
    by (cases "Cut v CHR 0x20") (auto split: if_splits dest: Cut_foundD)
next
  assume ?rhs
  then show "?lhs = Inr t" by (auto simp: Cut_append EqualFold_Bearer_no_space)
qed

lemma bearerToken_iff:
  "bearerToken h = Inr t \<longleftrightarrow>
     token_shape t \<and>
     (\<exists>scheme. EqualFold scheme ''Bearer'' \<and>
        Header_Values h ''Authorization'' = [scheme @ CHR 0x20 # t])"
proof -
  consider "Header_Values h ''Authorization'' = []" | v where "Header_Values h ''Authorization'' = [v]"
    | u v w where "Header_Values h ''Authorization'' = u # v # w"
    by (metis list.exhaust)
  then show ?thesis
    using Cut_bearer [where e = ErrInvalidCredentials and t = t]
    by cases (simp_all add: bearerToken_def token_shape_def)
qed

subsection \<open>No authentication and the static bearer token\<close>

definition NewNoneAuthenticator :: "principal \<Rightarrow> principal res" where
  "NewNoneAuthenticator p =
     (if Subject p = [] \<or> ClientID p = [] then Inl ''auth: none: subject and client_id are required''
      else Inr (the (clonePrincipal (Some p))))"

definition None_Authenticate :: "principal \<Rightarrow> header \<Rightarrow> principal res" where
  "None_Authenticate a request = Inr (the (clonePrincipal (Some a)))"

record static_bearer =
  sb_tokenHash :: string
  sb_principal :: principal

definition NewStaticBearerAuthenticator ::
  "(string \<Rightarrow> string) \<Rightarrow> string \<Rightarrow> principal \<Rightarrow> static_bearer res" where
  "NewStaticBearerAuthenticator sha token p =
     (if length token < 32 then Inl ''auth: static bearer token must be at least 32 bytes''
      else if Subject p = [] \<or> ClientID p = []
      then Inl ''auth: static bearer subject and client_id are required''
      else Inr \<lparr>sb_tokenHash = sha token, sb_principal = the (clonePrincipal (Some p))\<rparr>)"

definition Static_Authenticate ::
  "(string \<Rightarrow> string) \<Rightarrow> static_bearer \<Rightarrow> header \<Rightarrow> principal res" where
  "Static_Authenticate sha a request =
     (case bearerToken request of
        Inl e \<Rightarrow> Inl e
      | Inr token \<Rightarrow>
          if sha token \<noteq> sb_tokenHash a then Inl ErrInvalidCredentials
          else Inr (the (clonePrincipal (Some (sb_principal a)))))"

subsection \<open>JSON Web Tokens\<close>

record jwt_config =
  jwt_Issuer :: string
  jwt_Audience :: string
  jwt_JWKSURI :: string
  jwt_ClientIDClaim :: string
  jwt_RolesClaim :: string
  jwt_ScopesClaim :: string
  jwt_AllowedMethods :: "string list"
  jwt_ClockSkew :: duration
  jwt_HTTPTimeout :: duration
  jwt_RefreshInterval :: duration

definition maxJWKSBytes :: nat where "maxJWKSBytes = 1024 * 1024"

text \<open>\<open>fetch\<close> gives an error, or the status and the body with the outcome of reading it.\<close>

definition preflightJWKS ::
  "(string \<Rightarrow> duration \<Rightarrow> (int \<times> string res) res) \<Rightarrow> (string \<Rightarrow> err option) \<Rightarrow>
   string \<Rightarrow> duration \<Rightarrow> err option" where
  "preflightJWKS fetch validJWKS uri timeout =
     (case fetch uri timeout of
        Inl e \<Rightarrow> Some (''auth: oidc: fetch JWKS: '' @ e)
      | Inr (status, body) \<Rightarrow>
          if status < 200 \<or> status \<ge> 300
          then Some (''auth: oidc: fetch JWKS: unexpected HTTP status '' @ Itoa status)
          else
            (case body of
               Inl e \<Rightarrow> Some (''auth: oidc: read JWKS: '' @ e)
             | Inr raw0 \<Rightarrow>
                 (let raw = take (maxJWKSBytes + 1) raw0
                  in if length raw > maxJWKSBytes
                     then Some (''auth: oidc: JWKS exceeds '' @ show_nat maxJWKSBytes @ '' bytes'')
                     else (case validJWKS raw of
                             Some e \<Rightarrow> Some (''auth: oidc: validate JWKS: '' @ e)
                           | None \<Rightarrow> None))))"

definition defaulted :: "string \<Rightarrow> string \<Rightarrow> string" where
  "defaulted v d = (if v = [] then d else v)"

definition jwt_defaults :: "jwt_config \<Rightarrow> jwt_config" where
  "jwt_defaults c =
     c\<lparr>jwt_ClientIDClaim := defaulted (jwt_ClientIDClaim c) ''client_id'',
       jwt_RolesClaim := defaulted (jwt_RolesClaim c) ''roles'',
       jwt_ScopesClaim := defaulted (jwt_ScopesClaim c) ''scope'',
       jwt_AllowedMethods :=
         (if jwt_AllowedMethods c = []
          then [''RS256'', ''RS384'', ''RS512'', ''ES256'', ''ES384'', ''ES512'', ''EdDSA'']
          else jwt_AllowedMethods c),
       jwt_HTTPTimeout := (if jwt_HTTPTimeout c \<le> 0 then seconds 5 else jwt_HTTPTimeout c),
       jwt_RefreshInterval :=
         (if jwt_RefreshInterval c \<le> 0 then seconds 300 else jwt_RefreshInterval c)\<rparr>"

text \<open>\<open>polls\<close> are the results of the key-set lookups until the readiness deadline.\<close>

definition NewJWTAuthenticator ::
  "(string \<Rightarrow> duration \<Rightarrow> (int \<times> string res) res) \<Rightarrow> (string \<Rightarrow> err option) \<Rightarrow>
   (jwt_config \<Rightarrow> err option) \<Rightarrow> bool list \<Rightarrow> jwt_config \<Rightarrow> jwt_config res" where
  "NewJWTAuthenticator fetch validJWKS keyfuncInit polls c =
     (if jwt_Issuer c = [] \<or> jwt_Audience c = [] \<or> jwt_JWKSURI c = []
      then Inl ''auth: oidc: issuer, audience, and jwks_uri are required''
      else if jwt_ClockSkew c < 0 then Inl ''auth: oidc: clock skew must be non-negative''
      else
        (let config = jwt_defaults c
         in case preflightJWKS fetch validJWKS (jwt_JWKSURI config) (jwt_HTTPTimeout config) of
              Some e \<Rightarrow> Inl e
            | None \<Rightarrow>
                (case keyfuncInit config of
                   Some e \<Rightarrow> Inl (''auth: oidc: initialize JWKS: '' @ e)
                 | None \<Rightarrow>
                     if list_ex (\<lambda>ready. ready) polls then Inr config
                     else Inl ''auth: oidc: JWKS cache did not become ready: context deadline exceeded'')))"

type_synonym claims = "(string \<times> gany) list"

definition stringClaim :: "claims \<Rightarrow> string \<Rightarrow> string \<times> bool" where
  "stringClaim claims name =
     (case map_of claims name of
        None \<Rightarrow> ([], False)
      | Some (AStr s) \<Rightarrow> (s, True)
      | Some _ \<Rightarrow> ([], False))"

fun dedup_from :: "string list \<Rightarrow> string list \<Rightarrow> string list" where
  "dedup_from seen [] = []"
| "dedup_from seen (v # vs) =
     (if v \<in> set seen then dedup_from seen vs else v # dedup_from (v # seen) vs)"

definition deduplicateStrings :: "string list \<Rightarrow> string list" where
  "deduplicateStrings vs = dedup_from [] vs"

fun string_items :: "gany list \<Rightarrow> string list res" where
  "string_items [] = Inr []"
| "string_items (item # items) =
     (case item of
        AStr s \<Rightarrow>
          if s = [] then Inl ''must contain only non-empty strings''
          else (case string_items items of Inl e \<Rightarrow> Inl e | Inr ss \<Rightarrow> Inr (s # ss))
      | _ \<Rightarrow> Inl ''must contain only non-empty strings'')"

definition stringListClaim :: "claims \<Rightarrow> string \<Rightarrow> bool \<Rightarrow> string list res" where
  "stringListClaim claims name splitSpaces =
     (case map_of claims name of
        None \<Rightarrow> Inr []
      | Some v \<Rightarrow>
          (case (case v of
                   AStr s \<Rightarrow>
                     Inr (if splitSpaces then Fields s else if s \<noteq> [] then [s] else [])
                 | AArr typed \<Rightarrow> string_items typed
                 | _ \<Rightarrow> Inl ''must be a string or string array'') of
             Inl e \<Rightarrow> Inl e
           | Inr vs \<Rightarrow> Inr (deduplicateStrings vs)))"

definition JWT_Authenticate ::
  "(jwt_config \<Rightarrow> string \<Rightarrow> claims option) \<Rightarrow> (claims \<Rightarrow> string option) \<Rightarrow>
   jwt_config \<Rightarrow> header \<Rightarrow> principal res" where
  "JWT_Authenticate verify getSubject a request =
     (case bearerToken request of
        Inl e \<Rightarrow> Inl e
      | Inr rawToken \<Rightarrow>
          (case verify a rawToken of
             None \<Rightarrow> Inl (ErrInvalidCredentials @ '': token validation failed'')
           | Some claims \<Rightarrow>
               (case getSubject claims of
                  None \<Rightarrow> Inl (ErrInvalidCredentials @ '': subject claim is required'')
                | Some subject \<Rightarrow>
                    if subject = []
                    then Inl (ErrInvalidCredentials @ '': subject claim is required'')
                    else
                      (case stringClaim claims (jwt_ClientIDClaim a) of
                         (clientID, ok) \<Rightarrow>
                           if \<not> ok \<or> clientID = []
                           then Inl (ErrInvalidCredentials @ '': client ID claim '' @
                                     Quote (jwt_ClientIDClaim a) @ '' is required'')
                           else
                             (case stringListClaim claims (jwt_RolesClaim a) False of
                                Inl e \<Rightarrow> Inl (ErrInvalidCredentials @ '': roles claim: '' @ e)
                              | Inr roles \<Rightarrow>
                                  (case stringListClaim claims (jwt_ScopesClaim a) True of
                                     Inl e \<Rightarrow> Inl (ErrInvalidCredentials @ '': scopes claim: '' @ e)
                                   | Inr scopes \<Rightarrow>
                                       Inr \<lparr>Subject = subject, ClientID = clientID,
                                            Issuer = jwt_Issuer a, Roles = roles,
                                            Scopes = scopes, Claims = []\<rparr>))))))"

subsection \<open>The interface the proxy relies on\<close>

text \<open>
  An authenticator in a well-formed state never lets a request through without an identity:
  a principal it returns has a subject and a client identifier.
\<close>

locale authenticator =
  fixes wf :: "'a \<Rightarrow> bool"
    and authenticate :: "'a \<Rightarrow> header \<Rightarrow> principal res"
  assumes identified:
    "\<lbrakk>wf a; authenticate a h = Inr p\<rbrakk> \<Longrightarrow> Subject p \<noteq> [] \<and> ClientID p \<noteq> []"
begin

lemma context_identified:
  assumes "wf a" and "authenticate a h = Inr p"
  shows "\<exists>q. PrincipalFromContext (WithPrincipal (Some p)) = (Some q, True) \<and>
     q = p \<and> Subject q \<noteq> [] \<and> ClientID q \<noteq> []"
  using identified [OF assms] by (simp add: PrincipalFromContext_def WithPrincipal_def)

end

definition identity_wf :: "principal \<Rightarrow> bool" where
  "identity_wf p \<longleftrightarrow> Subject p \<noteq> [] \<and> ClientID p \<noteq> []"

definition static_wf :: "static_bearer \<Rightarrow> bool" where
  "static_wf a \<longleftrightarrow> identity_wf (sb_principal a)"

lemma NewNone_wf: "NewNoneAuthenticator p = Inr a \<Longrightarrow> identity_wf a \<and> a = p"
  by (auto simp: NewNoneAuthenticator_def identity_wf_def split: if_splits)

lemma NewStatic_wf: "NewStaticBearerAuthenticator sha t p = Inr a \<Longrightarrow> static_wf a"
  by (auto simp: NewStaticBearerAuthenticator_def static_wf_def identity_wf_def split: if_splits)

lemma JWT_Authenticate_identified:
  "JWT_Authenticate verify getSubject a h = Inr p \<Longrightarrow> Subject p \<noteq> [] \<and> ClientID p \<noteq> []"
  by (auto simp: JWT_Authenticate_def split: sum.splits option.splits prod.splits if_splits)

interpretation none_auth: authenticator identity_wf None_Authenticate
  by unfold_locales (auto simp: None_Authenticate_def identity_wf_def)

interpretation static_auth: authenticator static_wf "Static_Authenticate sha" for sha
  by unfold_locales
    (auto simp: Static_Authenticate_def static_wf_def identity_wf_def split: sum.splits if_splits)

interpretation jwt_auth: authenticator "\<lambda>_. True" "JWT_Authenticate verify getSubject"
  for verify getSubject
  by unfold_locales (blast dest: JWT_Authenticate_identified)+

subsection \<open>Properties\<close>

text \<open>
  A static bearer authenticator accepts exactly the requests with one Authorization header
  consisting of the Bearer scheme in any case, one space and the configured token, and then
  gives the configured identity. It is assumed that no other token has the same SHA-256 hash.
\<close>
lemma static_bearer_exact:
  assumes new: "NewStaticBearerAuthenticator sha token p = Inr a"
    and no_collision: "\<And>t. sha t = sha token \<Longrightarrow> t = token"
  shows "Static_Authenticate sha a h = Inr q \<longleftrightarrow>
     q = p \<and> token_shape token \<and>
     (\<exists>scheme. EqualFold scheme ''Bearer'' \<and>
        Header_Values h ''Authorization'' = [scheme @ CHR 0x20 # token])"
proof -
  from new have a: "sb_tokenHash a = sha token" "sb_principal a = p"
    by (auto simp: NewStaticBearerAuthenticator_def split: if_splits)
  have "Static_Authenticate sha a h = Inr q \<longleftrightarrow> bearerToken h = Inr token \<and> q = p"
    using no_collision a by (auto simp: Static_Authenticate_def split: sum.splits if_splits)
  then show ?thesis by (auto simp: bearerToken_iff)
qed

lemma dedup_from_spec:
  "set (dedup_from seen vs) = set vs - set seen \<and> distinct (dedup_from seen vs)"
  by (induction seen vs rule: dedup_from.induct) auto

lemma string_items_nonempty: "string_items items = Inr ss \<Longrightarrow> [] \<notin> set ss"
  by (induction items arbitrary: ss) (auto split: gany.splits sum.splits if_splits)

lemma Fields_nonempty: "[] \<notin> set (Fields s)"
proof (induction s rule: Fields.induct)
  case (1 s)
  show ?case
  proof (cases "dropWhile is_space s")
    case Nil
    then show ?thesis by (subst Fields.simps) (simp add: Let_def)
  next
    case (Cons c t)
    then have "\<not> is_space c" by (metis hd_dropWhile list.distinct(1) list.sel(1))
    with Cons 1 show ?thesis by (subst Fields.simps) (simp add: Let_def)
  qed
qed

lemma deduplicateStrings_spec:
  "set (deduplicateStrings vs) = set vs" "distinct (deduplicateStrings vs)"
  using dedup_from_spec [of "[]" vs] by (simp_all add: deduplicateStrings_def)

lemma stringListClaim_wf:
  assumes "stringListClaim claims name split = Inr vs"
  shows "distinct vs \<and> [] \<notin> set vs"
proof -
  note d = deduplicateStrings_spec
  show ?thesis
  proof (cases "map_of claims name")
    case None
    with assms show ?thesis by (simp add: stringListClaim_def)
  next
    case (Some v)
    with assms show ?thesis
      using Fields_nonempty
      by (cases v)
        (auto simp: stringListClaim_def d split: sum.splits if_splits dest: string_items_nonempty)
  qed
qed

text \<open>
  C34: A JWT authenticator gives an identity only for a request with a well-shaped bearer token
  that the token library verified under the authenticator's own configuration. The identity's
  subject and client are non-empty claims of that token, its issuer is the configured one, and
  its roles and scopes are lists of distinct non-empty names.
\<close>
theorem jwt_identity:
  assumes "JWT_Authenticate verify getSubject a h = Inr p"
  shows "\<exists>token claims. bearerToken h = Inr token \<and> verify a token = Some claims \<and>
     getSubject claims = Some (Subject p) \<and> Subject p \<noteq> [] \<and>
     map_of claims (jwt_ClientIDClaim a) = Some (AStr (ClientID p)) \<and> ClientID p \<noteq> [] \<and>
     Issuer p = jwt_Issuer a \<and> Claims p = [] \<and>
     distinct (Roles p) \<and> [] \<notin> set (Roles p) \<and> distinct (Scopes p) \<and> [] \<notin> set (Scopes p)"
  using assms stringListClaim_wf
  by (fastforce simp: JWT_Authenticate_def stringClaim_def
      split: sum.splits option.splits prod.splits if_splits gany.splits)

theorem jwt_identity_witness:
  "\<exists>p. JWT_Authenticate
       (\<lambda>c t. Some [(''sub'', AStr ''s''), (''client_id'', AStr ''c''), (''scope'', AStr ''a b a'')])
       (\<lambda>cl. case map_of cl ''sub'' of Some (AStr s) \<Rightarrow> Some s | _ \<Rightarrow> None)
       \<lparr>jwt_Issuer = ''i'', jwt_Audience = ''x'', jwt_JWKSURI = ''u'',
        jwt_ClientIDClaim = ''client_id'', jwt_RolesClaim = ''roles'', jwt_ScopesClaim = ''scope'',
        jwt_AllowedMethods = [], jwt_ClockSkew = 0, jwt_HTTPTimeout = 1, jwt_RefreshInterval = 1\<rparr>
       [(''Authorization'', [''Bearer t''])] = Inr p \<and>
     Scopes p = [''a'', ''b''] \<and> distinct (Scopes p)"
  (is "\<exists>p. ?auth = Inr p \<and> _")
proof -
  have a: "?auth = Inr \<lparr>Subject = ''s'', ClientID = ''c'', Issuer = ''i'', Roles = [],
      Scopes = [''a'', ''b''], Claims = []\<rparr>"
    by code_simp
  from a jwt_identity [OF a] show ?thesis by auto
qed

end
