(* ===== verification/Go_Time.thy ===== *)
theory Go_Time
  imports Go_Base
begin

text \<open>
  Package \<open>time\<close>: the proleptic Gregorian calendar on instants counted in nanoseconds from Go's
  zero time (1 January of year 1, UTC), \<open>RFC3339Nano\<close> formatting and RFC 3339 parsing, duration
  to milliseconds, and truncation. The main fact is that parsing a formatted instant gives
  it back for the years 1 to 9999.
\<close>

subsection \<open>The calendar\<close>

definition is_leap :: "int \<Rightarrow> bool" where
  "is_leap y \<longleftrightarrow> y mod 4 = 0 \<and> (y mod 100 \<noteq> 0 \<or> y mod 400 = 0)"

definition days_before_year :: "int \<Rightarrow> int" where
  "days_before_year y = (let p = y - 1 in 365 * p + p div 4 - p div 100 + p div 400)"

text \<open>Year and day of the year (from 0) of a day number (from 0, the first day of year 1).\<close>

definition year_day :: "int \<Rightarrow> int \<times> int" where
  "year_day d =
     (let n400 = d div 146097; d1 = d mod 146097;
          n100 = min 3 (d1 div 36524); d2 = d1 - 36524 * n100;
          n4 = d2 div 1461; d3 = d2 mod 1461;
          n1 = min 3 (d3 div 365)
      in (400 * n400 + 100 * n100 + 4 * n4 + n1 + 1, d3 - 365 * n1))"

definition month_lengths :: "bool \<Rightarrow> int list" where
  "month_lengths leap = [31, if leap then 29 else 28, 31, 30, 31, 30, 31, 31, 30, 31, 30, 31]"

fun month_day :: "int \<Rightarrow> int list \<Rightarrow> int \<Rightarrow> int \<times> int" where
  "month_day m [] yd = (m, yd + 1)"
| "month_day m (l # ls) yd = (if yd < l then (m, yd + 1) else month_day (m + 1) ls (yd - l))"

definition days_before_month :: "bool \<Rightarrow> int \<Rightarrow> int" where
  "days_before_month leap m = sum_list (take (nat (m - 1)) (month_lengths leap))"

definition day_ns :: int where "day_ns = 86400000000000"

record civil =
  c_year :: int
  c_month :: int
  c_day :: int
  c_hour :: int
  c_min :: int
  c_sec :: int
  c_nano :: int

definition civil_of :: "go_time \<Rightarrow> civil" where
  "civil_of t =
     (case year_day (t div day_ns) of
        (y, yd) \<Rightarrow>
          (case month_day 1 (month_lengths (is_leap y)) yd of
             (m, d) \<Rightarrow>
               (let r = t mod day_ns
                in \<lparr>c_year = y, c_month = m, c_day = d, c_hour = r div 3600000000000,
                    c_min = r div 60000000000 mod 60, c_sec = r div 1000000000 mod 60,
                    c_nano = r mod 1000000000\<rparr>)))"

text \<open>\<open>time.Date\<close> in UTC, for fields in their usual ranges.\<close>

definition Date :: "civil \<Rightarrow> go_time" where
  "Date c =
     (days_before_year (c_year c) + days_before_month (is_leap (c_year c)) (c_month c) +
      (c_day c - 1)) * day_ns +
     c_hour c * 3600000000000 + c_min c * 60000000000 + c_sec c * 1000000000 + c_nano c"

definition Truncate_hour :: "go_time \<Rightarrow> go_time" where
  "Truncate_hour t = t - t mod 3600000000000"

definition Milliseconds :: "duration \<Rightarrow> int" where
  "Milliseconds d = (if d < 0 then - ((- d) div 1000000) else d div 1000000)"

subsection \<open>Formatting\<close>

text \<open>Decimal digits with leading zeros up to a width.\<close>

fun pad :: "nat \<Rightarrow> nat \<Rightarrow> string" where
  "pad 0 n = []"
| "pad (Suc w) n = pad w (n div 10) @ [char_of (48 + n mod 10)]"

definition pad_int :: "nat \<Rightarrow> int \<Rightarrow> string" where
  "pad_int w i = pad w (nat i)"

definition frac_nano :: "int \<Rightarrow> string" where
  "frac_nano n =
     (if n = 0 then [] else CHR ''.'' # TrimRightFunc (\<lambda>c. c = CHR ''0'') (pad_int 9 n))"

definition RFC3339Nano :: "go_time \<Rightarrow> string" where
  "RFC3339Nano t =
     (let c = civil_of t
      in pad_int 4 (c_year c) @ ''-'' @ pad_int 2 (c_month c) @ ''-'' @ pad_int 2 (c_day c) @ ''T'' @
         pad_int 2 (c_hour c) @ '':'' @ pad_int 2 (c_min c) @ '':'' @ pad_int 2 (c_sec c) @
         frac_nano (c_nano c) @ ''Z'')"

text \<open>The layout \<open>20060102T150405Z\<close> of archive names.\<close>

definition format_archive :: "go_time \<Rightarrow> string" where
  "format_archive t =
     (let c = civil_of t
      in pad_int 4 (c_year c) @ pad_int 2 (c_month c) @ pad_int 2 (c_day c) @ ''T'' @
         pad_int 2 (c_hour c) @ pad_int 2 (c_min c) @ pad_int 2 (c_sec c) @ ''Z'')"

subsection \<open>Parsing\<close>

definition num_at :: "nat \<Rightarrow> nat \<Rightarrow> string \<Rightarrow> int option" where
  "num_at i w s =
     (let ds = take w (drop i s)
      in if length ds = w \<and> list_all is_digit ds then Some (int (digits_value ds)) else None)"

definition lit_at :: "nat \<Rightarrow> char \<Rightarrow> string \<Rightarrow> bool" where
  "lit_at i c s \<longleftrightarrow> i < length s \<and> s ! i = c"

definition civil_ok :: "civil \<Rightarrow> bool" where
  "civil_ok c \<longleftrightarrow> 1 \<le> c_month c \<and> c_month c \<le> 12 \<and> 1 \<le> c_day c \<and>
     c_day c \<le> month_lengths (is_leap (c_year c)) ! nat (c_month c - 1) \<and>
     c_hour c \<le> 23 \<and> c_min c \<le> 59 \<and> c_sec c \<le> 59"

text \<open>A fraction is read to nanoseconds, further digits are dropped.\<close>

definition nano_of :: "string \<Rightarrow> int" where
  "nano_of ds = int (digits_value (take 9 (ds @ replicate 9 CHR ''0'')))"

definition parse_frac :: "string \<Rightarrow> (int \<times> string) option" where
  "parse_frac s =
     (if prefix ''.'' s then
        (let ds = takeWhile is_digit (tl s)
         in if ds = [] then None else Some (nano_of ds, dropWhile is_digit (tl s)))
      else Some (0, s))"

definition parse_zone :: "string \<Rightarrow> duration option" where
  "parse_zone s =
     (if s = ''Z'' then Some 0
      else if length s = 6 \<and> (lit_at 0 CHR ''+'' s \<or> lit_at 0 CHR ''-'' s) \<and> lit_at 3 CHR '':'' s then
        (case (num_at 1 2 s, num_at 4 2 s) of
           (Some h, Some m) \<Rightarrow>
             if h \<le> 23 \<and> m \<le> 59
             then Some ((if lit_at 0 CHR ''-'' s then - 1 else 1) * (h * 60 + m) * 60000000000)
             else None
         | _ \<Rightarrow> None)
      else None)"

definition parse_date :: "string \<Rightarrow> civil option" where
  "parse_date s =
     (if lit_at 4 CHR ''-'' s \<and> lit_at 7 CHR ''-'' s \<and> lit_at 10 CHR ''T'' s \<and>
         lit_at 13 CHR '':'' s \<and> lit_at 16 CHR '':'' s
      then
        (case (num_at 0 4 s, num_at 5 2 s, num_at 8 2 s, num_at 11 2 s, num_at 14 2 s, num_at 17 2 s) of
           (Some y, Some mo, Some d, Some h, Some mi, Some sec) \<Rightarrow>
             (let c = \<lparr>c_year = y, c_month = mo, c_day = d, c_hour = h, c_min = mi,
                       c_sec = sec, c_nano = 0\<rparr>
              in if civil_ok c then Some c else None)
         | _ \<Rightarrow> None)
      else None)"

definition ParseRFC3339 :: "string \<Rightarrow> go_time option" where
  "ParseRFC3339 s =
     (case parse_date s of
        None \<Rightarrow> None
      | Some c \<Rightarrow>
          (case parse_frac (drop 19 s) of
             None \<Rightarrow> None
           | Some (n, z) \<Rightarrow>
               (case parse_zone z of
                  None \<Rightarrow> None
                | Some off \<Rightarrow> Some (Date (c\<lparr>c_nano := n\<rparr>) - off))))"

definition parse_archive :: "string \<Rightarrow> go_time option" where
  "parse_archive s =
     (if length s = 16 \<and> lit_at 8 CHR ''T'' s \<and> lit_at 15 CHR ''Z'' s then
        (case (num_at 0 4 s, num_at 4 2 s, num_at 6 2 s, num_at 9 2 s, num_at 11 2 s, num_at 13 2 s) of
           (Some y, Some mo, Some d, Some h, Some mi, Some sec) \<Rightarrow>
             (let c = \<lparr>c_year = y, c_month = mo, c_day = d, c_hour = h, c_min = mi,
                       c_sec = sec, c_nano = 0\<rparr>
              in if civil_ok c then Some (Date c) else None)
         | _ \<Rightarrow> None)
      else None)"

subsection \<open>The calendar round trip\<close>

lemma year_day_split:
  assumes "year_day d = (y, yd)"
  obtains a b c e where "y = 400 * a + 100 * b + 4 * c + e + 1" "0 \<le> b" "b \<le> 3" "0 \<le> c" "c \<le> 24"
    "0 \<le> e" "e \<le> 3" "d = 146097 * a + 36524 * b + 1461 * c + 365 * e + yd" "0 \<le> yd"
    "yd \<le> 365" "yd = 365 \<longrightarrow> e = 3 \<and> (c \<noteq> 24 \<or> b = 3)"
proof -
  define a where "a = d div 146097"
  define d1 where "d1 = d mod 146097"
  define b where "b = min 3 (d1 div 36524)"
  define d2 where "d2 = d1 - 36524 * b"
  define c where "c = d2 div 1461"
  define d3 where "d3 = d2 mod 1461"
  define e where "e = min 3 (d3 div 365)"
  have d1: "0 \<le> d1" "d1 < 146097" "d = 146097 * a + d1" by (auto simp: d1_def a_def)
  have b: "0 \<le> b" "b \<le> 3" using d1 by (auto simp: b_def)
  have d2: "0 \<le> d2" "d2 \<le> 36524" "d2 = 36524 \<longrightarrow> b = 3"
    using d1 unfolding d2_def b_def by (auto simp: min_def)
  have c: "0 \<le> c" "c \<le> 24" "d2 = 1461 * c + d3" "0 \<le> d3" "d3 < 1461"
    using d2 by (auto simp: c_def d3_def)
  have e: "0 \<le> e" "e \<le> 3" using c by (auto simp: e_def)
  have yd: "0 \<le> d3 - 365 * e" "d3 - 365 * e \<le> 365" "d3 - 365 * e = 365 \<longrightarrow> e = 3"
    using c by (auto simp: e_def min_def)
  have lp: "d3 - 365 * e = 365 \<longrightarrow> c \<noteq> 24 \<or> b = 3" using yd c d2 by auto
  have "(y, yd) = (400 * a + 100 * b + 4 * c + e + 1, d3 - 365 * e)"
    using assms unfolding year_day_def Let_def a_def d1_def b_def d2_def c_def d3_def e_def by simp
  then show thesis
    using that [of a b c e] d1 b c e yd lp by (simp add: d2_def)
qed

lemma days_before_year_split:
  fixes a b c e :: int
  assumes "0 \<le> b" "b \<le> 3" "0 \<le> c" "c \<le> 24" "0 \<le> e" "e \<le> 3"
  shows "days_before_year (400 * a + 100 * b + 4 * c + e + 1) =
     146097 * a + 36524 * b + 1461 * c + 365 * e"
proof -
  have "(400 * a + 100 * b + 4 * c + e) div 400 = a"
    by (rule int_div_pos_eq [where r = "100 * b + 4 * c + e"]) (use assms in auto)
  moreover have "(400 * a + 100 * b + 4 * c + e) div 100 = 4 * a + b"
    by (rule int_div_pos_eq [where r = "4 * c + e"]) (use assms in auto)
  moreover have "(400 * a + 100 * b + 4 * c + e) div 4 = 100 * a + 25 * b + c"
    by (rule int_div_pos_eq [where r = e]) (use assms in auto)
  ultimately show ?thesis by (simp add: days_before_year_def Let_def)
qed

lemma is_leap_split:
  fixes a b c e :: int
  assumes "0 \<le> b" "b \<le> 3" "0 \<le> c" "c \<le> 24" "0 \<le> e" "e \<le> 3"
  shows "is_leap (400 * a + 100 * b + 4 * c + e + 1) \<longleftrightarrow> e = 3 \<and> (c \<noteq> 24 \<or> b = 3)"
proof -
  define k where "k = 4 * c + e + 1"
  have k: "1 \<le> k" "k \<le> 100" using assms by (auto simp: k_def)
  define Y where "Y = 400 * a + 100 * b + k"
  have m4: "Y mod 4 = 0 \<longleftrightarrow> e = 3"
  proof -
    have "Y = 4 * (100 * a + 25 * b + c) + (e + 1)" by (simp add: Y_def k_def)
    then have "Y mod 4 = (e + 1) mod 4" by (metis mod_mult_self4)
    moreover have "e \<in> {0, 1, 2, 3}" using assms by auto
    ultimately show ?thesis by auto
  qed
  have m100: "Y mod 100 = 0 \<longleftrightarrow> k = 100"
  proof -
    have "Y = 100 * (4 * a + b) + k" by (simp add: Y_def)
    then have "Y mod 100 = k mod 100" by (metis mod_mult_self4)
    then show ?thesis using k by (cases "k = 100") auto
  qed
  have m400: "Y mod 400 = 0 \<longleftrightarrow> 100 * b + k = 400"
  proof -
    have "Y = 400 * a + (100 * b + k)" by (simp add: Y_def)
    then have "Y mod 400 = (100 * b + k) mod 400" by (metis mod_mult_self4)
    then show ?thesis using k assms by (cases "100 * b + k = 400") auto
  qed
  have "k = 100 \<longleftrightarrow> c = 24 \<and> e = 3" using assms unfolding k_def by presburger
  moreover have "100 * b + k = 400 \<longleftrightarrow> b = 3 \<and> k = 100" using assms k by presburger
  ultimately have "is_leap Y \<longleftrightarrow> e = 3 \<and> (c \<noteq> 24 \<or> b = 3)"
    using m4 m100 m400 by (auto simp: is_leap_def)
  then show ?thesis by (simp add: Y_def k_def add.assoc)
qed

lemma year_day_inverse:
  assumes "year_day d = (y, yd)"
  shows "days_before_year y + yd = d" and "0 \<le> yd" and "yd < (if is_leap y then 366 else 365)"
proof -
  obtain a b c e where s: "y = 400 * a + 100 * b + 4 * c + e + 1" "0 \<le> b" "b \<le> 3" "0 \<le> c" "c \<le> 24"
    "0 \<le> e" "e \<le> 3" "d = 146097 * a + 36524 * b + 1461 * c + 365 * e + yd" "0 \<le> yd"
    "yd \<le> 365" "yd = 365 \<longrightarrow> e = 3 \<and> (c \<noteq> 24 \<or> b = 3)"
    by (rule year_day_split [OF assms])
  from days_before_year_split [OF s(2-7)] is_leap_split [OF s(2-7)] s
  show "days_before_year y + yd = d" "0 \<le> yd" "yd < (if is_leap y then 366 else 365)"
    by auto
qed

lemma month_day_inverse:
  assumes "0 \<le> yd" "yd < (if leap then 366 else 365)" and "month_day 1 (month_lengths leap) yd = (m, d)"
  shows "1 \<le> m" "m \<le> 12" "1 \<le> d" "d \<le> month_lengths leap ! nat (m - 1)"
    "days_before_month leap m + d - 1 = yd"
  using assms by (auto simp: month_lengths_def days_before_month_def split: if_splits)

lemma Date_civil_of: "Date (civil_of t) = t"
proof -
  obtain y yd where y: "year_day (t div day_ns) = (y, yd)" by fastforce
  obtain m d where m: "month_day 1 (month_lengths (is_leap y)) yd = (m, d)" by fastforce
  define r where "r = t mod day_ns"
  have "r = r div 3600000000000 * 3600000000000 + r div 60000000000 mod 60 * 60000000000 +
      r div 1000000000 mod 60 * 1000000000 + r mod 1000000000"
  proof -
    have "r div 1000000000 div 60 = r div 60000000000" "r div 60000000000 div 60 = r div 3600000000000"
      by (simp_all add: zdiv_zmult2_eq [symmetric])
    then show ?thesis
      using div_mult_mod_eq [of r 1000000000] div_mult_mod_eq [of "r div 1000000000" 60]
        div_mult_mod_eq [of "r div 60000000000" 60]
      by linarith
  qed
  moreover have "days_before_year y + days_before_month (is_leap y) m + (d - 1) = t div day_ns"
    using year_day_inverse [OF y] month_day_inverse(5) [OF _ _ m] by simp
  moreover have "t = t div day_ns * day_ns + r" by (simp add: r_def)
  ultimately show ?thesis
    by (simp add: Date_def civil_of_def y m Let_def flip: r_def)
qed

lemma civil_of_ok: "civil_ok (civil_of t)"
proof -
  obtain y yd where y: "year_day (t div day_ns) = (y, yd)" by fastforce
  obtain m d where m: "month_day 1 (month_lengths (is_leap y)) yd = (m, d)" by fastforce
  define r where "r = t mod day_ns"
  have "r < 86400000000000" "0 \<le> r" by (simp_all add: day_ns_def r_def)
  then have "r div 3600000000000 \<le> 23" by linarith
  moreover have "x mod 60 \<le> 59" for x :: int
    using pos_mod_bound [of 60 x] by linarith
  ultimately show ?thesis
    using month_day_inverse [OF year_day_inverse(2,3) [OF y] m]
    by (simp add: civil_ok_def civil_of_def y m Let_def flip: r_def)
qed

subsection \<open>The formatting round trip\<close>

lemma pad_length [simp]: "length (pad w n) = w"
  by (induction w arbitrary: n) auto

lemma pad_digits: "list_all is_digit (pad w n)"
proof (induction w arbitrary: n)
  case (Suc w)
  have "is_digit (char_of (48 + n mod 10))" by (simp add: is_digit_def of_char_of)
  with Suc show ?case by simp
qed simp

lemma digits_value_pad: "n < 10 ^ w \<Longrightarrow> digits_value (pad w n) = n"
proof (induction w arbitrary: n)
  case 0
  then show ?case by (simp add: digits_value_def)
next
  case (Suc w)
  have "digit_val (char_of (48 + n mod 10)) = n mod 10"
    by (simp add: digit_val_def of_char_of)
  moreover have "n div 10 < 10 ^ w" using Suc.prems by (simp add: less_mult_imp_div_less)
  ultimately show ?case using Suc.IH [of "n div 10"] by (simp add: digits_value_snoc)
qed

lemma num_at_pad:
  assumes "0 \<le> v" "v < 10 ^ w" and "length p = i"
  shows "num_at i w (p @ pad_int w v @ q) = Some v"
  using assms digits_value_pad [of "nat v" w] pad_digits [of w "nat v"]
  by (simp add: num_at_def pad_int_def nat_less_iff Let_def)

lemma trim_zeros_fill:
  assumes "length s \<le> k"
  shows "take k (TrimRightFunc (\<lambda>c. c = CHR ''0'') s @ replicate k CHR ''0'') =
     take k (s @ replicate k CHR ''0'')"
proof -
  let ?z = "\<lambda>c. c = CHR ''0''"
  have s: "s = TrimRightFunc ?z s @ rev (takeWhile ?z (rev s))"
    by (metis TrimRightFunc_def rev_append rev_rev_ident takeWhile_dropWhile_id)
  have "takeWhile ?z (rev s) = replicate (length (takeWhile ?z (rev s))) CHR ''0''"
    by (metis (full_types) replicate_length_same set_takeWhileD)
  then obtain n where n: "s = TrimRightFunc ?z s @ replicate n CHR ''0''"
    using s by (metis rev_replicate)
  then have "length s = length (TrimRightFunc ?z s) + n" by (metis length_append length_replicate)
  with assms show ?thesis
    by (subst (2) n) (auto simp: min_def simp flip: replicate_add)
qed

lemma nano_of_trim: "length s = 9 \<Longrightarrow> nano_of (TrimRightFunc (\<lambda>c. c = CHR ''0'') s) = int (digits_value s)"
  using trim_zeros_fill [of s 9] by (simp add: nano_of_def)

lemma parse_frac_nano:
  assumes "0 \<le> n" "n < 1000000000"
  shows "parse_frac (frac_nano n @ ''Z'') = Some (n, ''Z'')"
proof (cases "n = 0")
  case True
  then show ?thesis by (simp add: parse_frac_def frac_nano_def)
next
  case False
  let ?ds = "TrimRightFunc (\<lambda>c. c = CHR ''0'') (pad_int 9 n)"
  have v: "nano_of ?ds = n"
    using assms digits_value_pad [of "nat n" 9] nano_of_trim [of "pad_int 9 n"]
    by (simp add: pad_int_def nat_less_iff)
  have digits: "\<forall>c \<in> set ?ds. is_digit c"
    using pad_digits [of 9 "nat n"] TrimRightFunc_subset [of _ "pad_int 9 n"]
    by (auto simp: list_all_iff pad_int_def)
  have "?ds \<noteq> []"
  proof
    assume "?ds = []"
    then have "nano_of ?ds = nano_of []" by simp
    also have "\<dots> = 0" by code_simp
    finally show False using v False by simp
  qed
  moreover have "\<not> is_digit CHR ''Z''" by code_simp
  ultimately show ?thesis
    using False v digits
    by (simp add: parse_frac_def frac_nano_def Let_def takeWhile_append2 dropWhile_append2)
qed

definition format_range :: "go_time \<Rightarrow> bool" where
  "format_range t \<longleftrightarrow> 1 \<le> c_year (civil_of t) \<and> c_year (civil_of t) \<le> 9999"

lemma civil_of_bounds:
  "0 \<le> c_hour (civil_of t)" "0 \<le> c_min (civil_of t)" "0 \<le> c_sec (civil_of t)"
  "0 \<le> c_nano (civil_of t)" "c_nano (civil_of t) < 1000000000"
  by (simp_all add: civil_of_def Let_def day_ns_def split: prod.splits)

lemma month_length_le: "1 \<le> m \<Longrightarrow> m \<le> 12 \<Longrightarrow> month_lengths b ! nat (m - 1) \<le> 31"
proof -
  assume "1 \<le> m" "m \<le> 12"
  then have "nat (m - 1) < 12" by linarith
  moreover have "\<forall>k < 12. month_lengths b ! k \<le> 31"
    by (auto simp: month_lengths_def numeral_eq_Suc less_Suc_eq)
  ultimately show ?thesis by blast
qed

lemma ParseRFC3339_format:
  assumes "format_range t"
  shows "ParseRFC3339 (RFC3339Nano t) = Some t"
proof -
  let ?c = "civil_of t"
  note ok = civil_of_ok [of t]
  have day: "c_day ?c \<le> 31" "0 \<le> c_day ?c" "0 \<le> c_month ?c" "c_month ?c \<le> 12"
    using ok month_length_le [of "c_month ?c" "is_leap (c_year ?c)"] by (auto simp: civil_ok_def)
  have lens: "length (pad_int w v) = w" for w v by (simp add: pad_int_def)
  define Y where "Y = pad_int 4 (c_year ?c)"
  define M where "M = pad_int 2 (c_month ?c)"
  define D where "D = pad_int 2 (c_day ?c)"
  define h where "h = pad_int 2 (c_hour ?c)"
  define m where "m = pad_int 2 (c_min ?c)"
  define s where "s = pad_int 2 (c_sec ?c)"
  define z where "z = frac_nano (c_nano ?c) @ ''Z''"
  have l: "length Y = 4" "length M = 2" "length D = 2" "length h = 2" "length m = 2" "length s = 2"
    by (simp_all add: Y_def M_def D_def h_def m_def s_def lens)
  define w where "w = Y @ ''-'' @ M @ ''-'' @ D @ ''T'' @ h @ '':'' @ m @ '':'' @ s @ z"
  have f: "RFC3339Nano t = w"
    by (simp add: RFC3339Nano_def Let_def w_def Y_def M_def D_def h_def m_def s_def z_def)
  have "num_at 0 4 w = Some (c_year ?c)"
    using num_at_pad [of "c_year ?c" 4 "[]" 0] assms by (simp add: format_range_def w_def Y_def)
  moreover have "num_at 5 2 w = Some (c_month ?c)"
    using num_at_pad [of "c_month ?c" 2 "Y @ ''-''" 5] day l by (simp add: w_def M_def)
  moreover have "num_at 8 2 w = Some (c_day ?c)"
    using num_at_pad [of "c_day ?c" 2 "Y @ ''-'' @ M @ ''-''" 8] day l by (simp add: w_def D_def)
  moreover have "num_at 11 2 w = Some (c_hour ?c)"
    using num_at_pad [of "c_hour ?c" 2 "Y @ ''-'' @ M @ ''-'' @ D @ ''T''" 11] ok civil_of_bounds l
    by (simp add: w_def h_def civil_ok_def)
  moreover have "num_at 14 2 w = Some (c_min ?c)"
    using num_at_pad [of "c_min ?c" 2 "Y @ ''-'' @ M @ ''-'' @ D @ ''T'' @ h @ '':''" 14] ok
      civil_of_bounds l
    by (simp add: w_def m_def civil_ok_def)
  moreover have "num_at 17 2 w = Some (c_sec ?c)"
    using num_at_pad [of "c_sec ?c" 2 "Y @ ''-'' @ M @ ''-'' @ D @ ''T'' @ h @ '':'' @ m @ '':''" 17]
      ok civil_of_bounds l
    by (simp add: w_def s_def civil_ok_def)
  moreover have "lit_at 4 CHR ''-'' w" "lit_at 7 CHR ''-'' w" "lit_at 10 CHR ''T'' w"
      "lit_at 13 CHR '':'' w" "lit_at 16 CHR '':'' w" "drop 19 w = z"
    using l by (simp_all add: lit_at_def w_def nth_append)
  ultimately have "parse_date w = Some (?c\<lparr>c_nano := 0\<rparr>)" "drop 19 w = z"
    using ok by (simp_all add: parse_date_def Let_def civil_ok_def)
  then show ?thesis
    using parse_frac_nano [OF civil_of_bounds(4,5), of t] Date_civil_of [of t]
    by (simp add: f ParseRFC3339_def z_def parse_zone_def)
qed

lemma RFC3339Nano_inj: "\<lbrakk>format_range t; format_range u; RFC3339Nano t = RFC3339Nano u\<rbrakk> \<Longrightarrow> t = u"
  by (metis ParseRFC3339_format option.inject)

end
