(* ===== verification/Audit_Entry.thy ===== *)
theory Audit_Entry
  imports Go_Time Go_Http Complex_Main "HOL-Library.Product_Lexorder" "HOL-Library.Multiset"
begin

text \<open>
  The data of \<open>internal/audit\<close> (\<open>logger.go\<close>): entries with their JSON form (encoding with
  \<open>omitempty\<close>, compaction of raw messages, decoding), outcomes and failure classes, equality of
  stored representations, filters, the newest-first limit and the dashboard statistics.

  Field names carry the prefix \<open>e_\<close>. The share of failed operations is the exact quotient: the
  rounding of \<open>float64\<close> is not modelled. A location is its offset from UTC.
\<close>

definition arrow :: string where "arrow = [CHR 0xE2, CHR 0x86, CHR 0x92]"
definition DirectionClientToServer :: string where
  "DirectionClientToServer = ''client'' @ arrow @ ''server''"
definition DirectionServerToClient :: string where
  "DirectionServerToClient = ''server'' @ arrow @ ''client''"

definition OutcomeSuccess :: string where "OutcomeSuccess = ''success''"
definition OutcomeDenied :: string where "OutcomeDenied = ''denied''"
definition OutcomeRateLimited :: string where "OutcomeRateLimited = ''rate_limited''"
definition OutcomeUpstreamError :: string where "OutcomeUpstreamError = ''upstream_error''"
definition OutcomeTimeout :: string where "OutcomeTimeout = ''timeout''"
definition OutcomeClientDisconnect :: string where "OutcomeClientDisconnect = ''client_disconnect''"
definition OutcomeMalformedUpstreamResponse :: string where
  "OutcomeMalformedUpstreamResponse = ''malformed_upstream_response''"
definition OutcomeCancelled :: string where "OutcomeCancelled = ''cancelled''"
definition OutcomeInternalError :: string where "OutcomeInternalError = ''internal_error''"

lemmas outcome_defs =
  OutcomeSuccess_def OutcomeDenied_def OutcomeRateLimited_def OutcomeUpstreamError_def
  OutcomeTimeout_def OutcomeClientDisconnect_def OutcomeMalformedUpstreamResponse_def
  OutcomeCancelled_def OutcomeInternalError_def

definition Outcome_Valid :: "string \<Rightarrow> bool" where
  "Outcome_Valid oc \<longleftrightarrow>
     oc \<in> set [OutcomeSuccess, OutcomeDenied, OutcomeRateLimited, OutcomeUpstreamError,
               OutcomeTimeout, OutcomeClientDisconnect, OutcomeMalformedUpstreamResponse,
               OutcomeCancelled, OutcomeInternalError]"

subsection \<open>Entries\<close>

record rpc_error =
  err_Code :: int
  err_Message :: string
  err_Data :: string

record audit_principal =
  ap_Subject :: string
  ap_ClientID :: string
  ap_Issuer :: string

record policy_evidence =
  pe_Decision :: string
  pe_RuleID :: string

record integrity_metadata =
  im_Version :: int
  im_Algorithm :: string
  im_KeyID :: string
  im_Signature :: string

record entry =
  e_ID :: string
  e_Timestamp :: go_time
  e_AuditOperationID :: string
  e_Outcome :: string
  e_Direction :: string
  e_Transport :: string
  e_Method :: string
  e_RequestID :: string
  e_MCPName :: string
  e_ToolName :: string
  e_Params :: string
  e_Result :: string
  e_Error :: "rpc_error option"
  e_DurationMs :: int
  e_ClientID :: string
  e_ServerID :: string
  e_Principal :: "audit_principal option"
  e_Policy :: "policy_evidence option"
  e_Signature :: string
  e_Integrity :: "integrity_metadata option"

definition zero_entry :: entry where
  "zero_entry =
     \<lparr>e_ID = [], e_Timestamp = 0, e_AuditOperationID = [], e_Outcome = [], e_Direction = [],
      e_Transport = [], e_Method = [], e_RequestID = [], e_MCPName = [], e_ToolName = [],
      e_Params = [], e_Result = [], e_Error = None, e_DurationMs = 0, e_ClientID = [],
      e_ServerID = [], e_Principal = None, e_Policy = None, e_Signature = [], e_Integrity = None\<rparr>"

subsection \<open>Encoding\<close>

text \<open>\<open>json.Marshal\<close> of a raw message: the text must be JSON; it is compacted and HTML-escaped.\<close>

fun html_escape :: "string \<Rightarrow> string" where
  "html_escape [] = []"
| "html_escape (c # cs) =
     (if c = CHR ''<'' \<or> c = CHR ''>'' \<or> c = CHR ''&'' then u_escape (of_char c) @ html_escape cs
      else if prefix [CHR 0xE2, CHR 0x80, CHR 0xA8] (c # cs) then u_escape 0x2028 @ html_escape (drop 2 cs)
      else if prefix [CHR 0xE2, CHR 0x80, CHR 0xA9] (c # cs) then u_escape 0x2029 @ html_escape (drop 2 cs)
      else c # html_escape cs)"

definition tok_text :: "tok \<Rightarrow> string" where
  "tok_text t =
     (case t of TPunct c \<Rightarrow> [c] | TLit raw v \<Rightarrow> raw | TStr raw s \<Rightarrow> html_escape raw | TWs c \<Rightarrow> [])"

definition marshal_raw :: "string \<Rightarrow> string option" where
  "marshal_raw s =
     (case parse_json s of
        None \<Rightarrow> None
      | Some _ \<Rightarrow> map_option (\<lambda>ts. concat (map tok_text ts)) (lex s))"

definition marshal_time :: "go_time \<Rightarrow> string option" where
  "marshal_time t =
     (if 0 \<le> c_year (civil_of t) \<and> c_year (civil_of t) \<le> 9999
      then Some (quote_string (RFC3339Nano t)) else None)"

text \<open>
  A member is present with a text, absent by \<open>omitempty\<close>, or not encodable; an object with a
  member that cannot be encoded cannot be encoded.
\<close>

datatype member = Present string | Omitted | Failed

definition str_member :: "string \<Rightarrow> member" where
  "str_member s = Present (quote_string s)"

definition str_omit :: "string \<Rightarrow> member" where
  "str_omit s = (if s = [] then Omitted else Present (quote_string s))"

definition opt_member :: "string option \<Rightarrow> member" where
  "opt_member x = (case x of None \<Rightarrow> Failed | Some s \<Rightarrow> Present s)"

definition raw_omit :: "string \<Rightarrow> member" where
  "raw_omit s = (if s = [] then Omitted else opt_member (marshal_raw s))"

definition ptr_omit :: "('a \<Rightarrow> string option) \<Rightarrow> 'a option \<Rightarrow> member" where
  "ptr_omit f p = (case p of None \<Rightarrow> Omitted | Some x \<Rightarrow> opt_member (f x))"

definition marshal_members_of :: "(string \<times> member) list \<Rightarrow> string option" where
  "marshal_members_of ms =
     (if list_ex (\<lambda>(k, m). m = Failed) ms then None
      else Some (marshal_struct
        (concat (map (\<lambda>(k, m). case m of Present t \<Rightarrow> [(k, t)] | _ \<Rightarrow> []) ms))))"

definition marshal_rpc_error :: "rpc_error \<Rightarrow> string option" where
  "marshal_rpc_error e = marshal_members_of
     [(''code'', Present (Itoa (err_Code e))), (''message'', str_member (err_Message e)),
      (''data'', raw_omit (err_Data e))]"

definition marshal_principal :: "audit_principal \<Rightarrow> string option" where
  "marshal_principal p = marshal_members_of
     [(''subject'', str_member (ap_Subject p)), (''client_id'', str_member (ap_ClientID p)),
      (''issuer'', str_member (ap_Issuer p))]"

definition marshal_policy :: "policy_evidence \<Rightarrow> string option" where
  "marshal_policy p = marshal_members_of
     [(''decision'', str_member (pe_Decision p)), (''rule_id'', str_omit (pe_RuleID p))]"

definition marshal_metadata :: "integrity_metadata \<Rightarrow> string option" where
  "marshal_metadata m = marshal_members_of
     [(''version'', Present (Itoa (im_Version m))), (''algorithm'', str_member (im_Algorithm m)),
      (''key_id'', str_member (im_KeyID m)), (''signature'', str_member (im_Signature m))]"

definition marshal_entry :: "entry \<Rightarrow> string option" where
  "marshal_entry e = marshal_members_of
     [(''id'', str_member (e_ID e)), (''timestamp'', opt_member (marshal_time (e_Timestamp e))),
      (''audit_operation_id'', str_omit (e_AuditOperationID e)),
      (''outcome'', str_omit (e_Outcome e)), (''direction'', str_member (e_Direction e)),
      (''transport'', str_member (e_Transport e)), (''method'', str_member (e_Method e)),
      (''request_id'', str_omit (e_RequestID e)), (''mcp_name'', str_omit (e_MCPName e)),
      (''tool_name'', str_omit (e_ToolName e)), (''params'', raw_omit (e_Params e)),
      (''result'', raw_omit (e_Result e)), (''error'', ptr_omit marshal_rpc_error (e_Error e)),
      (''duration_ms'', Present (Itoa (e_DurationMs e))), (''client_id'', str_member (e_ClientID e)),
      (''server_id'', str_member (e_ServerID e)),
      (''principal'', ptr_omit marshal_principal (e_Principal e)),
      (''policy'', ptr_omit marshal_policy (e_Policy e)),
      (''signature'', str_member (e_Signature e)),
      (''integrity'', ptr_omit marshal_metadata (e_Integrity e))]"

definition EqualEntries :: "entry \<Rightarrow> entry \<Rightarrow> bool" where
  "EqualEntries a b \<longleftrightarrow>
     (case marshal_entry a of
        None \<Rightarrow> False
      | Some x \<Rightarrow> (case marshal_entry b of None \<Rightarrow> False | Some y \<Rightarrow> x = y))"

subsection \<open>Decoding\<close>

definition dec_time :: "go_time dec" where
  "dec_time raw v old =
     (case v of
        JNull \<Rightarrow> (old, False)
      | JStr s \<Rightarrow>
          (case ParseRFC3339 (butlast (tl raw)) of Some t \<Rightarrow> (t, False) | None \<Rightarrow> (old, True))
      | _ \<Rightarrow> (old, True))"

definition rpc_error_fields :: "(string \<times> rpc_error dec) list" where
  "rpc_error_fields =
     [(''code'', dec_field err_Code err_Code_update dec_int),
      (''message'', dec_field err_Message err_Message_update dec_string),
      (''data'', dec_field err_Data err_Data_update dec_raw)]"

definition zero_rpc_error :: rpc_error where
  "zero_rpc_error = \<lparr>err_Code = 0, err_Message = [], err_Data = []\<rparr>"

definition principal_fields :: "(string \<times> audit_principal dec) list" where
  "principal_fields =
     [(''subject'', dec_field ap_Subject ap_Subject_update dec_string),
      (''client_id'', dec_field ap_ClientID ap_ClientID_update dec_string),
      (''issuer'', dec_field ap_Issuer ap_Issuer_update dec_string)]"

definition zero_principal :: audit_principal where
  "zero_principal = \<lparr>ap_Subject = [], ap_ClientID = [], ap_Issuer = []\<rparr>"

definition policy_fields :: "(string \<times> policy_evidence dec) list" where
  "policy_fields =
     [(''decision'', dec_field pe_Decision pe_Decision_update dec_string),
      (''rule_id'', dec_field pe_RuleID pe_RuleID_update dec_string)]"

definition zero_policy :: policy_evidence where
  "zero_policy = \<lparr>pe_Decision = [], pe_RuleID = []\<rparr>"

definition metadata_fields :: "(string \<times> integrity_metadata dec) list" where
  "metadata_fields =
     [(''version'', dec_field im_Version im_Version_update dec_int),
      (''algorithm'', dec_field im_Algorithm im_Algorithm_update dec_string),
      (''key_id'', dec_field im_KeyID im_KeyID_update dec_string),
      (''signature'', dec_field im_Signature im_Signature_update dec_string)]"

definition zero_metadata :: integrity_metadata where
  "zero_metadata = \<lparr>im_Version = 0, im_Algorithm = [], im_KeyID = [], im_Signature = []\<rparr>"

definition dec_rpc_error :: "rpc_error option dec" where
  "dec_rpc_error = dec_ptr zero_rpc_error (dec_struct rpc_error_fields)"

definition dec_principal :: "audit_principal option dec" where
  "dec_principal = dec_ptr zero_principal (dec_struct principal_fields)"

definition dec_policy :: "policy_evidence option dec" where
  "dec_policy = dec_ptr zero_policy (dec_struct policy_fields)"

definition dec_metadata :: "integrity_metadata option dec" where
  "dec_metadata = dec_ptr zero_metadata (dec_struct metadata_fields)"

definition entry_fields :: "(string \<times> entry dec) list" where
  "entry_fields =
     [(''id'', dec_field e_ID e_ID_update dec_string),
      (''timestamp'', dec_field e_Timestamp e_Timestamp_update dec_time),
      (''audit_operation_id'', dec_field e_AuditOperationID e_AuditOperationID_update dec_string),
      (''outcome'', dec_field e_Outcome e_Outcome_update dec_string),
      (''direction'', dec_field e_Direction e_Direction_update dec_string),
      (''transport'', dec_field e_Transport e_Transport_update dec_string),
      (''method'', dec_field e_Method e_Method_update dec_string),
      (''request_id'', dec_field e_RequestID e_RequestID_update dec_string),
      (''mcp_name'', dec_field e_MCPName e_MCPName_update dec_string),
      (''tool_name'', dec_field e_ToolName e_ToolName_update dec_string),
      (''params'', dec_field e_Params e_Params_update dec_raw),
      (''result'', dec_field e_Result e_Result_update dec_raw),
      (''error'', dec_field e_Error e_Error_update dec_rpc_error),
      (''duration_ms'', dec_field e_DurationMs e_DurationMs_update dec_int),
      (''client_id'', dec_field e_ClientID e_ClientID_update dec_string),
      (''server_id'', dec_field e_ServerID e_ServerID_update dec_string),
      (''principal'', dec_field e_Principal e_Principal_update dec_principal),
      (''policy'', dec_field e_Policy e_Policy_update dec_policy),
      (''signature'', dec_field e_Signature e_Signature_update dec_string),
      (''integrity'', dec_field e_Integrity e_Integrity_update dec_metadata)]"

definition unmarshal_entry :: "string \<Rightarrow> entry option" where
  "unmarshal_entry s = Unmarshal (dec_struct entry_fields) zero_entry s"

subsection \<open>Failure classes\<close>

definition isError_fields :: "(string \<times> bool dec) list" where
  "isError_fields = [(''isError'', dec_bool)]"

definition FailureType :: "entry \<Rightarrow> string" where
  "FailureType e =
     (if e_Error e \<noteq> None then ''rpc_error''
      else if Outcome_Valid (e_Outcome e) \<and> e_Outcome e \<noteq> OutcomeSuccess then e_Outcome e
      else if Unmarshal (dec_struct isError_fields) False (e_Result e) = Some True then ''tool_error''
      else [])"

subsection \<open>Filters and the newest entries\<close>

record query_filter =
  qf_Method :: string
  qf_ToolName :: string
  qf_ClientID :: string
  qf_From :: go_time
  qf_To :: go_time
  qf_Limit :: int

definition MatchFilter :: "entry \<Rightarrow> query_filter \<Rightarrow> bool" where
  "MatchFilter e f =
     (if qf_Method f \<noteq> [] \<and> e_Method e \<noteq> qf_Method f then False
      else if qf_ToolName f \<noteq> [] \<and> e_ToolName e \<noteq> qf_ToolName f then False
      else if qf_ClientID f \<noteq> [] \<and> e_ClientID e \<noteq> qf_ClientID f then False
      else if \<not> IsZero (qf_From f) \<and> e_Timestamp e < qf_From f then False
      else if \<not> IsZero (qf_To f) \<and> e_Timestamp e > qf_To f then False
      else True)"

text \<open>\<open>sort.SliceStable\<close> by decreasing timestamp.\<close>

definition LimitNewest :: "entry list \<Rightarrow> int \<Rightarrow> entry list" where
  "LimitNewest entries limit =
     (let sorted = sort_key (\<lambda>e. - e_Timestamp e) entries;
          l = (if limit \<le> 0 then 100 else limit)
      in if int (length sorted) > l then take (nat l) sorted else sorted)"

subsection \<open>Statistics\<close>

record tool_stat =
  ts_Name :: string
  ts_Count :: int

record stats =
  st_TotalToday :: int
  st_ErrorRate :: rat
  st_TopTools :: "tool_stat list"

record stats_accumulator =
  sa_start :: go_time
  sa_end :: go_time
  sa_today :: int
  sa_total :: int
  sa_errors :: int
  sa_toolCounts :: "(string \<times> int) list"

definition NewStatsAccumulator :: "duration \<Rightarrow> go_time \<Rightarrow> stats_accumulator" where
  "NewStatsAccumulator offset now =
     (let start = now - (now + offset) mod day_ns
      in \<lparr>sa_start = start, sa_end = start + day_ns, sa_today = 0, sa_total = 0, sa_errors = 0,
          sa_toolCounts = []\<rparr>)"

definition count_of :: "(string \<times> int) list \<Rightarrow> string \<Rightarrow> int" where
  "count_of m k = (case map_of m k of None \<Rightarrow> 0 | Some n \<Rightarrow> n)"

definition Stats_Add :: "entry \<Rightarrow> stats_accumulator \<Rightarrow> stats_accumulator" where
  "Stats_Add e s =
     (if e_Outcome e = [] \<and> e_Direction e \<noteq> DirectionClientToServer then s
      else
        s\<lparr>sa_total := sa_total s + 1,
          sa_errors := (if FailureType e \<noteq> [] then sa_errors s + 1 else sa_errors s),
          sa_today := (if \<not> e_Timestamp e < sa_start s \<and> e_Timestamp e < sa_end s
                       then sa_today s + 1 else sa_today s),
          sa_toolCounts :=
            (if e_ToolName e \<noteq> []
             then map_put (e_ToolName e) (count_of (sa_toolCounts s) (e_ToolName e) + 1)
                    (sa_toolCounts s)
             else sa_toolCounts s)\<rparr>)"

definition Stats_Stats :: "stats_accumulator \<Rightarrow> stats" where
  "Stats_Stats s =
     (let tools = map (\<lambda>(n, c). \<lparr>ts_Name = n, ts_Count = c\<rparr>) (sa_toolCounts s);
          sorted = sort_key (\<lambda>t. (- ts_Count t, ts_Name t)) tools
      in \<lparr>st_TotalToday = sa_today s,
          st_ErrorRate = (if sa_total s > 0 then of_int (sa_errors s) / of_int (sa_total s) else 0),
          st_TopTools = (if length sorted > 5 then take 5 sorted else sorted)\<rparr>)"

definition BuildStats :: "duration \<Rightarrow> go_time \<Rightarrow> entry list \<Rightarrow> stats" where
  "BuildStats offset now entries = Stats_Stats (fold Stats_Add entries (NewStatsAccumulator offset now))"

subsection \<open>Properties of the query helpers\<close>

lemma sort_newest: "sorted_wrt (\<lambda>a b. e_Timestamp b \<le> e_Timestamp a) (sort_key (\<lambda>e. - e_Timestamp e) es)"
  using sorted_sort_key [of "\<lambda>e. - e_Timestamp e" es] by (simp add: sorted_map)

text \<open>
  The newest-first limit returns at most the limit (100 when it is not positive) entries of
  the input, all of them when there are no more, in order of decreasing timestamp, and no entry
  that was left out is newer than one that was returned.
\<close>
lemma LimitNewest_newest:
  "\<exists>rest. mset entries = mset (LimitNewest entries limit) + mset rest \<and>
     length (LimitNewest entries limit) =
       min (length entries) (nat (if limit \<le> 0 then 100 else limit)) \<and>
     sorted_wrt (\<lambda>a b. e_Timestamp b \<le> e_Timestamp a) (LimitNewest entries limit) \<and>
     list_all (\<lambda>r. list_all (\<lambda>k. e_Timestamp r \<le> e_Timestamp k) (LimitNewest entries limit)) rest"
proof -
  define s where "s = sort_key (\<lambda>e. - e_Timestamp e) entries"
  define l where "l = nat (if limit \<le> 0 then 100 else limit)"
  have L: "LimitNewest entries limit = take l s"
    by (auto simp: LimitNewest_def Let_def s_def l_def)
  have s: "sorted_wrt (\<lambda>a b. e_Timestamp b \<le> e_Timestamp a) (take l s @ drop l s)"
    using sort_newest by (simp add: s_def)
  have "mset entries = mset (take l s) + mset (drop l s)"
    by (simp add: s_def flip: mset_append)
  with s show ?thesis
    unfolding sorted_wrt_append
    by (intro exI [of _ "drop l s"]) (auto simp: L l_def [symmetric] s_def list_all_iff min_def)
qed

lemma Outcome_Valid_nonempty: "Outcome_Valid oc \<Longrightarrow> oc \<noteq> []"
  by (auto simp: Outcome_Valid_def outcome_defs)

text \<open>Entries the statistics count: terminal ones, and client requests without an outcome.\<close>

definition counted :: "entry \<Rightarrow> bool" where
  "counted e \<longleftrightarrow> e_Outcome e \<noteq> [] \<or> e_Direction e = DirectionClientToServer"

definition count_if :: "('a \<Rightarrow> bool) \<Rightarrow> 'a list \<Rightarrow> int" where
  "count_if p xs = int (length (filter p xs))"

lemma count_if_Cons [simp]: "count_if p (x # xs) = (if p x then 1 else 0) + count_if p xs"
  by (simp add: count_if_def)

lemma count_if_Nil [simp]: "count_if p [] = 0"
  by (simp add: count_if_def)

lemma count_if_mono: "(\<And>x. p x \<Longrightarrow> q x) \<Longrightarrow> count_if p xs \<le> count_if q xs"
  by (induction xs) auto

lemma count_if_nonneg [simp]: "0 \<le> count_if p xs"
  by (simp add: count_if_def)

lemma fold_Stats_Add:
  defines "acc es s \<equiv> fold Stats_Add es s"
  assumes "sorted (map fst (sa_toolCounts s))" "distinct (map fst (sa_toolCounts s))"
  shows "sa_total (acc es s) = sa_total s + count_if counted es"
    and "sa_errors (acc es s) = sa_errors s + count_if (\<lambda>e. counted e \<and> FailureType e \<noteq> []) es"
    and "sa_today (acc es s) = sa_today s +
      count_if (\<lambda>e. counted e \<and> sa_start s \<le> e_Timestamp e \<and> e_Timestamp e < sa_end s) es"
    and "sorted (map fst (sa_toolCounts (acc es s))) \<and> distinct (map fst (sa_toolCounts (acc es s)))"
    and "count_of (sa_toolCounts (acc es s)) n = count_of (sa_toolCounts s) n +
      count_if (\<lambda>e. counted e \<and> n \<noteq> [] \<and> e_ToolName e = n) es"
    and "[] \<notin> set (map fst (sa_toolCounts s)) \<Longrightarrow> [] \<notin> set (map fst (sa_toolCounts (acc es s)))"
  using assms(2,3) unfolding acc_def
  by (induction es arbitrary: s)
    (auto simp: Stats_Add_def counted_def map_put_sorted count_of_def set_map_put_fst
      simp del: set_map)

text \<open>
  The dashboard statistics count what they say. Over the counted entries: the number of
  today's, the share with a failure class (between 0 and 1), and at most five tools, each with
  its exact number of entries, ordered by decreasing count and then by name.
\<close>
lemma BuildStats_exact:
  fixes es :: "entry list" and offset now :: int
  defines "day \<equiv> \<lambda>e. (let start = now - (now + offset) mod day_ns
                     in start \<le> e_Timestamp e \<and> e_Timestamp e < start + day_ns)"
    and "n \<equiv> count_if counted es"
    and "r \<equiv> BuildStats offset now es"
  shows "st_TotalToday r = count_if (\<lambda>e. counted e \<and> day e) es \<and>
     st_ErrorRate r = (if n > 0
       then of_int (count_if (\<lambda>e. counted e \<and> FailureType e \<noteq> []) es) / of_int n else 0) \<and>
     0 \<le> st_ErrorRate r \<and> st_ErrorRate r \<le> 1 \<and>
     length (st_TopTools r) \<le> 5 \<and>
     sorted_wrt (\<lambda>a b. (- ts_Count a, ts_Name a) \<le> (- ts_Count b, ts_Name b)) (st_TopTools r) \<and>
     list_all (\<lambda>t. ts_Name t \<noteq> [] \<and>
       ts_Count t = count_if (\<lambda>e. counted e \<and> e_ToolName e = ts_Name t) es) (st_TopTools r)"
proof -
  define s where "s = fold Stats_Add es (NewStatsAccumulator offset now)"
  note f = fold_Stats_Add [of "NewStatsAccumulator offset now" es, folded s_def]
  define tools where "tools = map (\<lambda>(n, c). \<lparr>ts_Name = n, ts_Count = c\<rparr>) (sa_toolCounts s)"
  define srt where "srt = sort_key (\<lambda>t. (- ts_Count t, ts_Name t)) tools"
  have r: "r = Stats_Stats s" by (simp add: r_def BuildStats_def s_def)
  have top: "st_TopTools r = take 5 srt"
    by (simp add: r Stats_Stats_def Let_def srt_def tools_def)
  have sorted: "sorted_wrt (\<lambda>a b. (- ts_Count a, ts_Name a) \<le> (- ts_Count b, ts_Name b)) srt"
    using sorted_sort_key [of "\<lambda>t. (- ts_Count t, ts_Name t)" tools]
    unfolding srt_def sorted_map .
  have counts: "ts_Name t \<noteq> [] \<and>
      ts_Count t = count_if (\<lambda>e. counted e \<and> e_ToolName e = ts_Name t) es"
    if "t \<in> set (take 5 srt)" for t
  proof -
    have "t \<in> set tools" using that by (auto simp: srt_def dest: in_set_takeD)
    then have m: "(ts_Name t, ts_Count t) \<in> set (sa_toolCounts s)"
      by (auto simp: tools_def)
    moreover have "distinct (map fst (sa_toolCounts s))" "[] \<notin> set (map fst (sa_toolCounts s))"
      using f(4,6) by (simp_all add: NewStatsAccumulator_def Let_def)
    ultimately have "count_of (sa_toolCounts s) (ts_Name t) = ts_Count t" "ts_Name t \<noteq> []"
      by (force simp: count_of_def)+
    then show ?thesis
      using f(5) [of "ts_Name t"] by (simp add: NewStatsAccumulator_def Let_def count_of_def)
  qed
  have rate: "st_ErrorRate r =
      (if n > 0 then of_int (count_if (\<lambda>e. counted e \<and> FailureType e \<noteq> []) es) / of_int n else 0)"
    using f(1,2) by (simp add: r Stats_Stats_def Let_def n_def NewStatsAccumulator_def)
  moreover have "count_if (\<lambda>e. counted e \<and> FailureType e \<noteq> []) es \<le> n"
    unfolding n_def by (rule count_if_mono) simp
  moreover have "st_TotalToday r = count_if (\<lambda>e. counted e \<and> day e) es"
    using f(3) by (simp add: r Stats_Stats_def Let_def day_def NewStatsAccumulator_def)
  ultimately show ?thesis
    using counts sorted
    by (auto simp: top list_all_iff sorted_wrt_take divide_le_eq_1 split: if_splits)
qed

end
