(* ===== verification/Integrity.thy ===== *)
theory Integrity
  imports Audit_Entry
begin

text \<open>
  Evidence signatures: the legacy HMAC of \<open>internal/audit/signer.go\<close> and the versioned format of
  \<open>internal/audit/integrity\<close> (\<open>canonical.go\<close>, \<open>signer.go\<close>).

  \<open>hmac key msg\<close> is HMAC-SHA256 and \<open>jcs\<close> the third-party RFC 8785 canonicalization
  (\<open>Inl\<close> when it fails); both are arguments. Hexadecimal encoding is modelled. The lemmas show
  that what a signer signs verifies, that verification accepts an entry under a signature only
  if its canonical form is the signed one, and what the legacy signature leaves uncovered.
\<close>

subsection \<open>Hexadecimal\<close>

definition hex_byte :: "char \<Rightarrow> string" where
  "hex_byte c = [hex_digit (of_char c div 16), hex_digit (of_char c mod 16)]"

definition EncodeToString :: "string \<Rightarrow> string" where
  "EncodeToString s = concat (map hex_byte s)"

fun DecodeString :: "string \<Rightarrow> string option" where
  "DecodeString [] = Some []"
| "DecodeString [a] = None"
| "DecodeString (a # b # s) =
     (case (hex_val a, hex_val b) of
        (Some x, Some y) \<Rightarrow> map_option (\<lambda>r. char_of (16 * x + y) # r) (DecodeString s)
      | _ \<Rightarrow> None)"

lemma hex_val_digit:
  assumes "n < 16"
  shows "hex_val (hex_digit n) = Some n"
proof (cases "n < 10")
  case True
  then have "(of_char (char_of (48 + n) :: char) :: nat) = 48 + n" by (simp add: of_char_of)
  with True show ?thesis by (simp add: hex_val_def hex_digit_def Let_def)
next
  case False
  then have "(of_char (char_of (87 + n) :: char) :: nat) = 87 + n" using assms by (simp add: of_char_of)
  with False assms show ?thesis by (simp add: hex_val_def hex_digit_def Let_def)
qed

lemma DecodeString_Encode [simp]: "DecodeString (EncodeToString s) = Some s"
proof (induction s)
  case (Cons c s)
  have "of_char c div 16 < (16 :: nat)"
    using nat_of_char_less_256 [of c] by (simp add: less_mult_imp_div_less)
  then have "hex_val (hex_digit (of_char c div 16)) = Some (of_char c div 16)"
    "hex_val (hex_digit (of_char c mod 16)) = Some (of_char c mod 16)"
    by (simp_all add: hex_val_digit)
  with Cons show ?case
    by (simp add: EncodeToString_def hex_byte_def)
qed (simp add: EncodeToString_def)

lemma EncodeToString_inj: "EncodeToString s = EncodeToString t \<Longrightarrow> s = t"
  by (metis DecodeString_Encode option.inject)

subsection \<open>The legacy signer\<close>

record signer = sg_secret :: string

definition NewSigner :: "string \<Rightarrow> signer" where
  "NewSigner secret = \<lparr>sg_secret = secret\<rparr>"

definition Signer_Enabled :: "signer option \<Rightarrow> bool" where
  "Signer_Enabled s = (case s of None \<Rightarrow> False | Some s \<Rightarrow> length (sg_secret s) > 0)"

definition legacy_message :: "entry \<Rightarrow> string" where
  "legacy_message e =
     e_ID e @ RFC3339Nano (e_Timestamp e) @ e_Method e @ e_ToolName e @ e_Params e"

definition Signer_Sign :: "(string \<Rightarrow> string \<Rightarrow> string) \<Rightarrow> signer option \<Rightarrow> entry \<Rightarrow> string" where
  "Signer_Sign hmac s e =
     (if \<not> Signer_Enabled s then []
      else EncodeToString (hmac (sg_secret (the s)) (legacy_message e)))"

definition Signer_Verify :: "(string \<Rightarrow> string \<Rightarrow> string) \<Rightarrow> signer option \<Rightarrow> entry \<Rightarrow> bool" where
  "Signer_Verify hmac s e =
     (if \<not> Signer_Enabled s \<or> e_Signature e = [] then False
      else
        (case DecodeString (e_Signature e) of
           None \<Rightarrow> False
         | Some provided \<Rightarrow>
             (case DecodeString (Signer_Sign hmac s e) of
                None \<Rightarrow> False
              | Some expected \<Rightarrow> provided = expected)))"

subsection \<open>The canonical payload\<close>

definition maxJCSSafeInteger :: int where
  "maxJCSSafeInteger = 9007199254740991"

record entry_v2 =
  v2_ID :: string
  v2_Timestamp :: string
  v2_AuditOperationID :: string
  v2_Outcome :: string
  v2_Direction :: string
  v2_Transport :: string
  v2_Method :: string
  v2_RequestID :: string
  v2_MCPName :: string
  v2_ToolName :: string
  v2_Params :: string
  v2_Result :: string
  v2_Error :: "rpc_error option"
  v2_DurationMS :: int
  v2_ClientID :: string
  v2_ServerID :: string
  v2_Principal :: "audit_principal option"
  v2_Policy :: "policy_evidence option"

definition IntegrityEntryV2 :: "entry \<Rightarrow> entry_v2" where
  "IntegrityEntryV2 e =
     \<lparr>v2_ID = e_ID e, v2_Timestamp = RFC3339Nano (e_Timestamp e),
      v2_AuditOperationID = e_AuditOperationID e, v2_Outcome = e_Outcome e,
      v2_Direction = e_Direction e, v2_Transport = e_Transport e, v2_Method = e_Method e,
      v2_RequestID = e_RequestID e, v2_MCPName = e_MCPName e, v2_ToolName = e_ToolName e,
      v2_Params = e_Params e, v2_Result = e_Result e,
      v2_Error = map_option (\<lambda>x. \<lparr>err_Code = err_Code x, err_Message = err_Message x,
                                   err_Data = err_Data x\<rparr>) (e_Error e),
      v2_DurationMS = e_DurationMs e, v2_ClientID = e_ClientID e, v2_ServerID = e_ServerID e,
      v2_Principal = map_option (\<lambda>p. \<lparr>ap_Subject = ap_Subject p, ap_ClientID = ap_ClientID p,
                                       ap_Issuer = ap_Issuer p\<rparr>) (e_Principal e),
      v2_Policy = map_option (\<lambda>p. \<lparr>pe_Decision = pe_Decision p, pe_RuleID = pe_RuleID p\<rparr>)
                    (e_Policy e)\<rparr>"

definition marshal_v2 :: "entry_v2 \<Rightarrow> string option" where
  "marshal_v2 e = marshal_members_of
     [(''id'', str_member (v2_ID e)), (''timestamp'', str_member (v2_Timestamp e)),
      (''audit_operation_id'', str_omit (v2_AuditOperationID e)),
      (''outcome'', str_omit (v2_Outcome e)), (''direction'', str_member (v2_Direction e)),
      (''transport'', str_member (v2_Transport e)), (''method'', str_member (v2_Method e)),
      (''request_id'', str_omit (v2_RequestID e)), (''mcp_name'', str_omit (v2_MCPName e)),
      (''tool_name'', str_omit (v2_ToolName e)), (''params'', raw_omit (v2_Params e)),
      (''result'', raw_omit (v2_Result e)), (''error'', ptr_omit marshal_rpc_error (v2_Error e)),
      (''duration_ms'', Present (Itoa (v2_DurationMS e))), (''client_id'', str_member (v2_ClientID e)),
      (''server_id'', str_member (v2_ServerID e)),
      (''principal'', ptr_omit marshal_principal (v2_Principal e)),
      (''policy'', ptr_omit marshal_policy (v2_Policy e))]"

definition safe_integer :: "int \<Rightarrow> bool" where
  "safe_integer i \<longleftrightarrow> \<not> (i < - maxJCSSafeInteger \<or> i > maxJCSSafeInteger)"

definition Canonicalize :: "(string \<Rightarrow> string res) \<Rightarrow> entry_v2 \<Rightarrow> string res" where
  "Canonicalize jcs e =
     (if \<not> safe_integer (v2_DurationMS e)
      then Inl ''audit: integrity: duration_ms exceeds the JCS safe integer range''
      else if \<not> (case v2_Error e of None \<Rightarrow> True | Some x \<Rightarrow> safe_integer (err_Code x))
      then Inl ''audit: integrity: error code exceeds the JCS safe integer range''
      else
        (case marshal_v2 e of
           None \<Rightarrow> Inl (''audit: integrity: marshal v2 payload: '' @ json_error)
         | Some raw \<Rightarrow>
             (case jcs raw of
                Inl er \<Rightarrow> Inl (''audit: integrity: canonicalize v2 payload: '' @ er)
              | Inr canonical \<Rightarrow> Inr canonical)))"

subsection \<open>The versioned signer and verifier\<close>

definition VersionV2 :: int where "VersionV2 = 2"
definition AlgorithmHMACV2 :: string where "AlgorithmHMACV2 = ''hmac-sha256''"
definition DefaultKeyID :: string where "DefaultKeyID = ''default''"

definition ErrUnsupportedVersion :: err where
  "ErrUnsupportedVersion = ''audit: integrity: unsupported version''"
definition ErrUnsupportedAlgorithm :: err where
  "ErrUnsupportedAlgorithm = ''audit: integrity: unsupported algorithm''"
definition ErrUnknownKey :: err where "ErrUnknownKey = ''audit: integrity: unknown key ID''"
definition ErrInvalidSignature :: err where
  "ErrInvalidSignature = ''audit: integrity: invalid signature''"

record integrity_signer =
  is_secret :: string
  is_keyID :: string

definition NewIntegritySigner :: "string \<Rightarrow> string \<Rightarrow> integrity_signer" where
  "NewIntegritySigner secret keyID =
     \<lparr>is_secret = secret, is_keyID = (if TrimSpace keyID = [] then DefaultKeyID else keyID)\<rparr>"

definition Integrity_Enabled :: "integrity_signer option \<Rightarrow> bool" where
  "Integrity_Enabled s = (case s of None \<Rightarrow> False | Some s \<Rightarrow> length (is_secret s) > 0)"

definition Integrity_Sign ::
  "(string \<Rightarrow> string \<Rightarrow> string) \<Rightarrow> (string \<Rightarrow> string res) \<Rightarrow> integrity_signer option \<Rightarrow> entry_v2 \<Rightarrow>
   integrity_metadata option res" where
  "Integrity_Sign hmac jcs s e =
     (if \<not> Integrity_Enabled s then Inr None
      else
        (case Canonicalize jcs e of
           Inl er \<Rightarrow> Inl er
         | Inr canonical \<Rightarrow>
             Inr (Some \<lparr>im_Version = VersionV2, im_Algorithm = AlgorithmHMACV2,
                        im_KeyID = is_keyID (the s),
                        im_Signature = EncodeToString (hmac (is_secret (the s)) canonical)\<rparr>)))"

type_synonym verifier = "string \<rightharpoonup> string"

definition NewVerifier :: "(string \<times> string) list \<Rightarrow> verifier" where
  "NewVerifier keys = map_of keys"

definition Verifier_Verify ::
  "(string \<Rightarrow> string \<Rightarrow> string) \<Rightarrow> (string \<Rightarrow> string res) \<Rightarrow> verifier option \<Rightarrow> entry_v2 \<Rightarrow>
   integrity_metadata option \<Rightarrow> err option" where
  "Verifier_Verify hmac jcs v e metadata =
     (case metadata of
        None \<Rightarrow> Some ErrInvalidSignature
      | Some md \<Rightarrow>
          if im_Version md \<noteq> VersionV2
          then Some (ErrUnsupportedVersion @ '': '' @ Itoa (im_Version md))
          else if im_Algorithm md \<noteq> AlgorithmHMACV2
          then Some (ErrUnsupportedAlgorithm @ '': '' @ Quote (im_Algorithm md))
          else
            (case v of
               None \<Rightarrow> Some (ErrUnknownKey @ '': '' @ Quote (im_KeyID md))
             | Some keys \<Rightarrow>
                 (case keys (im_KeyID md) of
                    None \<Rightarrow> Some (ErrUnknownKey @ '': '' @ Quote (im_KeyID md))
                  | Some secret \<Rightarrow>
                      if length secret = 0
                      then Some (ErrUnknownKey @ '': '' @ Quote (im_KeyID md))
                      else
                        (case DecodeString (im_Signature md) of
                           None \<Rightarrow> Some (ErrInvalidSignature @ '': malformed encoding'')
                         | Some provided \<Rightarrow>
                             (case Canonicalize jcs e of
                                Inl er \<Rightarrow> Some er
                              | Inr canonical \<Rightarrow>
                                  if provided \<noteq> hmac secret canonical then Some ErrInvalidSignature
                                  else None)))))"

subsection \<open>Signing and verification agree\<close>

lemma IntegrityEntryV2_metadata [simp]: "IntegrityEntryV2 (e\<lparr>e_Integrity := md\<rparr>) = IntegrityEntryV2 e"
  by (simp add: IntegrityEntryV2_def)

lemma Integrity_SignE:
  assumes "Integrity_Sign hmac jcs (Some s) e = Inr (Some md)"
  obtains c where "Canonicalize jcs e = Inr c" "is_secret s \<noteq> []" "im_Version md = VersionV2"
    "im_Algorithm md = AlgorithmHMACV2" "im_KeyID md = is_keyID s"
    "im_Signature md = EncodeToString (hmac (is_secret s) c)"
  using assms by (auto simp: Integrity_Sign_def Integrity_Enabled_def split: if_splits sum.splits)

lemma Verify_signed:
  assumes "Integrity_Sign hmac jcs (Some s) e = Inr (Some md)" and "keys (is_keyID s) = Some (is_secret s)"
    and "Canonicalize jcs e = Inr c"
  shows "Verifier_Verify hmac jcs (Some keys) e' (Some md) = None \<longleftrightarrow>
     (\<exists>c'. Canonicalize jcs e' = Inr c' \<and> hmac (is_secret s) c' = hmac (is_secret s) c)"
proof -
  obtain c0 where "Canonicalize jcs e = Inr c0" "is_secret s \<noteq> []" "im_Version md = VersionV2"
    "im_Algorithm md = AlgorithmHMACV2" "im_KeyID md = is_keyID s"
    "im_Signature md = EncodeToString (hmac (is_secret s) c0)"
    using assms(1) by (rule Integrity_SignE)
  with assms(2,3) show ?thesis
    by (cases "Canonicalize jcs e'") (auto simp: Verifier_Verify_def)
qed

text \<open>
  Integrity metadata produced for an entry verifies, with the signer's key, against an entry
  exactly when that entry has the same canonical payload: the signed entry is accepted, and
  every change of a field that changes the canonical form is detected. It is assumed that
  HMAC under the key gives the signed payload's code to no other payload.
\<close>
lemma integrity_sign_verify:
  assumes signed: "Integrity_Sign hmac jcs (Some s) (IntegrityEntryV2 e) = Inr (Some md)"
    and key: "keys (is_keyID s) = Some (is_secret s)"
    and no_collision: "\<And>m c. Canonicalize jcs (IntegrityEntryV2 e) = Inr c \<Longrightarrow>
      hmac (is_secret s) m = hmac (is_secret s) c \<Longrightarrow> m = c"
  shows "Verifier_Verify hmac jcs (Some keys) (IntegrityEntryV2 e') (Some md) = None \<longleftrightarrow>
     Canonicalize jcs (IntegrityEntryV2 e') = Canonicalize jcs (IntegrityEntryV2 e)"
proof -
  from signed obtain c where c: "Canonicalize jcs (IntegrityEntryV2 e) = Inr c"
    by (rule Integrity_SignE)
  show ?thesis
    using Verify_signed [where hmac = hmac and keys = keys, OF signed key c] no_collision [OF c] c
    by auto
qed

lemma Verify_legacy_iff:
  "Signer_Verify hmac (Some s) e \<longleftrightarrow>
     sg_secret s \<noteq> [] \<and> e_Signature e \<noteq> [] \<and>
     DecodeString (e_Signature e) = Some (hmac (sg_secret s) (legacy_message e))"
  by (auto simp: Signer_Verify_def Signer_Sign_def Signer_Enabled_def split: option.splits)

text \<open>
  The legacy signature of an entry verifies, and keeps verifying after any change of the
  fields it does not cover (outcome, direction, result, error, identities, duration, policy).
\<close>
lemma legacy_sign_verify:
  assumes "sg_secret s \<noteq> []" and "\<And>k m. hmac k m \<noteq> []"
    and "e_Signature e' = Signer_Sign hmac (Some s) e"
    and "e_ID e' = e_ID e" "e_Timestamp e' = e_Timestamp e" "e_Method e' = e_Method e"
      "e_ToolName e' = e_ToolName e" "e_Params e' = e_Params e"
  shows "Signer_Verify hmac (Some s) e'"
proof -
  have "EncodeToString m \<noteq> []" if "m \<noteq> []" for m
    using that by (cases m) (auto simp: EncodeToString_def hex_byte_def)
  with assms show ?thesis
    by (simp add: Verify_legacy_iff Signer_Sign_def Signer_Enabled_def legacy_message_def)
qed

text \<open>
  The legacy message concatenates its fields without separators, so moving a character
  from the tool name to the method leaves the signature valid.
\<close>
lemma legacy_ambiguous:
  "\<exists>e e'. e_Method e \<noteq> e_Method e' \<and> e_ToolName e \<noteq> e_ToolName e' \<and>
     (\<forall>hmac s. Signer_Verify hmac s e = Signer_Verify hmac s e')"
proof -
  let ?e = "zero_entry\<lparr>e_Method := ''a'', e_ToolName := ''bc''\<rparr>"
  let ?f = "zero_entry\<lparr>e_Method := ''ab'', e_ToolName := ''c''\<rparr>"
  have "legacy_message ?e = legacy_message ?f" "e_Signature ?e = e_Signature ?f"
    by (simp_all add: legacy_message_def)
  then have "Signer_Verify hmac s ?e = Signer_Verify hmac s ?f" for hmac s
    unfolding Signer_Verify_def Signer_Sign_def by (simp only:)
  then show ?thesis by (intro exI [of _ ?e] exI [of _ ?f]) simp
qed

end
