(* ===== verification/Operation.thy ===== *)
theory Operation
  imports Logger
begin

text \<open>
  The contract between the audit logger and its stores, and what it gives for operations
  (\<open>internal/audit/operation.go\<close>).

  \<open>audit_store\<close>: a store has contents, a multiset of entries, and entries it admits. An append of
  such an entry that succeeds adds it, in the form \<open>stored\<close> in which the store returns it; one that fails adds it or leaves
  the contents alone, and the caller cannot tell which. A lookup that succeeds finds a record
  exactly if the contents have the identifier. The laws are for the appending method that a
  logger in the given durability mode calls. In the locale: over any interleaving of
  \<open>Finalize\<close> calls with activity on other records, an operation's record is in the store at
  most once, exactly once when finalized, and it is the record that was frozen first.
\<close>

definition with_id :: "string \<Rightarrow> entry multiset \<Rightarrow> entry multiset" where
  "with_id i c = filter_mset (\<lambda>e. e_ID e = i) c"

lemma with_id_add [simp]:
  "with_id i (add_mset e c) = (if e_ID e = i then add_mset e (with_id i c) else with_id i c)"
  by (simp add: with_id_def)

lemma with_id_empty: "with_id i c = {#} \<longleftrightarrow> (\<forall>e \<in># c. e_ID e \<noteq> i)"
  by (induction c) (auto simp: with_id_def)

definition appended :: "(entry \<Rightarrow> entry) \<Rightarrow> entry \<Rightarrow> err option \<Rightarrow> entry multiset \<Rightarrow> entry multiset \<Rightarrow> bool" where
  "appended stored e r c c' \<longleftrightarrow> c' = add_mset (stored e) c \<or> r \<noteq> None \<and> c' = c"

text \<open>A record is absent or present once, and unless this is a retry it is absent.\<close>

definition placed :: "('s \<Rightarrow> entry multiset) \<Rightarrow> (entry \<Rightarrow> entry) \<Rightarrow> entry \<Rightarrow> bool \<Rightarrow> 's \<Rightarrow> bool" where
  "placed contents stored e retry s \<longleftrightarrow>
     with_id (e_ID e) (contents s) = {#} \<or> retry \<and> with_id (e_ID e) (contents s) = {#stored e#}"

text \<open>
  One operation against a store that others use too. \<open>Other\<close> is anything the rest of the
  system does: it keeps the store's invariant and this operation's record as they are.
\<close>

inductive op_step :: "('s \<Rightarrow> entry multiset) \<Rightarrow> ('s \<Rightarrow> bool) \<Rightarrow> (entry \<Rightarrow> bool) \<Rightarrow> prims \<Rightarrow> 's logger \<Rightarrow>
    operation \<times> 's world \<Rightarrow> operation \<times> 's world \<Rightarrow> bool"
  for contents ok admits p l where
  Finalize: "\<lbrakk>Finalize p l ulid now c (Some op) w = (r, Some op', w'); pred_option admits (o_prepared op');
      o_prepared op = None \<longrightarrow> with_id ulid (contents (w_store w)) = {#}\<rbrakk> \<Longrightarrow>
      op_step contents ok admits p l (op, w) (op', w')"
| Other: "\<lbrakk>ok s'; \<forall>e. o_prepared op = Some e \<longrightarrow>
        with_id (e_ID e) (contents s') = with_id (e_ID e) (contents (w_store w))\<rbrakk> \<Longrightarrow>
      op_step contents ok admits p l (op, w) (op, w\<lparr>w_store := s'\<rparr>)"

definition op_inv :: "('s \<Rightarrow> entry multiset) \<Rightarrow> (entry \<Rightarrow> entry) \<Rightarrow> ('s \<Rightarrow> bool) \<Rightarrow> operation \<Rightarrow> 's world \<Rightarrow> bool" where
  "op_inv contents stored ok op w \<longleftrightarrow> ok (w_store w) \<and> e_ID (o_entry op) = [] \<and>
     (case o_prepared op of
        None \<Rightarrow> \<not> o_attempted op \<and> \<not> o_finalized op
      | Some e \<Rightarrow> placed contents stored e (o_attempted op) (w_store w) \<and>
          (o_finalized op \<longrightarrow> with_id (e_ID e) (contents (w_store w)) = {#stored e#}) \<and>
          Outcome_Valid (e_Outcome e) \<and> e_AuditOperationID e = e_AuditOperationID (o_entry op))"

lemma attempts_entry: "attempts n l e er op w = (r, op', w') \<Longrightarrow> o_entry op' = o_entry op"
  by (induction n arbitrary: er op w) (auto split: prod.splits option.splits)

lemma attempts_result:
  assumes "attempts n l e er op w = (r, op', w')" "\<not> o_finalized op" "n = 0 \<longrightarrow> er \<noteq> None"
  shows "(o_finalized op' \<longleftrightarrow> r = None) \<and> o_prepared op' = o_prepared op \<and>
     o_completion op' = o_completion op"
  using assms
proof (induction n arbitrary: er op w)
  case (Suc n)
  obtain q v where q: "recordPrepared l e (o_attempted op) w = (q, v)" by fastforce
  show ?case
  proof (cases q)
    case None
    with Suc.prems q show ?thesis by auto
  next
    case (Some x)
    with Suc.prems q have "attempts n l e (Some x) (op\<lparr>o_attempted := True\<rparr>) v = (r, op', w')" by simp
    with Suc.IH [OF this] Suc.prems show ?thesis by simp
  qed
qed auto

lemma freeze_cases:
  "freeze p l ulid now c op = Inr op' \<Longrightarrow>
     o_finalized op' = o_finalized op \<and> o_prepared op' \<noteq> None \<and> o_completion op' = Some c \<and>
     (o_prepared op = None \<or> op' = op)"
  by (auto simp: freeze_def sameCompletion_eq split: option.splits sum.splits if_splits)

locale audit_store =
  fixes ops :: "'s store_ops"
    and contents :: "'s \<Rightarrow> entry multiset"
    and stored :: "entry \<Rightarrow> entry"
    and ok :: "'s \<Rightarrow> bool"
    and admits :: "entry \<Rightarrow> bool"
    and durable :: bool
  assumes stored_ID: "admits e \<Longrightarrow> e_ID (stored e) = e_ID e"
    and append:
      "\<lbrakk>\<not> durable; admits e; ok s; op_Append ops e s = (r, s')\<rbrakk> \<Longrightarrow> ok s' \<and> appended stored e r (contents s) (contents s')"
    and append_durable:
      "\<lbrakk>durable; admits e; ok s; op_AppendDurable ops = Some f; f e s = (r, s')\<rbrakk> \<Longrightarrow>
         ok s' \<and> appended stored e r (contents s) (contents s')"
    and lookup:
      "\<lbrakk>ok s; op_LookupEntry ops = Some g; g i s = ((x, found, er), s')\<rbrakk> \<Longrightarrow>
         ok s' \<and> contents s' = contents s \<and>
         (er = None \<longrightarrow> (found \<longleftrightarrow> with_id i (contents s) \<noteq> {#}) \<and>
            (found \<longrightarrow> x \<in># with_id i (contents s)))"
    and sync:
      "\<lbrakk>ok s; op_Sync ops = Some h; h s = (r, s')\<rbrakk> \<Longrightarrow> ok s' \<and> contents s' = contents s"
begin

lemma append_step:
  "\<lbrakk>lg_store l = ops; lg_durable l = durable; admits e; ok s; append_step l e s = (r, s')\<rbrakk> \<Longrightarrow>
     ok s' \<and> appended stored e r (contents s) (contents s')"
  by (auto simp: append_step_def appended_def split: if_splits option.splits
      dest: append append_durable)

lemma confirm_step:
  "\<lbrakk>lg_store l = ops; ok s; confirm_step l s = (r, s')\<rbrakk> \<Longrightarrow> ok s' \<and> contents s' = contents s"
  by (auto simp: confirm_step_def split: if_splits option.splits dest: sync)

lemma resolve_step:
  assumes "lg_store l = ops" "ok s" "resolve_step l e retry s = (r, s')"
  shows "ok s' \<and> contents s' = contents s \<and>
     (\<forall>found. r = Inr found \<longrightarrow> (retry \<longrightarrow> (found \<longleftrightarrow> with_id (e_ID e) (contents s) \<noteq> {#})) \<and>
        (\<not> retry \<longrightarrow> \<not> found))"
proof (cases retry)
  case True
  show ?thesis
  proof (cases "op_LookupEntry ops")
    case None
    with assms True show ?thesis by (auto simp: resolve_step_def)
  next
    case (Some g)
    obtain x found er t where g: "g (e_ID e) s = ((x, found, er), t)" by (metis prod_cases4 surj_pair)
    from lookup [OF assms(2) Some g] g Some assms True show ?thesis
      by (auto simp: resolve_step_def split: option.splits if_splits)
  qed
qed (use assms in \<open>auto simp: resolve_step_def\<close>)

lemma recordPrepared_once:
  assumes l: "lg_store l = ops" and dur: "lg_durable l = durable" and ad: "admits e" and ok: "ok (w_store w)" and p: "placed contents stored e retry (w_store w)"
    and r: "recordPrepared l e retry w = (r, w')"
  shows "ok (w_store w') \<and> placed contents stored e True (w_store w') \<and>
     (r = None \<longrightarrow> with_id (e_ID e) (contents (w_store w')) = {#stored e#} \<and>
        w_metrics w' = w_metrics w @ (if lg_metrics l then [e] else [])) \<and>
     (r \<noteq> None \<longrightarrow> w_metrics w' = w_metrics w) \<and>
     (\<forall>i. i \<noteq> e_ID e \<longrightarrow> with_id i (contents (w_store w')) = with_id i (contents (w_store w)))"
proof -
  obtain q s where q: "resolve_step l e retry (w_store w) = (q, s)" by fastforce
  note rs = resolve_step [OF l ok q]
  show ?thesis
  proof (cases q)
    case (Inl er)
    with r q rs p show ?thesis by (auto simp: recordPrepared_def placed_def)
  next
    case (Inr found)
    obtain a s' where a: "(if found then confirm_step l s else append_step l e s) = (a, s')"
      by fastforce
    show ?thesis
    proof (cases found)
      case True
      then have a': "confirm_step l s = (a, s')" using a by simp
      have "ok s' \<and> contents s' = contents s" using confirm_step [OF l _ a'] rs by simp
      moreover have "with_id (e_ID e) (contents s) = {#stored e#}" "retry"
        using rs Inr True p by (auto simp: placed_def)
      ultimately show ?thesis
        using rs Inr q r a' True
        by (cases a) (auto simp: recordPrepared_def observe_recorded_def placed_def)
    next
      case False
      then have a': "append_step l e s = (a, s')" using a by simp
      have ap: "ok s' \<and> appended stored e a (contents s) (contents s')" using append_step [OF l dur ad _ a'] rs by simp
      have "with_id (e_ID e) (contents s) = {#}"
        using rs Inr False p by (cases retry) (auto simp: placed_def)
      with ap show ?thesis
        using rs Inr q r a' False
        by (cases a) (auto simp: recordPrepared_def observe_recorded_def placed_def appended_def stored_ID [OF ad])
    qed
  qed
qed

lemma attempts_once:
  assumes "lg_store l = ops" "lg_durable l = durable" "admits e" "ok (w_store w)"
    "placed contents stored e (o_attempted op) (w_store w)"
    "\<not> o_finalized op" "attempts n l e er op w = (r, op', w')" "n = 0 \<longrightarrow> er \<noteq> None"
  shows "ok (w_store w') \<and> placed contents stored e (n > 0 \<or> o_attempted op) (w_store w') \<and>
     o_prepared op' = o_prepared op \<and> o_completion op' = o_completion op \<and>
     o_attempted op' = (n > 0 \<or> o_attempted op) \<and> (o_finalized op' \<longleftrightarrow> r = None) \<and>
     (r = None \<longrightarrow> with_id (e_ID e) (contents (w_store w')) = {#stored e#}) \<and>
     w_metrics w' = w_metrics w @ (if r = None \<and> lg_metrics l then [e] else []) \<and>
     (\<forall>i. i \<noteq> e_ID e \<longrightarrow> with_id i (contents (w_store w')) = with_id i (contents (w_store w)))"
  using assms(4-)
proof (induction n arbitrary: er op w)
  case 0
  then show ?case by auto
next
  case (Suc n)
  obtain q v where q: "recordPrepared l e (o_attempted op) w = (q, v)" by fastforce
  note once = recordPrepared_once [OF assms(1,2,3) Suc.prems(1,2) q]
  show ?case
  proof (cases q)
    case None
    with Suc.prems q once show ?thesis by auto
  next
    case (Some x)
    with Suc.prems q have "attempts n l e (Some x) (op\<lparr>o_attempted := True\<rparr>) v = (r, op', w')" by simp
    with Suc.IH [of v "op\<lparr>o_attempted := True\<rparr>" "Some x"] once Some Suc.prems show ?thesis by auto
  qed
qed

lemma freeze_inv:
  assumes "op_inv contents stored ok op w" "freeze p l ulid now c op = Inr op'" "Outcome_Valid (cp_Outcome c)"
    "\<not> o_finalized op" "o_prepared op = None \<longrightarrow> with_id ulid (contents (w_store w)) = {#}"
  shows "\<exists>e. o_prepared op' = Some e \<and> placed contents stored e (o_attempted op') (w_store w) \<and> ok (w_store w) \<and>
     o_finalized op' = o_finalized op \<and> o_entry op' = o_entry op \<and> Outcome_Valid (e_Outcome e) \<and>
     e_AuditOperationID e = e_AuditOperationID (o_entry op) \<and>
     (o_prepared op \<noteq> None \<longrightarrow> op' = op) \<and> (o_prepared op = None \<longrightarrow> \<not> o_attempted op')"
proof (cases "o_prepared op")
  case None
  with assms obtain e where e: "prepare p l ulid now (terminal_entry op c now) = Inr e"
    and op': "op' = op\<lparr>o_prepared := Some e, o_completion := Some c\<rparr>"
    by (auto simp: freeze_def split: sum.splits)
  from prepare_preserves [OF e] have "e_ID e = ulid" "e_Outcome e = cp_Outcome c"
    "e_AuditOperationID e = e_AuditOperationID (o_entry op)"
    using assms(1) by (auto simp: terminal_entry_def Let_def op_inv_def)
  with None assms op' show ?thesis by (auto simp: op_inv_def placed_def)
next
  case (Some e)
  with assms show ?thesis by (auto simp: freeze_def op_inv_def split: if_splits)
qed

lemma op_step_inv:
  assumes l: "lg_store l = ops" "lg_durable l = durable"
    and "op_step contents ok admits p l (op, w) (op', w')" and "op_inv contents stored ok op w"
  shows "op_inv contents stored ok op' w' \<and> (\<forall>e. o_prepared op = Some e \<longrightarrow> o_prepared op' = Some e) \<and>
     (o_finalized op \<longrightarrow> o_finalized op') \<and> o_entry op' = o_entry op"
  using assms(3)
proof (cases rule: op_step.cases)
  case (Finalize ulid now c r)
  show ?thesis
  proof (cases "op' = op \<and> w' = w")
    case True
    with assms(4) show ?thesis by auto
  next
    case False
    with Finalize obtain op1 er op2 where f: "Outcome_Valid (cp_Outcome c)" "\<not> o_finalized op"
      "freeze p l ulid now c op = Inr op1"
      and a: "attempts 3 l (the (o_prepared op1)) None op1 w = (r, op', w')"
      by (auto simp: Finalize_def split: if_splits sum.splits prod.splits)
    obtain e where e: "o_prepared op1 = Some e" "placed contents stored e (o_attempted op1) (w_store w)"
      "ok (w_store w)" "\<not> o_finalized op1" "o_entry op1 = o_entry op" "Outcome_Valid (e_Outcome e)"
      "e_AuditOperationID e = e_AuditOperationID (o_entry op)" "o_prepared op \<noteq> None \<longrightarrow> op1 = op"
      using freeze_inv [OF assms(4) f(3,1,2)] Finalize f(2) by auto
    have "o_entry op' = o_entry op1" by (rule attempts_entry [OF a])
    moreover have "o_prepared op' = Some e" using attempts_result [OF a] e(1,4) by simp
    with Finalize have "admits e" by simp
    from attempts_once [OF l this e(3,2,4), of 3 None r op' w'] a e
    have "ok (w_store w') \<and> placed contents stored e (o_attempted op') (w_store w') \<and> o_attempted op' \<and>
        o_prepared op' = o_prepared op1 \<and> (o_finalized op' \<longrightarrow> with_id (e_ID e) (contents (w_store w')) = {#stored e#})" by simp
    ultimately show ?thesis using e assms(4) f(2)
      by (auto simp: op_inv_def)
  qed
next
  case (Other s')
  with assms(4) show ?thesis by (auto simp: op_inv_def placed_def split: option.splits)
qed

lemma op_reach_inv:
  assumes "lg_store l = ops" "lg_durable l = durable" and "(op_step contents ok admits p l)\<^sup>*\<^sup>* (op, w) (op', w')" and "op_inv contents stored ok op w"
  shows "op_inv contents stored ok op' w' \<and> (\<forall>e. o_prepared op = Some e \<longrightarrow> o_prepared op' = Some e) \<and>
     (o_finalized op \<longrightarrow> o_finalized op') \<and> o_entry op' = o_entry op"
  using assms(3,4)
proof (induction "(op', w')" arbitrary: op' w' rule: rtranclp_induct)
  case base
  then show ?case by simp
next
  case (step y)
  obtain o1 w1 where y: "y = (o1, w1)" by (cases y)
  with step have "op_inv contents stored ok o1 w1 \<and> (\<forall>e. o_prepared op = Some e \<longrightarrow> o_prepared o1 = Some e) \<and>
     (o_finalized op \<longrightarrow> o_finalized o1) \<and> o_entry o1 = o_entry op" by blast
  with op_step_inv [OF assms(1,2)] step(2) y show ?case by fastforce
qed

lemma exactly_once:
  assumes "NewOperation (Some l) (Inr u) now0 entry0 started = Inr op" "e_ID entry0 = []"
    and "lg_store l = ops" "lg_durable l = durable" "ok (w_store w)"
    and run: "(op_step contents ok admits p l)\<^sup>*\<^sup>* (op, w) (op', w')"
  shows "case o_prepared op' of
      None \<Rightarrow> \<not> o_finalized op'
    | Some e \<Rightarrow> size (with_id (e_ID e) (contents (w_store w'))) \<le> 1 \<and>
        (o_finalized op' \<longrightarrow> with_id (e_ID e) (contents (w_store w')) = {#stored e#}) \<and>
        Outcome_Valid (e_Outcome e) \<and> e_AuditOperationID e = u"
proof -
  have op: "e_AuditOperationID (o_entry op) = u" "op_inv contents stored ok op w"
    using assms(1,2,5) by (auto simp: NewOperation_def op_inv_def)
  from op_reach_inv [OF assms(3,4) run op(2)] op(1) show ?thesis
    by (auto simp: op_inv_def placed_def split: option.splits)
qed

end

end
