(* ===== verification/Sqlite.thy ===== *)
theory Sqlite
  imports Operation
begin

text \<open>
  The SQLite store (\<open>internal/audit/storage/sqlite.go\<close> and its part of \<open>durable.go\<close>).

  \<open>row\<close> is a row of table \<open>audit_entries\<close>, a nullable column an option. The database engine is
  not the program's code: \<open>db_rows\<close> are the committed rows in rowid order, and \<open>db_envs\<close> says,
  per call, which of the engine's steps fail, including a \<open>COMMIT\<close> that reports an error after
  the transaction took effect. The statements' effect (the primary key, the filter, the order
  by the padded timestamp expression, the limit) is written out. The store satisfies the
  contract \<open>audit_store\<close>.
\<close>

subsection \<open>Rows\<close>

record row =
  r_id :: string
  r_timestamp :: "string option"
  r_audit_operation_id :: "string option"
  r_outcome :: "string option"
  r_direction :: string
  r_transport :: string
  r_method :: string
  r_request_id :: "string option"
  r_mcp_name :: "string option"
  r_tool_name :: "string option"
  r_params :: "string option"
  r_result :: "string option"
  r_error :: "string option"
  r_duration_ms :: int
  r_client_id :: string
  r_server_id :: string
  r_principal :: "string option"
  r_policy :: "string option"
  r_signature :: "string option"
  r_integrity :: "string option"

text \<open>\<open>json.Marshal\<close> of a pointer, replaced by nothing when the pointer is nil.\<close>

definition ptr_json :: "string \<Rightarrow> ('a \<Rightarrow> string option) \<Rightarrow> 'a option \<Rightarrow> string res" where
  "ptr_json what f p =
     (case p of
        None \<Rightarrow> Inr []
      | Some x \<Rightarrow>
          (case f x of
             None \<Rightarrow> Inl (''audit: sqlite: marshal '' @ what @ '': '' @ json_error)
           | Some t \<Rightarrow> Inr t))"

definition entry_row :: "entry \<Rightarrow> row res" where
  "entry_row e =
     (case ptr_json ''rpc error'' marshal_rpc_error (e_Error e) of
        Inl er \<Rightarrow> Inl er
      | Inr errorJSON \<Rightarrow>
     (case ptr_json ''principal'' marshal_principal (e_Principal e) of
        Inl er \<Rightarrow> Inl er
      | Inr principalJSON \<Rightarrow>
     (case ptr_json ''policy evidence'' marshal_policy (e_Policy e) of
        Inl er \<Rightarrow> Inl er
      | Inr policyJSON \<Rightarrow>
     (case ptr_json ''integrity'' marshal_metadata (e_Integrity e) of
        Inl er \<Rightarrow> Inl er
      | Inr integrityJSON \<Rightarrow>
          Inr \<lparr>r_id = e_ID e, r_timestamp = Some (RFC3339Nano (e_Timestamp e)),
               r_audit_operation_id = Some (e_AuditOperationID e), r_outcome = Some (e_Outcome e),
               r_direction = e_Direction e, r_transport = e_Transport e, r_method = e_Method e,
               r_request_id = Some (e_RequestID e), r_mcp_name = Some (e_MCPName e),
               r_tool_name = Some (e_ToolName e), r_params = Some (e_Params e),
               r_result = Some (e_Result e), r_error = Some errorJSON,
               r_duration_ms = e_DurationMs e, r_client_id = e_ClientID e,
               r_server_id = e_ServerID e, r_principal = Some principalJSON,
               r_policy = Some policyJSON, r_signature = Some (e_Signature e),
               r_integrity = Some integrityJSON\<rparr>))))"

definition present_json :: "string option \<Rightarrow> string option" where
  "present_json c = (case c of None \<Rightarrow> None | Some s \<Rightarrow> if s \<noteq> [] \<and> s \<noteq> ''null'' then Some s else None)"

definition or_empty :: "string option \<Rightarrow> string" where
  "or_empty c = (case c of None \<Rightarrow> [] | Some s \<Rightarrow> s)"

text \<open>One iteration of the scan loop: an error, or the entry that is visited.\<close>

definition row_entry :: "row \<Rightarrow> entry res" where
  "row_entry r =
     (case (r_tool_name r, r_signature r) of
        (Some tool, Some sig) \<Rightarrow>
          (let base = zero_entry\<lparr>e_ID := r_id r,
                 e_Timestamp := (case r_timestamp r of
                    None \<Rightarrow> 0
                  | Some t \<Rightarrow> (case ParseRFC3339 t of None \<Rightarrow> 0 | Some x \<Rightarrow> x)),
                 e_AuditOperationID := or_empty (r_audit_operation_id r),
                 e_Outcome := or_empty (r_outcome r), e_Direction := r_direction r,
                 e_Transport := r_transport r, e_Method := r_method r,
                 e_RequestID := or_empty (r_request_id r), e_MCPName := or_empty (r_mcp_name r),
                 e_ToolName := tool, e_Params := or_empty (r_params r),
                 e_Result := or_empty (r_result r),
                 e_Error := Option.bind (present_json (r_error r))
                   (Unmarshal (dec_struct rpc_error_fields) zero_rpc_error),
                 e_DurationMs := r_duration_ms r, e_ClientID := r_client_id r,
                 e_ServerID := r_server_id r,
                 e_Principal := Option.bind (present_json (r_principal r))
                   (Unmarshal (dec_struct principal_fields) zero_principal),
                 e_Policy := Option.bind (present_json (r_policy r))
                   (Unmarshal (dec_struct policy_fields) zero_policy),
                 e_Signature := sig\<rparr>
           in case present_json (r_integrity r) of
                None \<Rightarrow> Inr base
              | Some s \<Rightarrow>
                  (case Unmarshal dec_metadata None s of
                     None \<Rightarrow> Inl (''audit: sqlite: decode integrity: '' @ json_error)
                   | Some md \<Rightarrow> Inr (base\<lparr>e_Integrity := md\<rparr>)))
      | _ \<Rightarrow> Inl ''audit: sqlite: scan: converting NULL to string is unsupported'')"

subsection \<open>The engine's answers\<close>

record sql_env =
  se_conn :: "err option"
  se_begin :: "err option"
  se_prepare :: "err option"
  se_exec :: "(nat \<times> err) option"
  se_commit :: "(bool \<times> err) option"
  se_rollback :: "err option"
  se_query :: "err option"
  se_rows :: "err option"

definition sql_fine :: sql_env where
  "sql_fine = \<lparr>se_conn = None, se_begin = None, se_prepare = None, se_exec = None, se_commit = None,
     se_rollback = None, se_query = None, se_rows = None\<rparr>"

record sqlite =
  db_rows :: "row list"
  db_envs :: "sql_env list"

definition next_env :: "sqlite \<Rightarrow> sql_env \<times> sqlite" where
  "next_env s =
     (case db_envs s of [] \<Rightarrow> (sql_fine, s) | x # xs \<Rightarrow> (x, s\<lparr>db_envs := xs\<rparr>))"

subsection \<open>Opening\<close>

definition ends_duplicate :: "err \<Rightarrow> bool" where
  "ends_duplicate er = Contains er ''duplicate column name''"

definition sqlite_schema :: "string list" where
  "sqlite_schema =
     [''CREATE TABLE IF NOT EXISTS audit_entries'', ''CREATE INDEX idx_audit_entries_timestamp'',
      ''CREATE INDEX idx_audit_entries_time_order'', ''CREATE INDEX idx_audit_entries_method'',
      ''CREATE INDEX idx_audit_entries_tool_name'', ''CREATE INDEX idx_audit_entries_client_id'']"

definition sqlite_migrations :: "string list" where
  "sqlite_migrations =
     [''request_id'', ''principal'', ''mcp_name'', ''policy'', ''audit_operation_id'', ''outcome'',
      ''integrity'']"

fun exec_schema :: "(string \<Rightarrow> err option) \<Rightarrow> string list \<Rightarrow> err option" where
  "exec_schema exec [] = None"
| "exec_schema exec (stmt # stmts) =
     (case exec stmt of
        Some er \<Rightarrow> Some (''audit: sqlite: init: '' @ er)
      | None \<Rightarrow> exec_schema exec stmts)"

fun exec_migrations :: "(string \<Rightarrow> err option) \<Rightarrow> string list \<Rightarrow> err option" where
  "exec_migrations exec [] = None"
| "exec_migrations exec (col # cols) =
     (case exec (''ALTER TABLE audit_entries ADD COLUMN '' @ col @ '' TEXT'') of
        Some er \<Rightarrow>
          if \<not> ends_duplicate er then Some (''audit: sqlite: migrate '' @ col @ '': '' @ er)
          else exec_migrations exec cols
      | None \<Rightarrow> exec_migrations exec cols)"

definition sqlite_init :: "string res \<Rightarrow> (string \<Rightarrow> err option) \<Rightarrow> err option" where
  "sqlite_init mode exec =
     (case mode of
        Inl er \<Rightarrow> Some (''audit: sqlite: enable WAL: '' @ er)
      | Inr m \<Rightarrow>
          if m \<noteq> ''wal'' \<and> m \<noteq> ''memory''
          then Some (''audit: sqlite: WAL unavailable (journal mode '' @ Quote m @ '')'')
          else
            (case exec_schema exec sqlite_schema of
               Some er \<Rightarrow> Some er
             | None \<Rightarrow> exec_migrations exec sqlite_migrations))"

definition sqlite_dsn :: "string \<Rightarrow> string" where
  "sqlite_dsn path =
     path @ (if Contains path ''?'' then ''&'' else ''?'') @ ''_pragma=busy_timeout%3D1000'' @
     ''&_pragma=synchronous%3DFULL''"

definition NewSQLiteStore ::
  "err option \<Rightarrow> (string \<Rightarrow> sqlite res) \<Rightarrow> string res \<Rightarrow> (string \<Rightarrow> err option) \<Rightarrow> string \<Rightarrow> sqlite res" where
  "NewSQLiteStore mkdir opn mode exec path =
     (case mkdir of
        Some er \<Rightarrow> Inl (''audit: sqlite: create directory: '' @ er)
      | None \<Rightarrow>
          (case opn (sqlite_dsn path) of
             Inl er \<Rightarrow> Inl (''audit: sqlite: open: '' @ er)
           | Inr db \<Rightarrow>
               (case sqlite_init mode exec of
                  Some er \<Rightarrow> Inl er
                | None \<Rightarrow> Inr db)))"

subsection \<open>Appending\<close>

text \<open>The loop of inserts inside the transaction; \<open>i\<close> counts the inserts.\<close>

definition exec_insert :: "sql_env \<Rightarrow> nat \<Rightarrow> row list \<Rightarrow> row \<Rightarrow> err option" where
  "exec_insert env i rows r =
     (case se_exec env of
        Some (k, er) \<Rightarrow>
          if k = i then Some er
          else if r_id r \<in> set (map r_id rows) then Some ''UNIQUE constraint failed: audit_entries.id''
          else None
      | None \<Rightarrow>
          if r_id r \<in> set (map r_id rows) then Some ''UNIQUE constraint failed: audit_entries.id''
          else None)"

fun insert_all :: "sql_env \<Rightarrow> nat \<Rightarrow> row list \<Rightarrow> entry list \<Rightarrow> row list res" where
  "insert_all env i rows [] = Inr rows"
| "insert_all env i rows (e # es) =
     (case entry_row e of
        Inl er \<Rightarrow> Inl er
      | Inr r \<Rightarrow>
          (case exec_insert env i rows r of
             Some er \<Rightarrow> Inl (''audit: sqlite: insert: '' @ er)
           | None \<Rightarrow> insert_all env (Suc i) (rows @ [r]) es))"

definition errors_Join :: "err \<Rightarrow> err \<Rightarrow> err" where
  "errors_Join a b = a @ [CHR 0x0A] @ b"

definition rollback_err :: "sql_env \<Rightarrow> err \<Rightarrow> err" where
  "rollback_err env er =
     (case se_rollback env of
        None \<Rightarrow> er
      | Some x \<Rightarrow> errors_Join er (''audit: sqlite: rollback: '' @ x))"

definition SQLite_AppendBatch :: "entry list \<Rightarrow> sqlite \<Rightarrow> err option \<times> sqlite" where
  "SQLite_AppendBatch entries s0 =
     (if length entries = 0 then (None, s0)
      else
        (case next_env s0 of
           (env, s) \<Rightarrow>
             (case se_conn env of
                Some er \<Rightarrow> (Some (''audit: sqlite: acquire writer: '' @ er), s)
              | None \<Rightarrow>
             (case se_begin env of
                Some er \<Rightarrow> (Some (''audit: sqlite: begin batch: '' @ er), s)
              | None \<Rightarrow>
             (case se_prepare env of
                Some er \<Rightarrow> (Some (rollback_err env (''audit: sqlite: prepare batch: '' @ er)), s)
              | None \<Rightarrow>
             (case insert_all env 0 (db_rows s) entries of
                Inl er \<Rightarrow> (Some (rollback_err env er), s)
              | Inr rows \<Rightarrow>
                  (case se_commit env of
                     None \<Rightarrow> (None, s\<lparr>db_rows := rows\<rparr>)
                   | Some (applied, er) \<Rightarrow>
                       (Some (rollback_err env (''audit: sqlite: commit batch: '' @ er)),
                        if applied then s\<lparr>db_rows := rows\<rparr> else s))))))))"

definition SQLite_Append :: "entry \<Rightarrow> sqlite \<Rightarrow> err option \<times> sqlite" where
  "SQLite_Append e s = SQLite_AppendBatch [e] s"

definition SQLite_AppendDurable :: "entry \<Rightarrow> sqlite \<Rightarrow> err option \<times> sqlite" where
  "SQLite_AppendDurable e s = SQLite_Append e s"

definition SQLite_AppendBatchDurable :: "entry list \<Rightarrow> sqlite \<Rightarrow> err option \<times> sqlite" where
  "SQLite_AppendBatchDurable es s = SQLite_AppendBatch es s"

definition SQLite_Sync :: "sqlite \<Rightarrow> err option \<times> sqlite" where
  "SQLite_Sync s = (None, s)"

subsection \<open>Reading\<close>

fun scan_rows :: "row list \<Rightarrow> entry list \<times> err option" where
  "scan_rows [] = ([], None)"
| "scan_rows (r # rs) =
     (case row_entry r of
        Inl er \<Rightarrow> ([], Some er)
      | Inr e \<Rightarrow> (case scan_rows rs of (es, er) \<Rightarrow> (e # es, er)))"

text \<open>The visited entries and the error of \<open>walkEntriesContext\<close> on the rows a query selects.\<close>

definition walkEntriesContext :: "(row list \<Rightarrow> row list) \<Rightarrow> sqlite \<Rightarrow> (entry list \<times> err option) \<times> sqlite" where
  "walkEntriesContext query s0 =
     (case next_env s0 of
        (env, s) \<Rightarrow>
          (case se_query env of
             Some er \<Rightarrow> (([], Some (''audit: sqlite: query: '' @ er)), s)
           | None \<Rightarrow>
               (case scan_rows (query (db_rows s)) of
                  (es, Some er) \<Rightarrow> ((es, Some er), s)
                | (es, None) \<Rightarrow>
                    ((es, map_option (\<lambda>er. ''audit: sqlite: rows: '' @ er) (se_rows env)), s))))"

definition SQLite_LookupEntry :: "string \<Rightarrow> sqlite \<Rightarrow> (entry \<times> bool \<times> err option) \<times> sqlite" where
  "SQLite_LookupEntry i s0 =
     (case walkEntriesContext (filter (\<lambda>r. r_id r = i)) s0 of
        ((es, er), s) \<Rightarrow> ((if es = [] then zero_entry else last es, es \<noteq> [], er), s))"

definition sqliteTimestamp :: "row \<Rightarrow> string" where
  "sqliteTimestamp r =
     (let ts = or_empty (r_timestamp r)
      in take 19 ts @ ''.'' @
         take 9 (TrimRightFunc (\<lambda>c. c = CHR ''Z'') (drop 20 ts) @ ''000000000''))"

definition sqliteTimeLayout :: "go_time \<Rightarrow> string" where
  "sqliteTimeLayout t =
     (let c = civil_of t
      in pad_int 4 (c_year c) @ ''-'' @ pad_int 2 (c_month c) @ ''-'' @ pad_int 2 (c_day c) @ ''T'' @
         pad_int 2 (c_hour c) @ '':'' @ pad_int 2 (c_min c) @ '':'' @ pad_int 2 (c_sec c) @ ''.'' @
         pad_int 9 (c_nano c))"

definition sql_where :: "query_filter \<Rightarrow> row \<Rightarrow> bool" where
  "sql_where f r \<longleftrightarrow>
     (qf_Method f \<noteq> [] \<longrightarrow> r_method r = qf_Method f) \<and>
     (qf_ToolName f \<noteq> [] \<longrightarrow> r_tool_name r = Some (qf_ToolName f)) \<and>
     (qf_ClientID f \<noteq> [] \<longrightarrow> r_client_id r = qf_ClientID f) \<and>
     (\<not> IsZero (qf_From f) \<longrightarrow> sqliteTimeLayout (qf_From f) \<le> sqliteTimestamp r) \<and>
     (\<not> IsZero (qf_To f) \<longrightarrow> sqliteTimestamp r \<le> sqliteTimeLayout (qf_To f))"

text \<open>\<open>ORDER BY (timestamp expression) DESC, rowid ASC LIMIT ?\<close>\<close>

definition sql_query :: "query_filter \<Rightarrow> row list \<Rightarrow> row list" where
  "sql_query f rows =
     (let limit = (if qf_Limit f \<le> 0 then 100 else qf_Limit f)
      in take (nat limit) (rev (sort_key sqliteTimestamp (rev (filter (sql_where f) rows)))))"

definition SQLite_Query :: "query_filter \<Rightarrow> sqlite \<Rightarrow> entry list res \<times> sqlite" where
  "SQLite_Query f s0 =
     (case walkEntriesContext (sql_query f) s0 of
        ((es, None), s) \<Rightarrow> (Inr es, s)
      | ((es, Some er), s) \<Rightarrow> (Inl er, s))"

text \<open>\<open>now\<close> and the location's offset are drawn by the call.\<close>

definition SQLite_Stats :: "duration \<Rightarrow> go_time \<Rightarrow> sqlite \<Rightarrow> stats res \<times> sqlite" where
  "SQLite_Stats offset now s0 =
     (case walkEntriesContext (\<lambda>rows. rows) s0 of
        ((es, None), s) \<Rightarrow> (Inr (BuildStats offset now es), s)
      | ((es, Some er), s) \<Rightarrow> (Inl (''audit: sqlite: stats query: '' @ er), s))"

definition SQLite_Close :: "sqlite \<Rightarrow> err option \<times> sqlite" where
  "SQLite_Close s0 =
     (case next_env s0 of
        (env, s) \<Rightarrow>
          (case se_conn env of
             Some er \<Rightarrow> (Some (''audit: sqlite: close: '' @ er), s)
           | None \<Rightarrow> (None, s)))"

definition sqlite_ops :: "duration \<Rightarrow> go_time \<Rightarrow> sqlite store_ops" where
  "sqlite_ops offset now =
     \<lparr>op_Append = SQLite_Append, op_AppendBatch = Some SQLite_AppendBatch,
      op_AppendDurable = Some SQLite_AppendDurable,
      op_AppendBatchDurable = Some SQLite_AppendBatchDurable,
      op_LookupEntry = Some SQLite_LookupEntry, op_Sync = Some SQLite_Sync,
      op_Query = SQLite_Query, op_Stats = SQLite_Stats offset now, op_Close = SQLite_Close\<rparr>"

subsection \<open>The store contract\<close>

text \<open>A row as it is returned; a row that cannot be decoded stands for its identifier.\<close>

definition row_view :: "row \<Rightarrow> entry" where
  "row_view r = (case row_entry r of Inr e \<Rightarrow> e | Inl _ \<Rightarrow> zero_entry\<lparr>e_ID := r_id r\<rparr>)"

definition sqlite_contents :: "sqlite \<Rightarrow> entry multiset" where
  "sqlite_contents s = image_mset row_view (mset (db_rows s))"

definition sqlite_ok :: "sqlite \<Rightarrow> bool" where
  "sqlite_ok s \<longleftrightarrow> distinct (map r_id (db_rows s))"

definition sqlite_stored :: "entry \<Rightarrow> entry" where
  "sqlite_stored e = (case entry_row e of Inr r \<Rightarrow> row_view r | Inl _ \<Rightarrow> e)"

lemma row_entry_ID: "row_entry r = Inr e \<Longrightarrow> e_ID e = r_id r"
  by (auto simp: row_entry_def Let_def split: option.splits prod.splits)

lemma row_view_ID [simp]: "e_ID (row_view r) = r_id r"
  by (auto simp: row_view_def split: sum.splits dest: row_entry_ID)

lemma entry_row_ID: "entry_row e = Inr r \<Longrightarrow> r_id r = e_ID e"
  by (auto simp: entry_row_def split: sum.splits)

lemma next_env_rows [simp]: "next_env s = (env, s') \<Longrightarrow> db_rows s' = db_rows s"
  by (auto simp: next_env_def split: list.splits)

lemma exec_insert_new: "exec_insert env i rows r = None \<Longrightarrow> r_id r \<notin> set (map r_id rows)"
  by (auto simp: exec_insert_def split: option.splits if_splits)

lemma insert_all_spec:
  "insert_all env i rows es = Inr rows' \<Longrightarrow>
     \<exists>new. rows' = rows @ new \<and> list_all2 (\<lambda>e r. entry_row e = Inr r) es new \<and>
       (distinct (map r_id rows) \<longrightarrow> distinct (map r_id rows'))"
proof (induction es arbitrary: i rows)
  case (Cons e es)
  then obtain r where r: "entry_row e = Inr r" "exec_insert env i rows r = None"
    "insert_all env (Suc i) (rows @ [r]) es = Inr rows'"
    by (auto split: sum.splits option.splits)
  from Cons.IH [OF r(3)] obtain new where "rows' = (rows @ [r]) @ new"
    "list_all2 (\<lambda>e r. entry_row e = Inr r) es new"
    "distinct (map r_id (rows @ [r])) \<longrightarrow> distinct (map r_id rows')" by blast
  with r(1) exec_insert_new [OF r(2)] show ?case by (intro exI [of _ "r # new"]) auto
qed simp

lemma AppendBatch_cases:
  assumes "SQLite_AppendBatch es s = (r, s')"
  shows "db_rows s' = db_rows s \<and> (r = None \<longrightarrow> es = []) \<or>
     (\<exists>env. insert_all env 0 (db_rows s) es = Inr (db_rows s'))"
proof (cases "es = []")
  case False
  obtain env t where n: "next_env s = (env, t)" by fastforce
  have "db_rows t = db_rows s" by (rule next_env_rows [OF n])
  with assms False n show ?thesis
    by (auto simp: SQLite_AppendBatch_def split: option.splits sum.splits if_splits)
qed (use assms in \<open>simp add: SQLite_AppendBatch_def\<close>)

text \<open>The whole batch is committed or nothing is; success means it was committed.\<close>

lemma AppendBatch_atomic:
  assumes "SQLite_AppendBatch es s = (r, s')"
  shows "db_rows s' = db_rows s \<and> (r = None \<longrightarrow> es = []) \<or>
     (\<exists>new. db_rows s' = db_rows s @ new \<and> list_all2 (\<lambda>e x. entry_row e = Inr x) es new)"
    and "sqlite_ok s \<Longrightarrow> sqlite_ok s'"
  using AppendBatch_cases [OF assms] insert_all_spec by (fastforce simp: sqlite_ok_def)+

lemma SQLite_Append_contract:
  assumes "sqlite_ok s" "SQLite_Append e s = (r, s')"
  shows "sqlite_ok s' \<and> appended sqlite_stored e r (sqlite_contents s) (sqlite_contents s')"
proof -
  have b: "SQLite_AppendBatch [e] s = (r, s')" using assms(2) by (simp add: SQLite_Append_def)
  show ?thesis
    using AppendBatch_atomic(1) [OF b] AppendBatch_atomic(2) [OF b assms(1)]
    by (auto simp: appended_def sqlite_contents_def sqlite_stored_def list_all2_Cons1)
qed

lemma scan_rows_ok: "scan_rows rs = (es, None) \<Longrightarrow> es = map row_view rs"
  by (induction rs arbitrary: es) (auto simp: row_view_def split: sum.splits prod.splits)

lemma with_id_contents: "with_id i (sqlite_contents s) = mset (map row_view (filter (\<lambda>r. r_id r = i) (db_rows s)))"
  by (simp add: with_id_def sqlite_contents_def filter_mset_image_mset mset_filter)

lemma walk_ok:
  assumes "walkEntriesContext q s = ((es, er), s')"
  shows "db_rows s' = db_rows s" and "er = None \<Longrightarrow> es = map row_view (q (db_rows s))"
proof -
  obtain env t where n: "next_env s = (env, t)" by fastforce
  obtain xs x where sc: "scan_rows (q (db_rows t)) = (xs, x)" by fastforce
  have t: "db_rows t = db_rows s" by (rule next_env_rows [OF n])
  show "db_rows s' = db_rows s" "er = None \<Longrightarrow> es = map row_view (q (db_rows s))"
    using assms t [symmetric] sc scan_rows_ok [of "q (db_rows t)" xs]
    by (auto simp: walkEntriesContext_def n split: option.splits)
qed

lemma SQLite_Lookup_contract:
  assumes "sqlite_ok s" "SQLite_LookupEntry i s = ((x, found, er), s')"
  shows "sqlite_ok s' \<and> sqlite_contents s' = sqlite_contents s \<and>
     (er = None \<longrightarrow> (found \<longleftrightarrow> with_id i (sqlite_contents s) \<noteq> {#}) \<and>
        (found \<longrightarrow> x \<in># with_id i (sqlite_contents s)))"
proof -
  obtain es er' t where w: "walkEntriesContext (filter (\<lambda>r. r_id r = i)) s = ((es, er'), t)"
    by (metis prod.collapse)
  have t: "s' = t" "er = er'" "found = (es \<noteq> [])" "found \<longrightarrow> x = last es"
    using assms(2) by (auto simp: SQLite_LookupEntry_def w)
  from walk_ok [OF w] have "sqlite_ok s'" "sqlite_contents s' = sqlite_contents s"
    using assms(1) t by (simp_all add: sqlite_ok_def sqlite_contents_def)
  moreover have "er = None \<longrightarrow> with_id i (sqlite_contents s) = mset es"
    using walk_ok(2) [OF w] t unfolding with_id_contents by simp
  ultimately show ?thesis
    using t last_in_set [of es] by (auto simp del: last_in_set)
qed

interpretation sql: audit_store "sqlite_ops offset now" sqlite_contents sqlite_stored sqlite_ok "\<lambda>_. True" durable
  for offset now durable
proof
  show "e_ID (sqlite_stored e) = e_ID e" for e
    by (auto simp: sqlite_stored_def split: sum.splits dest: entry_row_ID)
qed (auto simp: sqlite_ops_def SQLite_AppendDurable_def SQLite_Sync_def
    dest: SQLite_Append_contract SQLite_Lookup_contract)

end
