(* ===== verification/Instrumented.thy ===== *)
theory Instrumented
  imports Sqlite
begin

text \<open>
  The metrics wrapper around a store (\<open>internal/audit/storage/instrumented.go\<close> and its part of
  \<open>durable.go\<close>): every operation delegates and writes are reported with their status. The
  wrapper always has the optional methods; where the wrapped store lacks one it answers with
  an error. Wrapping keeps the store contract, so the logger's guarantees carry over to the
  stores as the program builds them.
\<close>

record instr_config =
  ic_metrics :: bool
  ic_backend :: string
  ic_mode :: string

record storage_write =
  sw_backend :: string
  sw_mode :: string
  sw_status :: string
  sw_entries :: int

record 's instrumented =
  in_store :: 's
  in_writes :: "storage_write list"

definition instr_record :: "instr_config \<Rightarrow> int \<Rightarrow> err option \<Rightarrow> 's instrumented \<Rightarrow> 's instrumented" where
  "instr_record c entries er s =
     (if \<not> ic_metrics c \<or> entries \<le> 0 then s
      else
        s\<lparr>in_writes := in_writes s @
            [\<lparr>sw_backend = ic_backend c, sw_mode = ic_mode c,
              sw_status = (if er \<noteq> None then ''error'' else ''ok''), sw_entries = entries\<rparr>]\<rparr>)"

definition lift_write :: "instr_config \<Rightarrow> int \<Rightarrow> ('s \<Rightarrow> err option \<times> 's) \<Rightarrow> 's instrumented \<Rightarrow>
    err option \<times> 's instrumented" where
  "lift_write c n f s =
     (case f (in_store s) of (er, t) \<Rightarrow> (er, instr_record c n er (s\<lparr>in_store := t\<rparr>)))"

definition Instr_Append :: "instr_config \<Rightarrow> 's store_ops \<Rightarrow> entry \<Rightarrow> 's instrumented \<Rightarrow>
    err option \<times> 's instrumented" where
  "Instr_Append c ops e = lift_write c 1 (op_Append ops e)"

fun append_each :: "(entry \<Rightarrow> 's \<Rightarrow> err option \<times> 's) \<Rightarrow> entry list \<Rightarrow> 's \<Rightarrow> err option \<times> 's" where
  "append_each f [] s = (None, s)"
| "append_each f (e # es) s =
     (case f e s of (Some er, s') \<Rightarrow> (Some er, s') | (None, s') \<Rightarrow> append_each f es s')"

definition Instr_AppendBatch :: "instr_config \<Rightarrow> 's store_ops \<Rightarrow> entry list \<Rightarrow> 's instrumented \<Rightarrow>
    err option \<times> 's instrumented" where
  "Instr_AppendBatch c ops es =
     lift_write c (int (length es))
       (case op_AppendBatch ops of
          Some f \<Rightarrow> f es
        | None \<Rightarrow> append_each (op_Append ops) es)"

definition Instr_AppendDurable :: "instr_config \<Rightarrow> 's store_ops \<Rightarrow> entry \<Rightarrow> 's instrumented \<Rightarrow>
    err option \<times> 's instrumented" where
  "Instr_AppendDurable c ops e =
     lift_write c 1
       (case op_AppendDurable ops of
          Some f \<Rightarrow> f e
        | None \<Rightarrow> (\<lambda>s. (Some ''audit: storage does not support durable appends'', s)))"

definition Instr_AppendBatchDurable :: "instr_config \<Rightarrow> 's store_ops \<Rightarrow> entry list \<Rightarrow>
    's instrumented \<Rightarrow> err option \<times> 's instrumented" where
  "Instr_AppendBatchDurable c ops es =
     lift_write c (int (length es))
       (case op_AppendBatchDurable ops of
          Some f \<Rightarrow> f es
        | None \<Rightarrow> (\<lambda>s. (Some ''audit: storage does not support durable batches'', s)))"

definition Instr_LookupEntry :: "'s store_ops \<Rightarrow> string \<Rightarrow> 's instrumented \<Rightarrow>
    (entry \<times> bool \<times> err option) \<times> 's instrumented" where
  "Instr_LookupEntry ops i s =
     (case op_LookupEntry ops of
        Some f \<Rightarrow> (case f i (in_store s) of (r, t) \<Rightarrow> (r, s\<lparr>in_store := t\<rparr>))
      | None \<Rightarrow>
          ((zero_entry, False, Some ''audit: storage does not support identity lookup''), s))"

definition Instr_Sync :: "'s store_ops \<Rightarrow> 's instrumented \<Rightarrow> err option \<times> 's instrumented" where
  "Instr_Sync ops s =
     (case op_Sync ops of
        Some f \<Rightarrow> (case f (in_store s) of (r, t) \<Rightarrow> (r, s\<lparr>in_store := t\<rparr>))
      | None \<Rightarrow> (Some ''audit: storage does not support durable confirmation'', s))"

definition Instr_Query :: "'s store_ops \<Rightarrow> query_filter \<Rightarrow> 's instrumented \<Rightarrow>
    entry list res \<times> 's instrumented" where
  "Instr_Query ops f s = (case op_Query ops f (in_store s) of (r, t) \<Rightarrow> (r, s\<lparr>in_store := t\<rparr>))"

definition Instr_Stats :: "'s store_ops \<Rightarrow> 's instrumented \<Rightarrow> stats res \<times> 's instrumented" where
  "Instr_Stats ops s = (case op_Stats ops (in_store s) of (r, t) \<Rightarrow> (r, s\<lparr>in_store := t\<rparr>))"

definition Instr_Close :: "'s store_ops \<Rightarrow> 's instrumented \<Rightarrow> err option \<times> 's instrumented" where
  "Instr_Close ops s = (case op_Close ops (in_store s) of (r, t) \<Rightarrow> (r, s\<lparr>in_store := t\<rparr>))"

definition instrumented_ops :: "instr_config \<Rightarrow> 's store_ops \<Rightarrow> 's instrumented store_ops" where
  "instrumented_ops c ops =
     \<lparr>op_Append = Instr_Append c ops, op_AppendBatch = Some (Instr_AppendBatch c ops),
      op_AppendDurable = Some (Instr_AppendDurable c ops),
      op_AppendBatchDurable = Some (Instr_AppendBatchDurable c ops),
      op_LookupEntry = Some (Instr_LookupEntry ops), op_Sync = Some (Instr_Sync ops),
      op_Query = Instr_Query ops, op_Stats = Instr_Stats ops, op_Close = Instr_Close ops\<rparr>"

subsection \<open>Wrapping keeps the contract\<close>

lemma instr_record_store [simp]: "in_store (instr_record c n er s) = in_store s"
  by (simp add: instr_record_def)

lemma lift_writeE:
  assumes "lift_write c n f s = (r, s')"
  obtains t where "f (in_store s) = (r, t)" "in_store s' = t"
  using assms by (auto simp: lift_write_def split: prod.splits)

lemma instr_append:
  assumes "audit_store ops contents stored ok admits durable" "ok (in_store s)"
    and "Instr_Append c ops e s = (r, s')" "\<not> durable" "admits e"
  shows "ok (in_store s') \<and> appended stored e r (contents (in_store s)) (contents (in_store s'))"
proof -
  obtain t where "op_Append ops e (in_store s) = (r, t)" "in_store s' = t"
    using assms(3) unfolding Instr_Append_def by (rule lift_writeE)
  with audit_store.append [OF assms(1,4,5,2)] show ?thesis by blast
qed

lemma instr_append_durable:
  assumes "audit_store ops contents stored ok admits durable" "ok (in_store s)"
    and "Instr_AppendDurable c ops e s = (r, s')" durable "admits e"
  shows "ok (in_store s') \<and> appended stored e r (contents (in_store s)) (contents (in_store s'))"
proof (cases "op_AppendDurable ops")
  case None
  with assms show ?thesis by (auto simp: Instr_AppendDurable_def appended_def lift_write_def)
next
  case (Some f)
  obtain t where "f e (in_store s) = (r, t)" "in_store s' = t"
    using assms(3) Some by (auto simp: Instr_AppendDurable_def elim: lift_writeE)
  with audit_store.append_durable [OF assms(1,4,5,2) Some] show ?thesis by blast
qed

lemma instr_lookup:
  assumes "audit_store ops contents stored ok admits durable" "ok (in_store s)"
    and "Instr_LookupEntry ops i s = ((x, found, er), s')"
  shows "ok (in_store s') \<and> contents (in_store s') = contents (in_store s) \<and>
     (er = None \<longrightarrow> (found \<longleftrightarrow> with_id i (contents (in_store s)) \<noteq> {#}) \<and>
        (found \<longrightarrow> x \<in># with_id i (contents (in_store s))))"
proof (cases "op_LookupEntry ops")
  case None
  with assms show ?thesis by (auto simp: Instr_LookupEntry_def)
next
  case (Some g)
  obtain t where "g i (in_store s) = ((x, found, er), t)" "in_store s' = t"
    using assms(3) Some by (auto simp: Instr_LookupEntry_def split: prod.splits)
  with audit_store.lookup [OF assms(1,2) Some] show ?thesis by blast
qed

lemma instr_sync:
  assumes "audit_store ops contents stored ok admits durable" "ok (in_store s)" and "Instr_Sync ops s = (r, s')"
  shows "ok (in_store s') \<and> contents (in_store s') = contents (in_store s)"
proof (cases "op_Sync ops")
  case None
  with assms show ?thesis by (auto simp: Instr_Sync_def)
next
  case (Some h)
  obtain t where "h (in_store s) = (r, t)" "in_store s' = t"
    using assms(3) Some by (auto simp: Instr_Sync_def split: prod.splits)
  with audit_store.sync [OF assms(1,2) Some] show ?thesis by blast
qed

lemma instrumented_contract:
  assumes "audit_store ops contents stored ok admits durable"
  shows "audit_store (instrumented_ops c ops) (contents \<circ> in_store) stored (ok \<circ> in_store) admits durable"
proof
  show "admits e \<Longrightarrow> e_ID (stored e) = e_ID e" for e using assms by (rule audit_store.stored_ID)
qed (auto simp: instrumented_ops_def
    dest: instr_append [OF assms] instr_append_durable [OF assms] instr_lookup [OF assms]
      instr_sync [OF assms])

interpretation isql: audit_store "instrumented_ops c (sqlite_ops offset now)"
  "sqlite_contents \<circ> in_store" sqlite_stored "sqlite_ok \<circ> in_store" "\<lambda>_. True" durable
  for c offset now durable
  by (rule instrumented_contract, rule sql.audit_store_axioms)

end
