(* ===== verification/Async.thy ===== *)
theory Async
  imports Instrumented
begin

text \<open>
  The asynchronous store (\<open>internal/audit/storage/async.go\<close> and its part of \<open>durable.go\<close>): a
  bounded queue, one worker that batches, and clients that append, flush and close.

  \<open>async\<close> is the shared state: the channel \<open>entries\<close> as a list, the worker's batch, the closed
  and done flags and the sticky error; \<open>as_sent\<close>, \<open>as_written\<close> and \<open>as_direct\<close> are history variables. The
  worker's cases and the client calls are functions; \<open>async_step\<close> interleaves them at the
  granularity of locks and channel operations, with one program counter per client. Gauges
  and counters of the metrics recorder are not modelled.

  The lemmas: nothing accepted is lost or reordered, the queue is bounded, the error is sticky,
  a durable append acknowledges only entries the store accepted, and a clean close leaves
  nothing behind. In durable mode the store satisfies the contract of the logger.
\<close>

subsection \<open>State and configuration\<close>

definition defaultAsyncQueueSize :: int where "defaultAsyncQueueSize = 4096"
definition defaultAsyncBatchSize :: int where "defaultAsyncBatchSize = 128"
definition defaultAsyncFlushIntervalMS :: int where "defaultAsyncFlushIntervalMS = 1000"

record async_config =
  ac_QueueSize :: int
  ac_BatchSize :: int
  ac_FlushIntervalMS :: int
  ac_Durable :: bool

record 's async =
  as_store :: 's
  as_queue :: "entry list"
  as_batch :: "entry list"
  as_closed :: bool
  as_done :: bool
  as_err :: "err option"
  as_closeErr :: "err option option"
  as_cap :: nat
  as_batchSize :: nat
  as_flushInterval :: duration
  as_durable :: bool
  as_sent :: "entry list"
  as_written :: "entry list"
  as_direct :: "entry list"

definition NewAsyncStore :: "'s \<Rightarrow> async_config \<Rightarrow> 's async" where
  "NewAsyncStore store config =
     (let q = (if ac_QueueSize config \<le> 0 then defaultAsyncQueueSize else ac_QueueSize config);
          b = (if ac_BatchSize config \<le> 0 then defaultAsyncBatchSize else ac_BatchSize config);
          f = (if ac_FlushIntervalMS config \<le> 0 then defaultAsyncFlushIntervalMS
               else ac_FlushIntervalMS config)
      in \<lparr>as_store = store, as_queue = [], as_batch = [], as_closed = False, as_done = False,
          as_err = None, as_closeErr = None, as_cap = nat q, as_batchSize = nat b,
          as_flushInterval = milliseconds f, as_durable = ac_Durable config,
          as_sent = [], as_written = [], as_direct = []\<rparr>)"

definition setErr :: "err option \<Rightarrow> 's async \<Rightarrow> 's async" where
  "setErr er s =
     (case er of
        None \<Rightarrow> s
      | Some x \<Rightarrow> if as_err s = None then s\<lparr>as_err := Some x\<rparr> else s)"

subsection \<open>The worker\<close>

definition write_entries :: "bool \<Rightarrow> 's store_ops \<Rightarrow> entry list \<Rightarrow> 's \<Rightarrow> err option \<times> 's" where
  "write_entries durable ops batch s =
     (if durable then
        (case op_AppendBatchDurable ops of
           None \<Rightarrow> (Some ''audit: async: storage does not support durable batches'', s)
         | Some f \<Rightarrow>
             (case f batch s of
                (Some er, s') \<Rightarrow> (Some (''audit: async: durable append batch: '' @ er), s')
              | (None, s') \<Rightarrow> (None, s')))
      else
        (case op_AppendBatch ops of
           Some f \<Rightarrow>
             (case f batch s of
                (Some er, s') \<Rightarrow> (Some (''audit: async: append batch: '' @ er), s')
              | (None, s') \<Rightarrow> (None, s'))
         | None \<Rightarrow>
             (case append_each (op_Append ops) batch s of
                (Some er, s') \<Rightarrow> (Some (''audit: async: append: '' @ er), s')
              | (None, s') \<Rightarrow> (None, s'))))"

definition writeBatch :: "'s store_ops \<Rightarrow> 's async \<Rightarrow> err option \<times> 's async" where
  "writeBatch ops s =
     (if length (as_batch s) = 0 then (None, s)
      else
        (case write_entries (as_durable s) ops (as_batch s) (as_store s) of
           (Some er, t) \<Rightarrow> (Some er, s\<lparr>as_store := t\<rparr>)
         | (None, t) \<Rightarrow>
             (None, s\<lparr>as_store := t, as_written := as_written s @ as_batch s, as_batch := []\<rparr>)))"

text \<open>Taking one entry off the channel, writing when the batch is full.\<close>

definition receive :: "'s store_ops \<Rightarrow> 's async \<Rightarrow> err option \<times> 's async" where
  "receive ops s =
     (case as_queue s of
        [] \<Rightarrow> (None, s)
      | e # q \<Rightarrow>
          (let s1 = s\<lparr>as_queue := q, as_batch := as_batch s @ [e]\<rparr>
           in if length (as_batch s1) \<ge> as_batchSize s1 then writeBatch ops s1 else (None, s1)))"

fun drain :: "nat \<Rightarrow> 's store_ops \<Rightarrow> 's async \<Rightarrow> err option \<times> 's async" where
  "drain 0 ops s = writeBatch ops s"
| "drain (Suc remaining) ops s =
     (if as_queue s = [] then writeBatch ops s
      else
        (case receive ops s of
           (Some er, s') \<Rightarrow> (Some er, s')
         | (None, s') \<Rightarrow> drain remaining ops s'))"

definition drainAndFlush :: "'s store_ops \<Rightarrow> 's async \<Rightarrow> err option \<times> 's async" where
  "drainAndFlush ops s = drain (length (as_queue s)) ops s"

text \<open>A failing write ends the worker.\<close>

definition stop_on_error :: "err option \<times> 's async \<Rightarrow> 's async" where
  "stop_on_error r =
     (case r of
        (None, s) \<Rightarrow> s
      | (Some er, s) \<Rightarrow> (setErr (Some er) s)\<lparr>as_done := True\<rparr>)"

definition run_entry :: "'s store_ops \<Rightarrow> 's async \<Rightarrow> 's async" where
  "run_entry ops s = stop_on_error (receive ops s)"

definition run_closed :: "'s store_ops \<Rightarrow> 's async \<Rightarrow> 's async" where
  "run_closed ops s = (case writeBatch ops s of (er, s') \<Rightarrow> (setErr er s')\<lparr>as_done := True\<rparr>)"

definition run_flush :: "'s store_ops \<Rightarrow> 's async \<Rightarrow> err option \<times> 's async" where
  "run_flush ops s = (case drainAndFlush ops s of (er, s') \<Rightarrow> (er, stop_on_error (er, s')))"

definition run_tick :: "'s store_ops \<Rightarrow> 's async \<Rightarrow> 's async" where
  "run_tick ops s = stop_on_error (writeBatch ops s)"

subsection \<open>Client calls\<close>

text \<open>\<open>Flush\<close>: the worker serves the request, unless it has ended.\<close>

definition Async_Flush :: "'s store_ops \<Rightarrow> 's async \<Rightarrow> err option \<times> 's async" where
  "Async_Flush ops s = (if as_done s then (as_err s, s) else run_flush ops s)"

definition closed_err :: "'s async \<Rightarrow> err" where
  "closed_err s = (case as_err s of Some er \<Rightarrow> er | None \<Rightarrow> ''audit: async: append after close'')"

definition send :: "entry \<Rightarrow> 's async \<Rightarrow> 's async" where
  "send e s = s\<lparr>as_queue := as_queue s @ [e], as_sent := as_sent s @ [e]\<rparr>"

definition on_store :: "('s \<Rightarrow> 'r \<times> 's) \<Rightarrow> 's async \<Rightarrow> 'r \<times> 's async" where
  "on_store f s = (case f (as_store s) of (r, t) \<Rightarrow> (r, s\<lparr>as_store := t\<rparr>))"

definition Async_Query :: "'s store_ops \<Rightarrow> query_filter \<Rightarrow> 's async \<Rightarrow> entry list res \<times> 's async" where
  "Async_Query ops f s =
     (case Async_Flush ops s of
        (Some er, s') \<Rightarrow> (Inl er, s')
      | (None, s') \<Rightarrow> on_store (op_Query ops f) s')"

definition Async_Stats :: "'s store_ops \<Rightarrow> 's async \<Rightarrow> stats res \<times> 's async" where
  "Async_Stats ops s =
     (case Async_Flush ops s of
        (Some er, s') \<Rightarrow> (Inl er, s')
      | (None, s') \<Rightarrow> on_store (op_Stats ops) s')"

definition Async_LookupEntry :: "'s store_ops \<Rightarrow> string \<Rightarrow> 's async \<Rightarrow>
    (entry \<times> bool \<times> err option) \<times> 's async" where
  "Async_LookupEntry ops i s =
     (case op_LookupEntry ops of
        Some f \<Rightarrow> on_store (f i) s
      | None \<Rightarrow> ((zero_entry, False, Some ''audit: storage does not support identity lookup''), s))"

definition Async_Sync :: "'s store_ops \<Rightarrow> 's async \<Rightarrow> err option \<times> 's async" where
  "Async_Sync ops s =
     (case (if as_err s \<noteq> None then (None, s) else Async_Flush ops s) of
        (Some er, s') \<Rightarrow> (Some er, s')
      | (None, s') \<Rightarrow>
          (case op_Sync ops of
             Some f \<Rightarrow> on_store f s'
           | None \<Rightarrow> (Some ''audit: storage does not support durable confirmation'', s')))"

text \<open>\<open>AppendDurable\<close> after the worker failed: the caller writes to the store itself.\<close>

definition append_direct :: "'s store_ops \<Rightarrow> err \<Rightarrow> entry \<Rightarrow> 's async \<Rightarrow> err option \<times> 's async" where
  "append_direct ops er e s =
     (if as_closed s then (Some (''audit: async: append after close: '' @ er), s)
      else
        (case op_AppendDurable ops of
           Some f \<Rightarrow>
             (case on_store (f e) s of
                (None, s') \<Rightarrow> (None, s'\<lparr>as_direct := as_direct s' @ [e]\<rparr>)
              | (Some x, s') \<Rightarrow> (Some x, s'))
         | None \<Rightarrow> (Some er, s)))"

definition Async_Close :: "'s store_ops \<Rightarrow> 's async \<Rightarrow> err option \<times> 's async" where
  "Async_Close ops s =
     (case as_closeErr s of
        Some r \<Rightarrow> (r, s)
      | None \<Rightarrow>
          (case on_store (op_Close ops) s of
             (cr, s') \<Rightarrow>
               (let r = (case (as_err s, cr) of
                           (None, x) \<Rightarrow> x
                         | (Some a, None) \<Rightarrow> Some a
                         | (Some a, Some b) \<Rightarrow> Some (errors_Join a b))
                in (r, s'\<lparr>as_closeErr := Some r\<rparr>))))"

subsection \<open>Interleaving\<close>

datatype client =
    Idle
  | Locking entry bool
  | Sending entry bool
  | Flushing "entry option"
  | Waiting entry err
  | Returned "entry option" bool "err option"

text \<open>
  \<open>Locking e d\<close>: \<open>Append\<close> (inside \<open>AppendDurable\<close> if \<open>d\<close>) found no error yet.
  \<open>Sending e d\<close>: it holds the read lock and passed the checks.
  \<open>Flushing x\<close>: inside \<open>Flush\<close>, for \<open>AppendDurable\<close> of an entry or on its own.
  \<open>Waiting e er\<close>: \<open>AppendDurable\<close> saw the error and waits for the worker to end.
  \<open>Returned x d r\<close>: the call ended with \<open>r\<close>.
\<close>

type_synonym 's async_sys = "'s async \<times> (nat \<Rightarrow> client)"

definition after_send :: "entry \<Rightarrow> bool \<Rightarrow> client" where
  "after_send e d = (if d then Flushing (Some e) else Returned (Some e) False None)"

inductive async_step :: "'s store_ops \<Rightarrow> 's async_sys \<Rightarrow> 's async_sys \<Rightarrow> bool" for ops where
  Begin: "\<lbrakk>pc i = Idle; as_err s = None; d \<longrightarrow> as_durable s\<rbrakk> \<Longrightarrow>
    async_step ops (s, pc) (s, pc(i := Locking e d))"
| BeginErr: "\<lbrakk>pc i = Idle; as_err s = Some er\<rbrakk> \<Longrightarrow>
    async_step ops (s, pc) (s, pc(i := Returned (Some e) False (Some er)))"
| BeginWait: "\<lbrakk>pc i = Idle; as_err s = Some er; as_durable s\<rbrakk> \<Longrightarrow>
    async_step ops (s, pc) (s, pc(i := Waiting e er))"
| BeginNotDurable: "\<lbrakk>pc i = Idle; \<not> as_durable s\<rbrakk> \<Longrightarrow>
    async_step ops (s, pc)
      (s, pc(i := Returned (Some e) True (Some ''audit: async: durable batching is not enabled'')))"
| LockClosed: "\<lbrakk>pc i = Locking e d; as_closed s\<rbrakk> \<Longrightarrow>
    async_step ops (s, pc) (s, pc(i := Returned (Some e) d (Some ''audit: async: append after close'')))"
| LockDone: "\<lbrakk>pc i = Locking e d; \<not> as_closed s; as_done s\<rbrakk> \<Longrightarrow>
    async_step ops (s, pc) (s, pc(i := Returned (Some e) d (Some (closed_err s))))"
| Lock: "\<lbrakk>pc i = Locking e d; \<not> as_closed s; \<not> as_done s\<rbrakk> \<Longrightarrow>
    async_step ops (s, pc) (s, pc(i := Sending e d))"
| Send: "\<lbrakk>pc i = Sending e d; length (as_queue s) < as_cap s\<rbrakk> \<Longrightarrow>
    async_step ops (s, pc) (send e s, pc(i := after_send e d))"
| SendDone: "\<lbrakk>pc i = Sending e d; length (as_queue s) = as_cap s; as_done s\<rbrakk> \<Longrightarrow>
    async_step ops (s, pc) (s, pc(i := Returned (Some e) d (Some (closed_err s))))"
| BeginFlush: "pc i = Idle \<Longrightarrow> async_step ops (s, pc) (s, pc(i := Flushing None))"
| Flush: "\<lbrakk>pc i = Flushing x; Async_Flush ops s = (r, s')\<rbrakk> \<Longrightarrow>
    async_step ops (s, pc) (s', pc(i := Returned x (x \<noteq> None) r))"
| Direct: "\<lbrakk>pc i = Waiting e er; as_done s; append_direct ops er e s = (r, s')\<rbrakk> \<Longrightarrow>
    async_step ops (s, pc) (s', pc(i := Returned (Some e) True r))"
| Again: "pc i = Returned x d r \<Longrightarrow> async_step ops (s, pc) (s, pc(i := Idle))"
| Close: "\<lbrakk>\<not> as_closed s; \<forall>i e d. pc i \<noteq> Sending e d\<rbrakk> \<Longrightarrow>
    async_step ops (s, pc) (s\<lparr>as_closed := True\<rparr>, pc)"
| CloseEnd: "\<lbrakk>as_closed s; as_done s; Async_Close ops s = (r, s')\<rbrakk> \<Longrightarrow> async_step ops (s, pc) (s', pc)"
| Worker: "\<lbrakk>\<not> as_done s; as_queue s \<noteq> []\<rbrakk> \<Longrightarrow> async_step ops (s, pc) (run_entry ops s, pc)"
| WorkerEnd: "\<lbrakk>\<not> as_done s; as_queue s = []; as_closed s\<rbrakk> \<Longrightarrow>
    async_step ops (s, pc) (run_closed ops s, pc)"
| Tick: "\<not> as_done s \<Longrightarrow> async_step ops (s, pc) (run_tick ops s, pc)"

subsection \<open>Nothing is lost or reordered\<close>

text \<open>The worker's bookkeeping: an entry is written, in the batch, or in the queue.\<close>

definition ledger :: "'s async \<Rightarrow> bool" where
  "ledger s \<longleftrightarrow> as_sent s = as_written s @ as_batch s @ as_queue s"

text \<open>What no worker action changes.\<close>

definition same_frame :: "'s async \<Rightarrow> 's async \<Rightarrow> bool" where
  "same_frame s s' \<longleftrightarrow> as_sent s' = as_sent s \<and> as_cap s' = as_cap s \<and> as_closed s' = as_closed s \<and>
     as_durable s' = as_durable s \<and> as_batchSize s' = as_batchSize s \<and>
     as_direct s' = as_direct s \<and> prefix (as_written s) (as_written s')"

lemma same_frame_trans: "\<lbrakk>same_frame s t; same_frame t u\<rbrakk> \<Longrightarrow> same_frame s u"
  by (auto simp: same_frame_def)

lemma same_frame_refl [simp]: "same_frame s s"
  by (simp add: same_frame_def)

lemma writeBatch_frame:
  assumes "writeBatch ops s = (r, s')"
  shows "same_frame s s'" "as_queue s' = as_queue s" "ledger s \<Longrightarrow> ledger s'" "as_done s' = as_done s"
    "as_err s' = as_err s" "r = None \<Longrightarrow> as_batch s' = []"
  using assms
  by (auto simp: writeBatch_def same_frame_def ledger_def split: if_splits prod.splits option.splits)

lemma receive_frame:
  assumes "receive ops s = (r, s')"
  shows "same_frame s s' \<and> as_queue s' = tl (as_queue s) \<and> (ledger s \<longrightarrow> ledger s') \<and>
    as_done s' = as_done s \<and> as_err s' = as_err s"
proof (cases "as_queue s")
  case (Cons e q)
  define s1 where "s1 = s\<lparr>as_queue := q, as_batch := as_batch s @ [e]\<rparr>"
  have s1: "same_frame s s1" "ledger s \<Longrightarrow> ledger s1"
    using Cons by (auto simp: s1_def same_frame_def ledger_def)
  have "(if length (as_batch s1) \<ge> as_batchSize s1 then writeBatch ops s1 else (None, s1)) = (r, s')"
    using assms Cons by (auto simp: receive_def s1_def Let_def)
  then show ?thesis
    using s1 Cons same_frame_trans [OF s1(1)] writeBatch_frame [of ops s1 r s']
    by (auto simp: s1_def split: if_splits)
qed (use assms in \<open>auto simp: receive_def\<close>)

lemma drain_frame:
  assumes "drain n ops s = (r, s')"
  shows "same_frame s s' \<and> length (as_queue s') \<le> length (as_queue s) \<and> (ledger s \<longrightarrow> ledger s') \<and>
     as_done s' = as_done s \<and> as_err s' = as_err s \<and>
     (r = None \<longrightarrow> as_batch s' = [] \<and> as_queue s' = drop n (as_queue s))"
  using assms
proof (induction n arbitrary: s)
  case 0
  then show ?case using writeBatch_frame [of ops s r s'] by simp
next
  case (Suc n)
  show ?case
  proof (cases "as_queue s = []")
    case True
    with Suc.prems show ?thesis using writeBatch_frame [of ops s r s'] by simp
  next
    case False
    obtain q t where q: "receive ops s = (q, t)" by fastforce
    note f = receive_frame [OF q]
    have d: "drop n (tl (as_queue s)) = drop (Suc n) (as_queue s)" by (simp add: drop_Suc)
    show ?thesis
    proof (cases q)
      case None
      with Suc.prems False q have "drain n ops t = (r, s')" by simp
      from Suc.IH [OF this] f d show ?thesis by (auto intro: same_frame_trans)
    next
      case (Some x)
      with Suc.prems False q f show ?thesis by auto
    qed
  qed
qed

lemma stop_on_error_frame:
  "same_frame (snd r) (stop_on_error r)" "ledger (stop_on_error r) = ledger (snd r)"
  "as_queue (stop_on_error r) = as_queue (snd r)" "as_batch (stop_on_error r) = as_batch (snd r)"
  "as_store (stop_on_error r) = as_store (snd r)"
  "as_done (stop_on_error r) = (fst r \<noteq> None \<or> as_done (snd r))"
  "as_err (stop_on_error r) = (if as_err (snd r) = None then fst r else as_err (snd r))"
  "as_written (stop_on_error r) = as_written (snd r)" "as_direct (stop_on_error r) = as_direct (snd r)"
  by (cases r; cases "fst r"; simp add: stop_on_error_def setErr_def same_frame_def ledger_def)+

text \<open>The invariant of the interleaved system.\<close>

definition async_inv :: "'s async_sys \<Rightarrow> bool" where
  "async_inv x \<longleftrightarrow> (case x of (s, pc) \<Rightarrow>
     ledger s \<and> length (as_queue s) \<le> as_cap s \<and>
     (as_err s \<noteq> None \<longrightarrow> as_done s) \<and>
     (as_done s \<and> as_err s = None \<longrightarrow> as_closed s \<and> as_queue s = [] \<and> as_batch s = []) \<and>
     (as_closed s \<longrightarrow> (\<forall>i e d. pc i \<noteq> Sending e d)) \<and>
     (\<forall>i e. pc i = Flushing (Some e) \<longrightarrow> e \<in> set (as_sent s)) \<and>
     (\<forall>i e. pc i = Returned (Some e) True None \<longrightarrow> e \<in> set (as_written s @ as_direct s)) \<and>
     (\<forall>i e er. pc i = Waiting e er \<longrightarrow> as_err s = Some er))"

lemma flush_frame:
  assumes "Async_Flush ops s = (r, s')" "ledger s" "length (as_queue s) \<le> as_cap s"
    "as_err s \<noteq> None \<longrightarrow> as_done s"
    "as_done s \<and> as_err s = None \<longrightarrow> as_closed s \<and> as_queue s = [] \<and> as_batch s = []"
  shows "same_frame s s' \<and> ledger s' \<and> length (as_queue s') \<le> as_cap s' \<and>
     (as_err s' \<noteq> None \<longrightarrow> as_done s') \<and>
     (as_done s' \<and> as_err s' = None \<longrightarrow> as_closed s' \<and> as_queue s' = [] \<and> as_batch s' = []) \<and>
     (r = None \<longrightarrow> as_written s' = as_sent s') \<and> (as_err s \<noteq> None \<longrightarrow> as_err s' = as_err s)"
proof (cases "as_done s")
  case True
  with assms show ?thesis by (auto simp: Async_Flush_def ledger_def)
next
  case False
  obtain q t where q: "drain (length (as_queue s)) ops s = (q, t)" by fastforce
  have s': "r = q" "s' = stop_on_error (q, t)"
    using assms(1) False q by (auto simp: Async_Flush_def run_flush_def drainAndFlush_def)
  note d = drain_frame [OF q] and e = stop_on_error_frame [of "(q, t)", simplified]
  have "same_frame s s'" using d e(1) s' by (auto intro: same_frame_trans)
  moreover have "as_cap s' = as_cap s" using \<open>same_frame s s'\<close> by (simp add: same_frame_def)
  moreover have "ledger s'" using d e(2) s' assms(2) by simp
  moreover have "as_done s' \<longrightarrow> as_err s' \<noteq> None" using d e s' False by (auto split: if_splits)
  moreover have "r = None \<longrightarrow> as_batch s' = [] \<and> as_queue s' = []" using d e s' by auto
  moreover have "as_err s' \<noteq> None \<longrightarrow> as_done s'" using d e s' assms(4) False by (auto split: if_splits)
  moreover have "length (as_queue s') \<le> length (as_queue s)" using d e s' by simp
  ultimately show ?thesis using assms(3,4) False by (auto simp: ledger_def)
qed

lemma worker_inv:
  assumes "r = receive ops s \<or> r = writeBatch ops s" "ledger s" "\<not> as_done s" "as_err s = None"
    "length (as_queue s) \<le> as_cap s"
  shows "same_frame s (stop_on_error r) \<and> ledger (stop_on_error r) \<and>
     length (as_queue (stop_on_error r)) \<le> as_cap (stop_on_error r) \<and>
     (as_err (stop_on_error r) \<noteq> None \<longleftrightarrow> as_done (stop_on_error r))"
proof -
  obtain q t where r: "r = (q, t)" by fastforce
  have f: "same_frame s t \<and> length (as_queue t) \<le> length (as_queue s) \<and> ledger t \<and> \<not> as_done t \<and>
      as_err t = None"
    using assms r receive_frame [of ops s q t] writeBatch_frame [of ops s q t] by auto
  then have "as_cap t = as_cap s" by (simp add: same_frame_def)
  with f stop_on_error_frame [of r, unfolded r, simplified] assms(5) show ?thesis
    unfolding r by (auto simp: same_frame_def)
qed

lemma run_closed_inv:
  assumes "ledger s" "\<not> as_done s" "as_err s = None" "as_queue s = []" "as_closed s"
  shows "same_frame s (run_closed ops s) \<and> ledger (run_closed ops s) \<and> as_done (run_closed ops s) \<and>
     as_queue (run_closed ops s) = [] \<and>
     (as_err (run_closed ops s) = None \<longrightarrow> as_batch (run_closed ops s) = [])"
proof -
  obtain q t where w: "writeBatch ops s = (q, t)" by fastforce
  have "same_frame t (run_closed ops s)"
    by (cases q) (auto simp: run_closed_def w setErr_def same_frame_def)
  with writeBatch_frame(1) [OF w] have "same_frame s (run_closed ops s)" by (rule same_frame_trans)
  with writeBatch_frame(2-) [OF w] assms show ?thesis
    by (cases q) (auto simp: run_closed_def w setErr_def ledger_def)
qed

text \<open>A worker action, seen from the clients.\<close>

lemma async_inv_worker:
  assumes "async_inv (s, pc)" "same_frame s s'" "ledger s'" "length (as_queue s') \<le> as_cap s'"
    "as_err s' \<noteq> None \<longrightarrow> as_done s'"
    "as_done s' \<and> as_err s' = None \<longrightarrow> as_closed s' \<and> as_queue s' = [] \<and> as_batch s' = []"
    "as_err s \<noteq> None \<longrightarrow> as_err s' = as_err s"
  shows "async_inv (s', pc)"
proof -
  have f: "as_sent s' = as_sent s" "as_closed s' = as_closed s" "as_direct s' = as_direct s"
    "set (as_written s) \<subseteq> set (as_written s')"
    using assms(2) set_mono_prefix by (auto simp: same_frame_def)
  have "\<forall>i e. pc i = Returned (Some e) True None \<longrightarrow> e \<in> set (as_written s @ as_direct s)"
    using assms(1) by (simp add: async_inv_def)
  then have "\<forall>i e. pc i = Returned (Some e) True None \<longrightarrow> e \<in> set (as_written s' @ as_direct s')"
    using f by auto
  moreover have "\<forall>i e er. pc i = Waiting e er \<longrightarrow> as_err s' = Some er"
    using assms(1,7) by (simp add: async_inv_def)
  moreover have "as_closed s' \<longrightarrow> (\<forall>i e d. pc i \<noteq> Sending e d)"
    "\<forall>i e. pc i = Flushing (Some e) \<longrightarrow> e \<in> set (as_sent s')"
    using assms(1) f by (simp_all add: async_inv_def)
  ultimately show ?thesis using assms(3-6) unfolding async_inv_def prod.case by blast
qed

lemma async_inv_client:
  assumes "async_inv (s, pc)"
    "\<forall>e d. x = Sending e d \<longrightarrow> \<not> as_closed s"
    "\<forall>e. x = Flushing (Some e) \<longrightarrow> e \<in> set (as_sent s)"
    "\<forall>e. x = Returned (Some e) True None \<longrightarrow> e \<in> set (as_written s @ as_direct s)"
    "\<forall>e er. x = Waiting e er \<longrightarrow> as_err s = Some er"
  shows "async_inv (s, pc(i := x))"
proof -
  from assms(1) have i: "as_closed s \<longrightarrow> (\<forall>j e d. pc j \<noteq> Sending e d)"
    "\<forall>j e. pc j = Flushing (Some e) \<longrightarrow> e \<in> set (as_sent s)"
    "\<forall>j e. pc j = Returned (Some e) True None \<longrightarrow> e \<in> set (as_written s @ as_direct s)"
    "\<forall>j e er. pc j = Waiting e er \<longrightarrow> as_err s = Some er"
    by (simp_all add: async_inv_def)
  have "as_closed s \<longrightarrow> (\<forall>j e d. (pc(i := x)) j \<noteq> Sending e d)"
    using i(1) assms(2) by (metis fun_upd_apply)
  moreover have "\<forall>j e. (pc(i := x)) j = Flushing (Some e) \<longrightarrow> e \<in> set (as_sent s)"
    using i(2) assms(3) by simp
  moreover have "\<forall>j e. (pc(i := x)) j = Returned (Some e) True None \<longrightarrow>
      e \<in> set (as_written s @ as_direct s)" using i(3) assms(4) by simp
  moreover have "\<forall>j e er. (pc(i := x)) j = Waiting e er \<longrightarrow> as_err s = Some er"
    using i(4) assms(5) by simp
  ultimately show ?thesis using assms(1) unfolding async_inv_def prod.case by blast
qed

lemma after_send_cases: "after_send e d \<in> {Flushing (Some e), Returned (Some e) False None}"
  by (simp add: after_send_def)

lemma async_inv_send:
  assumes "async_inv (s, pc)" "pc i = Sending e d" "length (as_queue s) < as_cap s"
  shows "async_inv (send e s, pc(i := after_send e d))"
proof -
  have open': "\<not> as_closed s" using assms(1,2) unfolding async_inv_def by fastforce
  then have err: "as_done s \<longrightarrow> as_err s \<noteq> None" using assms(1) by (auto simp: async_inv_def)
  have "async_inv (send e s, pc)"
  proof -
    have "\<forall>j x. pc j = Flushing (Some x) \<longrightarrow> x \<in> set (as_sent (send e s))"
      using assms(1) by (simp add: async_inv_def send_def)
    moreover have "ledger (send e s)" using assms(1) by (simp add: async_inv_def ledger_def send_def)
    ultimately show ?thesis
      using assms(1,3) err open' by (simp add: async_inv_def send_def)
  qed
  then show ?thesis
    by (rule async_inv_client) (use open' in \<open>auto simp: after_send_def send_def\<close>)
qed

lemma append_direct_frame:
  assumes "append_direct ops er e s = (r, s')"
  shows "as_sent s' = as_sent s \<and> as_written s' = as_written s \<and> as_queue s' = as_queue s \<and>
     as_batch s' = as_batch s \<and> as_closed s' = as_closed s \<and> as_done s' = as_done s \<and>
     as_err s' = as_err s \<and> as_cap s' = as_cap s \<and> as_durable s' = as_durable s \<and>
     as_direct s' = as_direct s @ (if r = None then [e] else [])"
  using assms
  by (auto simp: append_direct_def on_store_def split: if_splits option.splits prod.splits)

lemma async_step_inv:
  assumes "async_step ops (s, pc) (s', pc')" "async_inv (s, pc)"
  shows "async_inv (s', pc') \<and> (as_err s \<noteq> None \<longrightarrow> as_err s' = as_err s) \<and>
     prefix (as_sent s) (as_sent s') \<and> prefix (as_written s) (as_written s')"
  using assms(1)
proof (cases rule: async_step.cases)
  case (Flush i x r)
  have g: "ledger s" "length (as_queue s) \<le> as_cap s" "as_err s \<noteq> None \<longrightarrow> as_done s"
    "as_done s \<and> as_err s = None \<longrightarrow> as_closed s \<and> as_queue s = [] \<and> as_batch s = []"
    using assms(2) by (simp_all add: async_inv_def)
  have x: "\<forall>e. x = Some e \<longrightarrow> e \<in> set (as_sent s)" using assms(2) Flush by (auto simp: async_inv_def)
  from Flush have "Async_Flush ops s = (r, s')" by simp
  note f = flush_frame [OF this g]
  have w: "async_inv (s', pc)" by (rule async_inv_worker [OF assms(2)]) (use f in blast)+
  have "as_sent s' = as_sent s" using f by (simp add: same_frame_def)
  with x f have "\<forall>e. Returned x (x \<noteq> None) r = Returned (Some e) True None \<longrightarrow>
      e \<in> set (as_written s' @ as_direct s')" by simp
  then have "async_inv (s', pc(i := Returned x (x \<noteq> None) r))"
    by (intro async_inv_client [OF w]) simp_all
  with f Flush show ?thesis by (simp add: same_frame_def)
next
  case (Direct i e er r)
  then have "append_direct ops er e s = (r, s')" by simp
  note f = append_direct_frame [OF this]
  have r: "\<forall>j x. pc j = Returned (Some x) True None \<longrightarrow> x \<in> set (as_written s' @ as_direct s')"
    using assms(2) f by (auto simp: async_inv_def)
  have l: "ledger s'" using assms(2) f by (simp add: async_inv_def ledger_def)
  have w: "async_inv (s', pc)"
    using assms(2) f r l unfolding async_inv_def prod.case by simp
  have "async_inv (s', pc(i := Returned (Some e) True r))"
    by (rule async_inv_client [OF w]) (simp_all add: f)
  with f Direct show ?thesis by simp
next
  case (Send i e d)
  with async_inv_send [OF assms(2), of i e d] show ?thesis by (simp add: send_def)
next
  case (CloseEnd r)
  then have c: "as_sent s' = as_sent s" "as_written s' = as_written s" "as_queue s' = as_queue s"
    "as_batch s' = as_batch s" "as_closed s' = as_closed s" "as_done s' = as_done s"
    "as_err s' = as_err s" "as_cap s' = as_cap s" "as_direct s' = as_direct s"
    by (auto simp: Async_Close_def on_store_def Let_def split: option.splits prod.splits)
  have "ledger s'" using assms(2) c by (simp add: async_inv_def ledger_def)
  with c have "async_inv (s', pc)" using assms(2) by (simp add: async_inv_def)
  with CloseEnd c show ?thesis by simp
next
  case Close
  have "ledger s'" using assms(2) Close by (simp add: async_inv_def ledger_def)
  with assms(2) Close show ?thesis by (auto simp: async_inv_def)
next
  case Worker
  have e: "as_err s = None" "ledger s" "length (as_queue s) \<le> as_cap s" "\<not> as_done s"
    using assms(2) Worker by (auto simp: async_inv_def)
  note w = worker_inv [of "receive ops s" ops s, OF _ e(2,4,1,3), folded run_entry_def]
  have "async_inv (run_entry ops s, pc)"
    by (rule async_inv_worker [OF assms(2)]) (use w e in auto)
  with w Worker e show ?thesis by (simp add: same_frame_def)
next
  case Tick
  have e: "as_err s = None" "ledger s" "length (as_queue s) \<le> as_cap s" "\<not> as_done s"
    using assms(2) Tick by (auto simp: async_inv_def)
  note w = worker_inv [of "writeBatch ops s" ops s, OF _ e(2,4,1,3), folded run_tick_def]
  have "async_inv (run_tick ops s, pc)"
    by (rule async_inv_worker [OF assms(2)]) (use w e in auto)
  with w Tick e show ?thesis by (simp add: same_frame_def)
next
  case WorkerEnd
  have e: "as_err s = None" "ledger s" "\<not> as_done s" "as_queue s = []" "as_closed s"
    using assms(2) WorkerEnd by (auto simp: async_inv_def)
  note w = run_closed_inv [OF e(2,3,1,4,5), of ops]
  have "as_closed (run_closed ops s)" using w e(5) by (simp add: same_frame_def)
  then have "async_inv (run_closed ops s, pc)"
    by (intro async_inv_worker [OF assms(2)]) (use w e in auto)
  with w WorkerEnd e show ?thesis by (simp add: same_frame_def)
qed (use assms(2) in \<open>auto intro!: async_inv_client\<close>)

lemma async_init_inv: "async_inv (NewAsyncStore store config, \<lambda>i. Idle)"
  by (simp add: async_inv_def NewAsyncStore_def Let_def ledger_def defaultAsyncQueueSize_def)

lemma async_reach_inv:
  assumes "(async_step ops)\<^sup>*\<^sup>* (s, pc) (s', pc')" "async_inv (s, pc)"
  shows "async_inv (s', pc') \<and> (as_err s \<noteq> None \<longrightarrow> as_err s' = as_err s) \<and>
     prefix (as_sent s) (as_sent s') \<and> prefix (as_written s) (as_written s')"
  using assms
proof (induction "(s', pc')" arbitrary: s' pc' rule: rtranclp_induct)
  case base
  then show ?case by simp
next
  case (step y)
  obtain t q where y: "y = (t, q)" by (cases y)
  with step have "async_inv (t, q) \<and> (as_err s \<noteq> None \<longrightarrow> as_err t = as_err s) \<and>
     prefix (as_sent s) (as_sent t) \<and> prefix (as_written s) (as_written t)" by blast
  with async_step_inv [of ops t q s' pc'] step(2) y show ?case
    by (metis prefix_order.trans)
qed

text \<open>
  C37: The asynchronous store under any interleaving of clients and worker and with any wrapped
  store. Every entry a client got into the queue is written, in the batch or in the queue, in
  the order of acceptance; the queue never exceeds its capacity; an error ends the worker, and a
  worker that ended without one leaves nothing unwritten; a durable append that returned
  success has been written; and the error, once set, stays.
\<close>
theorem async_no_loss:
  assumes "(async_step ops)\<^sup>*\<^sup>* (NewAsyncStore store config, \<lambda>i. Idle) (s, pc)"
  shows "as_sent s = as_written s @ as_batch s @ as_queue s \<and> length (as_queue s) \<le> as_cap s \<and>
     (as_err s \<noteq> None \<longrightarrow> as_done s) \<and>
     (as_done s \<and> as_err s = None \<longrightarrow> as_written s = as_sent s) \<and>
     (\<forall>i e. pc i = Returned (Some e) True None \<longrightarrow> e \<in> set (as_written s @ as_direct s)) \<and>
     (\<forall>s' pc'. (async_step ops)\<^sup>*\<^sup>* (s, pc) (s', pc') \<longrightarrow>
        (as_err s \<noteq> None \<longrightarrow> as_err s' = as_err s) \<and> prefix (as_sent s) (as_sent s'))"
proof -
  have i: "async_inv (s, pc)" using async_reach_inv [OF assms async_init_inv] by blast
  have "\<forall>s' pc'. (async_step ops)\<^sup>*\<^sup>* (s, pc) (s', pc') \<longrightarrow>
      (as_err s \<noteq> None \<longrightarrow> as_err s' = as_err s) \<and> prefix (as_sent s) (as_sent s')"
    using async_reach_inv [OF _ i] by blast
  moreover have "as_sent s = as_written s @ as_batch s @ as_queue s"
      "length (as_queue s) \<le> as_cap s" "as_err s \<noteq> None \<longrightarrow> as_done s"
      "as_done s \<and> as_err s = None \<longrightarrow> as_queue s = [] \<and> as_batch s = []"
      "\<forall>i e. pc i = Returned (Some e) True None \<longrightarrow> e \<in> set (as_written s @ as_direct s)"
    using i by (simp_all add: async_inv_def ledger_def)
  ultimately show ?thesis by (metis append_Nil2)
qed

subsection \<open>Batches reach the store\<close>

definition batch_appended :: "(entry \<Rightarrow> entry) \<Rightarrow> entry list \<Rightarrow> err option \<Rightarrow> entry multiset \<Rightarrow>
    entry multiset \<Rightarrow> bool" where
  "batch_appended stored es r c c' \<longleftrightarrow>
     (\<exists>n. c' = c + mset (map stored (take n es)) \<and> (r = None \<longrightarrow> length es \<le> n))"

text \<open>
  A store may promise its contract for some entries only. Runs whose clients bring such entries:
  every call under way is for an entry with the property \<open>A\<close>.
\<close>

definition brings :: "(entry \<Rightarrow> bool) \<Rightarrow> (nat \<Rightarrow> client) \<Rightarrow> bool" where
  "brings A pc \<longleftrightarrow> (\<forall>i e. (\<exists>d. pc i = Locking e d) \<or> (\<exists>d. pc i = Sending e d) \<or> (\<exists>er. pc i = Waiting e er) \<longrightarrow> A e)"

definition admitted_step :: "(entry \<Rightarrow> bool) \<Rightarrow> 's store_ops \<Rightarrow> 's async_sys \<Rightarrow> 's async_sys \<Rightarrow> bool" where
  "admitted_step A ops x y \<longleftrightarrow> async_step ops x y \<and> brings A (snd y)"

lemma admitted_steps: "(admitted_step A ops)\<^sup>*\<^sup>* x y \<Longrightarrow> (async_step ops)\<^sup>*\<^sup>* x y"
  by (erule rtranclp_mono [THEN predicate2D, rotated]) (auto simp: admitted_step_def)

lemma admitted_step_True: "admitted_step (\<lambda>_. True) ops = async_step ops"
  by (intro ext) (simp add: admitted_step_def brings_def)

text \<open>A store that takes batches: a prefix of the batch is added, all of it on success.\<close>

locale batch_store = audit_store ops contents stored ok admitted durable
    for ops contents stored ok admitted durable +
  assumes append_batch:
      "\<lbrakk>\<not> durable; list_all admitted es; ok s; op_AppendBatch ops = Some f; f es s = (r, s')\<rbrakk> \<Longrightarrow>
         ok s' \<and> batch_appended stored es r (contents s) (contents s')"
    and append_batch_durable:
      "\<lbrakk>durable; list_all admitted es; ok s; op_AppendBatchDurable ops = Some f; f es s = (r, s')\<rbrakk> \<Longrightarrow>
         ok s' \<and> batch_appended stored es r (contents s) (contents s')"
    and close: "\<lbrakk>ok s; op_Close ops s = (r, s')\<rbrakk> \<Longrightarrow> ok s' \<and> contents s' = contents s"
begin

lemma append_each:
  assumes "\<not> durable" "list_all admitted es" "ok s" "append_each (op_Append ops) es s = (r, s')"
  shows "ok s' \<and> batch_appended stored es r (contents s) (contents s')"
  using assms(2-4)
proof (induction es arbitrary: s)
  case Nil
  then show ?case by (auto simp: batch_appended_def)
next
  case (Cons e es)
  obtain q t where q: "op_Append ops e s = (q, t)" by fastforce
  have e: "admitted e" "list_all admitted es" using Cons.prems(1) by simp_all
  note a = append [OF assms(1) e(1) Cons.prems(2) q]
  show ?case
  proof (cases q)
    case None
    with Cons.prems q have "append_each (op_Append ops) es t = (r, s')" by simp
    with Cons.IH [of t] e a obtain n where "ok s'"
      "contents s' = contents t + mset (map stored (take n es))" "r = None \<longrightarrow> length es \<le> n"
      by (auto simp: batch_appended_def)
    moreover have "contents t = add_mset (stored e) (contents s)" using a None by (simp add: appended_def)
    ultimately show ?thesis by (auto simp: batch_appended_def intro!: exI [of _ "Suc n"])
  next
    case (Some x)
    with Cons.prems q a show ?thesis
      by (auto simp: batch_appended_def appended_def intro: exI [of _ 0] exI [of _ 1])
  qed
qed

lemma write_entries:
  assumes "list_all admitted es" "ok s" "write_entries durable ops es s = (r, s')"
  shows "ok s' \<and> batch_appended stored es r (contents s) (contents s')"
proof -
  have step: "ok s' \<and> batch_appended stored es r (contents s) (contents s')"
    if "ok t \<and> batch_appended stored es q (contents s) (contents t)"
      "(case q of None \<Rightarrow> (None, t) | Some er \<Rightarrow> (Some (m @ er), t)) = (r, s')" for q t m
    using that by (cases q) (auto simp: batch_appended_def)
  have no: "ok s' \<and> batch_appended stored es r (contents s) (contents s')"
    if "(Some x, s) = (r, s')" for x
    using that assms(2) by (auto simp: batch_appended_def intro: exI [of _ 0])
  show ?thesis
  proof (cases durable)
    case d: True
    show ?thesis
    proof (cases "op_AppendBatchDurable ops")
      case None
      with assms d show ?thesis 
        by (intro no [of "''audit: async: storage does not support durable batches''"])
          (simp add: write_entries_def)
    next
      case (Some f)
      obtain q t where f: "f es s = (q, t)" by fastforce
      from append_batch_durable [OF d assms(1,2) Some f] show ?thesis
        by (rule step [where m = "''audit: async: durable append batch: ''"])
          (use assms(3) d Some f in \<open>auto simp: write_entries_def split: option.splits\<close>)
    qed
  next
    case d: False
    show ?thesis
    proof (cases "op_AppendBatch ops")
      case None
      obtain q t where f: "append_each (op_Append ops) es s = (q, t)" by fastforce
      from append_each [OF d assms(1,2) f] show ?thesis
        by (rule step [where m = "''audit: async: append: ''"])
          (use assms(3) d None f in \<open>auto simp: write_entries_def split: option.splits\<close>)
    next
      case (Some f)
      obtain q t where f: "f es s = (q, t)" by fastforce
      from append_batch [OF d assms(1,2) Some f] show ?thesis
        by (rule step [where m = "''audit: async: append batch: ''"])
          (use assms(3) d Some f in \<open>auto simp: write_entries_def split: option.splits\<close>)
    qed
  qed
qed

text \<open>All that counts as written is in the wrapped store.\<close>

definition covers :: "entry multiset \<Rightarrow> 'a async \<Rightarrow> bool" where
  "covers c0 s \<longleftrightarrow> ok (as_store s) \<and> as_durable s = durable \<and>
     list_all admitted (as_batch s) \<and> list_all admitted (as_queue s) \<and>
     c0 + mset (map stored (as_written s @ as_direct s)) \<subseteq># contents (as_store s)"

lemma writeBatch_covers:
  assumes "covers c0 s" "writeBatch ops s = (r, s')"
  shows "covers c0 s'"
proof (cases "as_batch s = []")
  case False
  have d: "as_durable s = durable" "ok (as_store s)" "list_all admitted (as_batch s)"
    using assms(1) by (simp_all add: covers_def)
  obtain q t where q: "write_entries durable ops (as_batch s) (as_store s) = (q, t)" by fastforce
  from write_entries [OF d(3,2) q] obtain n where n: "ok t"
    "contents t = contents (as_store s) + mset (map stored (take n (as_batch s)))"
    "q = None \<longrightarrow> length (as_batch s) \<le> n" by (auto simp: batch_appended_def)
  have "contents (as_store s) \<subseteq># contents t" using n(2) by simp
  then have mono: "c0 + mset (map stored (as_written s @ as_direct s)) \<subseteq># contents t"
    using assms(1) unfolding covers_def by (blast intro: subset_mset.order_trans)
  show ?thesis
  proof (cases q)
    case None
    then have "contents t = contents (as_store s) + mset (map stored (as_batch s))" using n by simp
    moreover have "s' = s\<lparr>as_store := t, as_written := as_written s @ as_batch s, as_batch := []\<rparr>"
      using assms(2) False q None d by (simp add: writeBatch_def)
    ultimately show ?thesis using assms(1) n(1) by (simp add: covers_def ac_simps)
  next
    case (Some x)
    then have "s' = s\<lparr>as_store := t\<rparr>" using assms(2) False q d by (simp add: writeBatch_def)
    with mono n(1) assms(1) show ?thesis by (simp add: covers_def)
  qed
qed (use assms in \<open>simp add: writeBatch_def\<close>)

lemma receive_covers:
  assumes "covers c0 s" "receive ops s = (r, s')"
  shows "covers c0 s'"
proof (cases "as_queue s")
  case (Cons e q)
  define s1 where "s1 = s\<lparr>as_queue := q, as_batch := as_batch s @ [e]\<rparr>"
  have "covers c0 s1" using assms(1) Cons by (simp add: covers_def s1_def)
  moreover have "(if length (as_batch s1) \<ge> as_batchSize s1 then writeBatch ops s1 else (None, s1)) = (r, s')"
    using assms Cons by (auto simp: receive_def s1_def Let_def)
  ultimately show ?thesis by (auto split: if_splits dest: writeBatch_covers)
qed (use assms in \<open>simp add: receive_def\<close>)

lemma drain_covers: "\<lbrakk>covers c0 s; drain n ops s = (r, s')\<rbrakk> \<Longrightarrow> covers c0 s'"
proof (induction n arbitrary: s)
  case (Suc n)
  obtain q t where q: "receive ops s = (q, t)" by fastforce
  have t: "covers c0 t" using receive_covers [OF Suc.prems(1) q] .
  show ?case
  proof (cases "as_queue s = []")
    case True
    with Suc.prems show ?thesis by (simp add: writeBatch_covers)
  next
    case False
    with Suc q t show ?thesis by (cases q) auto
  qed
qed (simp add: writeBatch_covers)

lemma stop_covers: "covers c0 (stop_on_error r) = covers c0 (snd r)"
  by (cases r; cases "fst r") (simp_all add: stop_on_error_def setErr_def covers_def)

lemma flush_covers: "\<lbrakk>covers c0 s; Async_Flush ops s = (r, s')\<rbrakk> \<Longrightarrow> covers c0 s'"
  using drain_covers
  by (auto simp: Async_Flush_def run_flush_def drainAndFlush_def stop_covers
      split: if_splits prod.splits)

lemma direct_covers:
  assumes "covers c0 s" "append_direct ops er e s = (r, s')" durable "admitted e"
  shows "covers c0 s'"
proof (cases "as_closed s \<or> op_AppendDurable ops = None")
  case True
  with assms show ?thesis by (auto simp: append_direct_def split: if_splits)
next
  case False
  then obtain f where f: "op_AppendDurable ops = Some f" "\<not> as_closed s" by blast
  obtain q t where q: "f e (as_store s) = (q, t)" by fastforce
  have "ok t \<and> appended stored e q (contents (as_store s)) (contents t)"
    using append_durable [OF assms(3,4) _ f(1) q] assms(1) by (simp add: covers_def)
  moreover have "s' = s\<lparr>as_store := t, as_direct := as_direct s @ (if q = None then [e] else [])\<rparr>"
    using assms(2) f q by (cases q) (auto simp: append_direct_def on_store_def)
  ultimately show ?thesis
    using assms(1)
    by (auto simp: covers_def appended_def intro: subset_mset.order_trans)
qed

lemma close_covers: "\<lbrakk>covers c0 s; Async_Close ops s = (r, s')\<rbrakk> \<Longrightarrow> covers c0 s'"
  using close [of "as_store s"]
  by (auto simp: Async_Close_def on_store_def covers_def Let_def split: option.splits prod.splits)

lemma run_closed_covers: "covers c0 s \<Longrightarrow> covers c0 (run_closed ops s)"
proof -
  assume c: "covers c0 s"
  obtain q t where w: "writeBatch ops s = (q, t)" by fastforce
  from writeBatch_covers [OF c w] show ?thesis
    by (cases q) (auto simp: run_closed_def w setErr_def covers_def)
qed

lemma step_covers:
  assumes "async_step ops (s, pc) (s', pc')" "covers c0 s" "\<And>i e er. pc i = Waiting e er \<Longrightarrow> durable"
    "brings admitted pc"
  shows "covers c0 s' \<and> (\<forall>i e er. pc' i = Waiting e er \<longrightarrow> durable)"
proof -
  have d: "as_durable s = durable" using assms(2) by (simp add: covers_def)
  have w: "covers c0 (stop_on_error (receive ops s))" "covers c0 (stop_on_error (writeBatch ops s))"
    using receive_covers [OF assms(2)] writeBatch_covers [OF assms(2)]
    by (simp_all add: stop_covers prod_eq_iff)
  from assms(1) have "covers c0 s'"
  proof (cases rule: async_step.cases)
    case (Direct i e er r)
    then have "admitted e" using assms(4) unfolding brings_def by blast
    with Direct assms(3) direct_covers [OF assms(2), of er e r s'] show ?thesis by simp
  next
    case (Send i e dd)
    with assms(2,4) show ?thesis by (auto simp: covers_def send_def brings_def)
  next
    case (Flush i x r)
    with flush_covers [OF assms(2), of r s'] show ?thesis by simp
  next
    case Close
    with assms(2) show ?thesis by (simp add: covers_def)
  next
    case (CloseEnd r)
    with close_covers [OF assms(2), of r s'] show ?thesis by simp
  next
    case Worker
    with w(1) show ?thesis by (simp add: run_entry_def)
  next
    case WorkerEnd
    with run_closed_covers [OF assms(2)] show ?thesis by simp
  next
    case Tick
    with w(2) show ?thesis by (simp add: run_tick_def)
  qed (use assms(2) in simp_all)
  moreover have "\<forall>i e er. pc' i = Waiting e er \<longrightarrow> durable"
    using assms(1) by (cases rule: async_step.cases)
      (use assms(3) d in \<open>auto simp: after_send_def split: if_splits\<close>)
  ultimately show ?thesis by blast
qed

lemma reach_covers:
  assumes "(admitted_step admitted ops)\<^sup>*\<^sup>* (s, pc) (s', pc')" "covers c0 s"
    "\<And>i e er. pc i = Waiting e er \<Longrightarrow> durable" "brings admitted pc"
  shows "covers c0 s'"
proof -
  have "covers c0 s' \<and> (\<forall>i e er. pc' i = Waiting e er \<longrightarrow> durable) \<and> brings admitted pc'"
    using assms
  proof (induction "(s', pc')" arbitrary: s' pc' rule: rtranclp_induct)
    case base
    then show ?case by blast
  next
    case (step y)
    obtain t q where y: "y = (t, q)" by (cases y)
    with step have "covers c0 t \<and> (\<forall>i e er. q i = Waiting e er \<longrightarrow> durable) \<and> brings admitted q" by blast
    with step_covers [of t q s' pc' c0] step(2) y show ?case by (auto simp: admitted_step_def)
  qed
  then show ?thesis by blast
qed

lemma written_covered:
  assumes "(admitted_step admitted ops)\<^sup>*\<^sup>* (NewAsyncStore store config, \<lambda>i. Idle) (s, pc)" "ok store"
    "ac_Durable config = durable"
  shows "mset (map stored (as_written s @ as_direct s)) \<subseteq># contents (as_store s)"
proof -
  have "covers {#} s"
    using assms(2,3)
    by (intro reach_covers [OF assms(1)]) (simp_all add: covers_def brings_def NewAsyncStore_def Let_def)
  then show ?thesis by (simp add: covers_def)
qed

text \<open>A durable append that returned success is in the store.\<close>

lemma durable_ack:
  assumes "(admitted_step admitted ops)\<^sup>*\<^sup>* (NewAsyncStore store config, \<lambda>i. Idle) (s, pc)" "ok store"
    "ac_Durable config = durable" "pc i = Returned (Some e) True None"
  shows "stored e \<in># contents (as_store s)"
proof -
  have "async_inv (s, pc)" using async_reach_inv [OF admitted_steps [OF assms(1)] async_init_inv] by blast
  with assms(4) have "e \<in> set (as_written s @ as_direct s)" by (simp add: async_inv_def)
  moreover have "mset (map stored (as_written s @ as_direct s)) \<subseteq># contents (as_store s)"
    by (rule written_covered [OF assms(1-3)])
  moreover have "stored e \<in># mset (map stored (as_written s @ as_direct s))"
    using calculation(1) by auto
  ultimately show ?thesis by (blast intro: mset_subset_eqD)
qed

end

subsection \<open>Over the instrumented SQLite store\<close>

lemma SQLite_batch_contract:
  assumes "sqlite_ok s" "SQLite_AppendBatch es s = (r, s')"
  shows "sqlite_ok s' \<and> batch_appended sqlite_stored es r (sqlite_contents s) (sqlite_contents s')"
proof -
  have "map row_view new = map sqlite_stored es" if "list_all2 (\<lambda>e x. entry_row e = Inr x) es new" for new
    using that by (induction rule: list_all2_induct) (auto simp: sqlite_stored_def)
  then have "list_all2 (\<lambda>e x. entry_row e = Inr x) es new \<Longrightarrow>
      image_mset row_view (mset new) = mset (map sqlite_stored es)" for new
    by (metis mset_map)
  then show ?thesis
    using AppendBatch_atomic(1) [OF assms(2)] AppendBatch_atomic(2) [OF assms(2,1)]
    by (auto simp: batch_appended_def sqlite_contents_def
        intro: exI [of _ 0] exI [of _ "length es"] simp del: mset_map)
qed

lemma instrumented_batch:
  assumes b: "batch_store ops contents stored ok admitted durable"
  shows "batch_store (instrumented_ops c ops) (contents \<circ> in_store) stored (ok \<circ> in_store) admitted durable"
proof (intro batch_store.intro batch_store_axioms.intro)
  show "audit_store (instrumented_ops c ops) (contents \<circ> in_store) stored (ok \<circ> in_store) admitted durable"
    using b by (intro instrumented_contract) (simp add: batch_store_def)
  show "(ok \<circ> in_store) s' \<and> batch_appended stored es r ((contents \<circ> in_store) s) ((contents \<circ> in_store) s')"
    if a: "\<not> durable" "list_all admitted es" "(ok \<circ> in_store) s"
      "op_AppendBatch (instrumented_ops c ops) = Some f" "f es s = (r, s')" for s f es r s'
  proof (cases "op_AppendBatch ops")
    case None
    with a have "lift_write c (int (length es)) (append_each (op_Append ops) es) s = (r, s')"
      by (auto simp: instrumented_ops_def Instr_AppendBatch_def)
    then show ?thesis
      using a batch_store.append_each [OF b a(1,2)] by (elim lift_writeE) auto
  next
    case (Some g)
    with a have "lift_write c (int (length es)) (g es) s = (r, s')"
      by (auto simp: instrumented_ops_def Instr_AppendBatch_def)
    then show ?thesis
      using a batch_store.append_batch [OF b a(1,2) _ Some] by (elim lift_writeE) auto
  qed
  show "(ok \<circ> in_store) s' \<and> batch_appended stored es r ((contents \<circ> in_store) s) ((contents \<circ> in_store) s')"
    if a: "durable" "list_all admitted es" "(ok \<circ> in_store) s"
      "op_AppendBatchDurable (instrumented_ops c ops) = Some f" "f es s = (r, s')" for s f es r s'
  proof (cases "op_AppendBatchDurable ops")
    case None
    with a have "lift_write c (int (length es))
        (\<lambda>s. (Some ''audit: storage does not support durable batches'', s)) s = (r, s')"
      by (auto simp: instrumented_ops_def Instr_AppendBatchDurable_def)
    then have "r \<noteq> None" "in_store s' = in_store s" by (auto elim: lift_writeE)
    with a(3) show ?thesis by (auto simp: batch_appended_def intro: exI [of _ 0])
  next
    case (Some g)
    with a have "lift_write c (int (length es)) (g es) s = (r, s')"
      by (auto simp: instrumented_ops_def Instr_AppendBatchDurable_def)
    then show ?thesis
      using a batch_store.append_batch_durable [OF b a(1,2) _ Some] by (elim lift_writeE) auto
  qed
  show "(ok \<circ> in_store) s' \<and> (contents \<circ> in_store) s' = (contents \<circ> in_store) s"
    if "(ok \<circ> in_store) s" "op_Close (instrumented_ops c ops) s = (r, s')" for s r s'
    using that batch_store.close [OF b]
    by (auto simp: instrumented_ops_def Instr_Close_def split: prod.splits)
qed

interpretation sql_batches: batch_store "sqlite_ops offset now" sqlite_contents sqlite_stored sqlite_ok
  "\<lambda>_. True" durable for offset now durable
proof
  show "sqlite_ok s' \<and> batch_appended sqlite_stored es r (sqlite_contents s) (sqlite_contents s')"
    if "sqlite_ok s" "op_AppendBatch (sqlite_ops offset now) = Some f" "f es s = (r, s')" for s f es r s'
    using that SQLite_batch_contract by (auto simp: sqlite_ops_def)
  show "sqlite_ok s' \<and> batch_appended sqlite_stored es r (sqlite_contents s) (sqlite_contents s')"
    if "sqlite_ok s" "op_AppendBatchDurable (sqlite_ops offset now) = Some f" "f es s = (r, s')" for s f es r s'
    using that SQLite_batch_contract by (auto simp: sqlite_ops_def SQLite_AppendBatchDurable_def)
  show "sqlite_ok s' \<and> sqlite_contents s' = sqlite_contents s"
    if "sqlite_ok s" "op_Close (sqlite_ops offset now) s = (r, s')" for s r s'
    using that by (auto simp: sqlite_ops_def SQLite_Close_def sqlite_ok_def sqlite_contents_def
        split: prod.splits option.splits)
qed

interpretation bsql: batch_store "instrumented_ops c (sqlite_ops offset now)"
  "sqlite_contents \<circ> in_store" sqlite_stored "sqlite_ok \<circ> in_store" "\<lambda>_. True" durable
  for c offset now durable
  by (rule instrumented_batch, rule sql_batches.batch_store_axioms)

text \<open>
  C38: Durable acknowledgement. Over the instrumented SQLite store and under any interleaving and
  any database failures, an entry whose durable append returned success is among the
  committed records.
\<close>
theorem async_durable_ack:
  assumes "(async_step (instrumented_ops c (sqlite_ops offset now)))\<^sup>*\<^sup>*
      (NewAsyncStore store config, \<lambda>i. Idle) (s, pc)"
    and "sqlite_ok (in_store store)" and "pc i = Returned (Some e) True None"
  shows "sqlite_stored e \<in># sqlite_contents (in_store (as_store s))"
  using bsql.durable_ack [unfolded admitted_step_True, OF assms(1) _ refl assms(3)] assms(2) by simp

text \<open>One durable append, step by step.\<close>

lemma append_run:
  assumes d: "as_err a = None" "as_durable a" "\<not> as_closed a" "\<not> as_done a" "length (as_queue a) < as_cap a"
    and f: "Async_Flush ops (send e a) = (None, s)" and A: "A e"
  shows "(admitted_step A ops)\<^sup>*\<^sup>* (a, \<lambda>i. Idle) (s, (\<lambda>i. Idle)(0 := Returned (Some e) True None))"
proof -
  let ?pc = "\<lambda>x. (\<lambda>i::nat. Idle)(0 := x)"
  let ?step = "async_step ops"
  have b: "brings A (?pc x)" if "x \<in> {Locking e True, Sending e True, Flushing (Some e), Returned (Some e) True None}" for x
    using that A by (auto simp: brings_def)
  have "?step (a, \<lambda>i. Idle) (a, ?pc (Locking e True))"
    by (rule async_step.Begin) (simp_all add: d)
  moreover have "?step (a, ?pc (Locking e True)) (a, ?pc (Sending e True))"
    using async_step.Lock [of "?pc (Locking e True)" 0 e True a] d by simp
  moreover have "?step (a, ?pc (Sending e True)) (send e a, ?pc (Flushing (Some e)))"
    using async_step.Send [of "?pc (Sending e True)" 0 e True a] d by (simp add: after_send_def)
  moreover have "?step (send e a, ?pc (Flushing (Some e))) (s, ?pc (Returned (Some e) True None))"
    using async_step.Flush [of "?pc (Flushing (Some e))" 0 "Some e" ops "send e a" None s] f by simp
  ultimately have "admitted_step A ops (a, \<lambda>i. Idle) (a, ?pc (Locking e True))"
    "admitted_step A ops (a, ?pc (Locking e True)) (a, ?pc (Sending e True))"
    "admitted_step A ops (a, ?pc (Sending e True)) (send e a, ?pc (Flushing (Some e)))"
    "admitted_step A ops (send e a, ?pc (Flushing (Some e))) (s, ?pc (Returned (Some e) True None))"
    using b by (simp_all add: admitted_step_def)
  then show ?thesis by (meson converse_rtranclp_into_rtranclp rtranclp.rtrancl_refl)
qed

definition demo_ops :: "sqlite instrumented store_ops" where
  "demo_ops = instrumented_ops \<lparr>ic_metrics = True, ic_backend = ''sqlite'', ic_mode = ''async''\<rparr>
     (sqlite_ops 0 0)"

definition demo_store :: "sqlite instrumented" where
  "demo_store = \<lparr>in_store = \<lparr>db_rows = [], db_envs = []\<rparr>, in_writes = []\<rparr>"

definition demo_async :: "sqlite instrumented async" where
  "demo_async = NewAsyncStore demo_store
     \<lparr>ac_QueueSize = 2, ac_BatchSize = 8, ac_FlushIntervalMS = 0, ac_Durable = True\<rparr>"

definition demo_entry :: entry where
  "demo_entry = zero_entry\<lparr>e_ID := ''i''\<rparr>"

lemma demo_flush:
  "case Async_Flush demo_ops (send demo_entry demo_async) of
     (r, s) \<Rightarrow> r = None \<and> as_written s = [demo_entry] \<and> as_queue s = []"
  by code_simp

lemma demo_run:
  "\<exists>s. (async_step demo_ops)\<^sup>*\<^sup>* (demo_async, \<lambda>i. Idle)
     (s, (\<lambda>i. Idle)(0 := Returned (Some demo_entry) True None)) \<and> as_written s = [demo_entry]"
proof -
  obtain r s where f: "Async_Flush demo_ops (send demo_entry demo_async) = (r, s)" by fastforce
  have r: "r = None" "as_written s = [demo_entry]" using demo_flush f by simp_all
  have d: "as_err demo_async = None" "as_durable demo_async" "\<not> as_closed demo_async"
      "\<not> as_done demo_async" "length (as_queue demo_async) < as_cap demo_async"
    by (simp_all add: demo_async_def NewAsyncStore_def Let_def)
  from admitted_steps [OF append_run [OF d f [unfolded r(1)] TrueI]] r(2) show ?thesis by blast
qed

theorem async_no_loss_witness:
  "\<exists>s pc. (async_step demo_ops)\<^sup>*\<^sup>* (demo_async, \<lambda>i. Idle) (s, pc) \<and>
     as_sent s = as_written s @ as_batch s @ as_queue s \<and> as_written s = [demo_entry]"
proof -
  obtain s where r: "(async_step demo_ops)\<^sup>*\<^sup>* (demo_async, \<lambda>i. Idle)
     (s, (\<lambda>i. Idle)(0 := Returned (Some demo_entry) True None))" "as_written s = [demo_entry]"
    using demo_run by blast
  from async_no_loss [OF r(1) [unfolded demo_async_def]] r show ?thesis by blast
qed

theorem async_durable_ack_witness:
  "\<exists>s pc. (async_step demo_ops)\<^sup>*\<^sup>* (demo_async, \<lambda>i. Idle) (s, pc) \<and>
     sqlite_stored demo_entry \<in># sqlite_contents (in_store (as_store s))"
proof -
  obtain s where r: "(async_step demo_ops)\<^sup>*\<^sup>* (demo_async, \<lambda>i. Idle)
     (s, (\<lambda>i. Idle)(0 := Returned (Some demo_entry) True None))" using demo_run by blast
  have "sqlite_ok (in_store demo_store)" by (simp add: demo_store_def sqlite_ok_def)
  with async_durable_ack [OF r [unfolded demo_ops_def demo_async_def], of 0 demo_entry] r
  show ?thesis by fastforce
qed

end
