(* ===== verification/Jsonl.thy ===== *)
theory Jsonl
  imports Async
begin

text \<open>
  The JSON lines store (\<open>internal/audit/storage/jsonl.go\<close> and its part of \<open>durable.go\<close>): an
  append-only file, rotation into archives by size or time, retention, and scanning.

  The directory of the active file is a map from file names to contents; paths are file names,
  since all files are in that directory and share its prefix. \<open>j_buf\<close> and \<open>j_werr\<close> are the
  buffered writer's pending bytes and sticky error. \<open>jsonl_env\<close> says for each call what the
  operating system answers: failing calls, how many bytes of a failing write reached the file,
  and the clock. A write error is reported by the flush of the batch.
\<close>

subsection \<open>State\<close>

record jsonl_config =
  jc_MaxSizeBytes :: int
  jc_MaxFiles :: int
  jc_Interval :: string
  jc_MaxAgeDays :: int
  jc_Durable :: bool

record jsonl_env =
  je_now :: go_time
  je_stat :: "err option"
  je_tail :: "err option"
  je_spill :: nat
  je_write :: "(nat \<times> err) option"
  je_sync :: "err option"
  je_truncate :: "err option"
  je_sync_rollback :: "err option"
  je_sync_dir :: "err option"
  je_stat_rotate :: "err option"
  je_close :: "err option"
  je_rename :: "err option"
  je_open :: "err option"
  je_readdir :: "err option"
  je_remove :: "string list"
  je_read :: "string list"

definition jsonl_fine :: "go_time \<Rightarrow> jsonl_env" where
  "jsonl_fine now =
     \<lparr>je_now = now, je_stat = None, je_tail = None, je_spill = 0, je_write = None, je_sync = None,
      je_truncate = None, je_sync_rollback = None, je_sync_dir = None, je_stat_rotate = None,
      je_close = None, je_rename = None, je_open = None, je_readdir = None, je_remove = [],
      je_read = []\<rparr>"

record jsonl =
  j_name :: string
  j_config :: jsonl_config
  j_open :: bool
  j_buf :: string
  j_werr :: "err option"
  j_cutoff :: go_time
  j_files :: "(string \<times> string) list"
  j_envs :: "jsonl_env list"

definition next_jenv :: "jsonl \<Rightarrow> jsonl_env \<times> jsonl" where
  "next_jenv s =
     (case j_envs s of [] \<Rightarrow> (jsonl_fine 0, s) | x # xs \<Rightarrow> (x, s\<lparr>j_envs := xs\<rparr>))"

definition content :: "jsonl \<Rightarrow> string \<Rightarrow> string" where
  "content s n = (case map_of (j_files s) n of None \<Rightarrow> [] | Some c \<Rightarrow> c)"

definition set_content :: "string \<Rightarrow> string \<Rightarrow> jsonl \<Rightarrow> jsonl" where
  "set_content n c s = s\<lparr>j_files := map_put n c (j_files s)\<rparr>"

abbreviation active :: "jsonl \<Rightarrow> string" where "active s \<equiv> content s (j_name s)"

definition set_active :: "string \<Rightarrow> jsonl \<Rightarrow> jsonl" where
  "set_active c s = set_content (j_name s) c s"

subsection \<open>Opening\<close>

definition nextRotationCutoff :: "go_time \<Rightarrow> string \<Rightarrow> go_time" where
  "nextRotationCutoff now interval =
     (if ToLower interval = ''hourly'' then Truncate_hour now + 3600000000000
      else if ToLower interval = ''daily'' then
        (let c = civil_of now
         in Date (c\<lparr>c_hour := 0, c_min := 0, c_sec := 0, c_nano := 0\<rparr>) + day_ns)
      else 0)"

text \<open>\<open>os.OpenFile\<close> with \<open>O_CREATE\<close>: a missing file is created empty.\<close>

definition openActive :: "jsonl_env \<Rightarrow> jsonl \<Rightarrow> err option \<times> jsonl" where
  "openActive env s =
     (case je_open env of
        Some er \<Rightarrow> (Some (''audit: jsonl: open: '' @ er), s)
      | None \<Rightarrow>
          (None, (set_active (active s) s)\<lparr>j_open := True, j_buf := [], j_werr := None\<rparr>))"

definition clamp0 :: "int \<Rightarrow> int" where "clamp0 n = (if n < 0 then 0 else n)"

definition NewJSONLStore ::
  "err option \<Rightarrow> jsonl_env \<Rightarrow> (string \<times> string) list \<Rightarrow> jsonl_env list \<Rightarrow> string \<Rightarrow> jsonl_config \<Rightarrow>
   jsonl res" where
  "NewJSONLStore mkdir env files envs name config =
     (case mkdir of
        Some er \<Rightarrow> Inl (''audit: jsonl: create directory: '' @ er)
      | None \<Rightarrow>
          (let c = config\<lparr>jc_MaxSizeBytes := clamp0 (jc_MaxSizeBytes config),
                          jc_MaxFiles := clamp0 (jc_MaxFiles config),
                          jc_MaxAgeDays := clamp0 (jc_MaxAgeDays config)\<rparr>;
               cutoff = (if jc_Interval c \<noteq> [] then nextRotationCutoff (je_now env) (jc_Interval c)
                         else 0)
           in case openActive env \<lparr>j_name = name, j_config = c, j_open = False, j_buf = [],
                     j_werr = None, j_cutoff = cutoff, j_files = files, j_envs = envs\<rparr> of
                (Some er, s) \<Rightarrow> Inl er
              | (None, s) \<Rightarrow> Inr s))"

subsection \<open>Archives\<close>

definition archive_suffix :: "string \<Rightarrow> bool" where
  "archive_suffix x \<longleftrightarrow>
     length x \<ge> 16 \<and> list_all is_digit (take 8 x) \<and> lit_at 8 CHR ''T'' x \<and>
     list_all is_digit (take 6 (drop 9 x)) \<and> lit_at 15 CHR ''Z'' x \<and>
     (let rest = drop 16 x
      in rest = [] \<or> prefix ''.'' rest \<and> tl rest \<noteq> [] \<and> list_all is_digit (tl rest))"

definition archivePaths :: "jsonl_env \<Rightarrow> jsonl \<Rightarrow> string list res" where
  "archivePaths env s =
     (case je_readdir env of
        Some er \<Rightarrow> Inl (''audit: jsonl: read archive directory: '' @ er)
      | None \<Rightarrow>
          (let base = j_name s @ ''.''
           in Inr (sort (filter (\<lambda>n. HasPrefix n base \<and> archive_suffix (TrimPrefix n base))
                     (map fst (j_files s))))))"

definition queryPaths :: "jsonl_env \<Rightarrow> jsonl \<Rightarrow> string list res" where
  "queryPaths env s =
     (case archivePaths env s of Inl er \<Rightarrow> Inl er | Inr archives \<Rightarrow> Inr (archives @ [j_name s]))"

text \<open>The loop over \<open>base\<close>, \<open>base.1\<close>, \<open>base.2\<close>, ...; \<open>fuel\<close> bounds the names tried.\<close>

definition archive_name :: "string \<Rightarrow> nat \<Rightarrow> string" where
  "archive_name base i = (if i = 0 then base else base @ ''.'' @ show_nat i)"

fun free_name :: "nat \<Rightarrow> string list \<Rightarrow> string \<Rightarrow> nat \<Rightarrow> string option" where
  "free_name 0 names base i = None"
| "free_name (Suc fuel) names base i =
     (if archive_name base i \<notin> set names then Some (archive_name base i)
      else free_name fuel names base (Suc i))"

definition nextArchivePath :: "go_time \<Rightarrow> jsonl \<Rightarrow> string option" where
  "nextArchivePath now s =
     free_name (Suc (length (j_files s))) (map fst (j_files s)) (j_name s @ ''.'' @ format_archive now) 0"

definition archiveRotationTime :: "string \<Rightarrow> string \<Rightarrow> go_time option" where
  "archiveRotationTime name archive =
     (let base = name @ ''.'' in
      if \<not> HasPrefix archive base then None
      else
        (let sfx = TrimPrefix archive base
         in if \<not> archive_suffix sfx then None
            else parse_archive (fst (Cut sfx CHR ''.''))))"

definition remove_file :: "jsonl_env \<Rightarrow> string \<Rightarrow> jsonl \<Rightarrow> jsonl" where
  "remove_file env n s =
     (if n \<in> set (je_remove env) then s
      else s\<lparr>j_files := filter (\<lambda>f. fst f \<noteq> n) (j_files s)\<rparr>)"

definition age_retention :: "jsonl_env \<Rightarrow> go_time \<Rightarrow> jsonl \<Rightarrow> jsonl option" where
  "age_retention env now s =
     (if jc_MaxAgeDays (j_config s) > 0 then
        (case archivePaths env s of
           Inl er \<Rightarrow> None
         | Inr archives \<Rightarrow>
             (let cutoff = now - jc_MaxAgeDays (j_config s) * day_ns
              in Some (fold (\<lambda>n s. case archiveRotationTime (j_name s) n of
                                     None \<Rightarrow> s
                                   | Some t \<Rightarrow> if \<not> t < cutoff then s else remove_file env n s)
                         archives s)))
      else Some s)"

definition applyRetention :: "jsonl_env \<Rightarrow> go_time \<Rightarrow> jsonl \<Rightarrow> jsonl" where
  "applyRetention env now s =
     (if jc_MaxAgeDays (j_config s) \<le> 0 \<and> jc_MaxFiles (j_config s) \<le> 0 then s
      else
        (case age_retention env now s of
           None \<Rightarrow> s
         | Some s1 \<Rightarrow>
             if jc_MaxFiles (j_config s) \<le> 0 then s1
             else
               (case archivePaths env s1 of
                  Inl er \<Rightarrow> s1
                | Inr archives \<Rightarrow>
                    if int (length archives) \<le> jc_MaxFiles (j_config s) then s1
                    else fold (remove_file env)
                           (take (length archives - nat (jc_MaxFiles (j_config s))) archives) s1)))"

subsection \<open>Rotation\<close>

definition flush_writer :: "jsonl_env \<Rightarrow> jsonl \<Rightarrow> err option \<times> jsonl" where
  "flush_writer env s =
     (case j_werr s of
        Some er \<Rightarrow> (Some er, s)
      | None \<Rightarrow>
          if j_buf s = [] then (None, s)
          else
            (case je_write env of
               Some (n, er) \<Rightarrow>
                 (Some er, (set_active (active s @ take n (j_buf s)) s)\<lparr>j_werr := Some er\<rparr>)
             | None \<Rightarrow> (None, (set_active (active s @ j_buf s) s)\<lparr>j_buf := []\<rparr>)))"

definition rename_active :: "string \<Rightarrow> jsonl \<Rightarrow> jsonl" where
  "rename_active n s =
     s\<lparr>j_files := map_put n (active s) (filter (\<lambda>f. fst f \<noteq> j_name s) (j_files s))\<rparr>"

definition rotate :: "jsonl_env \<Rightarrow> go_time \<Rightarrow> jsonl \<Rightarrow> err option \<times> jsonl" where
  "rotate env now s =
     (case flush_writer env s of
        (Some er, s1) \<Rightarrow> (Some (''flush before rotation: '' @ er), s1)
      | (None, s1) \<Rightarrow>
          (case je_close env of
             Some er \<Rightarrow> (Some (''close before rotation: '' @ er), s1)
           | None \<Rightarrow>
               (let s2 = s1\<lparr>j_open := False, j_buf := []\<rparr>
                in case nextArchivePath now s2 of
                     None \<Rightarrow> (Some ''no free archive name'', s2)
                   | Some archive \<Rightarrow>
                       (case je_rename env of
                          Some er \<Rightarrow>
                            (case openActive env s2 of
                               (Some oe, s3) \<Rightarrow>
                                 (Some (''rename: '' @ er @ ''; reopen active: '' @ oe), s3)
                             | (None, s3) \<Rightarrow> (Some (''rename: '' @ er), s3))
                        | None \<Rightarrow>
                            (case openActive env (rename_active archive s2) of
                               (Some oe, s3) \<Rightarrow> (Some oe, s3)
                             | (None, s3) \<Rightarrow> (None, applyRetention env now s3))))))"

definition timeRotationDue :: "go_time \<Rightarrow> jsonl \<Rightarrow> bool" where
  "timeRotationDue now s = (if IsZero (j_cutoff s) then False else \<not> now < j_cutoff s)"

definition rotateIfNeeded :: "jsonl_env \<Rightarrow> bool \<Rightarrow> jsonl \<Rightarrow> jsonl" where
  "rotateIfNeeded env activeWasEmptyBeforeAppend s =
     (if \<not> j_open s then s
      else if je_stat_rotate env \<noteq> None then s
      else
        (let now = je_now env;
             sizeTriggered = (jc_MaxSizeBytes (j_config s) > 0 \<and>
                              int (length (active s)) \<ge> jc_MaxSizeBytes (j_config s));
             timeTriggered0 = timeRotationDue now s;
             skip = (timeTriggered0 \<and> activeWasEmptyBeforeAppend);
             timeTriggered = (timeTriggered0 \<and> \<not> skip);
             s1 = (if skip \<and> \<not> sizeTriggered
                   then s\<lparr>j_cutoff := nextRotationCutoff now (jc_Interval (j_config s))\<rparr> else s)
         in if \<not> sizeTriggered \<and> \<not> timeTriggered then s1
            else
              (case rotate env now s1 of
                 (Some er, s2) \<Rightarrow> s2
               | (None, s2) \<Rightarrow>
                   if timeTriggered0
                   then s2\<lparr>j_cutoff := nextRotationCutoff now (jc_Interval (j_config s))\<rparr>
                   else s2)))"

subsection \<open>Appending\<close>

definition newline :: char where "newline = CHR 0x0A"

text \<open>The lines \<open>Encoder.Encode\<close> writes, up to the first entry that cannot be encoded.\<close>

fun encode_all :: "entry list \<Rightarrow> string \<times> bool" where
  "encode_all [] = ([], True)"
| "encode_all (e # es) =
     (case marshal_entry e of
        None \<Rightarrow> ([], False)
      | Some line \<Rightarrow> (case encode_all es of (rest, good) \<Rightarrow> (line @ [newline] @ rest, good)))"

definition rollback :: "jsonl_env \<Rightarrow> bool \<Rightarrow> nat \<Rightarrow> err \<Rightarrow> jsonl \<Rightarrow> err option \<times> jsonl" where
  "rollback env durable start cause s =
     (case je_truncate env of
        Some er \<Rightarrow>
          (Some (errors_Join cause (''audit: jsonl: rollback partial append: '' @ er)), s)
      | None \<Rightarrow>
          (let s1 = (set_active (take start (active s)) s)\<lparr>j_buf := [], j_werr := None\<rparr>
           in if durable then
                (case je_sync_rollback env of
                   Some er \<Rightarrow> (Some (errors_Join cause (''audit: jsonl: sync rollback: '' @ er)), s1)
                 | None \<Rightarrow> (Some cause, s1))
              else (Some cause, s1)))"

definition durable_tail :: "jsonl_env \<Rightarrow> bool \<Rightarrow> string \<Rightarrow> err option" where
  "durable_tail env durable c =
     (if durable \<and> length c > 0 then
        (case je_tail env of
           Some er \<Rightarrow> Some (''audit: jsonl: read tail: '' @ er)
         | None \<Rightarrow>
             if last c \<noteq> newline
             then Some ''audit: jsonl: incomplete existing record; repair evidence before appending''
             else None)
      else None)"

definition syncDirectory :: "jsonl_env \<Rightarrow> err option" where
  "syncDirectory env = je_sync_dir env"

text \<open>From the flush on; then the part of \<open>appendBatch\<close> under an open file.\<close>

definition flush_batch :: "jsonl_env \<Rightarrow> bool \<Rightarrow> nat \<Rightarrow> jsonl \<Rightarrow> err option \<times> jsonl" where
  "flush_batch env durable start s =
     (case flush_writer env s of
        (Some er, s1) \<Rightarrow> rollback env durable start (''audit: jsonl: flush: '' @ er) s1
      | (None, s1) \<Rightarrow>
          if durable \<and> je_sync env \<noteq> None
          then rollback env durable start (''audit: jsonl: sync: '' @ the (je_sync env)) s1
          else (if durable then syncDirectory env else None, rotateIfNeeded env (start = 0) s1))"

definition append_open :: "jsonl_env \<Rightarrow> entry list \<Rightarrow> bool \<Rightarrow> jsonl \<Rightarrow> err option \<times> jsonl" where
  "append_open env entries durable s =
     (case je_stat env of
        Some er \<Rightarrow> (Some (''audit: jsonl: stat before append: '' @ er), s)
      | None \<Rightarrow>
          (let start = length (active s)
           in case durable_tail env durable (active s) of
                Some er \<Rightarrow> (Some er, s)
              | None \<Rightarrow>
                  (case encode_all entries of
                     (data, good) \<Rightarrow>
                       if \<not> good then
                         rollback env durable start (''audit: jsonl: encode: '' @ json_error)
                           ((set_active (active s @ take (je_spill env) (j_buf s @ data)) s)
                              \<lparr>j_buf := drop (je_spill env) (j_buf s @ data)\<rparr>)
                       else flush_batch env durable start (s\<lparr>j_buf := j_buf s @ data\<rparr>))))"

definition appendBatch :: "entry list \<Rightarrow> bool \<Rightarrow> jsonl \<Rightarrow> err option \<times> jsonl" where
  "appendBatch entries durable s0 =
     (if length entries = 0 then (None, s0)
      else if \<not> j_open s0 then (Some ''audit: jsonl: append without an open file'', s0)
      else (case next_jenv s0 of (env, s) \<Rightarrow> append_open env entries durable s))"

definition JSONL_AppendBatch :: "entry list \<Rightarrow> jsonl \<Rightarrow> err option \<times> jsonl" where
  "JSONL_AppendBatch es s = appendBatch es (jc_Durable (j_config s)) s"

definition JSONL_Append :: "entry \<Rightarrow> jsonl \<Rightarrow> err option \<times> jsonl" where
  "JSONL_Append e s = JSONL_AppendBatch [e] s"

definition JSONL_AppendDurable :: "entry \<Rightarrow> jsonl \<Rightarrow> err option \<times> jsonl" where
  "JSONL_AppendDurable e s = appendBatch [e] True s"

definition JSONL_AppendBatchDurable :: "entry list \<Rightarrow> jsonl \<Rightarrow> err option \<times> jsonl" where
  "JSONL_AppendBatchDurable es s = appendBatch es True s"

subsection \<open>Reading\<close>

text \<open>\<open>bufio.ScanLines\<close>: pieces between newlines, without one carriage return at their end.\<close>

fun split_lines :: "string \<Rightarrow> string list" where
  "split_lines [] = []"
| "split_lines (c # cs) =
     (if c = newline then [] # split_lines cs
      else
        (case cs of
           [] \<Rightarrow> [[c]]
         | d # ds \<Rightarrow>
             if d = newline then [c] # split_lines ds
             else (case split_lines cs of [] \<Rightarrow> [[c]] | l # ls \<Rightarrow> (c # l) # ls)))"

definition drop_cr :: "string \<Rightarrow> string" where
  "drop_cr l = (if l \<noteq> [] \<and> last l = CHR 0x0D then butlast l else l)"

definition maxLineBytes :: nat where "maxLineBytes = 16 * 1024 * 1024"

text \<open>The visited entries and the error; \<open>jcs\<close> is the third-party canonicalization.\<close>

fun scan_lines :: "(string \<Rightarrow> string res) \<Rightarrow> bool \<Rightarrow> string list \<Rightarrow> entry list \<times> err option" where
  "scan_lines jcs strict [] = ([], None)"
| "scan_lines jcs strict (l # ls) =
     (if length l \<ge> maxLineBytes then ([], Some (''audit: jsonl: scan: bufio.Scanner: token too long''))
      else
        (let line = drop_cr l
         in if strict \<and> TrimSpace line = [] then scan_lines jcs strict ls
            else
              (case (if strict then jcs line else Inr []) of
                 Inl er \<Rightarrow>
                   ([], Some (''audit: jsonl: ambiguous evidence during identity lookup: '' @ er))
               | Inr _ \<Rightarrow>
                   (case unmarshal_entry line of
                      None \<Rightarrow>
                        if strict
                        then ([], Some (''audit: jsonl: invalid evidence during identity lookup: '' @
                                        json_error))
                        else scan_lines jcs strict ls
                    | Some e \<Rightarrow>
                        (case scan_lines jcs strict ls of (es, er) \<Rightarrow> (e # es, er))))))"

definition scanJSONLMode :: "(string \<Rightarrow> string res) \<Rightarrow> bool \<Rightarrow> string \<Rightarrow> entry list \<times> err option" where
  "scanJSONLMode jcs strict c =
     (if strict \<and> length c > 0 \<and> last c \<noteq> newline
      then ([], Some ''audit: jsonl: incomplete evidence during identity lookup'')
      else scan_lines jcs strict (split_lines c))"

fun walk_files :: "(string \<Rightarrow> string res) \<Rightarrow> bool \<Rightarrow> jsonl_env \<Rightarrow> jsonl \<Rightarrow> string list \<Rightarrow>
    entry list \<times> err option" where
  "walk_files jcs strict env s [] = ([], None)"
| "walk_files jcs strict env s (n # ns) =
     (if n \<in> set (je_read env) then ([], Some ''audit: jsonl: open query file'')
      else
        (case map_of (j_files s) n of
           None \<Rightarrow> walk_files jcs strict env s ns
         | Some c \<Rightarrow>
             (case scanJSONLMode jcs strict c of
                (es, Some er) \<Rightarrow> (es, Some er)
              | (es, None) \<Rightarrow>
                  (case walk_files jcs strict env s ns of (es', er) \<Rightarrow> (es @ es', er)))))"

definition walkEntriesMode :: "(string \<Rightarrow> string res) \<Rightarrow> bool \<Rightarrow> jsonl \<Rightarrow>
    (entry list \<times> err option) \<times> jsonl" where
  "walkEntriesMode jcs strict s0 =
     (case next_jenv s0 of
        (env, s) \<Rightarrow>
          if \<not> j_open s then (([], Some ''audit: jsonl: query without an open file''), s)
          else
            (case flush_writer env s of
               (Some er, s1) \<Rightarrow> (([], Some (''audit: jsonl: flush before query: '' @ er)), s1)
             | (None, s1) \<Rightarrow>
                 (case queryPaths env s1 of
                    Inl er \<Rightarrow> (([], Some er), s1)
                  | Inr paths \<Rightarrow> (walk_files jcs strict env s1 paths, s1))))"

definition JSONL_Query :: "(string \<Rightarrow> string res) \<Rightarrow> query_filter \<Rightarrow> jsonl \<Rightarrow> entry list res \<times> jsonl" where
  "JSONL_Query jcs f s0 =
     (case walkEntriesMode jcs False s0 of
        ((es, Some er), s) \<Rightarrow> (Inl er, s)
      | ((es, None), s) \<Rightarrow> (Inr (LimitNewest (filter (\<lambda>e. MatchFilter e f) es) (qf_Limit f)), s))"

definition JSONL_Stats :: "(string \<Rightarrow> string res) \<Rightarrow> duration \<Rightarrow> go_time \<Rightarrow> jsonl \<Rightarrow> stats res \<times> jsonl" where
  "JSONL_Stats jcs offset now s0 =
     (case walkEntriesMode jcs False s0 of
        ((es, Some er), s) \<Rightarrow> (Inl (''audit: jsonl: stats query: '' @ er), s)
      | ((es, None), s) \<Rightarrow> (Inr (BuildStats offset now es), s))"

definition JSONL_LookupEntry :: "(string \<Rightarrow> string res) \<Rightarrow> string \<Rightarrow> jsonl \<Rightarrow>
    (entry \<times> bool \<times> err option) \<times> jsonl" where
  "JSONL_LookupEntry jcs i s0 =
     (case walkEntriesMode jcs True s0 of
        ((es, er), s) \<Rightarrow>
          (let found = filter (\<lambda>e. e_ID e = i) es
           in ((if found = [] then zero_entry else last found, length found = 1,
                if er = None \<and> length found > 1 then Some ''audit: jsonl: duplicate record identity''
                else er), s)))"

definition JSONL_Sync :: "jsonl \<Rightarrow> err option \<times> jsonl" where
  "JSONL_Sync s0 =
     (case next_jenv s0 of
        (env, s) \<Rightarrow>
          if \<not> j_open s then (Some ''audit: jsonl: sync without an open file'', s)
          else
            (case flush_writer env s of
               (Some er, s1) \<Rightarrow> (Some (''audit: jsonl: flush confirmation: '' @ er), s1)
             | (None, s1) \<Rightarrow>
                 (case queryPaths env s1 of
                    Inl er \<Rightarrow> (Some er, s1)
                  | Inr paths \<Rightarrow>
                      if list_ex (\<lambda>n. n \<in> set (je_read env)) paths
                      then (Some ''audit: jsonl: open confirmation'', s1)
                      else
                        (case je_sync env of
                           Some er \<Rightarrow> (Some (''audit: jsonl: sync confirmation: '' @ er), s1)
                         | None \<Rightarrow>
                             (case je_close env of
                                Some er \<Rightarrow> (Some (''audit: jsonl: close confirmation: '' @ er), s1)
                              | None \<Rightarrow> (syncDirectory env, s1))))))"

definition JSONL_Close :: "jsonl \<Rightarrow> err option \<times> jsonl" where
  "JSONL_Close s0 =
     (case next_jenv s0 of
        (env, s) \<Rightarrow>
          if \<not> j_open s then (None, s)
          else
            (case flush_writer env s of
               (flushErr, s1) \<Rightarrow>
                 (case je_close env of
                    Some er \<Rightarrow> (Some (''audit: jsonl: close: '' @ er), s1)
                  | None \<Rightarrow> (flushErr, s1\<lparr>j_open := False, j_buf := [], j_werr := None\<rparr>))))"

definition jsonl_ops :: "(string \<Rightarrow> string res) \<Rightarrow> duration \<Rightarrow> go_time \<Rightarrow> jsonl store_ops" where
  "jsonl_ops jcs offset now =
     \<lparr>op_Append = JSONL_Append, op_AppendBatch = Some JSONL_AppendBatch,
      op_AppendDurable = Some JSONL_AppendDurable,
      op_AppendBatchDurable = Some JSONL_AppendBatchDurable,
      op_LookupEntry = Some (JSONL_LookupEntry jcs), op_Sync = Some JSONL_Sync,
      op_Query = JSONL_Query jcs, op_Stats = JSONL_Stats jcs offset now, op_Close = JSONL_Close\<rparr>"

subsection \<open>A free archive name is always found\<close>

lemma archive_name_inj: "archive_name base i = archive_name base k \<Longrightarrow> i = k"
  by (auto simp: archive_name_def split: if_splits dest: show_nat_inj)

lemma free_name_spec:
  assumes "free_name fuel names base i = Some n"
  shows "n \<notin> set names \<and> (\<exists>k. n = archive_name base k)"
  using assms by (induction fuel arbitrary: i) (auto split: if_splits)

lemma free_name_None:
  "free_name fuel names base i = None \<Longrightarrow> archive_name base ` {i..<i + fuel} \<subseteq> set names"
proof (induction fuel arbitrary: i)
  case (Suc fuel)
  then have "archive_name base i \<in> set names" "free_name fuel names base (Suc i) = None"
    by (auto split: if_splits)
  with Suc.IH [of "Suc i"] have "archive_name base ` {Suc i..<Suc i + fuel} \<subseteq> set names" by blast
  moreover have "{i..<i + Suc fuel} = insert i {Suc i..<Suc i + fuel}" by auto
  ultimately show ?case using \<open>archive_name base i \<in> set names\<close> by auto
qed simp

text \<open>
  The search for an archive name ends: among one more candidate than there are files one is
  free, and the name found is not in use, so a rotation never overwrites an archive.
\<close>
lemma nextArchivePath_free:
  "\<exists>n. nextArchivePath now s = Some n \<and> n \<notin> set (map fst (j_files s)) \<and> n \<noteq> j_name s"
proof -
  let ?names = "map fst (j_files s)"
  let ?base = "j_name s @ ''.'' @ format_archive now"
  have "nextArchivePath now s \<noteq> None"
  proof
    assume "nextArchivePath now s = None"
    then have "archive_name ?base ` {0..<0 + Suc (length ?names)} \<subseteq> set ?names"
      by (intro free_name_None) (simp add: nextArchivePath_def)
    then have "card (archive_name ?base ` {0..<Suc (length ?names)}) \<le> card (set ?names)"
      by (intro card_mono) auto
    moreover have "card (archive_name ?base ` {0..<Suc (length ?names)}) = Suc (length ?names)"
      by (subst card_image) (auto intro: inj_onI archive_name_inj)
    ultimately show False using card_length [of ?names] by simp
  qed
  then obtain n where n: "nextArchivePath now s = Some n" by blast
  then have "n \<notin> set ?names" "\<exists>k. n = archive_name ?base k"
    using free_name_spec [OF n [unfolded nextArchivePath_def]] by blast+
  moreover have "archive_name ?base k \<noteq> j_name s" for k
    by (auto simp: archive_name_def)
  ultimately show ?thesis using n by auto
qed

subsection \<open>Appends are all or nothing, rotation keeps every byte\<close>

definition files_wf :: "jsonl \<Rightarrow> bool" where
  "files_wf s \<longleftrightarrow> sorted (map fst (j_files s)) \<and> distinct (map fst (j_files s))"

definition chunk :: "string \<Rightarrow> string multiset" where
  "chunk c = (if c = [] then {#} else {#c#})"

text \<open>The contents of the non-empty files of the directory, whatever their names.\<close>

definition evidence_of :: "(string \<times> string) list \<Rightarrow> string multiset" where
  "evidence_of fs = (\<Sum>f \<in># mset fs. chunk (snd f))"

definition evidence :: "jsonl \<Rightarrow> string multiset" where
  "evidence s = evidence_of (j_files s)"

abbreviation others :: "string \<Rightarrow> (string \<times> string) list \<Rightarrow> (string \<times> string) list" where
  "others n fs \<equiv> filter (\<lambda>f. fst f \<noteq> n) fs"

lemma evidence_of_split:
  "distinct (map fst fs) \<Longrightarrow>
     evidence_of fs = chunk (case map_of fs n of None \<Rightarrow> [] | Some c \<Rightarrow> c) + evidence_of (others n fs)"
proof (induction fs)
  case Nil
  then show ?case by (simp add: evidence_of_def chunk_def)
next
  case (Cons f fs)
  show ?case
  proof (cases "fst f = n")
    case True
    then have "others n fs = fs" using Cons.prems by (intro filter_True) (auto simp: image_iff)
    with True show ?thesis by (cases f) (simp add: evidence_of_def)
  next
    case False
    with Cons show ?thesis by (cases f) (simp add: evidence_of_def ac_simps)
  qed
qed

lemma evidence_split:
  "files_wf s \<Longrightarrow> evidence s = chunk (content s n) + evidence_of (others n (j_files s))"
  unfolding evidence_def content_def files_wf_def by (rule evidence_of_split) simp

lemma set_content_wf: "files_wf s \<Longrightarrow> files_wf (set_content n c s)"
  by (simp add: files_wf_def set_content_def map_put_sorted)

lemma evidence_set_content:
  "files_wf s \<Longrightarrow> evidence (set_content n c s) = chunk c + evidence_of (others n (j_files s))"
  by (simp add: evidence_def set_content_def evidence_of_def mset_map_put files_wf_def)

lemma content_set [simp]: "content (set_content n c s) m = (if m = n then c else content s m)"
  by (simp add: content_def set_content_def)

lemma frame_simps [simp]:
  "evidence (s\<lparr>j_open := o'\<rparr>) = evidence s" "evidence (s\<lparr>j_buf := b\<rparr>) = evidence s"
  "evidence (s\<lparr>j_werr := w\<rparr>) = evidence s" "evidence (s\<lparr>j_cutoff := t\<rparr>) = evidence s"
  "files_wf (s\<lparr>j_open := o'\<rparr>) = files_wf s" "files_wf (s\<lparr>j_buf := b\<rparr>) = files_wf s"
  "files_wf (s\<lparr>j_werr := w\<rparr>) = files_wf s" "files_wf (s\<lparr>j_cutoff := t\<rparr>) = files_wf s"
  by (simp_all add: evidence_def files_wf_def)

lemma set_active_same: "files_wf s \<Longrightarrow> evidence (set_active (active s) s) = evidence s"
  by (simp add: set_active_def evidence_set_content evidence_split [of s "j_name s"])

lemma openActive_evidence:
  assumes "files_wf s" "openActive env s = (r, s')"
  shows "files_wf s' \<and> evidence s' = evidence s"
proof (cases "je_open env")
  case None
  then have "s' = (set_active (active s) s)\<lparr>j_open := True, j_buf := [], j_werr := None\<rparr>"
    using assms(2) by (simp add: openActive_def)
  with assms(1) show ?thesis by (simp add: set_active_same) (simp add: set_active_def set_content_wf)
qed (use assms in \<open>simp add: openActive_def\<close>)

lemma rename_evidence:
  assumes "files_wf s" "n \<notin> set (map fst (j_files s))"
  shows "files_wf (rename_active n s) \<and> evidence (rename_active n s) = evidence s"
proof -
  let ?fs = "others (j_name s) (j_files s)"
  have wf: "sorted (map fst ?fs)" "distinct (map fst ?fs)"
    using assms(1) by (auto simp: files_wf_def sorted_filter distinct_map_filter)
  have "others n ?fs = ?fs" using assms(2) by (intro filter_True) force
  then have "evidence (rename_active n s) = chunk (active s) + evidence_of ?fs"
    using mset_map_put [OF wf, of n "active s"]
    by (simp add: evidence_def rename_active_def evidence_of_def)
  moreover have "files_wf (rename_active n s)"
    using map_put_sorted [OF wf] by (simp add: files_wf_def rename_active_def)
  ultimately show ?thesis using evidence_split [OF assms(1), of "j_name s"] by simp
qed

text \<open>Rotation without retention, whatever fails: files are renamed, nothing else.\<close>

definition keeps_all :: "jsonl \<Rightarrow> bool" where
  "keeps_all s \<longleftrightarrow> jc_MaxFiles (j_config s) \<le> 0 \<and> jc_MaxAgeDays (j_config s) \<le> 0"

lemma flush_empty: "\<lbrakk>j_buf s = []; j_werr s = None\<rbrakk> \<Longrightarrow> flush_writer env s = (None, s)"
  by (simp add: flush_writer_def)

lemma openActive_config:
  "openActive env s = (r, s') \<Longrightarrow>
     j_config s' = j_config s \<and> (r = None \<longrightarrow> j_open s') \<and> (r \<noteq> None \<longrightarrow> s' = s) \<and>
     (j_buf s = [] \<and> j_werr s = None \<longrightarrow> j_buf s' = [] \<and> j_werr s' = None)"
  by (auto simp: openActive_def set_active_def set_content_def split: option.splits)

lemma rotate_evidence:
  assumes "files_wf s" "keeps_all s" "j_buf s = []" "j_werr s = None" "rotate env now s = (r, s')"
  shows "files_wf s' \<and> evidence s' = evidence s \<and> j_buf s' = [] \<and> j_werr s' = None"
proof (cases "je_close env")
  case (Some x)
  with assms show ?thesis by (simp add: rotate_def flush_empty)
next
  case None
  define s2 where "s2 = s\<lparr>j_open := False, j_buf := []\<rparr>"
  have s2: "files_wf s2" "evidence s2 = evidence s" "j_buf s2 = []" "j_werr s2 = None" "keeps_all s2"
    using assms by (simp_all add: s2_def keeps_all_def)
  obtain n where n: "nextArchivePath now s2 = Some n" "n \<notin> set (map fst (j_files s2))"
    using nextArchivePath_free by blast
  show ?thesis
  proof (cases "je_rename env")
    case (Some er)
    obtain q t where t: "openActive env s2 = (q, t)" by fastforce
    then have "s' = t" using assms None Some n
      by (auto simp: rotate_def flush_empty Let_def s2_def [symmetric] split: option.splits)
    with openActive_evidence [OF s2(1) t] openActive_config [OF t] s2 show ?thesis by simp
  next
    case ren: None
    define s3 where "s3 = rename_active n s2"
    have s3: "files_wf s3" "evidence s3 = evidence s" "j_buf s3 = []" "j_werr s3 = None" "keeps_all s3"
      using rename_evidence [OF s2(1) n(2)] s2 by (simp_all add: s3_def rename_active_def keeps_all_def)
    obtain q t where t: "openActive env s3 = (q, t)" by fastforce
    have "keeps_all t" using openActive_config [OF t] s3(5) by (simp add: keeps_all_def)
    then have "s' = t" using assms None ren n t
      by (cases q) (auto simp: rotate_def flush_empty Let_def s2_def [symmetric] s3_def [symmetric]
          applyRetention_def keeps_all_def)
    with openActive_evidence [OF s3(1) t] openActive_config [OF t] s3 show ?thesis by simp
  qed
qed

lemma rotateIfNeeded_evidence:
  assumes "files_wf s" "keeps_all s" "j_buf s = []" "j_werr s = None"
  shows "files_wf (rotateIfNeeded env was s) \<and> evidence (rotateIfNeeded env was s) = evidence s \<and>
     j_buf (rotateIfNeeded env was s) = [] \<and> j_werr (rotateIfNeeded env was s) = None"
proof -
  have r: "files_wf t \<and> evidence t = evidence s \<and> j_buf t = [] \<and> j_werr t = None"
    if "rotate env now (s\<lparr>j_cutoff := c\<rparr>) = (q, t)" for now c q t
    using rotate_evidence [OF _ _ _ _ that] assms by (simp add: keeps_all_def)
  have r0: "files_wf t \<and> evidence t = evidence s \<and> j_buf t = [] \<and> j_werr t = None"
    if "rotate env now s = (q, t)" for now q t
    using rotate_evidence [OF assms that] .
  show ?thesis
    using assms by (auto simp: rotateIfNeeded_def Let_def split: option.splits prod.splits dest!: r r0)
qed

text \<open>A writer with nothing pending.\<close>

definition clean :: "jsonl \<Rightarrow> bool" where
  "clean s \<longleftrightarrow> files_wf s \<and> j_buf s = [] \<and> j_werr s = None"

lemma map_put_twice: "map_put k a (map_put k b m) = map_put k a m"
  by (induction k b m rule: map_put.induct) auto

lemma rollback_restores:
  assumes "clean s" "rollback env durable (length (active s)) cause
      ((set_active (active s @ junk) s)\<lparr>j_buf := b, j_werr := w\<rparr>) = (r, s')" "je_truncate env = None"
  shows "r \<noteq> None \<and> clean s' \<and> evidence s' = evidence s"
proof -
  define t where "t = (set_active (active s @ junk) s)\<lparr>j_buf := b, j_werr := w\<rparr>"
  have "active t = active s @ junk" by (simp add: t_def set_active_def content_def set_content_def)
  moreover have "j_name t = j_name s" by (simp add: t_def set_active_def set_content_def)
  ultimately have "s' = (set_active (active s) t)\<lparr>j_buf := [], j_werr := None\<rparr>" "r \<noteq> None"
    using assms(2,3) by (auto simp: rollback_def Let_def t_def [symmetric] split: if_splits option.splits)
  moreover have "j_files (set_active (active s) t) = j_files (set_active (active s) s)"
    by (simp add: t_def set_active_def set_content_def map_put_twice)
  ultimately show ?thesis
    using assms(1) set_active_same [of s] set_content_wf [of s]
    by (auto simp: clean_def evidence_def files_wf_def set_active_def)
qed

lemma set_active_buf: "set_active c (s\<lparr>j_buf := d\<rparr>) = (set_active c s)\<lparr>j_buf := d\<rparr>"
  by (cases s) (simp add: set_active_def set_content_def)

lemma active_buf [simp]: "content (s\<lparr>j_buf := d\<rparr>) n = content s n"
  by (simp add: content_def)

lemma flush_batch_atomic:
  assumes "clean s" "keeps_all s" "je_truncate env = None" "data \<noteq> []"
    "flush_batch env durable (length (active s)) (s\<lparr>j_buf := data\<rparr>) = (r, s')"
  shows "clean s' \<and> (evidence s' = evidence s \<and> r \<noteq> None \<or>
     evidence s' = evidence (set_active (active s @ data) s))"
proof (cases "je_write env")
  case (Some x)
  obtain n er where x: "x = (n, er)" by (cases x)
  with Some have "rollback env durable (length (active s)) (''audit: jsonl: flush: '' @ er)
      ((set_active (active s @ take n data) s)\<lparr>j_buf := data, j_werr := Some er\<rparr>) = (r, s')"
    using assms(1,4,5) by (simp add: flush_batch_def flush_writer_def clean_def set_active_buf)
  from rollback_restores [OF assms(1) this assms(3)] show ?thesis by simp
next
  case None
  define t where "t = (set_active (active s @ data) s)\<lparr>j_buf := [], j_werr := None\<rparr>"
  have f: "flush_writer env (s\<lparr>j_buf := data\<rparr>) = (None, t)"
    using assms(1,4) None
    by (cases s) (simp add: t_def flush_writer_def clean_def content_def set_active_def set_content_def)
  have t: "files_wf t" "keeps_all t" "j_buf t = []" "j_werr t = None"
    "evidence t = evidence (set_active (active s @ data) s)"
  proof -
    show "files_wf t" using assms(1) by (simp add: t_def set_active_def clean_def set_content_wf)
    show "keeps_all t"
      using assms(2) by (simp add: t_def set_active_def set_content_def keeps_all_def)
  qed (simp_all add: t_def)
  show ?thesis
  proof (cases "durable \<and> je_sync env \<noteq> None")
    case True
    then have "rollback env durable (length (active s)) (''audit: jsonl: sync: '' @ the (je_sync env)) t
        = (r, s')" using assms(5) f by (simp add: flush_batch_def)
    from rollback_restores [OF assms(1) this [unfolded t_def] assms(3)] show ?thesis by simp
  next
    case False
    then have "s' = rotateIfNeeded env (length (active s) = 0) t"
      using assms(5) f by (auto simp: flush_batch_def)
    with rotateIfNeeded_evidence [OF t(1-4)] t(5) show ?thesis by (simp add: clean_def)
  qed
qed

lemma encode_all_nonempty: "\<lbrakk>encode_all es = (data, True); es \<noteq> []\<rbrakk> \<Longrightarrow> data \<noteq> []"
  by (cases es) (auto split: option.splits prod.splits)

text \<open>
  A batch append to the JSON lines store is all or nothing on disk, and rotation loses
  nothing. Without retention limits, with a clean writer and as long as the rollback's truncate
  works, after a call either the directory holds exactly the bytes it held, or exactly these
  and the batch's lines at the end of the formerly active file (now active or archived); the
  latter whenever the call succeeds, and the writer is clean again.
\<close>

lemma appendBatch_atomic:
  assumes "clean s" "keeps_all s" "appendBatch es durable s = (r, s')"
    and "je_truncate (fst (next_jenv s)) = None"
  shows "clean s' \<and>
     (evidence s' = evidence s \<and> (r = None \<longrightarrow> es = []) \<or>
      (\<exists>data. encode_all es = (data, True) \<and>
         evidence s' = evidence (set_active (active s @ data) s)))"
proof (cases "es = [] \<or> \<not> j_open s")
  case True
  with assms(1,3) show ?thesis by (auto simp: appendBatch_def split: if_splits)
next
  case False
  obtain env t where n: "next_jenv s = (env, t)" by fastforce
  have t: "clean t" "keeps_all t" "evidence t = evidence s" "active t = active s"
    "evidence (set_active c t) = evidence (set_active c s)" for c
    using n assms(1,2) by (auto simp: next_jenv_def clean_def keeps_all_def evidence_def files_wf_def
        content_def set_active_def set_content_def split: list.splits)
  have tr: "je_truncate env = None" using assms(4) n by simp
  have A: "append_open env es durable t = (r, s')" using assms(3) False n by (simp add: appendBatch_def)
  obtain data good where d: "encode_all es = (data, good)" by fastforce
  show ?thesis
  proof (cases "je_stat env \<noteq> None \<or> durable_tail env durable (active t) \<noteq> None")
    case True
    then have "s' = t \<and> r \<noteq> None"
      using A by (cases "je_stat env"; cases "durable_tail env durable (active t)")
        (auto simp: append_open_def)
    with t show ?thesis by auto
  next
    case go: False
    show ?thesis
    proof (cases good)
      case bad: False
      then have "rollback env durable (length (active t)) (''audit: jsonl: encode: '' @ json_error)
          ((set_active (active t @ take (je_spill env) data) t)
             \<lparr>j_buf := drop (je_spill env) data, j_werr := None\<rparr>) = (r, s')"
        using A go d t(1)
        by (cases t) (simp add: append_open_def clean_def set_active_def set_content_def)
      from rollback_restores [OF t(1) this tr] t(3) show ?thesis by auto
    next
      case True
      then have "flush_batch env durable (length (active t)) (t\<lparr>j_buf := data\<rparr>) = (r, s')"
        using A go d t(1) by (simp add: append_open_def clean_def)
      from flush_batch_atomic [OF t(1,2) tr _ this] encode_all_nonempty [of es data] True d False t
      show ?thesis by auto
    qed
  qed
qed

subsection \<open>Examples\<close>

definition demo_jsonl :: "jsonl_config \<Rightarrow> jsonl_env list \<Rightarrow> jsonl" where
  "demo_jsonl c envs =
     \<lparr>j_name = ''a'', j_config = c, j_open = True, j_buf = [], j_werr = None, j_cutoff = 0,
      j_files = [(''a'', [])], j_envs = envs\<rparr>"

definition demo_rotating :: "int \<Rightarrow> jsonl_config" where
  "demo_rotating n = \<lparr>jc_MaxSizeBytes = 1, jc_MaxFiles = n, jc_Interval = [], jc_MaxAgeDays = 0,
     jc_Durable = True\<rparr>"


end
