(* ===== verification/Metrics.thy ===== *)
theory Metrics
  imports Audit_Entry "HOL-Library.AList"
begin

text \<open>
  The metrics recorder (\<open>internal/metrics/recorder.go\<close>).

  The Prometheus client is third-party code. What the recorder uses of it is its documented
  behaviour: a counter vector holds one value per tuple of labels, \<open>WithLabelValues\<close> panics when a
  label is not valid UTF-8, \<open>Add\<close> panics on a negative number, a histogram collects observations,
  and \<open>MustRegister\<close> panics when a name is registered twice. \<open>metric_call\<close> has one constructor per method of the interface \<open>Recorder\<close>.
\<close>

subsection \<open>Counters\<close>

type_synonym labels = "string list"

fun ValidString :: "string \<Rightarrow> bool" where
  "ValidString [] = True"
| "ValidString (c # cs) =
     (if of_char c < (0x80 :: nat) then ValidString cs
      else (let w = utf8_width (c # cs) in w \<noteq> 0 \<and> ValidString (drop (w - 1) cs)))"

abbreviation valid_labels :: "labels \<Rightarrow> bool" where
  "valid_labels \<equiv> list_all ValidString"

record counter_vec =
  cv_values :: "(labels \<times> int) list"
  cv_panicked :: bool

definition new_counter :: counter_vec where
  "new_counter = \<lparr>cv_values = [], cv_panicked = False\<rparr>"

definition series :: "counter_vec \<Rightarrow> labels \<Rightarrow> int" where
  "series v l = (case map_of (cv_values v) l of None \<Rightarrow> 0 | Some n \<Rightarrow> n)"

definition counter_Add :: "labels \<Rightarrow> int \<Rightarrow> counter_vec \<Rightarrow> counter_vec" where
  "counter_Add l n v =
     (if \<not> valid_labels l \<or> n < 0 then v\<lparr>cv_panicked := True\<rparr>
      else v\<lparr>cv_values := AList.update l (series v l + n) (cv_values v)\<rparr>)"

definition counter_Inc :: "labels \<Rightarrow> counter_vec \<Rightarrow> counter_vec" where
  "counter_Inc l v = counter_Add l 1 v"

lemma series_Add [simp]:
  "series (counter_Add l n v) l' = (if l' = l \<and> valid_labels l \<and> 0 \<le> n then series v l' + n else series v l')"
  by (auto simp: series_def counter_Add_def AList.update_conv')

lemma Add_panic [simp]: "cv_panicked (counter_Add l n v) \<longleftrightarrow> cv_panicked v \<or> \<not> valid_labels l \<or> n < 0"
  by (auto simp: counter_Add_def)

lemma series_Inc [simp]: "series (counter_Inc l v) l' = (if l' = l \<and> valid_labels l then series v l' + 1 else series v l')"
  by (simp add: counter_Inc_def)

lemma Inc_panic [simp]: "cv_panicked (counter_Inc l v) \<longleftrightarrow> cv_panicked v \<or> \<not> valid_labels l"
  by (simp add: counter_Inc_def)

lemma series_new [simp]: "series new_counter l = 0" "\<not> cv_panicked new_counter"
  by (simp_all add: series_def new_counter_def)

subsection \<open>The recorder\<close>

record prom_config =
  pc_Port :: int
  pc_Path :: string
  pc_IncludeGoMetrics :: bool
  pc_IncludeProcessMetrics :: bool
  pc_ToolLabels :: bool

record recorder =
  pr_config :: prom_config
  pr_registry :: "string list"
  pr_auditEntries :: counter_vec
  pr_policyDecisions :: counter_vec
  pr_toolCalls :: counter_vec
  pr_rateLimitRejects :: counter_vec
  pr_upstreamRetries :: counter_vec
  pr_httpRejects :: counter_vec
  pr_storageWrites :: counter_vec
  pr_storageWriteTime :: "(labels \<times> duration) list"
  pr_otelExports :: counter_vec
  pr_otelExportSpans :: counter_vec
  pr_otelExportTime :: "(labels \<times> duration) list"
  pr_otelDrops :: counter_vec
  pr_asyncBackpressure :: counter_vec
  pr_asyncBatches :: counter_vec
  pr_asyncBatchSize :: "int list"
  pr_asyncQueueDepth :: int
  pr_asyncQueueCapacity :: int
  pr_otelQueueDepth :: int
  pr_otelQueueCapacity :: int

definition registered_names :: "prom_config \<Rightarrow> string list" where
  "registered_names c =
     (if pc_IncludeGoMetrics c then [''<go collector>''] else []) @
     (if pc_IncludeProcessMetrics c then [''<process collector>''] else []) @
     [''mcp_audit_entries_total'', ''mcp_audit_policy_decisions_total'',
      ''mcp_audit_http_upstream_retries_total'', ''mcp_audit_http_request_rejections_total'',
      ''mcp_audit_storage_writes_total'', ''mcp_audit_storage_write_duration_seconds'',
      ''mcp_audit_otel_export_requests_total'', ''mcp_audit_otel_spans_total'',
      ''mcp_audit_otel_export_duration_seconds'', ''mcp_audit_otel_spans_dropped_total'',
      ''mcp_audit_async_backpressure_total'', ''mcp_audit_async_batches_total'',
      ''mcp_audit_async_batch_size'', ''mcp_audit_async_queue_depth'',
      ''mcp_audit_async_queue_capacity'', ''mcp_audit_otel_queue_depth'',
      ''mcp_audit_otel_queue_capacity''] @
     (if pc_ToolLabels c
      then [''mcp_audit_tool_calls_total'', ''mcp_audit_rate_limit_rejections_total''] else [])"

definition NewPrometheusRecorder :: "prom_config \<Rightarrow> recorder" where
  "NewPrometheusRecorder c0 =
     (let c = c0\<lparr>pc_Port := (if pc_Port c0 \<le> 0 then 9091 else pc_Port c0),
                 pc_Path := (if pc_Path c0 = [] then ''/metrics'' else pc_Path c0)\<rparr>
      in \<lparr>pr_config = c, pr_registry = registered_names c, pr_auditEntries = new_counter,
          pr_policyDecisions = new_counter, pr_toolCalls = new_counter,
          pr_rateLimitRejects = new_counter, pr_upstreamRetries = new_counter,
          pr_httpRejects = new_counter, pr_storageWrites = new_counter, pr_storageWriteTime = [],
          pr_otelExports = new_counter, pr_otelExportSpans = new_counter, pr_otelExportTime = [],
          pr_otelDrops = new_counter, pr_asyncBackpressure = new_counter,
          pr_asyncBatches = new_counter, pr_asyncBatchSize = [], pr_asyncQueueDepth = 0,
          pr_asyncQueueCapacity = 0, pr_otelQueueDepth = 0, pr_otelQueueCapacity = 0\<rparr>)"

definition or_unknown :: "string \<Rightarrow> string" where
  "or_unknown s = (if s = [] then ''unknown'' else s)"

definition normalizeDirection :: "string \<Rightarrow> string" where
  "normalizeDirection direction =
     (if direction = DirectionClientToServer then ''client_to_server''
      else if direction = DirectionServerToClient then ''server_to_client''
      else or_unknown direction)"

definition entry_status :: "entry \<Rightarrow> string" where
  "entry_status e = (if FailureType e = [] then ''ok'' else FailureType e)"

definition entry_labels :: "entry \<Rightarrow> labels" where
  "entry_labels e =
     [e_Transport e, normalizeDirection (e_Direction e), e_Method e, entry_status e]"

definition tool_labels :: "entry \<Rightarrow> labels" where
  "tool_labels e = [e_Transport e, or_unknown (e_ToolName e), entry_status e]"

definition RecordAuditEntry :: "entry \<Rightarrow> recorder \<Rightarrow> recorder" where
  "RecordAuditEntry e r0 =
     (let r = r0\<lparr>pr_auditEntries := counter_Inc (entry_labels e) (pr_auditEntries r0)\<rparr>
      in if valid_labels (entry_labels e) \<and> pc_ToolLabels (pr_config r) \<and> e_Method e = ''tools/call''
         then r\<lparr>pr_toolCalls := counter_Inc (tool_labels e) (pr_toolCalls r)\<rparr>
         else r)"

definition RecordPolicyDecision :: "string \<Rightarrow> recorder \<Rightarrow> recorder" where
  "RecordPolicyDecision action r =
     r\<lparr>pr_policyDecisions := counter_Inc [or_unknown action] (pr_policyDecisions r)\<rparr>"

definition RecordRateLimitRejection :: "string \<Rightarrow> string \<Rightarrow> recorder \<Rightarrow> recorder" where
  "RecordRateLimitRejection clientID toolName r =
     (if \<not> pc_ToolLabels (pr_config r) then r
      else r\<lparr>pr_rateLimitRejects :=
               counter_Inc [or_unknown clientID, or_unknown toolName] (pr_rateLimitRejects r)\<rparr>)"

definition RecordHTTPUpstreamRetry :: "string \<Rightarrow> recorder \<Rightarrow> recorder" where
  "RecordHTTPUpstreamRetry reason r =
     r\<lparr>pr_upstreamRetries := counter_Inc [or_unknown reason] (pr_upstreamRetries r)\<rparr>"

definition RecordHTTPRequestRejection :: "string \<Rightarrow> recorder \<Rightarrow> recorder" where
  "RecordHTTPRequestRejection reason r =
     r\<lparr>pr_httpRejects := counter_Inc [or_unknown reason] (pr_httpRejects r)\<rparr>"

definition RecordStorageWrite ::
  "string \<Rightarrow> string \<Rightarrow> string \<Rightarrow> duration \<Rightarrow> int \<Rightarrow> recorder \<Rightarrow> recorder" where
  "RecordStorageWrite backend mode status duration entries r =
     (if entries \<le> 0 then r
      else r\<lparr>pr_storageWrites := counter_Add [backend, mode, status] entries (pr_storageWrites r),
             pr_storageWriteTime := pr_storageWriteTime r @ [([backend, mode], duration)]\<rparr>)"

definition RecordOTelExport :: "string \<Rightarrow> duration \<Rightarrow> int \<Rightarrow> recorder \<Rightarrow> recorder" where
  "RecordOTelExport status duration spans r =
     (if spans \<le> 0 then r
      else r\<lparr>pr_otelExports := counter_Inc [or_unknown status] (pr_otelExports r),
             pr_otelExportSpans := counter_Add [or_unknown status] spans (pr_otelExportSpans r),
             pr_otelExportTime := pr_otelExportTime r @ [([or_unknown status], duration)]\<rparr>)"

definition RecordOTelDrop :: "string \<Rightarrow> int \<Rightarrow> recorder \<Rightarrow> recorder" where
  "RecordOTelDrop reason spans r =
     (if spans \<le> 0 then r
      else r\<lparr>pr_otelDrops := counter_Add [or_unknown reason] spans (pr_otelDrops r)\<rparr>)"

definition SetOTelQueueDepth :: "int \<Rightarrow> recorder \<Rightarrow> recorder" where
  "SetOTelQueueDepth depth r = r\<lparr>pr_otelQueueDepth := depth\<rparr>"

definition SetOTelQueueCapacity :: "int \<Rightarrow> recorder \<Rightarrow> recorder" where
  "SetOTelQueueCapacity capacity r = r\<lparr>pr_otelQueueCapacity := capacity\<rparr>"

definition SetAsyncQueueDepth :: "int \<Rightarrow> recorder \<Rightarrow> recorder" where
  "SetAsyncQueueDepth depth r = r\<lparr>pr_asyncQueueDepth := depth\<rparr>"

definition SetAsyncQueueCapacity :: "int \<Rightarrow> recorder \<Rightarrow> recorder" where
  "SetAsyncQueueCapacity capacity r = r\<lparr>pr_asyncQueueCapacity := capacity\<rparr>"

definition RecordAsyncBackpressure :: "recorder \<Rightarrow> recorder" where
  "RecordAsyncBackpressure r = r\<lparr>pr_asyncBackpressure := counter_Inc [] (pr_asyncBackpressure r)\<rparr>"

definition RecordAsyncBatch :: "int \<Rightarrow> recorder \<Rightarrow> recorder" where
  "RecordAsyncBatch n r =
     (if n \<le> 0 then r
      else r\<lparr>pr_asyncBatches := counter_Inc [] (pr_asyncBatches r),
             pr_asyncBatchSize := pr_asyncBatchSize r @ [n]\<rparr>)"

subsection \<open>The interface\<close>

datatype metric_call =
  AuditEntry entry
| PolicyDecision string
| RateLimitRejection string string
| HTTPUpstreamRetry string
| HTTPRequestRejection string
| StorageWrite string string string duration int
| OTelExport string duration int
| OTelDrop string int
| OTelQueueDepth int
| OTelQueueCapacity int
| AsyncQueueDepth int
| AsyncQueueCapacity int
| AsyncBackpressure
| AsyncBatch int

fun apply_metric :: "metric_call \<Rightarrow> recorder \<Rightarrow> recorder" where
  "apply_metric (AuditEntry e) = RecordAuditEntry e"
| "apply_metric (PolicyDecision a) = RecordPolicyDecision a"
| "apply_metric (RateLimitRejection c t) = RecordRateLimitRejection c t"
| "apply_metric (HTTPUpstreamRetry s) = RecordHTTPUpstreamRetry s"
| "apply_metric (HTTPRequestRejection s) = RecordHTTPRequestRejection s"
| "apply_metric (StorageWrite b m s d n) = RecordStorageWrite b m s d n"
| "apply_metric (OTelExport s d n) = RecordOTelExport s d n"
| "apply_metric (OTelDrop s n) = RecordOTelDrop s n"
| "apply_metric (OTelQueueDepth n) = SetOTelQueueDepth n"
| "apply_metric (OTelQueueCapacity n) = SetOTelQueueCapacity n"
| "apply_metric (AsyncQueueDepth n) = SetAsyncQueueDepth n"
| "apply_metric (AsyncQueueCapacity n) = SetAsyncQueueCapacity n"
| "apply_metric AsyncBackpressure = RecordAsyncBackpressure"
| "apply_metric (AsyncBatch n) = RecordAsyncBatch n"

subsection \<open>Counters are exact\<close>

text \<open>What a call adds to a series of a counter, and which calls panic.\<close>

definition audit_part :: "labels \<Rightarrow> metric_call \<Rightarrow> int" where
  "audit_part l x = (case x of AuditEntry e \<Rightarrow> of_bool (entry_labels e = l \<and> valid_labels l) | _ \<Rightarrow> 0)"

definition tool_part :: "bool \<Rightarrow> labels \<Rightarrow> metric_call \<Rightarrow> int" where
  "tool_part on l x =
     (case x of
        AuditEntry e \<Rightarrow>
          of_bool (on \<and> e_Method e = ''tools/call'' \<and> valid_labels (entry_labels e) \<and>
                   tool_labels e = l \<and> valid_labels l)
      | _ \<Rightarrow> 0)"

definition reject_part :: "bool \<Rightarrow> labels \<Rightarrow> metric_call \<Rightarrow> int" where
  "reject_part on l x =
     (case x of RateLimitRejection c t \<Rightarrow> of_bool (on \<and> [or_unknown c, or_unknown t] = l \<and> valid_labels l) | _ \<Rightarrow> 0)"

definition write_part :: "labels \<Rightarrow> metric_call \<Rightarrow> int" where
  "write_part l x = (case x of StorageWrite b m s d n \<Rightarrow> if [b, m, s] = l \<and> valid_labels l then max 0 n else 0 | _ \<Rightarrow> 0)"

definition span_part :: "labels \<Rightarrow> metric_call \<Rightarrow> int" where
  "span_part l x = (case x of OTelExport s d n \<Rightarrow> if [or_unknown s] = l \<and> valid_labels l then max 0 n else 0 | _ \<Rightarrow> 0)"

definition drop_part :: "labels \<Rightarrow> metric_call \<Rightarrow> int" where
  "drop_part l x = (case x of OTelDrop s n \<Rightarrow> if [or_unknown s] = l \<and> valid_labels l then max 0 n else 0 | _ \<Rightarrow> 0)"

definition call_panics :: "bool \<Rightarrow> metric_call \<Rightarrow> bool" where
  "call_panics on x =
     (case x of
        AuditEntry e \<Rightarrow>
          \<not> valid_labels (entry_labels e) \<or>
          on \<and> e_Method e = ''tools/call'' \<and> \<not> ValidString (e_ToolName e)
      | PolicyDecision a \<Rightarrow> \<not> ValidString a
      | RateLimitRejection c t \<Rightarrow> on \<and> \<not> (ValidString c \<and> ValidString t)
      | HTTPUpstreamRetry s \<Rightarrow> \<not> ValidString s
      | HTTPRequestRejection s \<Rightarrow> \<not> ValidString s
      | StorageWrite b m s d n \<Rightarrow> 0 < n \<and> \<not> valid_labels [b, m, s]
      | OTelExport s d n \<Rightarrow> 0 < n \<and> \<not> ValidString s
      | OTelDrop s n \<Rightarrow> 0 < n \<and> \<not> ValidString s
      | _ \<Rightarrow> False)"

definition counters :: "recorder \<Rightarrow> counter_vec list" where
  "counters r = [pr_auditEntries r, pr_policyDecisions r, pr_toolCalls r, pr_rateLimitRejects r,
     pr_upstreamRetries r, pr_httpRejects r, pr_storageWrites r, pr_otelExports r, pr_otelExportSpans r,
     pr_otelDrops r, pr_asyncBackpressure r, pr_asyncBatches r]"

named_theorems metric_defs

lemmas [metric_defs] = RecordAuditEntry_def RecordPolicyDecision_def RecordRateLimitRejection_def
  RecordHTTPUpstreamRetry_def RecordHTTPRequestRejection_def RecordStorageWrite_def RecordOTelExport_def
  RecordOTelDrop_def SetOTelQueueDepth_def SetOTelQueueCapacity_def SetAsyncQueueDepth_def
  SetAsyncQueueCapacity_def RecordAsyncBackpressure_def RecordAsyncBatch_def

lemma apply_metric_config [simp]:
  "pr_config (apply_metric x r) = pr_config r" "pr_registry (apply_metric x r) = pr_registry r"
  by (cases x; simp add: metric_defs Let_def)+

lemma ValidString_or_unknown [simp]: "ValidString (or_unknown s) = ValidString s"
  by (simp add: or_unknown_def)

lemma apply_metric_panic:
  "list_ex cv_panicked (counters (apply_metric x r)) \<longleftrightarrow>
     list_ex cv_panicked (counters r) \<or> call_panics (pc_ToolLabels (pr_config r)) x"
  by (cases x) (auto simp: metric_defs counters_def call_panics_def tool_labels_def entry_labels_def Let_def)

lemma apply_metric_series:
  "series (pr_auditEntries (apply_metric x r)) l = series (pr_auditEntries r) l + audit_part l x"
  "series (pr_toolCalls (apply_metric x r)) l =
     series (pr_toolCalls r) l + tool_part (pc_ToolLabels (pr_config r)) l x"
  "series (pr_rateLimitRejects (apply_metric x r)) l =
     series (pr_rateLimitRejects r) l + reject_part (pc_ToolLabels (pr_config r)) l x"
  "series (pr_storageWrites (apply_metric x r)) l = series (pr_storageWrites r) l + write_part l x"
  "series (pr_otelExportSpans (apply_metric x r)) l = series (pr_otelExportSpans r) l + span_part l x"
  "series (pr_otelDrops (apply_metric x r)) l = series (pr_otelDrops r) l + drop_part l x"
  by (cases x; auto simp: metric_defs audit_part_def tool_part_def reject_part_def write_part_def
      span_part_def drop_part_def Let_def)+

lemma fold_parts:
  fixes f :: "'a \<Rightarrow> int"
  assumes "\<And>x r. P r \<Longrightarrow> g (step x r) = g r + f x" "\<And>x r. P r \<Longrightarrow> P (step x r)" "P r"
  shows "g (fold step xs r) = g r + sum_list (map f xs)"
  using assms(3) by (induction xs arbitrary: r) (simp_all add: assms(1,2))

lemma new_recorder [simp]:
  "pr_config (NewPrometheusRecorder c) = c\<lparr>pc_Port := (if pc_Port c \<le> 0 then 9091 else pc_Port c),
                 pc_Path := (if pc_Path c = [] then ''/metrics'' else pc_Path c)\<rparr>"
  "\<not> list_ex cv_panicked (counters (NewPrometheusRecorder c))"
  by (simp_all add: NewPrometheusRecorder_def Let_def counters_def)

text \<open>
  The metrics are exact. After any sequence of calls of the recorder, each series of a counter
  is the sum of what the calls with its labels contribute: one per audit entry, one per
  \<open>tools/call\<close> entry and per rejection when tool labels are on and none otherwise, and the
  positive numbers of entries or spans written, exported or dropped. The only calls that panic are
  those with a label that is not valid UTF-8: no call adds a negative number to a counter, and no
  name is registered twice.
\<close>
lemma metrics_exact:
  "let r = fold apply_metric cs (NewPrometheusRecorder c) in
    series (pr_auditEntries r) l = sum_list (map (audit_part l) cs) \<and>
    series (pr_toolCalls r) l = sum_list (map (tool_part (pc_ToolLabels c) l) cs) \<and>
    series (pr_rateLimitRejects r) l = sum_list (map (reject_part (pc_ToolLabels c) l) cs) \<and>
    series (pr_storageWrites r) l = sum_list (map (write_part l) cs) \<and>
    series (pr_otelExportSpans r) l = sum_list (map (span_part l) cs) \<and>
    series (pr_otelDrops r) l = sum_list (map (drop_part l) cs) \<and>
    (list_ex cv_panicked (counters r) \<longleftrightarrow> list_ex (call_panics (pc_ToolLabels c)) cs) \<and>
    distinct (pr_registry r)"
proof -
  define r where "r = fold apply_metric cs (NewPrometheusRecorder c)"
  let ?P = "\<lambda>s. pc_ToolLabels (pr_config s) = pc_ToolLabels c"
  note sum = fold_parts [where step = apply_metric and P = ?P and r = "NewPrometheusRecorder c" and xs = cs]
  have z: "series (pr_auditEntries (NewPrometheusRecorder c)) l = 0"
    "series (pr_toolCalls (NewPrometheusRecorder c)) l = 0"
    "series (pr_rateLimitRejects (NewPrometheusRecorder c)) l = 0"
    "series (pr_storageWrites (NewPrometheusRecorder c)) l = 0"
    "series (pr_otelExportSpans (NewPrometheusRecorder c)) l = 0"
    "series (pr_otelDrops (NewPrometheusRecorder c)) l = 0"
    by (simp_all add: NewPrometheusRecorder_def Let_def)
  have panic: "list_ex cv_panicked (counters (fold apply_metric xs s)) \<longleftrightarrow>
      list_ex cv_panicked (counters s) \<or> list_ex (call_panics (pc_ToolLabels (pr_config s))) xs" for xs s
    by (induction xs arbitrary: s) (auto simp: apply_metric_panic)
  have reg: "pr_registry (fold apply_metric xs s) = pr_registry s" for xs s
    by (induction xs arbitrary: s) simp_all
  have "distinct (registered_names d)" for d by (simp add: registered_names_def)
  then have "distinct (pr_registry r)" by (simp add: r_def reg NewPrometheusRecorder_def Let_def)
  moreover have "list_ex cv_panicked (counters r) \<longleftrightarrow> list_ex (call_panics (pc_ToolLabels c)) cs"
    by (simp add: r_def panic)
  moreover have "series (pr_auditEntries r) l = sum_list (map (audit_part l) cs)"
    using sum [where g = "\<lambda>s. series (pr_auditEntries s) l"] by (simp add: r_def apply_metric_series z)
  moreover have "series (pr_toolCalls r) l = sum_list (map (tool_part (pc_ToolLabels c) l) cs)"
    using sum [where g = "\<lambda>s. series (pr_toolCalls s) l"] by (simp add: r_def apply_metric_series z)
  moreover have "series (pr_rateLimitRejects r) l = sum_list (map (reject_part (pc_ToolLabels c) l) cs)"
    using sum [where g = "\<lambda>s. series (pr_rateLimitRejects s) l"] by (simp add: r_def apply_metric_series z)
  moreover have "series (pr_storageWrites r) l = sum_list (map (write_part l) cs)"
    using sum [where g = "\<lambda>s. series (pr_storageWrites s) l"] by (simp add: r_def apply_metric_series z)
  moreover have "series (pr_otelExportSpans r) l = sum_list (map (span_part l) cs)"
    using sum [where g = "\<lambda>s. series (pr_otelExportSpans s) l"] by (simp add: r_def apply_metric_series z)
  moreover have "series (pr_otelDrops r) l = sum_list (map (drop_part l) cs)"
    using sum [where g = "\<lambda>s. series (pr_otelDrops s) l"] by (simp add: r_def apply_metric_series z)
  ultimately show ?thesis unfolding Let_def r_def by blast
qed

end
