(* ===== verification/Json_Roundtrip.thy ===== *)
theory Json_Roundtrip
  imports Audit_Entry Metrics
begin

text \<open>
  The encoder and the decoder of \<open>encoding/json\<close> agree on what the stores write: a string of valid
  UTF-8, a 64-bit integer, a time, a raw message and a struct of these decode to the value that was
  encoded, a raw message to its compact form. The lemmas lead to the round trip of an audit entry.
\<close>

subsection \<open>Strings\<close>

lemma hex_val_hex_digit [simp]: "n < 16 \<Longrightarrow> hex_val (hex_digit n) = Some n"
  by (auto simp: hex_val_def hex_digit_def Let_def)

lemma hex4_digits:
  assumes "n < 65536"
  shows "hex4 [hex_digit (n div 4096 mod 16), hex_digit (n div 256 mod 16), hex_digit (n div 16 mod 16),
         hex_digit (n mod 16)] = Some n"
proof -
  have d: "n div 256 = n div 16 div 16" "n div 4096 = n div 256 div 16" by (simp_all add: div_mult2_eq [symmetric])
  have "n = 16 * (n div 16) + n mod 16" "n div 16 = 16 * (n div 256) + n div 16 mod 16"
    "n div 256 = 16 * (n div 4096) + n div 256 mod 16" unfolding d by simp_all
  then have "4096 * (n div 4096) + 256 * (n div 256 mod 16) + 16 * (n div 16 mod 16) + n mod 16 = n" by linarith
  then show ?thesis using assms by (simp add: less_mult_imp_div_less)
qed

lemma length_u_escape [simp]: "length (u_escape n) = 6"
  by (simp add: u_escape_def)

lemma scan_u_escape: "n < 65536 \<Longrightarrow>
   scan_str (u_escape n @ s) = map_option (\<lambda>(b, r). (u_escape n @ b, r)) (scan_str s)"
  using hex4_digits [of n] by (simp add: u_escape_def simple_escape_def)

lemma unquote_u_escape:
  "n < 65536 \<Longrightarrow> \<not> is_surrogate n \<Longrightarrow> unquote (u_escape n @ s) = utf8_encode n @ unquote s"
  using hex4_digits [of n] by (simp add: u_escape_def getu4_def)

lemma scan_esc_ascii:
  assumes "of_char c < (0x80 :: nat)"
  shows "scan_str (esc_ascii c @ s) = map_option (\<lambda>(b, r). (esc_ascii c @ b, r)) (scan_str s)"
  using assms scan_u_escape [of "of_char c" s]
  by (simp add: esc_ascii_def simple_escape_def)

lemma utf8_encode_ascii: "of_char c < (0x80 :: nat) \<Longrightarrow> utf8_encode (of_char c) = [c]"
  by (simp add: utf8_encode_def)

lemma unquote_esc_ascii:
  assumes "of_char c < (0x80 :: nat)"
  shows "unquote (esc_ascii c @ s) = c # unquote s"
  using assms unquote_u_escape [of "of_char c" s] utf8_encode_ascii [OF assms]
  by (simp add: esc_ascii_def simple_escape_def getu4_def is_surrogate_def)

text \<open>A valid sequence is determined by its own bytes.\<close>

lemma utf8_width_take:
  assumes "utf8_width s = w" "w \<noteq> 0"
  shows "2 \<le> w \<and> w \<le> length s \<and> (\<forall>r. utf8_width (take w s @ r) = w) \<and>
    list_all (\<lambda>c. 0x80 \<le> (of_char c :: nat)) (take w s)"
proof -
  consider "s = []" | a where "s = [a]" | a b where "s = [a, b]" | a b c where "s = [a, b, c]"
    | a b c d rest where "s = a # b # c # d # rest"
    by (metis neq_Nil_conv)
  then show ?thesis
    using assms by cases (auto simp: in_range_def split: if_splits)
qed

lemma unquote_multi:
  assumes "utf8_width (c # cs) = w" "w \<noteq> 0"
  shows "unquote (c # take (w - 1) cs @ s) = c # take (w - 1) cs @ unquote s"
proof -
  from utf8_width_take [OF assms] have w: "2 \<le> w" "w \<le> Suc (length cs)" "0x80 \<le> (of_char c :: nat)"
    "utf8_width (take w (c # cs) @ s) = w" by (cases w; auto)+
  then have "utf8_width (c # take (w - 1) cs @ s) = w" by (cases w) auto
  moreover have "c \<noteq> backslash" using w(3) by auto
  moreover have "length (take (w - 1) cs) = w - 1" using w(2) by simp
  ultimately show ?thesis using w(3) assms(2) by (simp add: Let_def)
qed

lemma scan_multi:
  assumes "list_all (\<lambda>c. 0x80 \<le> (of_char c :: nat)) b"
  shows "scan_str (b @ s) = map_option (\<lambda>(x, r). (b @ x, r)) (scan_str s)"
  using assms
proof (induction b)
  case Nil
  show ?case by (cases "scan_str s") auto
next
  case (Cons c b)
  then have "c \<noteq> dquote" "c \<noteq> backslash" "\<not> of_char c < (0x20 :: nat)" by auto
  with Cons show ?case by (cases "scan_str s") auto
qed

lemma scan_esc_string: "scan_str (esc_string s @ dquote # r) = Some (esc_string s, r)"
proof (induction s rule: esc_string.induct)
  case (2 c cs)
  show ?case
  proof (cases "of_char c < (0x80 :: nat)")
    case True
    with 2(1) show ?thesis by (simp add: scan_esc_ascii)
  next
    case False
    define w where "w = utf8_width (c # cs)"
    consider "w = 0" | "w \<noteq> 0" "prefix [CHR 0xE2, CHR 0x80, CHR 0xA8] (c # cs)"
      | "w \<noteq> 0" "\<not> prefix [CHR 0xE2, CHR 0x80, CHR 0xA8] (c # cs)" "prefix [CHR 0xE2, CHR 0x80, CHR 0xA9] (c # cs)"
      | "w \<noteq> 0" "\<not> prefix [CHR 0xE2, CHR 0x80, CHR 0xA8] (c # cs)" "\<not> prefix [CHR 0xE2, CHR 0x80, CHR 0xA9] (c # cs)"
      by blast
    then show ?thesis
    proof cases
      case 4
      from utf8_width_take [OF w_def [symmetric] 4(1)]
      have "list_all (\<lambda>c. 0x80 \<le> (of_char c :: nat)) (c # take (w - 1) cs)" by (cases w) auto
      then have "scan_str ((c # take (w - 1) cs) @ esc_string (drop (w - 1) cs) @ dquote # r) =
          Some ((c # take (w - 1) cs) @ esc_string (drop (w - 1) cs), r)"
        using 2(5) [OF False w_def 4] by (subst scan_multi) (auto simp: w_def)
      moreover have "esc_string (c # cs) = (c # take (w - 1) cs) @ esc_string (drop (w - 1) cs)"
        using False 4 by (auto simp: w_def [symmetric] Let_def)
      ultimately show ?thesis by (simp only: append_assoc)
    qed (use False 2(2-4) [OF False w_def] in \<open>simp_all add: w_def [symmetric] Let_def scan_u_escape\<close>)
  qed
qed simp

lemma separator_encode:
  "utf8_encode 0x2028 = [CHR 0xE2, CHR 0x80, CHR 0xA8]" "utf8_encode 0x2029 = [CHR 0xE2, CHR 0x80, CHR 0xA9]"
  "\<not> is_surrogate 0x2028" "\<not> is_surrogate 0x2029"
proof -
  have "char_of (226 :: nat) = CHR 0xE2" "char_of (128 :: nat) = CHR 0x80" "char_of (168 :: nat) = CHR 0xA8"
    "char_of (169 :: nat) = CHR 0xA9"
    using char_of_char [of "CHR 0xE2"] char_of_char [of "CHR 0x80"] char_of_char [of "CHR 0xA8"]
      char_of_char [of "CHR 0xA9"] by simp_all
  then show "utf8_encode 0x2028 = [CHR 0xE2, CHR 0x80, CHR 0xA8]" "utf8_encode 0x2029 = [CHR 0xE2, CHR 0x80, CHR 0xA9]"
    by (simp_all add: utf8_encode_def)
qed (simp_all add: is_surrogate_def)

lemma separator_prefix:
  "prefix [a, b, c] (x # xs) \<longleftrightarrow> x = a \<and> (\<exists>ys. xs = b # c # ys)"
  by (auto simp: prefix_def)

lemma unquote_esc_string: "ValidString s \<Longrightarrow> unquote (esc_string s) = s"
proof (induction s rule: esc_string.induct)
  case (2 c cs)
  show ?case
  proof (cases "of_char c < (0x80 :: nat)")
    case True
    with 2 show ?thesis by (simp add: unquote_esc_ascii)
  next
    case False
    define w where "w = utf8_width (c # cs)"
    from 2(6) False have v: "w \<noteq> 0" "ValidString (drop (w - 1) cs)" by (simp_all add: w_def Let_def)
    note sep = separator_encode
    consider (ls) "prefix [CHR 0xE2, CHR 0x80, CHR 0xA8] (c # cs)"
      | (ps) "\<not> prefix [CHR 0xE2, CHR 0x80, CHR 0xA8] (c # cs)" "prefix [CHR 0xE2, CHR 0x80, CHR 0xA9] (c # cs)"
      | (multi) "\<not> prefix [CHR 0xE2, CHR 0x80, CHR 0xA8] (c # cs)" "\<not> prefix [CHR 0xE2, CHR 0x80, CHR 0xA9] (c # cs)"
      by blast
    then show ?thesis
    proof cases
      case ls
      then obtain ys where ys: "c = CHR 0xE2" "cs = CHR 0x80 # CHR 0xA8 # ys" unfolding separator_prefix by blast
      then have "w = 3" by (simp add: w_def in_range_def)
      moreover have "esc_string (c # cs) = u_escape 0x2028 @ esc_string (drop 2 cs)"
        using False v(1) ls by (auto simp: w_def [symmetric] Let_def)
      ultimately show ?thesis using v(2) 2(3) [OF False w_def v(1) ls]
        by (simp add: unquote_u_escape sep ys del: esc_string.simps)
    next
      case ps
      then obtain ys where ys: "c = CHR 0xE2" "cs = CHR 0x80 # CHR 0xA9 # ys" unfolding separator_prefix by blast
      then have "w = 3" by (simp add: w_def in_range_def)
      moreover have "esc_string (c # cs) = u_escape 0x2029 @ esc_string (drop 2 cs)"
        using False v(1) ps by (auto simp: w_def [symmetric] Let_def)
      ultimately show ?thesis using v(2) 2(4) [OF False w_def v(1) ps]
        by (simp add: unquote_u_escape sep ys del: esc_string.simps)
    next
      case multi
      then have "esc_string (c # cs) = c # take (w - 1) cs @ esc_string (drop (w - 1) cs)"
        using False v(1) by (auto simp: w_def [symmetric] Let_def)
      with v(2) 2(5) [OF False w_def v(1) multi] show ?thesis
        using unquote_multi [OF w_def [symmetric] v(1), of "esc_string (drop (w - 1) cs)"]
        by (simp del: esc_string.simps unquote.simps)
    qed
  qed
qed simp

subsection \<open>Tokens\<close>

text \<open>A number needs a delimiter after it; other tokens end by themselves.\<close>

definition delim :: "string \<Rightarrow> bool" where
  "delim r \<longleftrightarrow> r = [] \<or> hd r \<in> set '',]}''"

definition number_end :: "string \<Rightarrow> bool" where
  "number_end r \<longleftrightarrow> r = [] \<or> \<not> is_digit (hd r) \<and> hd r \<notin> set ''.eE''"

lemma delim_number_end: "delim r \<Longrightarrow> number_end r"
  by (auto simp: delim_def number_end_def is_digit_def)

fun raw_text :: "tok \<Rightarrow> string" where
  "raw_text (TPunct c) = [c]"
| "raw_text (TLit raw v) = raw"
| "raw_text (TStr raw s) = raw"
| "raw_text (TWs c) = [c]"

fun is_number :: "tok \<Rightarrow> bool" where
  "is_number (TLit raw (JNum n)) = True"
| "is_number _ = False"

definition tok_ok :: "tok \<Rightarrow> bool" where
  "tok_ok t \<longleftrightarrow> (\<forall>r. (is_number t \<longrightarrow> number_end r) \<longrightarrow> next_tok (raw_text t @ r) = Some (t, r))"

lemma scan_str_split:
  "scan_str s = Some (b, r) \<Longrightarrow> s = b @ dquote # r \<and> (\<forall>r'. scan_str (b @ dquote # r') = Some (b, r'))"
proof (induction s arbitrary: b r rule: scan_str.induct)
  case (2 c cs)
  show ?case
  proof (cases "c = dquote \<or> c \<noteq> backslash")
    case True
    with 2(4) show ?thesis using 2(3) by (auto split: if_splits)
  next
    case False
    with 2(4) obtain d ds where cs: "cs = d # ds" by (auto split: list.splits)
    show ?thesis
    proof (cases "simple_escape d")
      case (Some x)
      with False 2(4) cs obtain b' where b': "scan_str ds = Some (b', r)" "b = c # d # b'" by auto
      from 2(1) [OF _ _ cs _ b'(1)] False Some b' cs show ?thesis by auto
    next
      case None
      with False 2(4) cs have u: "d = CHR ''u''" "hex4 (take 4 ds) \<noteq> None" by (auto split: if_splits)
      then have l: "length (take 4 ds) = 4" by (cases "take 4 ds" rule: hex4.cases) auto
      from None False 2(4) cs u obtain b' where b': "scan_str (drop 4 ds) = Some (b', r)" "b = c # d # take 4 ds @ b'"
        by (auto split: if_splits)
      from 2(2) [OF _ _ cs _ _ b'(1)] False None u have "drop 4 ds = b' @ dquote # r"
        "\<forall>r'. scan_str (b' @ dquote # r') = Some (b', r')" by auto
      moreover have "ds = take 4 ds @ drop 4 ds" by simp
      ultimately show ?thesis using False None u l b'(2) cs by auto
    qed
  qed
qed simp

definition no_digit :: "string \<Rightarrow> bool" where
  "no_digit r \<longleftrightarrow> r = [] \<or> \<not> is_digit (hd r)"

lemma digits_split:
  "list_all is_digit d \<Longrightarrow> no_digit r \<Longrightarrow> takeWhile is_digit (d @ r) = d \<and> dropWhile is_digit (d @ r) = r"
  by (induction d) (cases r; auto simp: no_digit_def)+

lemma takeWhile_digits: "list_all is_digit (takeWhile is_digit s)"
  by (auto simp: list_all_iff dest: set_takeWhileD)

lemma digit_not: "is_digit c \<Longrightarrow> c \<notin> set ''.eE+-''"
  by (auto simp: is_digit_def)

lemma scan_int_again:
  assumes "scan_int s = Some (i, r)"
  shows "s = i @ r \<and> i \<noteq> [] \<and> is_digit (hd i) \<and> (\<forall>r'. no_digit r' \<longrightarrow> scan_int (i @ r') = Some (i, r'))"
proof (cases "prefix ''0'' s")
  case True
  with assms show ?thesis by (cases s) (auto simp: scan_int_def is_digit_def)
next
  case False
  let ?d = "takeWhile is_digit s"
  from False assms have i: "i = ?d" "r = dropWhile is_digit s" "?d \<noteq> []"
    by (auto simp: scan_int_def Let_def split: if_splits)
  then have h: "is_digit (hd i)" using takeWhile_digits [of s] by (auto simp: list_all_iff)
  moreover have "scan_int (i @ r') = Some (i, r')" if "no_digit r'" for r'
  proof -
    have "hd i = hd s" "s \<noteq> []" using i by (cases s; auto)+
    then have "\<not> prefix ''0'' (i @ r')" using False i by (cases i; cases s) auto
    moreover have "takeWhile is_digit (i @ r') = i" "dropWhile is_digit (i @ r') = r'"
      using digits_split [OF takeWhile_digits that, of s] i by simp_all
    ultimately show ?thesis using i by (simp add: scan_int_def)
  qed
  ultimately show ?thesis using i by simp
qed

lemma scan_frac_again:
  assumes "scan_frac s = Some (f, r)"
  shows "s = f @ r \<and> (f = [] \<or> hd f = CHR ''.'') \<and>
    (\<forall>r'. no_digit r' \<longrightarrow> (f = [] \<longrightarrow> \<not> prefix ''.'' r') \<longrightarrow> scan_frac (f @ r') = Some (f, r'))"
proof (cases "prefix ''.'' s")
  case True
  then obtain u where u: "s = CHR ''.'' # u" by (auto simp: prefix_def)
  with assms True have f: "f = CHR ''.'' # takeWhile is_digit u" "r = dropWhile is_digit u" "takeWhile is_digit u \<noteq> []"
    by (auto simp: scan_frac_def Let_def split: if_splits)
  have "scan_frac (f @ r') = Some (f, r')" if "no_digit r'" for r'
    using digits_split [OF takeWhile_digits that, of u] f by (simp add: scan_frac_def)
  with u f show ?thesis by simp
next
  case False
  with assms show ?thesis by (auto simp: scan_frac_def)
qed

lemma scan_exp_again:
  assumes "scan_exp s = Some (e, r)"
  shows "s = e @ r \<and> (e = [] \<or> hd e \<in> set ''eE'') \<and>
    (\<forall>r'. no_digit r' \<longrightarrow> (e = [] \<longrightarrow> \<not> prefix ''e'' r' \<and> \<not> prefix ''E'' r') \<longrightarrow>
       scan_exp (e @ r') = Some (e, r'))"
proof (cases "prefix ''e'' s \<or> prefix ''E'' s")
  case True
  then obtain c u where u: "s = c # u" "c \<in> set ''eE''" by (auto simp: prefix_def)
  define sg where "sg = (if prefix ''+'' u \<or> prefix ''-'' u then take 1 u else [])"
  define d where "d = takeWhile is_digit (drop (length sg) u)"
  from assms True u have e: "e = c # sg @ d" "r = dropWhile is_digit (drop (length sg) u)" "d \<noteq> []"
    by (auto simp: scan_exp_def Let_def sg_def d_def split: if_splits)
  have sg: "u = sg @ drop (length sg) u" "sg = [] \<or> sg = ''+'' \<or> sg = ''-''"
    by (auto simp: sg_def prefix_def)
  have "list_all is_digit d" by (simp add: d_def takeWhile_digits)
  then have hd: "hd d \<notin> set ''.eE+-''" using e(3) digit_not by (cases d) auto
  have "scan_exp (e @ r') = Some (e, r')" if "no_digit r'" for r'
  proof -
    have "(if prefix ''+'' (sg @ d @ r') \<or> prefix ''-'' (sg @ d @ r') then take 1 (sg @ d @ r') else []) = sg"
      using sg(2) hd e(3) by (cases d) auto
    with digits_split [OF \<open>list_all is_digit d\<close> that] u(2) e(3) show ?thesis
      by (auto simp: scan_exp_def e(1))
  qed
  moreover have "s = e @ r" using u(1) e sg(1) by (simp add: d_def)
  ultimately show ?thesis using u e by auto
next
  case False
  with assms show ?thesis by (auto simp: scan_exp_def)
qed

lemma scan_num_again:
  assumes "scan_num s = Some (n, r)"
  shows "s = n @ r \<and> n \<noteq> [] \<and> (hd n = CHR ''-'' \<or> is_digit (hd n)) \<and>
    (\<forall>r'. number_end r' \<longrightarrow> scan_num (n @ r') = Some (n, r'))"
proof -
  define sg where "sg = (if prefix ''-'' s then ''-'' else [])"
  from assms obtain i s1 f s2 e where
    p: "scan_int (drop (length sg) s) = Some (i, s1)" "scan_frac s1 = Some (f, s2)" "scan_exp s2 = Some (e, r)"
    "n = sg @ i @ f @ e"
    by (auto simp: scan_num_def sg_def [symmetric] Let_def bind_eq_Some_conv)
  note i = scan_int_again [OF p(1)] and f = scan_frac_again [OF p(2)] and e = scan_exp_again [OF p(3)]
  have s: "s = sg @ drop (length sg) s" by (auto simp: sg_def prefix_def)
  have hd_i: "hd i \<noteq> CHR ''-''" "i \<noteq> []" using i digit_not by auto
  have "scan_num (n @ r') = Some (n, r')" if "number_end r'" for r'
  proof -
    have r': "no_digit r'" "\<not> prefix ''.'' r'" "\<not> prefix ''e'' r'" "\<not> prefix ''E'' r'"
      using that by (cases r'; auto simp: number_end_def no_digit_def)+
    have e1: "scan_exp (e @ r') = Some (e, r')" using e r' by blast
    have "no_digit (e @ r')" "\<not> prefix ''.'' (e @ r')"
      using e r' by (cases e; auto simp: no_digit_def is_digit_def)+
    then have f1: "scan_frac (f @ e @ r') = Some (f, e @ r')" using f by blast
    have "no_digit (f @ e @ r')" using f \<open>no_digit (e @ r')\<close> by (cases f) (auto simp: no_digit_def is_digit_def)
    then have "scan_int (i @ f @ e @ r') = Some (i, f @ e @ r')" using i by blast
    moreover have "(if prefix ''-'' (n @ r') then ''-'' else []) = sg"
      using hd_i by (cases i) (auto simp: p(4) sg_def)
    ultimately show ?thesis using f1 e1
      by (simp add: scan_num_def Let_def p(4))
  qed
  moreover have "s = n @ r" using s i f e by (simp add: p(4))
  moreover have "n \<noteq> []" "hd n = CHR ''-'' \<or> is_digit (hd n)" using i by (auto simp: p(4) sg_def)
  ultimately show ?thesis by blast
qed

text \<open>Every token the lexer finds is found again in its text.\<close>

lemma next_tok_ok:
  assumes "next_tok s = Some (t, r)"
  shows "s = raw_text t @ r \<and> tok_ok t"
proof -
  obtain c cs where s: "s = c # cs" using assms by (cases s) (auto simp: next_tok_def)
  consider (ws) "json_ws c" | (punct) "\<not> json_ws c" "json_punct c"
    | (str) "\<not> json_ws c" "\<not> json_punct c" "c = dquote"
    | (true) "\<not> json_ws c" "\<not> json_punct c" "c \<noteq> dquote" "prefix ''true'' s"
    | (false) "\<not> json_ws c" "\<not> json_punct c" "c \<noteq> dquote" "\<not> prefix ''true'' s" "prefix ''false'' s"
    | (null) "\<not> json_ws c" "\<not> json_punct c" "c \<noteq> dquote" "\<not> prefix ''true'' s" "\<not> prefix ''false'' s"
        "prefix ''null'' s"
    | (num) "\<not> json_ws c" "\<not> json_punct c" "c \<noteq> dquote" "\<not> prefix ''true'' s" "\<not> prefix ''false'' s"
        "\<not> prefix ''null'' s" by blast
  then show ?thesis
  proof cases
    case str
    with assms s obtain b where b: "scan_str cs = Some (b, r)" "t = TStr (dquote # b @ [dquote]) (unquote b)"
      by (auto simp: next_tok_def)
    from scan_str_split [OF b(1)] str s b(2) show ?thesis by (auto simp: tok_ok_def next_tok_def)
  next
    case num
    with assms s obtain n where n: "scan_num s = Some (n, r)" "t = TLit n (JNum n)"
      by (auto simp: next_tok_def)
    note a = scan_num_again [OF n(1)]
    then obtain m ms where m: "n = m # ms" by (cases n) auto
    have "m = CHR ''-'' \<or> is_digit m" using a m by simp
    moreover have "\<forall>x \<in> set [CHR 0x20, CHR 0x09, CHR 0x0A, CHR 0x0D, CHR ''{'', CHR ''}'', CHR ''['', CHR '']'',
        CHR '','', CHR '':'', dquote, CHR ''t'', CHR ''f'', CHR ''n'']. \<not> (x = CHR ''-'' \<or> is_digit x)"
      by (simp add: is_digit_def)
    ultimately have no: "\<not> json_ws m" "\<not> json_punct m" "m \<noteq> dquote" "CHR ''t'' \<noteq> m" "CHR ''f'' \<noteq> m" "CHR ''n'' \<noteq> m"
      unfolding json_ws_def json_punct_def by auto
    then have "next_tok (n @ r') = map_option (\<lambda>(n, r). (TLit n (JNum n), r)) (scan_num (n @ r'))" for r'
      by (simp add: next_tok_def m)
    with a n(2) show ?thesis by (auto simp: tok_ok_def)
  qed (use assms s in \<open>auto simp: tok_ok_def next_tok_def prefix_def\<close>)
qed

lemma lex_Cons: "tok_ok t \<Longrightarrow> (is_number t \<longrightarrow> number_end r) \<Longrightarrow> raw_text t \<noteq> [] \<Longrightarrow>
   lex (raw_text t @ r) = map_option (\<lambda>ts. t # ts) (lex r)"
  by (subst lex.simps) (auto simp: tok_ok_def)

lemma tok_ok_text: "next_tok s = Some (t, r) \<Longrightarrow> raw_text t \<noteq> []"
  using next_tok_ok [of s t r] next_tok_length [of s t r] by auto

lemma lex_ok: "lex s = Some ts \<Longrightarrow> list_all (\<lambda>t. tok_ok t \<and> raw_text t \<noteq> []) ts"
proof (induction s arbitrary: ts rule: lex.induct)
  case (1 s)
  show ?case
  proof (cases "s = []")
    case True
    with 1(2) show ?thesis by (simp add: lex.simps)
  next
    case False
    with 1(2) obtain t r ts' where t: "next_tok s = Some (t, r)" "lex r = Some ts'" "ts = t # ts'"
      by (subst (asm) lex.simps) (auto split: option.splits)
    with 1(1) [OF False t(1) refl t(2)] next_tok_ok [OF t(1)] tok_ok_text [OF t(1)] show ?thesis by simp
  qed
qed

subsection \<open>Compact raw messages\<close>

lemma html_escape_plain:
  "c \<notin> set ''<>&'' \<Longrightarrow> c \<noteq> CHR 0xE2 \<Longrightarrow> html_escape (c # cs) = c # html_escape cs"
  by (auto simp: separator_prefix)

lemma html_escape_sep:
  "html_escape (CHR 0xE2 # CHR 0x80 # CHR 0xA8 # cs) = u_escape 0x2028 @ html_escape cs"
  "html_escape (CHR 0xE2 # CHR 0x80 # CHR 0xA9 # cs) = u_escape 0x2029 @ html_escape cs"
  by (simp_all add: numeral_2_eq_2)

lemma html_escape_other:
  "c \<notin> set ''<>&'' \<Longrightarrow> \<not> prefix [CHR 0xE2, CHR 0x80, CHR 0xA8] (c # cs) \<Longrightarrow>
   \<not> prefix [CHR 0xE2, CHR 0x80, CHR 0xA9] (c # cs) \<Longrightarrow> html_escape (c # cs) = c # html_escape cs"
  by auto

lemma html_escape_cases:
  obtains (Nil) "s = []"
  | (special) c cs where "s = c # cs" "c \<in> set ''<>&''"
  | (sep) x cs n where "s = CHR 0xE2 # CHR 0x80 # x # cs" "x = CHR 0xA8 \<and> n = 0x2028 \<or> x = CHR 0xA9 \<and> n = (0x2029 :: nat)"
  | (other) c cs where "s = c # cs" "c \<notin> set ''<>&''" "\<not> prefix [CHR 0xE2, CHR 0x80, CHR 0xA8] (c # cs)"
      "\<not> prefix [CHR 0xE2, CHR 0x80, CHR 0xA9] (c # cs)"
proof (cases s)
  case (Cons c cs)
  consider "c \<in> set ''<>&''" | "prefix [CHR 0xE2, CHR 0x80, CHR 0xA8] s" | "prefix [CHR 0xE2, CHR 0x80, CHR 0xA9] s"
    | "c \<notin> set ''<>&''" "\<not> prefix [CHR 0xE2, CHR 0x80, CHR 0xA8] s" "\<not> prefix [CHR 0xE2, CHR 0x80, CHR 0xA9] s" by blast
  then show thesis
  proof cases
    case 1
    with Cons show thesis by (rule special)
  next
    case 2
    then obtain ys where "s = CHR 0xE2 # CHR 0x80 # CHR 0xA8 # ys" unfolding Cons separator_prefix by blast
    then show thesis by (rule sep) simp
  next
    case 3
    then obtain ys where "s = CHR 0xE2 # CHR 0x80 # CHR 0xA9 # ys" unfolding Cons separator_prefix by blast
    then show thesis by (rule sep) simp
  next
    case 4
    with Cons show thesis by (intro other) auto
  qed
qed (rule Nil)

lemma html_escape_quote: "html_escape (b @ dquote # r) = html_escape b @ dquote # html_escape r"
proof (induction b rule: length_induct)
  case (1 b)
  then have IH: "html_escape (x @ dquote # r) = html_escape x @ dquote # html_escape r" if "length x < length b" for x
    using that by blast
  show ?case
  proof (cases b rule: html_escape_cases)
    case (sep x cs n)
    with IH [of cs] show ?thesis by (auto simp: html_escape_sep simp del: html_escape.simps)
  next
    case (other c cs)
    moreover have "\<not> prefix [CHR 0xE2, CHR 0x80, z] (c # cs @ dquote # r)" if "\<not> prefix [CHR 0xE2, CHR 0x80, z] (c # cs)"
      "z \<noteq> dquote" for z
      using that by (auto simp: prefix_def append_eq_Cons_conv)
    ultimately show ?thesis using IH [of cs] by (simp add: html_escape_other del: html_escape.simps)
  qed (use IH in auto)
qed

lemma hex_plain: "hex_val c \<noteq> None \<Longrightarrow> c \<notin> set ''<>&'' \<and> c \<noteq> CHR 0xE2"
  by (auto simp: hex_val_def Let_def split: if_splits)

lemma html_escape_hex: "list_all (\<lambda>c. hex_val c \<noteq> None) h \<Longrightarrow> html_escape (h @ s) = h @ html_escape s"
proof (induction h)
  case (Cons c h)
  then have "c \<notin> set ''<>&''" "c \<noteq> CHR 0xE2" using hex_plain [of c] by auto
  with Cons show ?case by (simp add: html_escape_plain del: html_escape.simps)
qed simp

lemma hex4_all: "hex4 h \<noteq> None \<Longrightarrow> list_all (\<lambda>c. hex_val c \<noteq> None) h"
  by (cases h rule: hex4.cases) (auto split: option.splits)

lemma simple_escape_plain: "simple_escape c \<noteq> None \<Longrightarrow> c \<notin> set ''<>&'' \<and> c \<noteq> CHR 0xE2"
  by (auto simp: simple_escape_def split: if_splits)

definition body_ok :: "string \<Rightarrow> bool" where
  "body_ok b \<longleftrightarrow> (\<forall>r. scan_str (b @ dquote # r) = Some (b, r))"

lemma body_ok_Cons: "c \<noteq> dquote \<Longrightarrow> c \<noteq> backslash \<Longrightarrow> \<not> of_char c < (0x20 :: nat) \<Longrightarrow>
   body_ok (c # b) \<longleftrightarrow> body_ok b"
  by (auto simp: body_ok_def)

lemma body_ok_u: "n < 65536 \<Longrightarrow> body_ok b \<Longrightarrow> body_ok (u_escape n @ b)"
  by (simp add: body_ok_def scan_u_escape)

lemma body_ok_html: "scan_str s = Some (b, r) \<Longrightarrow> body_ok (html_escape b)"
proof (induction s arbitrary: b r rule: scan_str.induct)
  case (2 c cs)
  consider (quote) "c = dquote" | (esc) "c = backslash" | (char) "c \<noteq> dquote" "c \<noteq> backslash" by blast
  then show ?case
  proof cases
    case quote
    with 2(4) show ?thesis by (auto simp: body_ok_def)
  next
    case esc
    with 2(4) obtain d ds where cs: "cs = d # ds" by (auto split: list.splits)
    have b0: "html_escape (backslash # x) = backslash # html_escape x" for x by (simp add: separator_prefix)
    show ?thesis
    proof (cases "simple_escape d")
      case (Some x)
      with esc 2(4) cs obtain b' where b': "scan_str ds = Some (b', r)" "b = c # d # b'" by auto
      from 2(1) [OF _ esc cs _ b'(1)] Some esc have "body_ok (html_escape b')" by simp
      moreover have "html_escape (d # b') = d # html_escape b'"
        using simple_escape_plain [of d] Some by (intro html_escape_plain) auto
      ultimately show ?thesis using Some esc by (simp add: body_ok_def b'(2) b0 del: html_escape.simps)
    next
      case None
      with esc 2(4) cs have u: "d = CHR ''u''" "hex4 (take 4 ds) \<noteq> None" by (auto split: if_splits)
      from None esc 2(4) cs u obtain b' where b': "scan_str (drop 4 ds) = Some (b', r)" "b = c # d # take 4 ds @ b'"
        by (auto split: if_splits)
      from 2(2) [OF _ esc cs _ _ b'(1)] None u esc have "body_ok (html_escape b')" by simp
      moreover have "html_escape (d # take 4 ds @ b') = d # take 4 ds @ html_escape b'"
        using html_escape_hex [OF hex4_all [OF u(2)]] by (simp add: u(1) html_escape_plain del: html_escape.simps)
      moreover have "length (take 4 ds) = 4" using u(2) by (cases "take 4 ds" rule: hex4.cases) auto
      ultimately show ?thesis using None u esc
        by (auto simp add: body_ok_def b'(2) b0 simp del: html_escape.simps)
    qed
  next
    case char
    with 2(4) obtain b' where b': "scan_str cs = Some (b', r)" "b = c # b'" and c: "\<not> of_char c < (0x20 :: nat)"
      by (auto split: if_splits)
    from 2(3) [OF char c b'(1)] have ok: "body_ok (html_escape b')" .
    show ?thesis
    proof (cases b rule: html_escape_cases)
      case (special c' x)
      then show ?thesis using ok b'(2) by (auto intro!: body_ok_u)
    next
      case (sep x ys n)
      then have "body_ok (html_escape ys)"
        using ok b'(2) by (auto simp: html_escape_plain body_ok_Cons simp del: html_escape.simps)
      with sep show ?thesis by (auto simp: html_escape_sep body_ok_u simp del: html_escape.simps)
    next
      case (other c' x)
      with ok b'(2) char c show ?thesis
        by (simp add: html_escape_other body_ok_Cons del: html_escape.simps)
    qed (simp add: b'(2))
  qed
qed simp

fun norm_tok :: "tok \<Rightarrow> tok" where
  "norm_tok (TStr raw s) = TStr (html_escape raw) (unquote (butlast (tl (html_escape raw))))"
| "norm_tok t = t"

fun is_ws :: "tok \<Rightarrow> bool" where
  "is_ws (TWs c) = True"
| "is_ws _ = False"

definition norm_toks :: "tok list \<Rightarrow> tok list" where
  "norm_toks ts = map norm_tok (filter (\<lambda>t. \<not> is_ws t) ts)"

definition good_tok :: "tok \<Rightarrow> bool" where
  "good_tok t \<longleftrightarrow> tok_ok t \<and> raw_text t \<noteq> []"

lemma norm_tok_good:
  assumes "next_tok s = Some (t, r)"
  shows "good_tok (norm_tok t)"
proof (cases t)
  case (TStr raw u)
  with assms obtain cs b where b: "s = dquote # cs" "scan_str cs = Some (b, r)" "raw = dquote # b @ [dquote]"
    by (cases s) (auto simp: next_tok_def split: if_splits)
  have "html_escape raw = dquote # html_escape b @ [dquote]"
    using html_escape_quote [of b "[]"] by (simp add: b(3) html_escape_plain del: html_escape.simps) simp
  moreover have "\<not> json_ws dquote" "\<not> json_punct dquote" by (simp_all add: json_ws_def json_punct_def)
  ultimately show ?thesis using body_ok_html [OF b(2)] TStr
    by (simp add: good_tok_def tok_ok_def next_tok_def body_ok_def)
qed (use next_tok_ok [OF assms] tok_ok_text [OF assms] in \<open>auto simp: good_tok_def\<close>)

lemma lex_norm_good: "lex s = Some ts \<Longrightarrow> list_all good_tok (norm_toks ts)"
proof (induction s arbitrary: ts rule: lex.induct)
  case (1 s)
  show ?case
  proof (cases "s = []")
    case True
    with 1(2) show ?thesis by (simp add: lex.simps norm_toks_def)
  next
    case False
    with 1(2) obtain t r ts' where t: "next_tok s = Some (t, r)" "lex r = Some ts'" "ts = t # ts'"
      by (subst (asm) lex.simps) (auto split: option.splits)
    with 1(1) [OF False t(1) refl t(2)] norm_tok_good [OF t(1)] show ?thesis by (simp add: norm_toks_def)
  qed
qed

lemma tok_text_norm: "concat (map tok_text ts) = concat (map raw_text (norm_toks ts))"
  by (induction ts) (auto simp: norm_toks_def tok_text_def split: tok.split)

lemma norm_no_ws: "list_all (\<lambda>t. \<not> is_ws t) (norm_toks ts)"
proof -
  have "\<not> is_ws (norm_tok t)" if "\<not> is_ws t" for t using that by (cases t) auto
  then show ?thesis by (simp add: norm_toks_def list_all_iff)
qed

subsection \<open>The parser only sees the shape of tokens\<close>

fun same_frame :: "frame \<Rightarrow> frame \<Rightarrow> bool" where
  "same_frame (FArr r es) (FArr r' es') = True"
| "same_frame (FObj r ms k) (FObj r' ms' k') = True"
| "same_frame _ _ = False"

fun same :: "pstate \<Rightarrow> pstate \<Rightarrow> bool" where
  "same PErr PErr = True"
| "same (PDone raw v) (PDone raw' v') = True"
| "same (PRun m fs) (PRun m' fs') \<longleftrightarrow> m = m' \<and> list_all2 same_frame fs fs'"
| "same _ _ = False"

fun same_tok :: "tok \<Rightarrow> tok \<Rightarrow> bool" where
  "same_tok (TPunct c) (TPunct c') \<longleftrightarrow> c = c'"
| "same_tok (TLit raw v) (TLit raw' v') = True"
| "same_tok (TStr raw s) (TStr raw' s') = True"
| "same_tok _ _ = False"

lemma same_frame_cases:
  assumes "list_all2 same_frame fs fs'"
  obtains "fs = []" "fs' = []"
  | r es r' es' gs gs' where "fs = FArr r es # gs" "fs' = FArr r' es' # gs'" "list_all2 same_frame gs gs'"
  | r ms k r' ms' k' gs gs' where "fs = FObj r ms k # gs" "fs' = FObj r' ms' k' # gs'" "list_all2 same_frame gs gs'"
proof (cases fs)
  case Nil
  with assms that(1) show thesis by simp
next
  case (Cons f gs)
  with assms obtain f' gs' where "fs' = f' # gs'" "same_frame f f'" "list_all2 same_frame gs gs'"
    by (auto simp: list_all2_Cons1)
  with Cons that(2,3) show thesis by (cases f; cases f') auto
qed

lemma same_complete:
  assumes "list_all2 same_frame fs fs'"
  shows "same (Json.complete raw v fs) (Json.complete raw' v' fs')"
  using assms by (cases rule: same_frame_cases) (simp_all add: Json.complete_def)

lemma same_open:
  assumes "list_all2 same_frame fs fs'" "same_frame f f'"
  shows "same (open_frame f m fs) (open_frame f' m fs')"
  using assms list_all2_lengthD [OF assms(1)] by (simp add: open_frame_def)

lemma same_close:
  assumes "list_all2 same_frame fs fs'"
  shows "same (close_frame c fs) (close_frame c fs')"
  using assms by (cases rule: same_frame_cases) (simp_all add: close_frame_def same_complete)

lemma same_begin:
  assumes "list_all2 same_frame fs fs'" "same_tok t t'"
  shows "same (begin_value t fs) (begin_value t' fs')"
  using assms by (cases t; cases t') (simp_all add: begin_value_def same_complete same_open)

lemma same_key:
  assumes "list_all2 same_frame fs fs'" "same_tok t t'"
  shows "same (begin_key t fs) (begin_key t' fs')"
  using assms(1)
proof (cases rule: same_frame_cases)
  case 3
  with assms(2) show ?thesis by (cases t; cases t') (simp_all add: begin_key_def)
qed (use assms(2) in \<open>cases t; cases t'; simp add: begin_key_def\<close>)+

lemma same_after:
  assumes "list_all2 same_frame fs fs'" "same_tok t t'"
  shows "same (after_value t fs) (after_value t' fs')"
proof (cases t)
  case (TPunct c)
  with assms(2) have "t' = TPunct c" by (cases t') auto
  with TPunct show ?thesis using same_close [OF assms(1), of c] assms(1)
    by (cases rule: same_frame_cases [OF assms(1)]) (simp_all add: after_value_def)
qed (use assms(2) in \<open>cases t'; simp add: after_value_def\<close>)+

lemma same_add_raw: "list_all2 same_frame fs fs' \<Longrightarrow> list_all2 same_frame (add_raw r fs) (add_raw r' fs')"
  by (erule same_frame_cases) simp_all

lemma pstep_same:
  assumes "same s s'" "same_tok t t'"
  shows "same (pstep s t) (pstep s' t')"
proof (cases s)
  case (PRun m fs)
  with assms(1) obtain fs' where s': "s' = PRun m fs'" "list_all2 same_frame fs fs'" by (cases s') auto
  have p: "t = TPunct c \<longleftrightarrow> t' = TPunct c" for c using assms(2) by (cases t; cases t') auto
  have w: "(case t of TWs c \<Rightarrow> f c | _ \<Rightarrow> x) = x" "(case t' of TWs c \<Rightarrow> f c | _ \<Rightarrow> x) = x" for f :: "char \<Rightarrow> pstate" and x
    using assms(2) by (cases t; cases t'; simp)+
  show ?thesis
    unfolding pstep_def PRun s'(1) pstate.case w
    using s'(2) assms(2) p
    by (cases m) (auto intro: same_begin same_key same_after same_close same_add_raw)
qed (use assms in \<open>cases s'; cases t; cases t'; simp add: pstep_def\<close>)+

lemma list_all2_same_frame_refl: "list_all2 same_frame fs fs"
proof (rule list_all2_refl)
  show "same_frame f f" for f by (cases f) auto
qed

lemma same_trans: "same s t \<Longrightarrow> same t u \<Longrightarrow> same s u"
proof -
  have f: "same_frame f g \<Longrightarrow> same_frame g h \<Longrightarrow> same_frame f h" for f g h by (cases f; cases g; cases h) auto
  show "same s t \<Longrightarrow> same t u \<Longrightarrow> same s u"
    by (cases s; cases t; cases u) (auto elim: list_all2_trans [rotated] intro: f)
qed

lemma pstep_ws_same: "same (pstep s (TWs c)) s"
proof (cases s)
  case (PRun m fs)
  have "list_all2 same_frame (add_raw [c] fs) fs"
  proof (cases fs)
    case (Cons f gs)
    then show ?thesis using list_all2_same_frame_refl [of gs] by (cases f) auto
  qed simp
  with PRun show ?thesis by (simp add: pstep_def)
qed (simp_all add: pstep_def)

lemma norm_same: "\<not> is_ws t \<Longrightarrow> same_tok t (norm_tok t)"
  by (cases t) auto

lemma run_norm: "same s s' \<Longrightarrow> same (foldl pstep s ts) (foldl pstep s' (norm_toks ts))"
proof (induction ts arbitrary: s s')
  case (Cons t ts)
  show ?case
  proof (cases "is_ws t")
    case True
    then obtain c where "t = TWs c" by (cases t) auto
    with Cons.IH [OF same_trans [OF pstep_ws_same Cons.prems]] True show ?thesis by (simp add: norm_toks_def)
  next
    case False
    with Cons.IH [OF pstep_same [OF Cons.prems norm_same]] show ?thesis by (simp add: norm_toks_def)
  qed
qed (simp add: norm_toks_def)

subsection \<open>The text of a value\<close>

fun frame_raw :: "frame \<Rightarrow> string" where
  "frame_raw (FArr r es) = r"
| "frame_raw (FObj r ms k) = r"

fun flat :: "pstate \<Rightarrow> string" where
  "flat PErr = []"
| "flat (PDone raw v) = raw"
| "flat (PRun m fs) = concat (rev (map frame_raw fs))"

lemma flat_complete: "flat (Json.complete raw v fs) = concat (rev (map frame_raw fs)) @ raw"
  by (auto simp: Json.complete_def split: list.split frame.split)

lemma flat_close: "close_frame c fs \<noteq> PErr \<Longrightarrow> flat (close_frame c fs) = concat (rev (map frame_raw fs)) @ [c]"
  by (auto simp: close_frame_def flat_complete split: list.splits frame.splits if_splits)

lemma flat_begin: "begin_value t fs \<noteq> PErr \<Longrightarrow> flat (begin_value t fs) = concat (rev (map frame_raw fs)) @ raw_text t"
  by (cases t) (auto simp: begin_value_def open_frame_def flat_complete split: if_splits)

lemma flat_key: "begin_key t fs \<noteq> PErr \<Longrightarrow> flat (begin_key t fs) = concat (rev (map frame_raw fs)) @ raw_text t"
  by (cases t) (auto simp: begin_key_def split: list.splits frame.splits)

lemma flat_after: "after_value t fs \<noteq> PErr \<Longrightarrow> flat (after_value t fs) = concat (rev (map frame_raw fs)) @ raw_text t"
  by (cases t) (auto simp: after_value_def flat_close split: list.splits frame.splits if_splits)

lemma flat_add_raw: "fs \<noteq> [] \<Longrightarrow> concat (rev (map frame_raw (add_raw r fs))) = concat (rev (map frame_raw fs)) @ r"
  by (cases fs; cases "hd fs") auto

fun shaped :: "pstate \<Rightarrow> bool" where
  "shaped (PRun m fs) \<longleftrightarrow> (fs = [] \<longrightarrow> m = MValue)"
| "shaped _ = True"

lemma shaped_complete [simp]: "shaped (Json.complete raw v fs)"
  by (auto simp: Json.complete_def split: list.split frame.split)

lemma pstep_run:
  "\<not> is_ws t \<Longrightarrow> pstep (PRun m fs) t =
     (case m of
        MValue \<Rightarrow> begin_value t fs
      | MFirstElem \<Rightarrow> if t = TPunct CHR '']'' then close_frame CHR '']'' fs else begin_value t fs
      | MFirstKey \<Rightarrow> if t = TPunct CHR ''}'' then close_frame CHR ''}'' fs else begin_key t fs
      | MKey \<Rightarrow> begin_key t fs
      | MColon \<Rightarrow> if t = TPunct CHR '':'' then PRun MValue (add_raw '':'' fs) else PErr
      | MNext \<Rightarrow> after_value t fs)"
  by (cases m; cases t) (simp_all add: pstep_def)

lemma pstep_done: "\<not> is_ws t \<Longrightarrow> pstep (PDone raw v) t = PErr" "pstep PErr t = PErr"
  by (cases t; simp add: pstep_def)+

lemma foldl_PErr [simp]: "foldl pstep PErr ts = PErr"
  by (induction ts) (simp_all add: pstep_done)

lemma shaped_parts [simp]:
  "shaped (open_frame f m fs)" "shaped (close_frame c fs)" "shaped (begin_value t fs)" "shaped (begin_key t fs)"
  "shaped (after_value t fs)"
  by (auto simp: open_frame_def close_frame_def begin_value_def begin_key_def after_value_def
      split: tok.split list.split frame.split)

lemma pstep_flat:
  assumes "shaped s" "\<not> is_ws t" "pstep s t \<noteq> PErr"
  shows "flat (pstep s t) = flat s @ raw_text t \<and> shaped (pstep s t)"
proof (cases s)
  case (PRun m fs)
  then have fs: "m \<noteq> MValue \<Longrightarrow> fs \<noteq> []" using assms(1) by auto
  have "fs = [] \<longleftrightarrow> add_raw r fs = []" for r by (cases fs; cases "hd fs") auto
  with assms(3) show ?thesis
    unfolding PRun pstep_run [OF assms(2)]
    by (cases m) (auto simp: flat_begin flat_key flat_after flat_close flat_add_raw [OF fs] split: if_splits)
qed (use assms pstep_done in auto)

fun lift :: "frame list \<Rightarrow> pstate \<Rightarrow> pstate" where
  "lift st PErr = PErr"
| "lift st (PDone raw v) = Json.complete raw v st"
| "lift st (PRun m fs) = PRun m (fs @ st)"

lemma lift_complete: "lift st (Json.complete raw v fs) = Json.complete raw v (fs @ st)"
  by (cases fs; cases "hd fs") (auto simp: Json.complete_def)

lemma lift_close: "fs \<noteq> [] \<Longrightarrow> close_frame c (fs @ st) = lift st (close_frame c fs)"
  by (cases fs; cases "hd fs") (auto simp: close_frame_def lift_complete)

lemma lift_key: "fs \<noteq> [] \<Longrightarrow> begin_key t (fs @ st) = lift st (begin_key t fs)"
  by (cases fs; cases "hd fs"; cases t) (auto simp: begin_key_def)

lemma lift_after: "fs \<noteq> [] \<Longrightarrow> after_value t (fs @ st) = lift st (after_value t fs)"
  by (cases fs; cases "hd fs"; cases t) (auto simp: after_value_def lift_close [of "_ # _", simplified])

lemma lift_begin:
  assumes "begin_value t fs \<noteq> PErr" "\<And>m gs. begin_value t fs = PRun m gs \<Longrightarrow> length gs + length st \<le> maxNestingDepth"
  shows "begin_value t (fs @ st) = lift st (begin_value t fs)"
  using assms by (cases t) (auto simp: begin_value_def open_frame_def lift_complete split: if_splits)

lemma pstep_lift:
  assumes "shaped s" "\<not> is_ws t" "pstep s t \<noteq> PErr"
    "\<And>m fs. pstep s t = PRun m fs \<Longrightarrow> length fs + length st \<le> maxNestingDepth"
  shows "pstep (lift st s) t = lift st (pstep s t)"
proof (cases s)
  case (PRun m fs)
  then have fs: "m \<noteq> MValue \<Longrightarrow> fs \<noteq> []" using assms(1) by auto
  have a: "fs \<noteq> [] \<Longrightarrow> add_raw r (fs @ st) = add_raw r fs @ st" for r by (cases fs; cases "hd fs") auto
  from assms(3,4) show ?thesis
    unfolding PRun lift.simps pstep_run [OF assms(2)]
    by (cases m) (auto simp: a lift_begin lift_key lift_after lift_close fs split: if_splits)
qed (use assms pstep_done in auto)

text \<open>The nesting depth a list of tokens reaches.\<close>

definition depth_after :: "tok \<Rightarrow> nat \<Rightarrow> nat" where
  "depth_after t n =
     (if t = TPunct CHR ''['' \<or> t = TPunct CHR ''{'' then Suc n
      else if t = TPunct CHR '']'' \<or> t = TPunct CHR ''}'' then n - 1 else n)"

fun deepest :: "nat \<Rightarrow> tok list \<Rightarrow> nat" where
  "deepest n [] = n"
| "deepest n (t # ts) = max n (deepest (depth_after t n) ts)"

lemma deepest_ge: "n \<le> deepest n ts"
  by (cases ts) auto

lemma complete_height: "Json.complete raw v fs = PRun m gs \<Longrightarrow> length gs = length fs"
  by (auto simp: Json.complete_def split: list.splits frame.splits)

lemma close_height: "close_frame c fs = PRun m gs \<Longrightarrow> length gs = length fs - 1 \<and> c \<in> set '']}''"
  by (auto simp: close_frame_def dest!: complete_height split: list.splits frame.splits if_splits)

lemma begin_height: "begin_value t fs = PRun m gs \<Longrightarrow> length gs = depth_after t (length fs)"
  by (cases t) (auto simp: begin_value_def open_frame_def depth_after_def dest!: complete_height split: if_splits)

lemma key_height: "begin_key t fs = PRun m gs \<Longrightarrow> length gs = depth_after t (length fs)"
  by (cases t) (auto simp: begin_key_def depth_after_def split: list.splits frame.splits)

lemma after_height: "after_value t fs = PRun m gs \<Longrightarrow> length gs = depth_after t (length fs)"
  by (cases t) (auto simp: after_value_def depth_after_def dest!: close_height split: list.splits frame.splits if_splits)

lemma add_raw_length [simp]: "length (add_raw r fs) = length fs"
  by (cases fs; cases "hd fs") auto

lemma pstep_height:
  assumes "\<not> is_ws t" "pstep (PRun m fs) t = PRun m' gs"
  shows "length gs = depth_after t (length fs)"
  using assms(2) unfolding pstep_run [OF assms(1)]
  by (cases m) (auto simp: begin_height key_height after_height depth_after_def dest!: close_height split: if_splits)

lemma run_lift:
  assumes "shaped (PRun m fs)" "list_all (\<lambda>t. \<not> is_ws t) ts" "foldl pstep (PRun m fs) ts = PDone raw v"
    "deepest (length fs) ts + length st \<le> maxNestingDepth"
  shows "foldl pstep (PRun m (fs @ st)) ts = Json.complete raw v st"
  using assms
proof (induction ts arbitrary: m fs)
  case (Cons t ts)
  then have t: "\<not> is_ws t" and ne: "pstep (PRun m fs) t \<noteq> PErr" by auto
  have h: "length gs + length st \<le> maxNestingDepth" if "pstep (PRun m fs) t = PRun m' gs" for m' gs
    using pstep_height [OF t that] Cons.prems(4) deepest_ge [of "depth_after t (length fs)" ts] by simp
  have l: "pstep (PRun m (fs @ st)) t = lift st (pstep (PRun m fs) t)"
    using pstep_lift [OF Cons.prems(1) t ne h] by simp
  show ?case
  proof (cases "pstep (PRun m fs) t")
    case (PRun m' gs)
    from Cons.IH [of m' gs] pstep_flat [OF Cons.prems(1) t ne] pstep_height [OF t PRun] Cons.prems PRun l
    show ?thesis by simp
  next
    case (PDone raw' v')
    have "ts = []"
    proof (cases ts)
      case (Cons u us)
      with Cons.prems PDone have "foldl pstep PErr us = PDone raw v" by (simp add: pstep_done)
      then show ?thesis by simp
    qed simp
    with Cons.prems(3) PDone l show ?thesis by simp
  qed (use ne in auto)
qed simp

lemma run_flat:
  assumes "shaped s" "list_all (\<lambda>t. \<not> is_ws t) ts" "foldl pstep s ts \<noteq> PErr"
  shows "flat (foldl pstep s ts) = flat s @ concat (map raw_text ts)"
  using assms
proof (induction ts arbitrary: s)
  case (Cons t ts)
  then have "pstep s t \<noteq> PErr" by auto
  with pstep_flat [of s t] Cons show ?case by simp
qed simp

lemma number_then_punct:
  assumes "is_number t" "pstep (pstep s t) u \<noteq> PErr" "\<not> is_ws u"
  shows "number_end (raw_text u @ r)"
proof -
  from assms(1) obtain raw n where t: "t = TLit raw (JNum n)" by (cases t rule: is_number.cases) auto
  have "pstep s t \<noteq> PErr" using assms(2) by (auto simp: pstep_done)
  then have "(\<exists>raw v. pstep s t = PDone raw v) \<or> (\<exists>fs. pstep s t = PRun MNext fs)"
    by (cases s) (auto simp: pstep_def t begin_value_def begin_key_def after_value_def Json.complete_def
        split: pmode.splits list.splits frame.splits)
  then obtain fs where "pstep s t = PRun MNext fs" using assms(2,3) by (auto simp: pstep_done)
  with assms(2,3) have a: "after_value u fs \<noteq> PErr" by (simp add: pstep_run)
  then obtain c where "u = TPunct c" "c \<in> set '',]}''"
    by (cases u) (auto simp: after_value_def close_frame_def split: list.splits frame.splits if_splits)
  then show ?thesis by (auto simp: number_end_def is_digit_def)
qed

lemma lex_run:
  assumes "list_all good_tok ts" "list_all (\<lambda>t. \<not> is_ws t) ts" "foldl pstep s ts \<noteq> PErr" "number_end r"
  shows "lex (concat (map raw_text ts) @ r) = map_option (\<lambda>rs. ts @ rs) (lex r)"
  using assms
proof (induction ts arbitrary: s)
  case Nil
  show ?case by (cases "lex r") auto
next
  case (Cons t ts)
  have "number_end (concat (map raw_text ts) @ r)" if "is_number t"
  proof (cases ts)
    case Nil
    with Cons.prems(4) show ?thesis by simp
  next
    case (Cons u us)
    with Cons.prems have "pstep (pstep s t) u \<noteq> PErr" "\<not> is_ws u" by auto
    from number_then_punct [OF that this] Cons show ?thesis by simp
  qed
  moreover have "foldl pstep (pstep s t) ts \<noteq> PErr" using Cons.prems by simp
  ultimately show ?case using Cons
    by (simp add: good_tok_def lex_Cons option.map_comp comp_def)
qed

end
