(* ===== verification/Entry_Roundtrip.thy ===== *)
theory Entry_Roundtrip
  imports Json_Roundtrip
begin

text \<open>
  Typed round trips over the encoder and decoder of \<open>encoding/json\<close>: \<open>enc\<close> says that a text is read
  as one value wherever a value may stand, \<open>mdec\<close> that the decoder of a field reads a member, and
  \<open>chain\<close> that a struct is read field by field. The theorem is the round trip of an audit entry
  (\<open>internal/audit/logger.go\<close>), which both stores that hold JSON depend on.
\<close>

subsection \<open>Texts of values\<close>

definition etoks :: "nat \<Rightarrow> string \<Rightarrow> json \<Rightarrow> tok list \<Rightarrow> bool" where
  "etoks D t v ts \<longleftrightarrow>
     list_all (\<lambda>t. \<not> is_ws t) ts \<and>
     (\<forall>r. delim r \<longrightarrow> lex (t @ r) = map_option (\<lambda>rs. ts @ rs) (lex r)) \<and>
     (\<forall>st. length st + D \<le> maxNestingDepth \<longrightarrow> foldl pstep (PRun MValue st) ts = Json.complete t v st)"

definition enc :: "nat \<Rightarrow> string \<Rightarrow> json \<Rightarrow> bool" where
  "enc D t v \<longleftrightarrow> (\<exists>ts. etoks D t v ts)"

lemma map_append [simp]:
  "map_option ((@) []) x = x" "map_option ((@) (t # ts)) x = map_option ((#) t) (map_option ((@) ts) x)"
  "map_option ((@) (us @ ts)) x = map_option ((@) us) (map_option ((@) ts) x)"
  by (cases x; simp)+

lemma enc_mono: "enc D t v \<Longrightarrow> D \<le> E \<Longrightarrow> enc E t v"
  by (auto simp: enc_def etoks_def)

lemma enc_parse:
  assumes "enc D t v" "D \<le> maxNestingDepth"
  shows "parse_json t = Some (t, v)"
proof -
  from assms(1) obtain ts where ts: "etoks D t v ts" by (auto simp: enc_def)
  have "lex [] = Some []" by (simp add: lex.simps)
  with ts have "lex t = Some ts" by (auto simp: etoks_def delim_def dest!: spec [of _ "[]"])
  moreover have "foldl pstep (PRun MValue []) ts = PDone t v"
    using ts assms(2) by (simp add: etoks_def Json.complete_def)
  ultimately show ?thesis by (simp add: parse_json_def)
qed

lemma lex_string: "lex (quote_string s @ r) = map_option (\<lambda>rs. TStr (quote_string s) (unquote (esc_string s)) # rs) (lex r)"
proof -
  have "\<not> json_ws dquote" "\<not> json_punct dquote" by (simp_all add: json_ws_def json_punct_def)
  then have "next_tok (quote_string s @ r) = Some (TStr (quote_string s) (unquote (esc_string s)), r)"
    using scan_esc_string [of s r] by (simp add: next_tok_def quote_string_def)
  then show ?thesis by (subst lex.simps) (simp add: quote_string_def)
qed

lemma enc_string: "enc D (quote_string s) (JStr (unquote (esc_string s)))"
  unfolding enc_def etoks_def
  by (intro exI [of _ "[TStr (quote_string s) (unquote (esc_string s))]"])
    (auto simp: lex_string pstep_def begin_value_def)

lemma lex_punct: "json_punct c \<Longrightarrow> lex (c # r) = map_option (\<lambda>rs. TPunct c # rs) (lex r)"
proof -
  assume "json_punct c"
  then have "\<not> json_ws c" "json_punct c" by (auto simp: json_ws_def json_punct_def)
  then have "next_tok (c # r) = Some (TPunct c, r)" by (simp add: next_tok_def)
  then show ?thesis by (subst lex.simps) simp
qed

lemma show_nat_no_zero: "n > 0 \<Longrightarrow> hd (show_nat n) \<noteq> CHR ''0''"
proof (induction n rule: show_nat.induct)
  case (1 n)
  show ?case
  proof (cases "n < 10")
    case True
    have "char_of (48 + n) \<noteq> CHR ''0''"
    proof
      assume "char_of (48 + n) = CHR ''0''"
      then have "(of_char (char_of (48 + n)) :: nat) = of_char CHR ''0''" by simp
      with True 1(2) show False by simp
    qed
    with True show ?thesis by (subst show_nat.simps) simp
  next
    case False
    with 1 show ?thesis by (subst show_nat.simps) simp
  qed
qed

lemma scan_int_show: "scan_int (show_nat n) = Some (show_nat n, [])"
proof (cases "n = 0")
  case True
  have "char_of (48 :: nat) = CHR ''0''" using char_of_char [of "CHR ''0''"] by simp
  with True show ?thesis by (subst show_nat.simps, subst show_nat.simps) (simp add: scan_int_def)
next
  case False
  obtain c cs where c: "show_nat n = c # cs" by (cases "show_nat n") auto
  with show_nat_no_zero [of n] False have "\<not> prefix ''0'' (show_nat n)" by auto
  moreover have tw: "takeWhile is_digit (show_nat n) = show_nat n" "dropWhile is_digit (show_nat n) = []"
    using digits_split [OF show_nat_digits [of n], of "[]"] by (simp_all add: no_digit_def)
  ultimately show ?thesis unfolding scan_int_def Let_def tw by simp
qed

lemma scan_num_Itoa: "scan_num (Itoa i) = Some (Itoa i, [])"
proof -
  have fe: "scan_frac [] = Some ([], [])" "scan_exp [] = Some ([], [])" by (simp_all add: scan_frac_def scan_exp_def)
  have "\<not> prefix ''-'' (show_nat n)" for n using show_nat_hd [of n] by (cases "show_nat n") auto
  then show ?thesis by (simp add: Itoa_def scan_num_def scan_int_show fe)
qed

lemma lex_Itoa: "delim r \<Longrightarrow> lex (Itoa i @ r) = map_option (\<lambda>rs. TLit (Itoa i) (JNum (Itoa i)) # rs) (lex r)"
proof -
  assume "delim r"
  obtain t s where t: "next_tok (Itoa i) = Some (t, s)" "t = TLit (Itoa i) (JNum (Itoa i))"
  proof -
    obtain m ms where m: "Itoa i = m # ms" "m = CHR ''-'' \<or> is_digit m"
      using scan_num_again [OF scan_num_Itoa [of i]] by (cases "Itoa i") auto
    moreover have "\<forall>x \<in> set [CHR 0x20, CHR 0x09, CHR 0x0A, CHR 0x0D, CHR ''{'', CHR ''}'', CHR ''['', CHR '']'',
        CHR '','', CHR '':'', dquote, CHR ''t'', CHR ''f'', CHR ''n'']. \<not> (x = CHR ''-'' \<or> is_digit x)"
      by (simp add: is_digit_def)
    ultimately have "\<not> json_ws m" "\<not> json_punct m" "m \<noteq> dquote" "CHR ''t'' \<noteq> m" "CHR ''f'' \<noteq> m" "CHR ''n'' \<noteq> m"
      unfolding json_ws_def json_punct_def by auto
    with m(1) scan_num_Itoa [of i] that show thesis by (simp add: next_tok_def)
  qed
  from next_tok_ok [OF t(1)] tok_ok_text [OF t(1)] delim_number_end [OF \<open>delim r\<close>] show ?thesis
    using lex_Cons [of t r] by (simp add: t(2))
qed

lemma enc_Itoa: "enc D (Itoa i) (JNum (Itoa i))"
  unfolding enc_def etoks_def
  by (intro exI [of _ "[TLit (Itoa i) (JNum (Itoa i))]"]) (auto simp: lex_Itoa pstep_def begin_value_def)

subsection \<open>No line breaks\<close>

abbreviation lf :: char where "lf \<equiv> CHR 0x0A"

lemma scan_str_no_lf: "scan_str s = Some (b, r) \<Longrightarrow> lf \<notin> set b"
proof (induction s arbitrary: b r rule: scan_str.induct)
  case (2 c cs)
  consider (quote) "c = dquote" | (esc) "c = backslash" | (char) "c \<noteq> dquote" "c \<noteq> backslash" by blast
  then show ?case
  proof cases
    case quote
    with 2(4) show ?thesis by auto
  next
    case esc
    with 2(4) obtain d ds where cs: "cs = d # ds" by (auto split: list.splits)
    show ?thesis
    proof (cases "simple_escape d")
      case (Some x)
      with esc 2(4) cs obtain b' where b': "scan_str ds = Some (b', r)" "b = c # d # b'" by auto
      moreover have "d \<noteq> lf" using Some by (auto simp: simple_escape_def)
      ultimately show ?thesis using 2(1) [OF _ esc cs _ b'(1)] Some esc by auto
    next
      case None
      with esc 2(4) cs have u: "d = CHR ''u''" "hex4 (take 4 ds) \<noteq> None" by (auto split: if_splits)
      from None esc 2(4) cs u obtain b' where b': "scan_str (drop 4 ds) = Some (b', r)" "b = c # d # take 4 ds @ b'"
        by (auto split: if_splits)
      moreover have "hex_val lf = None" by (simp add: hex_val_def)
      then have "lf \<notin> set (take 4 ds)" using hex4_all [OF u(2)] by (auto simp: list_all_iff)
      ultimately show ?thesis using 2(2) [OF _ esc cs _ _ b'(1)] None u esc by auto
    qed
  next
    case char
    with 2(4) obtain b' where b': "scan_str cs = Some (b', r)" "b = c # b'" and c: "\<not> of_char c < (0x20 :: nat)"
      by (auto split: if_splits)
    have "c \<noteq> lf" using c by auto
    with 2(3) [OF char c b'(1)] b'(2) show ?thesis by simp
  qed
qed simp

lemma digits_no_lf: "list_all is_digit d \<Longrightarrow> lf \<notin> set d"
  by (auto simp: list_all_iff is_digit_def)

lemma scan_num_no_lf:
  assumes "scan_num s = Some (n, r)"
  shows "lf \<notin> set n"
proof -
  have d: "lf \<notin> set (takeWhile is_digit u)" for u by (rule digits_no_lf [OF takeWhile_digits])
  obtain i s1 f s2 e where p: "scan_int (drop (length (if prefix ''-'' s then ''-'' else [])) s) = Some (i, s1)"
    "scan_frac s1 = Some (f, s2)" "scan_exp s2 = Some (e, r)" "n = (if prefix ''-'' s then ''-'' else []) @ i @ f @ e"
    using assms by (auto simp: scan_num_def Let_def bind_eq_Some_conv)
  have "lf \<notin> set i" using p(1) d by (auto simp: scan_int_def Let_def split: if_splits)
  moreover have "lf \<notin> set f" using p(2) d by (auto simp: scan_frac_def Let_def split: if_splits)
  moreover have "lf \<notin> set e"
  proof (cases "prefix ''e'' s2 \<or> prefix ''E'' s2")
    case True
    then obtain c u where u: "s2 = c # u" "c \<in> set ''eE''" by (auto simp: prefix_def)
    have "lf \<notin> set (if prefix ''+'' u \<or> prefix ''-'' u then take 1 u else [])" by (auto simp: prefix_def)
    with p(3) True u d show ?thesis by (auto simp: scan_exp_def Let_def split: if_splits)
  qed (use p(3) in \<open>auto simp: scan_exp_def\<close>)
  ultimately show ?thesis by (simp add: p(4))
qed

lemma next_tok_no_lf:
  assumes "next_tok s = Some (t, r)" "\<not> is_ws t"
  shows "lf \<notin> set (raw_text t)"
proof -
  obtain c cs where s: "s = c # cs" using assms by (cases s) (auto simp: next_tok_def)
  consider (ws) "json_ws c" | (punct) "\<not> json_ws c" "json_punct c"
    | (str) "\<not> json_ws c" "\<not> json_punct c" "c = dquote"
    | (num) "\<not> json_ws c" "\<not> json_punct c" "c \<noteq> dquote" by blast
  then show ?thesis
  proof cases
    case ws
    with assms s show ?thesis by (auto simp: next_tok_def)
  next
    case punct
    then have "c \<noteq> lf" by (auto simp: json_ws_def)
    with punct assms s show ?thesis by (auto simp: next_tok_def)
  next
    case str
    with assms s obtain b where b: "scan_str cs = Some (b, r)" "t = TStr (dquote # b @ [dquote]) (unquote b)"
      by (auto simp: next_tok_def)
    with scan_str_no_lf [OF b(1)] show ?thesis by simp
  next
    case num
    with assms(1) s have "lf \<notin> set (raw_text t) \<or> (\<exists>n. scan_num s = Some (n, r) \<and> t = TLit n (JNum n))"
      by (simp add: next_tok_def split: if_splits) auto
    with scan_num_no_lf show ?thesis by auto
  qed
qed

lemma lex_no_lf: "Json.lex s = Some ts \<Longrightarrow> list_all (\<lambda>t. \<not> is_ws t) ts \<Longrightarrow> lf \<notin> set s"
proof (induction s arbitrary: ts rule: lex.induct)
  case (1 s)
  show ?case
  proof (cases "s = []")
    case False
    with 1(2) obtain t r ts' where t: "next_tok s = Some (t, r)" "Json.lex r = Some ts'" "ts = t # ts'"
      by (subst (asm) lex.simps) (auto split: option.splits)
    from 1(1) [OF False t(1) refl t(2)] 1(3) t(3) have "lf \<notin> set r" by simp
    moreover have "lf \<notin> set (raw_text t)" using next_tok_no_lf [OF t(1)] 1(3) t(3) by simp
    moreover have "s = raw_text t @ r" using next_tok_ok [OF t(1)] by simp
    ultimately show ?thesis by simp
  qed simp
qed

lemma enc_no_lf: "enc D t v \<Longrightarrow> lf \<notin> set t"
proof -
  assume "enc D t v"
  then obtain ts where ts: "etoks D t v ts" by (auto simp: enc_def)
  have "Json.lex [] = Some []" by (simp add: lex.simps)
  with ts have "Json.lex t = Some ts" by (auto simp: etoks_def delim_def dest!: spec [of _ "[]"])
  with ts lex_no_lf show ?thesis by (auto simp: etoks_def)
qed

subsection \<open>Raw messages\<close>

definition compact_raw :: "string \<Rightarrow> string" where
  "compact_raw p = (case marshal_raw p of None \<Rightarrow> [] | Some c \<Rightarrow> c)"

definition raw_depth :: "string \<Rightarrow> nat" where
  "raw_depth p = (case Json.lex p of None \<Rightarrow> 0 | Some ts \<Rightarrow> deepest 0 ts)"

lemma deepest_norm: "deepest n (norm_toks ts) \<le> deepest n ts"
proof (induction ts arbitrary: n)
  case (Cons t ts)
  have "is_ws t \<Longrightarrow> depth_after t n = n" by (cases t) (auto simp: depth_after_def)
  moreover have "\<not> is_ws t \<Longrightarrow> depth_after (norm_tok t) n = depth_after t n" by (cases t) (auto simp: depth_after_def)
  moreover have "deepest (depth_after t n) (norm_toks ts) \<le> deepest (depth_after t n) ts" by (rule Cons.IH)
  ultimately show ?case by (auto simp: norm_toks_def)
qed (simp add: norm_toks_def)

lemma marshal_raw_tokens:
  assumes "marshal_raw p = Some c"
  obtains ts v where "Json.lex p = Some ts" "c = concat (map raw_text (norm_toks ts))" "list_all good_tok (norm_toks ts)"
    "foldl pstep (PRun MValue []) (norm_toks ts) = PDone c v"
proof -
  from assms obtain ts raw v where ts: "Json.lex p = Some ts" "foldl pstep (PRun MValue []) ts = PDone raw v"
    "c = concat (map tok_text ts)"
    by (auto simp: marshal_raw_def parse_json_def split: option.splits pstate.splits)
  have c: "c = concat (map raw_text (norm_toks ts))" using ts(3) by (simp add: tok_text_norm)
  have "same (PRun MValue []) (PRun MValue [])" by simp
  from run_norm [OF this, of ts] ts(2) obtain raw' v' where
    d: "foldl pstep (PRun MValue []) (norm_toks ts) = PDone raw' v'"
    by (cases "foldl pstep (PRun MValue []) (norm_toks ts)") auto
  have "raw' = c" using run_flat [of "PRun MValue []" "norm_toks ts"] norm_no_ws [of ts] d c by simp
  with d that [OF ts(1) c lex_norm_good [OF ts(1)]] show thesis by blast
qed

lemma enc_raw:
  assumes "marshal_raw p = Some c" "raw_depth p \<le> D"
  shows "\<exists>v. enc D c v"
proof -
  from assms(1) obtain ts v where ts: "Json.lex p = Some ts" "c = concat (map raw_text (norm_toks ts))"
    "list_all good_tok (norm_toks ts)" "foldl pstep (PRun MValue []) (norm_toks ts) = PDone c v"
    by (rule marshal_raw_tokens)
  have "Json.lex (c @ r) = map_option ((@) (norm_toks ts)) (Json.lex r)" if "delim r" for r
    using lex_run [OF ts(3) norm_no_ws _ delim_number_end [OF that], of "PRun MValue []"] ts(2,4) by simp
  moreover have "foldl pstep (PRun MValue st) (norm_toks ts) = Json.complete c v st" if "length st + D \<le> maxNestingDepth" for st
    using run_lift [OF _ norm_no_ws ts(4), of st] deepest_norm [of 0 ts] assms(2) that ts(1)
    by (simp add: raw_depth_def)
  ultimately show ?thesis unfolding enc_def etoks_def using norm_no_ws by blast
qed

text \<open>Compaction is idempotent.\<close>

lemma html_escape_hd:
  assumes "html_escape s = z # ys" "0x80 \<le> (of_char z :: nat)"
  shows "\<exists>t. s = z # t \<and> html_escape t = ys"
proof -
  have b: "z \<noteq> backslash" using assms(2) by auto
  show ?thesis
  proof (cases s rule: html_escape_cases)
    case (special c cs)
    then have "html_escape s = u_escape (of_char c) @ html_escape cs" by auto
    with assms(1) b show ?thesis by (simp add: u_escape_def)
  next
    case (sep x cs n)
    then have "html_escape s = u_escape n @ html_escape cs" by (auto simp: html_escape_sep simp del: html_escape.simps)
    with assms(1) b show ?thesis by (simp add: u_escape_def)
  next
    case (other c cs)
    with assms(1) show ?thesis by (simp add: html_escape_other del: html_escape.simps)
  qed (use assms in simp)
qed

lemma html_escape_idem: "html_escape (html_escape s) = html_escape s"
proof (induction s rule: length_induct)
  case (1 s)
  then have IH: "html_escape (html_escape x) = html_escape x" if "length x < length s" for x using that by blast
  have u: "html_escape (u_escape n @ x) = u_escape n @ html_escape x" for n x
  proof -
    have "list_all (\<lambda>c. hex_val c \<noteq> None) [hex_digit (n div 4096 mod 16), hex_digit (n div 256 mod 16),
        hex_digit (n div 16 mod 16), hex_digit (n mod 16)]" by simp
    from html_escape_hex [OF this, of x] show ?thesis
      by (simp add: u_escape_def html_escape_plain del: html_escape.simps)
  qed
  show ?case
  proof (cases s rule: html_escape_cases)
    case (special c cs)
    then have "html_escape s = u_escape (of_char c) @ html_escape cs" by auto
    with special IH [of cs] show ?thesis by (simp add: u)
  next
    case (sep x cs n)
    then have "html_escape s = u_escape n @ html_escape cs" by (auto simp: html_escape_sep simp del: html_escape.simps)
    with sep IH [of cs] show ?thesis by (simp add: u)
  next
    case (other c cs)
    have "\<not> prefix [CHR 0xE2, CHR 0x80, z] (c # html_escape cs)" if "z = CHR 0xA8 \<or> z = CHR 0xA9" for z
    proof
      assume "prefix [CHR 0xE2, CHR 0x80, z] (c # html_escape cs)"
      then obtain ys where y: "c = CHR 0xE2" "html_escape cs = CHR 0x80 # z # ys" unfolding separator_prefix by blast
      from html_escape_hd [OF y(2)] obtain t where t: "cs = CHR 0x80 # t" "html_escape t = z # ys" by auto
      from html_escape_hd [OF t(2)] that obtain w where "t = z # w" by auto
      with y(1) t(1) other(3,4) that show False by (auto simp: separator_prefix)
    qed
    then have "html_escape (c # html_escape cs) = c # html_escape (html_escape cs)"
      using other(2) by (intro html_escape_other) auto
    with other IH [of cs] show ?thesis by (simp add: html_escape_other del: html_escape.simps)
  qed simp
qed

lemma marshal_raw_idem:
  assumes "marshal_raw p = Some c"
  shows "marshal_raw c = Some c" "c \<noteq> []"
proof -
  from assms obtain ts v where ts: "Json.lex p = Some ts" "c = concat (map raw_text (norm_toks ts))"
    "list_all good_tok (norm_toks ts)" "foldl pstep (PRun MValue []) (norm_toks ts) = PDone c v"
    by (rule marshal_raw_tokens)
  have "Json.lex [] = Some []" by (simp add: lex.simps)
  then have l: "Json.lex c = Some (norm_toks ts)"
    using lex_run [OF ts(3) norm_no_ws, of "PRun MValue []" "[]"] ts(2,4) by (simp add: number_end_def)
  have "tok_text (norm_tok t) = raw_text (norm_tok t)" if "\<not> is_ws t" for t
    using that by (cases t) (simp_all add: tok_text_def html_escape_idem)
  then have "map tok_text (norm_toks ts) = map raw_text (norm_toks ts)" by (auto simp: norm_toks_def)
  then have "concat (map tok_text (norm_toks ts)) = c" using ts(2) by metis
  then show "marshal_raw c = Some c" using l ts(4) by (simp add: marshal_raw_def parse_json_def)
  show "c \<noteq> []"
  proof
    assume "c = []"
    with l \<open>Json.lex [] = Some []\<close> have "norm_toks ts = []" by simp
    with ts(4) show False by simp
  qed
qed

subsection \<open>Structs\<close>

lemma join_Cons: "xs \<noteq> [] \<Longrightarrow> join sep (x # xs) = x @ sep @ join sep xs"
  by (cases xs) auto

definition member_text :: "string \<times> string \<times> json \<Rightarrow> string" where
  "member_text m = quote_string (fst m) @ '':'' @ fst (snd m)"

definition member_ok :: "nat \<Rightarrow> string \<times> string \<times> json \<Rightarrow> bool" where
  "member_ok D m \<longleftrightarrow> ValidString (fst m) \<and> enc D (fst (snd m)) (snd (snd m))"

definition mtoks :: "nat \<Rightarrow> (string \<times> string \<times> json) list \<Rightarrow> tok list \<Rightarrow> bool" where
  "mtoks D xs ts \<longleftrightarrow>
     list_all (\<lambda>t. \<not> is_ws t) ts \<and>
     (\<forall>r. delim r \<longrightarrow> Json.lex (join '','' (map member_text xs) @ r) = map_option ((@) ts) (Json.lex r)) \<and>
     (\<forall>st m r0 ms k. (m = MFirstKey \<or> m = MKey) \<longrightarrow> length st + Suc D \<le> maxNestingDepth \<longrightarrow>
        (\<exists>k'. foldl pstep (PRun m (FObj r0 ms k # st)) ts =
           PRun MNext (FObj (r0 @ join '','' (map member_text xs)) (ms @ xs) k' # st)))"

lemma delim_punct: "c \<in> set '',]}'' \<Longrightarrow> delim (c # r)"
  by (simp add: delim_def)

lemma member_toks:
  assumes "member_ok D x"
  obtains ts where "mtoks D [x] ts"
proof -
  obtain k t v where x: "x = (k, t, v)" by (cases x) auto
  from assms x obtain us where us: "etoks D t v us" and k: "unquote (esc_string k) = k"
    by (auto simp: member_ok_def enc_def unquote_esc_string)
  let ?ts = "TStr (quote_string k) k # TPunct CHR '':'' # us"
  have p: "json_punct CHR '':''" by (simp add: json_punct_def)
  have "Json.lex (member_text x @ r) = map_option ((@) ?ts) (Json.lex r)" if "delim r" for r
    using us that by (simp add: member_text_def x lex_string lex_punct [OF p] k etoks_def option.map_comp comp_def)
  moreover have "\<exists>k'. foldl pstep (PRun m (FObj r0 ms k0 # st)) ?ts =
      PRun MNext (FObj (r0 @ member_text x) (ms @ [x]) k' # st)"
    if "m = MFirstKey \<or> m = MKey" "length st + Suc D \<le> maxNestingDepth" for st m r0 ms k0
    using us that by (auto simp: pstep_def begin_key_def etoks_def Json.complete_def x member_text_def)
  moreover have "list_all (\<lambda>t. \<not> is_ws t) ?ts" using us by (simp add: etoks_def)
  ultimately have "mtoks D [x] ?ts" by (simp add: mtoks_def)
  then show thesis by (rule that)
qed

lemma members_toks:
  assumes "list_all (member_ok D) xs" "xs \<noteq> []"
  obtains ts where "mtoks D xs ts"
  using assms
proof (induction xs arbitrary: thesis)
  case (Cons x xs)
  from Cons.prems(2) have "member_ok D x" by simp
  then obtain us where us: "mtoks D [x] us" by (rule member_toks)
  show ?case
  proof (cases "xs = []")
    case True
    with us Cons.prems(1) show thesis by blast
  next
    case False
    with Cons.IH Cons.prems obtain ts where ts: "mtoks D xs ts" by auto
    let ?ts = "us @ TPunct CHR '','' # ts"
    have p: "json_punct CHR '',''" by (simp add: json_punct_def)
    have "Json.lex (join '','' (map member_text (x # xs)) @ r) = map_option ((@) ?ts) (Json.lex r)" if "delim r" for r
      using us ts that False delim_punct [of "CHR '',''"]
      by (simp add: join_Cons mtoks_def lex_punct [OF p])
    moreover have "\<exists>k'. foldl pstep (PRun m (FObj r0 ms k0 # st)) ?ts =
        PRun MNext (FObj (r0 @ join '','' (map member_text (x # xs))) (ms @ x # xs) k' # st)"
      if m: "m = MFirstKey \<or> m = MKey" "length st + Suc D \<le> maxNestingDepth" for st m r0 ms k0
    proof -
      from us m obtain k1 where "foldl pstep (PRun m (FObj r0 ms k0 # st)) us =
          PRun MNext (FObj (r0 @ join '','' (map member_text [x])) (ms @ [x]) k1 # st)" unfolding mtoks_def by blast
      moreover have "pstep (PRun MNext (FObj r ms' k1 # st)) (TPunct CHR '','') = PRun MKey (FObj (r @ '','') ms' k1 # st)" for r ms'
        by (simp add: pstep_def after_value_def)
      moreover obtain k2 where "foldl pstep (PRun MKey (FObj ((r0 @ member_text x) @ '','') (ms @ [x]) k1 # st)) ts =
          PRun MNext (FObj (((r0 @ member_text x) @ '','') @ join '','' (map member_text xs)) ((ms @ [x]) @ xs) k2 # st)"
        using ts m(2) unfolding mtoks_def by blast
      ultimately show ?thesis using False by (intro exI [of _ k2]) (simp add: join_Cons)
    qed
    moreover have "list_all (\<lambda>t. \<not> is_ws t) ?ts" using us ts by (simp add: mtoks_def)
    ultimately have "mtoks D (x # xs) ?ts" unfolding mtoks_def by blast
    then show thesis by (rule Cons.prems(1))
  qed
qed simp

lemma enc_struct:
  assumes "list_all (member_ok D) xs"
  shows "enc (Suc D) (marshal_struct (map (\<lambda>(k, t, v). (k, t)) xs)) (JObj xs)"
proof -
  have m: "marshal_struct (map (\<lambda>(k, t, v). (k, t)) xs) = ''{'' @ join '','' (map member_text xs) @ ''}''"
    by (simp add: marshal_struct_def member_text_def [abs_def] comp_def case_prod_beta)
  have p: "json_punct CHR ''{''" "json_punct CHR ''}''" by (simp_all add: json_punct_def)
  show ?thesis
  proof (cases "xs = []")
    case True
    then have "etoks (Suc D) (marshal_struct (map (\<lambda>(k, t, v). (k, t)) xs)) (JObj xs) [TPunct CHR ''{'', TPunct CHR ''}'']"
      unfolding m etoks_def
      by (auto simp: lex_punct p pstep_def begin_value_def open_frame_def close_frame_def)
    then show ?thesis unfolding enc_def by blast
  next
    case False
    from members_toks [OF assms False] obtain ts where ts: "mtoks D xs ts" by blast
    let ?ts = "TPunct CHR ''{'' # ts @ [TPunct CHR ''}'']"
    have "Json.lex ((''{'' @ join '','' (map member_text xs) @ ''}'') @ r) = map_option ((@) ?ts) (Json.lex r)" for r
      using ts delim_punct [of "CHR ''}''" r] by (simp add: mtoks_def lex_punct p)
    moreover have "foldl pstep (PRun MValue st) ?ts =
        Json.complete (''{'' @ join '','' (map member_text xs) @ ''}'') (JObj xs) st"
      if "length st + Suc D \<le> maxNestingDepth" for st
    proof -
      from ts that obtain k where "foldl pstep (PRun MFirstKey (FObj ''{'' [] [] # st)) ts =
          PRun MNext (FObj (''{'' @ join '','' (map member_text xs)) ([] @ xs) k # st)" unfolding mtoks_def by blast
      with that show ?thesis
        by (simp add: pstep_def begin_value_def open_frame_def after_value_def close_frame_def)
    qed
    moreover have "list_all (\<lambda>t. \<not> is_ws t) ?ts" using ts by (simp add: mtoks_def)
    ultimately have "etoks (Suc D) (marshal_struct (map (\<lambda>(k, t, v). (k, t)) xs)) (JObj xs) ?ts"
      unfolding m etoks_def by blast
    then show ?thesis unfolding enc_def by blast
  qed
qed

subsection \<open>Reading a struct field by field\<close>

definition mdec :: "nat \<Rightarrow> 'a dec \<Rightarrow> member \<Rightarrow> 'a \<Rightarrow> 'a \<Rightarrow> bool" where
  "mdec D d m x y \<longleftrightarrow>
     (case m of Omitted \<Rightarrow> y = x | Present t \<Rightarrow> \<exists>v. enc D t v \<and> d t v x = (y, False) | Failed \<Rightarrow> False)"

inductive chain :: "(string \<times> 'a dec) list \<Rightarrow> nat \<Rightarrow> 'a \<Rightarrow> (string \<times> member) list \<Rightarrow> 'a \<Rightarrow> bool"
  for flds D where
  Nil: "chain flds D x [] x"
| Cons: "\<lbrakk>find_field flds k = Some d; ValidString k; mdec D d m x y; chain flds D y ms z\<rbrakk>
    \<Longrightarrow> chain flds D x ((k, m) # ms) z"

definition present :: "string \<times> member \<Rightarrow> (string \<times> string) list" where
  "present = (\<lambda>(k, m). case m of Present t \<Rightarrow> [(k, t)] | _ \<Rightarrow> [])"

lemma present_simps [simp]: "present (k, Present t) = [(k, t)]" "present (k, Omitted) = []"
  by (simp_all add: present_def)

lemma marshal_members_present:
  "marshal_members_of ms =
     (if list_ex (\<lambda>(k, m). m = Failed) ms then None else Some (marshal_struct (concat (map present ms))))"
  by (simp add: marshal_members_of_def present_def)

lemma chain_members:
  assumes "chain flds D x ms z"
  shows "\<exists>xs. \<not> list_ex (\<lambda>(k, m). m = Failed) ms \<and> concat (map present ms) = map (\<lambda>(k, t, v). (k, t)) xs \<and>
    list_all (member_ok D) xs \<and> foldl (dec_member flds) (x, False) xs = (z, False)"
  using assms
proof (induction rule: chain.induct)
  case (Nil x)
  show ?case by (intro exI [of _ "[]"]) simp
next
  case (Cons k d m x y ms z)
  then obtain xs where xs: "\<not> list_ex (\<lambda>(k, m). m = Failed) ms" "concat (map present ms) = map (\<lambda>(k, t, v). (k, t)) xs"
    "list_all (member_ok D) xs" "foldl (dec_member flds) (y, False) xs = (z, False)" by blast
  show ?case
  proof (cases m)
    case (Present t)
    with Cons.hyps(3) obtain v where v: "enc D t v" "d t v x = (y, False)" by (auto simp: mdec_def)
    have "list_all (member_ok D) ((k, t, v) # xs)" using xs(3) v(1) Cons.hyps(2) by (simp add: member_ok_def)
    moreover have "foldl (dec_member flds) (x, False) ((k, t, v) # xs) = (z, False)"
      using xs(4) v(2) Cons.hyps(1) by (simp add: dec_member_def)
    ultimately show ?thesis using xs(1,2) Present
      by (intro exI [of _ "(k, t, v) # xs"]) simp
  next
    case Omitted
    with Cons.hyps(3) xs show ?thesis by (auto simp: mdec_def)
  qed (use Cons.hyps(3) in \<open>simp add: mdec_def\<close>)
qed

lemma chain_struct:
  assumes "chain flds D x ms z"
  shows "\<exists>t xs. marshal_members_of ms = Some t \<and> enc (Suc D) t (JObj xs) \<and>
    (\<forall>raw. dec_struct flds raw (JObj xs) x = (z, False))"
proof -
  from chain_members [OF assms] obtain xs where xs: "\<not> list_ex (\<lambda>(k, m). m = Failed) ms"
    "concat (map present ms) = map (\<lambda>(k, t, v). (k, t)) xs" "list_all (member_ok D) xs"
    "foldl (dec_member flds) (x, False) xs = (z, False)" by blast
  from enc_struct [OF xs(3)] xs show ?thesis
    by (intro exI [of _ "marshal_struct (map (\<lambda>(k, t, v). (k, t)) xs)"] exI [of _ xs])
      (simp add: marshal_members_present dec_struct_def)
qed

lemma chain_Unmarshal:
  assumes "chain flds D x ms z" "Suc D \<le> maxNestingDepth"
  shows "\<exists>t. marshal_members_of ms = Some t \<and> Unmarshal (dec_struct flds) x t = Some z"
proof -
  from chain_struct [OF assms(1)] obtain t xs where "marshal_members_of ms = Some t" "enc (Suc D) t (JObj xs)"
    "dec_struct flds t (JObj xs) x = (z, False)" by blast
  with enc_parse [OF _ assms(2)] show ?thesis by (auto simp: Unmarshal_def)
qed

text \<open>Members of each kind.\<close>

lemma mdec_str: "ValidString s \<Longrightarrow> mdec D dec_string (str_member s) old s"
  using enc_string [of D s] by (auto simp: mdec_def str_member_def dec_string_def unquote_esc_string)

lemma mdec_str_omit: "ValidString s \<Longrightarrow> mdec D dec_string (str_omit s) [] s"
  using mdec_str [of s D "[]"] by (auto simp: str_omit_def str_member_def mdec_def)

lemma mdec_int: "int64 i \<Longrightarrow> mdec D dec_int (Present (Itoa i)) old i"
  using enc_Itoa [of D i] by (auto simp: mdec_def dec_int_def Atoi_Itoa)

definition raw_ok :: "nat \<Rightarrow> string \<Rightarrow> bool" where
  "raw_ok D p \<longleftrightarrow> p = [] \<or> marshal_raw p \<noteq> None \<and> raw_depth p \<le> D"

lemma mdec_raw: "raw_ok D p \<Longrightarrow> mdec D dec_raw (raw_omit p) [] (compact_raw p)"
proof (cases "p = []")
  case True
  have "marshal_raw [] = None" by (simp add: marshal_raw_def parse_json_def lex.simps)
  with True show ?thesis by (simp add: mdec_def raw_omit_def compact_raw_def)
next
  case False
  assume "raw_ok D p"
  with False obtain c where c: "marshal_raw p = Some c" "raw_depth p \<le> D" by (auto simp: raw_ok_def)
  from enc_raw [OF c] c(1) False show ?thesis
    by (auto simp: mdec_def raw_omit_def opt_member_def dec_raw_def compact_raw_def)
qed

lemma mdec_ptr:
  assumes "\<And>y. p = Some y \<Longrightarrow> chain flds D zero (ms y) (n y)" "\<And>y. f y = marshal_members_of (ms y)"
  shows "mdec (Suc D) (dec_ptr zero (dec_struct flds)) (ptr_omit f p) None (map_option n p)"
proof (cases p)
  case (Some y)
  from chain_struct [OF assms(1) [OF Some]] obtain t xs where
    "marshal_members_of (ms y) = Some t" "enc (Suc D) t (JObj xs)" "dec_struct flds t (JObj xs) zero = (n y, False)" by blast
  with Some show ?thesis by (auto simp: mdec_def ptr_omit_def assms(2) opt_member_def dec_ptr_def)
qed (simp add: mdec_def ptr_omit_def)

lemma chain_field:
  assumes "find_field flds k = Some (dec_field get upd d)" "ValidString k" "mdec D d m (get x) f"
    "upd (\<lambda>_. get x) x = x" "chain flds D (upd (\<lambda>_. f) x) ms z"
  shows "chain flds D x ((k, m) # ms) z"
proof (rule chain.Cons [OF assms(1,2) _ assms(5)])
  show "mdec D (dec_field get upd d) m x (upd (\<lambda>_. f) x)"
    using assms(3,4) by (auto simp: mdec_def dec_field_def split: member.splits)
qed

subsection \<open>Times\<close>

definition plain :: "char \<Rightarrow> bool" where
  "plain c \<longleftrightarrow> is_digit c \<or> c \<in> set ''-:TZ.''"

lemma esc_plain: "list_all plain s \<Longrightarrow> esc_string s = s"
proof (induction s)
  case (Cons c s)
  then have p: "is_digit c \<or> c \<in> set ''-:TZ.''" by (simp add: plain_def)
  have "\<forall>x \<in> set [dquote, backslash, CHR 0x08, CHR 0x0C, CHR 0x0A, CHR 0x0D, CHR 0x09, CHR ''<'', CHR ''>'', CHR ''&''].
      \<not> (is_digit x \<or> x \<in> set ''-:TZ.'')" by (simp add: is_digit_def)
  then have "c \<notin> set [dquote, backslash, CHR 0x08, CHR 0x0C, CHR 0x0A, CHR 0x0D, CHR 0x09, CHR ''<'', CHR ''>'', CHR ''&'']"
    using p by blast
  moreover have "of_char c < (0x80 :: nat)" "\<not> of_char c < (0x20 :: nat)" using p by (auto simp: is_digit_def Let_def)
  ultimately have "of_char c < (0x80 :: nat)" "esc_ascii c = [c]" by (simp_all add: esc_ascii_def)
  with Cons show ?case by simp
qed simp

lemma pad_plain: "list_all plain (pad_int w i)"
  using pad_digits [of w "nat i"] by (auto simp: pad_int_def plain_def list_all_iff)

lemma RFC3339Nano_plain: "list_all plain (RFC3339Nano t)"
proof -
  have "list_all plain (TrimRightFunc f s)" if "list_all plain s" for f s
    using that by (auto simp: TrimRightFunc_def list_all_iff dest: set_dropWhileD)
  then have "list_all plain (frac_nano n)" for n using pad_plain by (simp add: frac_nano_def plain_def)
  then show ?thesis by (simp add: RFC3339Nano_def Let_def pad_plain plain_def)
qed

lemma mdec_time: "format_range t \<Longrightarrow> mdec D dec_time (opt_member (marshal_time t)) old t"
proof -
  assume t: "format_range t"
  then have "marshal_time t = Some (quote_string (RFC3339Nano t))" by (simp add: marshal_time_def format_range_def)
  moreover have "butlast (tl (quote_string (RFC3339Nano t))) = RFC3339Nano t"
    by (simp add: quote_string_def esc_plain [OF RFC3339Nano_plain])
  ultimately show ?thesis using enc_string [of D "RFC3339Nano t"] ParseRFC3339_format [OF t]
    by (auto simp: mdec_def opt_member_def dec_time_def)
qed

subsection \<open>Audit entries\<close>

definition compact_error :: "rpc_error \<Rightarrow> rpc_error" where
  "compact_error er = er\<lparr>err_Data := compact_raw (err_Data er)\<rparr>"

definition compact_entry :: "entry \<Rightarrow> entry" where
  "compact_entry e = e\<lparr>e_Params := compact_raw (e_Params e), e_Result := compact_raw (e_Result e),
     e_Error := map_option compact_error (e_Error e)\<rparr>"

text \<open>What can be stored: valid UTF-8, 64-bit integers, years 1 to 9999 and raw JSON that is not too deep.\<close>

fun opt_all :: "('a \<Rightarrow> bool) \<Rightarrow> 'a option \<Rightarrow> bool" where
  "opt_all P None = True"
| "opt_all P (Some x) = P x"

definition error_ok :: "rpc_error \<Rightarrow> bool" where
  "error_ok er \<longleftrightarrow> int64 (err_Code er) \<and> ValidString (err_Message er) \<and> raw_ok 9998 (err_Data er)"

definition storable :: "entry \<Rightarrow> bool" where
  "storable e \<longleftrightarrow>
     list_all ValidString [e_ID e, e_AuditOperationID e, e_Outcome e, e_Direction e, e_Transport e, e_Method e,
       e_RequestID e, e_MCPName e, e_ToolName e, e_ClientID e, e_ServerID e, e_Signature e] \<and>
     format_range (e_Timestamp e) \<and> int64 (e_DurationMs e) \<and>
     raw_ok 9999 (e_Params e) \<and> raw_ok 9999 (e_Result e) \<and>
     opt_all error_ok (e_Error e) \<and>
     opt_all (\<lambda>p. list_all ValidString [ap_Subject p, ap_ClientID p, ap_Issuer p]) (e_Principal e) \<and>
     opt_all (\<lambda>p. list_all ValidString [pe_Decision p, pe_RuleID p]) (e_Policy e) \<and>
     opt_all (\<lambda>m. int64 (im_Version m) \<and> list_all ValidString [im_Algorithm m, im_KeyID m, im_Signature m])
       (e_Integrity e)"

lemma find_entry:
  "find_field entry_fields ''id'' = Some (dec_field e_ID e_ID_update dec_string)"
  "find_field entry_fields ''timestamp'' = Some (dec_field e_Timestamp e_Timestamp_update dec_time)"
  "find_field entry_fields ''audit_operation_id'' = Some (dec_field e_AuditOperationID e_AuditOperationID_update dec_string)"
  "find_field entry_fields ''outcome'' = Some (dec_field e_Outcome e_Outcome_update dec_string)"
  "find_field entry_fields ''direction'' = Some (dec_field e_Direction e_Direction_update dec_string)"
  "find_field entry_fields ''transport'' = Some (dec_field e_Transport e_Transport_update dec_string)"
  "find_field entry_fields ''method'' = Some (dec_field e_Method e_Method_update dec_string)"
  "find_field entry_fields ''request_id'' = Some (dec_field e_RequestID e_RequestID_update dec_string)"
  "find_field entry_fields ''mcp_name'' = Some (dec_field e_MCPName e_MCPName_update dec_string)"
  "find_field entry_fields ''tool_name'' = Some (dec_field e_ToolName e_ToolName_update dec_string)"
  "find_field entry_fields ''params'' = Some (dec_field e_Params e_Params_update dec_raw)"
  "find_field entry_fields ''result'' = Some (dec_field e_Result e_Result_update dec_raw)"
  "find_field entry_fields ''error'' = Some (dec_field e_Error e_Error_update dec_rpc_error)"
  "find_field entry_fields ''duration_ms'' = Some (dec_field e_DurationMs e_DurationMs_update dec_int)"
  "find_field entry_fields ''client_id'' = Some (dec_field e_ClientID e_ClientID_update dec_string)"
  "find_field entry_fields ''server_id'' = Some (dec_field e_ServerID e_ServerID_update dec_string)"
  "find_field entry_fields ''principal'' = Some (dec_field e_Principal e_Principal_update dec_principal)"
  "find_field entry_fields ''policy'' = Some (dec_field e_Policy e_Policy_update dec_policy)"
  "find_field entry_fields ''signature'' = Some (dec_field e_Signature e_Signature_update dec_string)"
  "find_field entry_fields ''integrity'' = Some (dec_field e_Integrity e_Integrity_update dec_metadata)"
  by (simp_all add: find_field_def entry_fields_def)

lemma find_error:
  "find_field rpc_error_fields ''code'' = Some (dec_field err_Code err_Code_update dec_int)"
  "find_field rpc_error_fields ''message'' = Some (dec_field err_Message err_Message_update dec_string)"
  "find_field rpc_error_fields ''data'' = Some (dec_field err_Data err_Data_update dec_raw)"
  by (simp_all add: find_field_def rpc_error_fields_def)

lemma find_principal:
  "find_field principal_fields ''subject'' = Some (dec_field ap_Subject ap_Subject_update dec_string)"
  "find_field principal_fields ''client_id'' = Some (dec_field ap_ClientID ap_ClientID_update dec_string)"
  "find_field principal_fields ''issuer'' = Some (dec_field ap_Issuer ap_Issuer_update dec_string)"
  by (simp_all add: find_field_def principal_fields_def)

lemma find_policy:
  "find_field policy_fields ''decision'' = Some (dec_field pe_Decision pe_Decision_update dec_string)"
  "find_field policy_fields ''rule_id'' = Some (dec_field pe_RuleID pe_RuleID_update dec_string)"
  by (simp_all add: find_field_def policy_fields_def)

lemma find_metadata:
  "find_field metadata_fields ''version'' = Some (dec_field im_Version im_Version_update dec_int)"
  "find_field metadata_fields ''algorithm'' = Some (dec_field im_Algorithm im_Algorithm_update dec_string)"
  "find_field metadata_fields ''key_id'' = Some (dec_field im_KeyID im_KeyID_update dec_string)"
  "find_field metadata_fields ''signature'' = Some (dec_field im_Signature im_Signature_update dec_string)"
  by (simp_all add: find_field_def metadata_fields_def)

lemmas entry_steps = find_entry [THEN chain_field]
lemmas error_steps = find_error [THEN chain_field]
lemmas principal_steps = find_principal [THEN chain_field]
lemmas policy_steps = find_policy [THEN chain_field]
lemmas metadata_steps = find_metadata [THEN chain_field]

lemma chain_Nil: "x = y \<Longrightarrow> chain flds D x [] y"
  by (simp add: chain.Nil)

lemma mdec_str_omit0: "old = [] \<Longrightarrow> ValidString s \<Longrightarrow> mdec D dec_string (str_omit s) old s"
  by (simp add: mdec_str_omit)

lemma mdec_raw0: "old = [] \<Longrightarrow> raw_ok D p \<Longrightarrow> mdec D dec_raw (raw_omit p) old (compact_raw p)"
  by (simp add: mdec_raw)

lemmas members = mdec_str mdec_str_omit0 mdec_int mdec_raw0 mdec_time

lemma error_chain:
  assumes "error_ok er"
  shows "chain rpc_error_fields 9998 zero_rpc_error
     [(''code'', Present (Itoa (err_Code er))), (''message'', str_member (err_Message er)),
      (''data'', raw_omit (err_Data er))] (compact_error er)"
proof -
  have a: "int64 (err_Code er)" "ValidString (err_Message er)" "raw_ok 9998 (err_Data er)"
    using assms by (simp_all add: error_ok_def)
  show ?thesis
    by (rule error_steps members chain_Nil | simp add: a zero_rpc_error_def compact_error_def)+
qed

lemma principal_chain:
  assumes "list_all ValidString [ap_Subject p, ap_ClientID p, ap_Issuer p]"
  shows "chain principal_fields 9998 zero_principal
     [(''subject'', str_member (ap_Subject p)), (''client_id'', str_member (ap_ClientID p)),
      (''issuer'', str_member (ap_Issuer p))] p"
proof -
  have a: "ValidString (ap_Subject p)" "ValidString (ap_ClientID p)" "ValidString (ap_Issuer p)"
    using assms by simp_all
  show ?thesis by (rule principal_steps members chain_Nil | simp add: a zero_principal_def)+
qed

lemma policy_chain:
  assumes "list_all ValidString [pe_Decision p, pe_RuleID p]"
  shows "chain policy_fields 9998 zero_policy
     [(''decision'', str_member (pe_Decision p)), (''rule_id'', str_omit (pe_RuleID p))] p"
proof -
  have a: "ValidString (pe_Decision p)" "ValidString (pe_RuleID p)" using assms by simp_all
  show ?thesis by (rule policy_steps members chain_Nil | simp add: a zero_policy_def)+
qed

lemma metadata_chain:
  assumes "int64 (im_Version m)" "list_all ValidString [im_Algorithm m, im_KeyID m, im_Signature m]"
  shows "chain metadata_fields 9998 zero_metadata
     [(''version'', Present (Itoa (im_Version m))), (''algorithm'', str_member (im_Algorithm m)),
      (''key_id'', str_member (im_KeyID m)), (''signature'', str_member (im_Signature m))] m"
proof -
  have a: "int64 (im_Version m)" "ValidString (im_Algorithm m)" "ValidString (im_KeyID m)" "ValidString (im_Signature m)"
    using assms by simp_all
  show ?thesis by (rule metadata_steps members chain_Nil | simp add: a zero_metadata_def)+
qed

lemma mdec_pointers:
  assumes "storable e" "old1 = None" "old2 = None" "old3 = None" "old4 = None"
  shows "mdec 9999 dec_rpc_error (ptr_omit marshal_rpc_error (e_Error e)) old1 (map_option compact_error (e_Error e))"
    "mdec 9999 dec_principal (ptr_omit marshal_principal (e_Principal e)) old2 (e_Principal e)"
    "mdec 9999 dec_policy (ptr_omit marshal_policy (e_Policy e)) old3 (e_Policy e)"
    "mdec 9999 dec_metadata (ptr_omit marshal_metadata (e_Integrity e)) old4 (e_Integrity e)"
proof -
  have n: "(9999 :: nat) = Suc 9998" by simp
  note ptr = mdec_ptr [where D = 9998, folded n]
  show "mdec 9999 dec_rpc_error (ptr_omit marshal_rpc_error (e_Error e)) old1 (map_option compact_error (e_Error e))"
    unfolding dec_rpc_error_def assms(2)
    by (rule ptr [OF error_chain marshal_rpc_error_def]) (use assms(1) in \<open>simp add: storable_def\<close>)
  have "mdec 9999 dec_principal (ptr_omit marshal_principal (e_Principal e)) old2 (map_option (\<lambda>p. p) (e_Principal e))"
    unfolding dec_principal_def assms(3)
    by (rule ptr [OF principal_chain marshal_principal_def]) (use assms(1) in \<open>simp add: storable_def\<close>)
  then show "mdec 9999 dec_principal (ptr_omit marshal_principal (e_Principal e)) old2 (e_Principal e)"
    by (simp add: option.map_ident)
  have "mdec 9999 dec_policy (ptr_omit marshal_policy (e_Policy e)) old3 (map_option (\<lambda>p. p) (e_Policy e))"
    unfolding dec_policy_def assms(4)
    by (rule ptr [OF policy_chain marshal_policy_def]) (use assms(1) in \<open>simp add: storable_def\<close>)
  then show "mdec 9999 dec_policy (ptr_omit marshal_policy (e_Policy e)) old3 (e_Policy e)"
    by (simp add: option.map_ident)
  have "mdec 9999 dec_metadata (ptr_omit marshal_metadata (e_Integrity e)) old4 (map_option (\<lambda>p. p) (e_Integrity e))"
    unfolding dec_metadata_def assms(5)
    by (rule ptr [OF metadata_chain marshal_metadata_def]) (use assms(1) in \<open>simp_all add: storable_def\<close>)
  then show "mdec 9999 dec_metadata (ptr_omit marshal_metadata (e_Integrity e)) old4 (e_Integrity e)"
    by (simp add: option.map_ident)
qed

lemma entry_chain:
  assumes "storable e"
  shows "chain entry_fields 9999 zero_entry
     [(''id'', str_member (e_ID e)), (''timestamp'', opt_member (marshal_time (e_Timestamp e))),
      (''audit_operation_id'', str_omit (e_AuditOperationID e)),
      (''outcome'', str_omit (e_Outcome e)), (''direction'', str_member (e_Direction e)),
      (''transport'', str_member (e_Transport e)), (''method'', str_member (e_Method e)),
      (''request_id'', str_omit (e_RequestID e)), (''mcp_name'', str_omit (e_MCPName e)),
      (''tool_name'', str_omit (e_ToolName e)), (''params'', raw_omit (e_Params e)),
      (''result'', raw_omit (e_Result e)), (''error'', ptr_omit marshal_rpc_error (e_Error e)),
      (''duration_ms'', Present (Itoa (e_DurationMs e))), (''client_id'', str_member (e_ClientID e)),
      (''server_id'', str_member (e_ServerID e)),
      (''principal'', ptr_omit marshal_principal (e_Principal e)),
      (''policy'', ptr_omit marshal_policy (e_Policy e)),
      (''signature'', str_member (e_Signature e)),
      (''integrity'', ptr_omit marshal_metadata (e_Integrity e))]
     (compact_entry e)"
proof -
  have a: "ValidString (e_ID e)" "ValidString (e_AuditOperationID e)" "ValidString (e_Outcome e)"
    "ValidString (e_Direction e)" "ValidString (e_Transport e)" "ValidString (e_Method e)"
    "ValidString (e_RequestID e)" "ValidString (e_MCPName e)" "ValidString (e_ToolName e)"
    "ValidString (e_ClientID e)" "ValidString (e_ServerID e)" "ValidString (e_Signature e)"
    "format_range (e_Timestamp e)" "int64 (e_DurationMs e)" "raw_ok 9999 (e_Params e)" "raw_ok 9999 (e_Result e)"
    using assms by (simp_all add: storable_def)
  show ?thesis
    by (rule entry_steps members mdec_pointers chain_Nil
        | simp add: a assms zero_entry_def compact_entry_def)+
qed

lemma raw_omit_compact:
  assumes "raw_ok D p"
  shows "raw_omit (compact_raw p) = raw_omit p"
proof (cases "p = []")
  case True
  have "marshal_raw [] = None" by (simp add: marshal_raw_def parse_json_def lex.simps)
  with True show ?thesis by (simp add: compact_raw_def)
next
  case False
  with assms obtain c where "marshal_raw p = Some c" by (auto simp: raw_ok_def)
  with marshal_raw_idem [OF this] False show ?thesis by (simp add: compact_raw_def raw_omit_def)
qed

lemma marshal_compact_error: "error_ok er \<Longrightarrow> marshal_rpc_error (compact_error er) = marshal_rpc_error er"
  by (simp add: marshal_rpc_error_def compact_error_def error_ok_def raw_omit_compact [of 9998])

lemma ptr_compact_error:
  "opt_all error_ok p \<Longrightarrow> ptr_omit marshal_rpc_error (map_option compact_error p) = ptr_omit marshal_rpc_error p"
  by (cases p) (simp_all add: ptr_omit_def marshal_compact_error)

lemma marshal_compact_entry: "storable e \<Longrightarrow> marshal_entry (compact_entry e) = marshal_entry e"
  by (simp add: marshal_entry_def compact_entry_def storable_def raw_omit_compact [of 9999] ptr_compact_error)

text \<open>
  C7: Stored entries are read back. An entry of valid UTF-8 strings, 64-bit integers, a time within
  the years 1 to 9999 and raw JSON that is not too deep has a JSON form; decoding that form gives
  the entry with its raw messages in compact form, and this entry has the same JSON form, so that
  the two are equal in the sense of the stores.
\<close>
theorem entry_roundtrip:
  assumes "storable e"
  shows "\<exists>t. marshal_entry e = Some t \<and> unmarshal_entry t = Some (compact_entry e) \<and>
     marshal_entry (compact_entry e) = Some t \<and> EqualEntries e (compact_entry e)"
proof -
  have "Suc 9999 \<le> maxNestingDepth" by (simp add: maxNestingDepth_def)
  from chain_Unmarshal [OF entry_chain [OF assms] this] obtain t where
    "marshal_entry e = Some t" "unmarshal_entry t = Some (compact_entry e)"
    by (auto simp: marshal_entry_def unmarshal_entry_def)
  with marshal_compact_entry [OF assms] show ?thesis by (simp add: EqualEntries_def)
qed

definition demo_stored_entry :: entry where
  "demo_stored_entry = zero_entry\<lparr>e_ID := ''i'', e_Timestamp := 63871891200000000000, e_Method := ''tools/call'',
     e_Params := ''{ }'', e_Error := Some \<lparr>err_Code = -32030, err_Message = ''<no>'', err_Data = ''[1 ]''\<rparr>\<rparr>"

theorem entry_roundtrip_witness:
  "\<exists>t. marshal_entry demo_stored_entry = Some t \<and> unmarshal_entry t = Some (compact_entry demo_stored_entry) \<and>
     e_Params (compact_entry demo_stored_entry) = ''{}''"
proof -
  have l: "Json.lex ''{ }'' = Some [TPunct CHR ''{'', TWs CHR '' '', TPunct CHR ''}'']"
    "marshal_raw ''{ }'' = Some ''{}''" "marshal_raw ''[1 ]'' \<noteq> None" "raw_depth ''{ }'' = 1" "raw_depth ''[1 ]'' = 1"
    by code_simp+
  have "format_range 63871891200000000000" by code_simp
  with l have "storable demo_stored_entry"
    by (simp add: storable_def demo_stored_entry_def zero_entry_def raw_ok_def error_ok_def int64_def
        max_int64_def min_int64_def)
  from entry_roundtrip [OF this] l(2) show ?thesis
    by (auto simp: compact_entry_def compact_raw_def demo_stored_entry_def)
qed

end
