(* ===== verification/Jsonl_Contract.thy ===== *)
theory Jsonl_Contract
  imports Entry_Roundtrip Jsonl
begin

text \<open>
  The JSON lines store keeps the contract of the audit stores (\<open>internal/audit/storage/jsonl.go\<close>).
  It writes an entry as one line and reads lines back; its contents are the records of all files
  of the directory, archives included. The lemmas show that the names rotation gives are the names
  the reader looks for, that appends add exactly the lines of their entries whatever fails, and
  that lookups see all of them: \<open>audit_store\<close> is interpreted on the store's operations, alone and
  under the instrumented wrapper.
\<close>

subsection \<open>One line per entry\<close>

definition line_of :: "entry \<Rightarrow> string" where
  "line_of e = (case marshal_entry e of None \<Rightarrow> [] | Some t \<Rightarrow> t)"

lemma marshal_members_braces:
  assumes "marshal_members_of ms = Some t"
  shows "\<exists>u. t = CHR ''{'' # u @ ''}''"
  using assms by (auto simp: marshal_members_of_def marshal_struct_def split: if_splits)

lemma stored_line:
  assumes "storable e"
  shows "marshal_entry e = Some (line_of e)" "unmarshal_entry (line_of e) = Some (compact_entry e)"
    "newline \<notin> set (line_of e)" "\<exists>u. line_of e = CHR ''{'' # u @ ''}''"
proof -
  note c = entry_chain [OF assms]
  have n: "Suc 9999 \<le> maxNestingDepth" by (simp add: maxNestingDepth_def)
  from chain_Unmarshal [OF c n] obtain t where t: "marshal_entry e = Some t" "unmarshal_entry t = Some (compact_entry e)"
    by (auto simp: marshal_entry_def unmarshal_entry_def)
  then have l: "line_of e = t" by (simp add: line_of_def)
  from t l show "marshal_entry e = Some (line_of e)" "unmarshal_entry (line_of e) = Some (compact_entry e)" by simp_all
  from chain_struct [OF c] t(1) enc_no_lf l show "newline \<notin> set (line_of e)"
    by (auto simp: marshal_entry_def newline_def)
  from t(1) l marshal_members_braces show "\<exists>u. line_of e = CHR ''{'' # u @ ''}''" by (auto simp: marshal_entry_def)
qed

lemma braces_trimmed:
  assumes "l = CHR ''{'' # u @ ''}''"
  shows "drop_cr l = l" "TrimSpace l = l" "l \<noteq> []"
proof -
  have "\<not> is_space CHR ''{''" "\<not> is_space CHR ''}''" by (simp_all add: is_space_def)
  then show "drop_cr l = l" "TrimSpace l = l" "l \<noteq> []"
    by (simp_all add: assms drop_cr_def TrimSpace_def TrimRightFunc_def TrimLeftFunc_def)
qed

lemma split_lines_not_Nil: "split_lines (d # s) \<noteq> []"
  by (subst split_lines.simps(2)) (auto simp del: split_lines.simps split: list.split)

lemma split_lines_step:
  "c \<noteq> newline \<Longrightarrow> split_lines (c # d # s) =
     (if d = newline then [c] # split_lines s else (c # hd (split_lines (d # s))) # tl (split_lines (d # s)))"
  by (subst split_lines.simps(2)) (simp add: split_lines_not_Nil list.case_eq_if del: split_lines.simps)

lemma split_lines_Cons: "newline \<notin> set l \<Longrightarrow> split_lines (l @ newline # r) = l # split_lines r"
proof (induction l)
  case (Cons c l)
  then have "c \<noteq> newline" by auto
  with Cons show ?case by (cases l) (simp_all add: split_lines_step eq_commute [of newline] del: split_lines.simps(2))
qed simp

lemma encode_all_stored:
  "list_all storable es \<Longrightarrow> encode_all es = (concat (map (\<lambda>e. line_of e @ [newline]) es), True)"
  by (induction es) (auto simp: stored_line(1))

lemma split_encode_all: "list_all storable es \<Longrightarrow> split_lines (fst (encode_all es)) = map line_of es"
proof (induction es)
  case (Cons e es)
  then show ?case using encode_all_stored [of "e # es"] encode_all_stored [of es]
    by (simp add: split_lines_Cons stored_line(3))
qed simp

lemma encode_all_append:
  "list_all storable (es @ fs) \<Longrightarrow> fst (encode_all (es @ fs)) = fst (encode_all es) @ fst (encode_all fs)"
  by (simp add: encode_all_stored)

subsection \<open>What a file holds\<close>

text \<open>Entries that can be read back: storable, and a line below the limit of the scanner.\<close>

definition admitted :: "entry \<Rightarrow> bool" where
  "admitted e \<longleftrightarrow> storable e \<and> length (line_of e) < maxLineBytes"

definition file_records :: "string \<Rightarrow> entry list" where
  "file_records c = fst (scanJSONLMode Inr False c)"

definition intact_file :: "string \<Rightarrow> bool" where
  "intact_file c \<longleftrightarrow> (\<exists>es. list_all admitted es \<and> c = fst (encode_all es))"

lemma admitted_storable: "list_all admitted es \<Longrightarrow> list_all storable es"
  by (auto simp: admitted_def list_all_iff)

lemma scan_admitted:
  assumes "list_all admitted es"
  shows "scan_lines jcs False (map line_of es) = (map compact_entry es, None)"
    "scan_lines jcs True (map line_of es) = (xs, None) \<Longrightarrow> xs = map compact_entry es"
  using assms
proof (induction es arbitrary: xs)
  case (Cons e es)
  {
    case 1
    then have e: "storable e" "length (line_of e) < maxLineBytes" by (simp_all add: admitted_def)
    obtain u where "line_of e = CHR ''{'' # u @ ''}''" using stored_line(4) [OF e(1)] by blast
    note t = braces_trimmed [OF this]
    from 1 Cons.IH(1) t stored_line(2) [OF e(1)] e(2) show ?case by simp
  next
    case 2
    then have e: "storable e" "length (line_of e) < maxLineBytes" by (simp_all add: admitted_def)
    obtain u where "line_of e = CHR ''{'' # u @ ''}''" using stored_line(4) [OF e(1)] by blast
    note t = braces_trimmed [OF this]
    from 2 Cons.IH(2) t stored_line(2) [OF e(1)] e(2) show ?case by (auto simp: Let_def split: sum.splits prod.splits)
  }
qed simp_all

lemma scan_intact:
  assumes "list_all admitted es"
  shows "scanJSONLMode jcs False (fst (encode_all es)) = (map compact_entry es, None)"
    "scanJSONLMode jcs strict (fst (encode_all es)) = (xs, None) \<Longrightarrow> xs = map compact_entry es"
proof -
  note s = split_encode_all [OF admitted_storable [OF assms]]
  show "scanJSONLMode jcs False (fst (encode_all es)) = (map compact_entry es, None)"
    by (simp add: scanJSONLMode_def s scan_admitted(1) [OF assms])
  show "scanJSONLMode jcs strict (fst (encode_all es)) = (xs, None) \<Longrightarrow> xs = map compact_entry es"
    by (cases strict) (auto simp: scanJSONLMode_def s scan_admitted(1) [OF assms] split: if_splits
        intro: scan_admitted(2) [OF assms])
qed

lemma file_records_encode: "list_all admitted es \<Longrightarrow> file_records (fst (encode_all es)) = map compact_entry es"
  by (simp add: file_records_def scan_intact(1))

lemma scan_intact_file:
  "intact_file c \<Longrightarrow> scanJSONLMode jcs strict c = (xs, None) \<Longrightarrow> xs = file_records c"
  unfolding intact_file_def by (auto simp: file_records_encode dest: scan_intact(2))

lemma file_records_Nil [simp]: "file_records [] = []"
  by (simp add: file_records_def scanJSONLMode_def)

lemma intact_append:
  assumes "intact_file c" "list_all admitted es"
  shows "intact_file (c @ fst (encode_all es))" "file_records (c @ fst (encode_all es)) = file_records c @ map compact_entry es"
proof -
  from assms(1) obtain fs where fs: "list_all admitted fs" "c = fst (encode_all fs)" by (auto simp: intact_file_def)
  have a: "list_all admitted (fs @ es)" using fs(1) assms(2) by simp
  have c: "c @ fst (encode_all es) = fst (encode_all (fs @ es))"
    using encode_all_append admitted_storable [OF a] fs(2) by simp
  from a show "intact_file (c @ fst (encode_all es))" unfolding intact_file_def c by blast
  show "file_records (c @ fst (encode_all es)) = file_records c @ map compact_entry es"
    using file_records_encode [OF a] file_records_encode [OF fs(1)] unfolding c by (simp add: fs(2))
qed

subsection \<open>Archive names\<close>

definition is_archive :: "string \<Rightarrow> string \<Rightarrow> bool" where
  "is_archive name n \<longleftrightarrow> HasPrefix n (name @ ''.'') \<and> archive_suffix (TrimPrefix n (name @ ''.''))"

lemma archive_suffix_name: "archive_suffix (archive_name (format_archive t) i)"
proof -
  let ?c = "civil_of t"
  define a where "a = pad_int 4 (c_year ?c) @ pad_int 2 (c_month ?c) @ pad_int 2 (c_day ?c)"
  define b where "b = pad_int 2 (c_hour ?c) @ pad_int 2 (c_min ?c) @ pad_int 2 (c_sec ?c)"
  define r where "r = (if i = 0 then [] else ''.'' @ show_nat i)"
  have n: "archive_name (format_archive t) i = a @ CHR ''T'' # b @ CHR ''Z'' # r"
    by (simp add: archive_name_def format_archive_def Let_def a_def b_def r_def)
  have l: "length a = 8" "length b = 6" by (simp_all add: a_def b_def pad_int_def)
  have d: "list_all is_digit a" "list_all is_digit b" by (simp_all add: a_def b_def pad_int_def pad_digits)
  have "list_all is_digit (show_nat i)" by (rule show_nat_digits)
  with l d show ?thesis by (simp add: n archive_suffix_def lit_at_def nth_append Let_def r_def)
qed

lemma nextArchivePath_archive:
  assumes "nextArchivePath now s = Some n"
  shows "is_archive (j_name s) n"
proof -
  from free_name_spec [OF assms [unfolded nextArchivePath_def]] obtain k where
    "n = archive_name (j_name s @ ''.'' @ format_archive now) k" by blast
  then have "n = (j_name s @ ''.'') @ archive_name (format_archive now) k" by (simp add: archive_name_def)
  then show ?thesis
    using archive_suffix_name [of now k] by (simp add: is_archive_def HasPrefix_def TrimPrefix_def)
qed

lemma is_archive_not_active: "\<not> is_archive n n"
  by (auto simp: is_archive_def HasPrefix_def prefix_def)

subsection \<open>What operations leave alone\<close>

text \<open>Every file is the active one or has the name of an archive, so that queries read it.\<close>

definition named :: "jsonl \<Rightarrow> bool" where
  "named s \<longleftrightarrow> fst ` set (j_files s) \<subseteq> {n. n = j_name s \<or> is_archive (j_name s) n}"

definition frames :: "jsonl \<Rightarrow> jsonl \<Rightarrow> bool" where
  "frames s s' \<longleftrightarrow> j_name s' = j_name s \<and> j_config s' = j_config s \<and> j_envs s' = j_envs s \<and> (named s \<longrightarrow> named s')"

lemma frames_refl [simp]: "frames s s"
  by (simp add: frames_def)

lemma frames_trans: "frames s t \<Longrightarrow> frames t u \<Longrightarrow> frames s u"
  by (simp add: frames_def)

lemma frames_updates [simp]:
  "frames s (t\<lparr>j_open := o'\<rparr>) = frames s t" "frames s (t\<lparr>j_buf := b\<rparr>) = frames s t"
  "frames s (t\<lparr>j_werr := w\<rparr>) = frames s t" "frames s (t\<lparr>j_cutoff := c\<rparr>) = frames s t"
  "frames (s\<lparr>j_open := o'\<rparr>) t = frames s t" "frames (s\<lparr>j_buf := b\<rparr>) t = frames s t"
  "frames (s\<lparr>j_werr := w\<rparr>) t = frames s t" "frames (s\<lparr>j_cutoff := c\<rparr>) t = frames s t"
  by (simp_all add: frames_def named_def)

lemma map_put_keys: "fst ` set (map_put k v m) \<subseteq> insert k (fst ` set m)"
  by (induction k v m rule: map_put.induct) auto

lemma frames_set_active [simp]: "frames s (set_active c s)"
proof -
  have "insert (j_name s) (fst ` set (j_files s)) \<subseteq> {n. n = j_name s \<or> is_archive (j_name s) n}" if "named s"
    using that by (simp add: named_def)
  from subset_trans [OF map_put_keys this] show ?thesis
    by (simp add: frames_def named_def set_active_def set_content_def)
qed

lemma frames_rename:
  assumes "is_archive (j_name s) n"
  shows "frames s (rename_active n s)"
proof -
  have "insert n (fst ` set (others (j_name s) (j_files s))) \<subseteq> {n. n = j_name s \<or> is_archive (j_name s) n}" if "named s"
    using that assms by (auto simp: named_def)
  from subset_trans [OF map_put_keys this] show ?thesis
    by (simp add: frames_def named_def rename_active_def)
qed

lemma frames_openActive: "openActive env s = (r, s') \<Longrightarrow> frames s s'"
  by (auto simp: openActive_def split: option.splits)

lemma frames_flush: "flush_writer env s = (r, s') \<Longrightarrow> frames s s'"
  by (auto simp: flush_writer_def split: option.splits if_splits prod.splits)

lemma frames_remove: "frames s (remove_file env n s)"
  by (auto simp: frames_def named_def remove_file_def)

lemma frames_fold: "(\<And>x t. frames t (f x t)) \<Longrightarrow> frames s (fold f xs s)"
  by (induction xs arbitrary: s) (auto intro: frames_trans)

lemma frames_age: "age_retention env now s = Some t \<Longrightarrow> frames s t"
  by (auto simp: age_retention_def Let_def frames_remove split: if_splits sum.splits option.splits intro!: frames_fold)

lemma frames_retention: "frames s (applyRetention env now s)"
  by (auto simp: applyRetention_def frames_remove split: option.splits sum.splits
      intro: frames_age frames_trans [OF frames_age frames_fold])

lemma frames_rotate:
  assumes "rotate env now s = (r, s')"
  shows "frames s s'"
proof -
  obtain q s1 where f: "flush_writer env s = (q, s1)" by fastforce
  have s1: "frames s s1" using frames_flush [OF f] .
  define s2 where "s2 = s1\<lparr>j_open := False, j_buf := []\<rparr>"
  have s2: "frames s s2" using s1 by (simp add: s2_def)
  obtain n where n: "nextArchivePath now s2 = Some n" using nextArchivePath_free by blast
  have s3: "frames s (rename_active n s2)"
    by (rule frames_trans [OF s2 frames_rename [OF nextArchivePath_archive [OF n]]])
  obtain a t where t: "openActive env s2 = (a, t)" by fastforce
  obtain b u where u: "openActive env (rename_active n s2) = (b, u)" by fastforce
  have "frames s t" "frames s u" "frames s (applyRetention env now u)"
    using frames_openActive [OF t] frames_openActive [OF u] s2 s3 frames_retention frames_trans by blast+
  with assms s1 s2 show ?thesis
    by (auto simp: rotate_def f Let_def s2_def [symmetric] n t u split: option.splits)
qed

lemma frames_rotateIfNeeded: "frames s (rotateIfNeeded env was s)"
  using frames_rotate [of env _ s] frames_rotate [of env _ "s\<lparr>j_cutoff := _\<rparr>"]
  by (auto simp: rotateIfNeeded_def Let_def split: option.splits prod.splits)

lemma frames_rollback: "rollback env durable start cause s = (r, s') \<Longrightarrow> frames s s'"
  by (auto simp: rollback_def Let_def split: option.splits if_splits)

lemma frames_flush_batch:
  assumes "flush_batch env durable start s = (r, s')"
  shows "frames s s'"
proof -
  obtain q t where f: "flush_writer env s = (q, t)" by fastforce
  have "frames t s'"
    using assms frames_rollback [of env durable start _ t r s'] frames_rotateIfNeeded
    by (auto simp: flush_batch_def f split: option.splits if_splits)
  with frames_flush [OF f] show ?thesis by (rule frames_trans)
qed

lemma frames_append_open:
  assumes "append_open env es durable s = (r, s')"
  shows "frames s s'"
proof (cases "je_stat env = None \<and> durable_tail env durable (active s) = None")
  case True
  obtain data good where d: "encode_all es = (data, good)" by fastforce
  show ?thesis
  proof (cases good)
    case good: True
    then have "frames (s\<lparr>j_buf := j_buf s @ data\<rparr>) s'"
      using assms True d by (intro frames_flush_batch) (simp add: append_open_def)
    then show ?thesis by simp
  next
    case False
    let ?t = "(set_active (active s @ take (je_spill env) (j_buf s @ data)) s)
       \<lparr>j_buf := drop (je_spill env) (j_buf s @ data)\<rparr>"
    have "frames ?t s'"
      using assms True d False by (intro frames_rollback) (simp add: append_open_def)
    moreover have "frames s ?t" by simp
    ultimately show ?thesis using frames_trans by blast
  qed
next
  case False
  with assms show ?thesis by (auto simp: append_open_def split: option.splits)
qed

lemma next_jenv_frame:
  "next_jenv s = (env, t) \<Longrightarrow> t = s\<lparr>j_envs := tl (j_envs s)\<rparr> \<and>
     env = (case j_envs s of [] \<Rightarrow> jsonl_fine 0 | x # xs \<Rightarrow> x)"
  by (auto simp: next_jenv_def split: list.splits)

lemma in_set_tlD: "x \<in> set (tl xs) \<Longrightarrow> x \<in> set xs"
  by (cases xs) auto

lemma appendBatch_frame:
  assumes "appendBatch es durable s = (r, s')"
  shows "j_name s' = j_name s \<and> j_config s' = j_config s \<and> set (j_envs s') \<subseteq> set (j_envs s) \<and> (named s \<longrightarrow> named s')"
proof (cases "es = [] \<or> \<not> j_open s")
  case False
  obtain env t where n: "next_jenv s = (env, t)" by fastforce
  have "frames t s'" using assms False n by (intro frames_append_open) (simp add: appendBatch_def)
  then show ?thesis using next_jenv_frame [OF n] by (auto simp: frames_def named_def dest: in_set_tlD)
qed (use assms in \<open>auto simp: appendBatch_def split: if_splits\<close>)

subsection \<open>The contract\<close>

text \<open>
  The store's invariant: nothing pending in the writer, no retention limits, known names, files
  made of whole lines; and truncation after a failed append works, with a clock within the years
  that have four digits.
\<close>

definition jenv_ok :: "jsonl_env \<Rightarrow> bool" where
  "jenv_ok env \<longleftrightarrow> je_truncate env = None \<and> format_range (je_now env)"

definition jsonl_ok :: "jsonl \<Rightarrow> bool" where
  "jsonl_ok s \<longleftrightarrow> clean s \<and> keeps_all s \<and> named s \<and> (\<forall>c \<in># evidence s. intact_file c) \<and>
     list_all jenv_ok (j_envs s)"

definition jsonl_contents :: "jsonl \<Rightarrow> entry multiset" where
  "jsonl_contents s = (\<Sum>c \<in># evidence s. mset (file_records c))"

lemma intact_Nil [simp]: "intact_file []"
  unfolding intact_file_def by (intro exI [of _ "[]"]) simp

lemma evidence_content:
  assumes "files_wf s" "\<forall>c \<in># evidence s. intact_file c"
  shows "intact_file (content s n)"
  using assms evidence_split [OF assms(1), of n] by (cases "content s n = []") (auto simp: chunk_def)

lemma chunk_records [simp]: "(\<Sum>c \<in># chunk x. mset (file_records c)) = mset (file_records x)"
  by (simp add: chunk_def)

lemma jsonl_append_contract:
  assumes "jsonl_ok s" "list_all admitted es" "appendBatch es durable s = (r, s')"
  shows "jsonl_ok s' \<and> (jsonl_contents s' = jsonl_contents s + mset (map compact_entry es) \<or>
     r \<noteq> None \<and> jsonl_contents s' = jsonl_contents s)"
proof -
  have s: "clean s" "keeps_all s" "\<forall>c \<in># evidence s. intact_file c" "files_wf s"
    using assms(1) by (simp_all add: jsonl_ok_def clean_def)
  have "je_truncate (fst (next_jenv s)) = None"
    using assms(1) by (auto simp: jsonl_ok_def next_jenv_def jenv_ok_def jsonl_fine_def split: list.splits)
  from appendBatch_atomic [OF s(1,2) assms(3) this]
  have a: "clean s'" "evidence s' = evidence s \<and> (r = None \<longrightarrow> es = []) \<or>
      (\<exists>data. encode_all es = (data, True) \<and> evidence s' = evidence (set_active (active s @ data) s))" by blast+
  have fr: "keeps_all s'" "named s'" "list_all jenv_ok (j_envs s')"
    using appendBatch_frame [OF assms(3)] assms(1) by (auto simp: jsonl_ok_def keeps_all_def list_all_iff)
  from a(2) show ?thesis
  proof (elim disjE exE conjE)
    assume "evidence s' = evidence s" "r = None \<longrightarrow> es = []"
    with a(1) fr s(3) show ?thesis by (auto simp: jsonl_ok_def jsonl_contents_def)
  next
    fix data
    assume "encode_all es = (data, True)" and e: "evidence s' = evidence (set_active (active s @ data) s)"
    then have d: "data = fst (encode_all es)" by simp
    note sp = evidence_split [OF s(4), of "j_name s"]
    have e': "evidence s' = chunk (active s @ data) + evidence_of (others (j_name s) (j_files s))"
      unfolding e set_active_def by (rule evidence_set_content [OF s(4)])
    note i = intact_append [OF evidence_content [OF s(4,3)] assms(2), of "j_name s", folded d]
    have "\<forall>c \<in># evidence s'. intact_file c" using s(3) i(1) sp e' by (auto simp: chunk_def)
    moreover have "jsonl_contents s' = jsonl_contents s + mset (map compact_entry es)"
      unfolding jsonl_contents_def e' sp by (simp add: i(2) add.assoc add.commute)
    ultimately show ?thesis using a(1) fr by (simp add: jsonl_ok_def)
  qed
qed

lemma walk_files_records:
  assumes "walk_files jcs strict env s ns = (es, None)" "\<And>n. intact_file (content s n)"
  shows "mset es = (\<Sum>n \<in># mset ns. mset (file_records (content s n)))"
  using assms(1)
proof (induction ns arbitrary: es)
  case (Cons n ns)
  then have n: "n \<notin> set (je_read env)" by (auto split: if_splits)
  show ?case
  proof (cases "map_of (j_files s) n")
    case None
    with Cons n show ?thesis by (simp add: content_def)
  next
    case (Some c)
    with n Cons.prems obtain xs ys where x: "scanJSONLMode jcs strict c = (xs, None)"
      "walk_files jcs strict env s ns = (ys, None)" "es = xs @ ys"
      by (auto split: prod.splits option.splits)
    have "content s n = c" using Some by (simp add: content_def)
    with scan_intact_file [OF _ x(1)] assms(2) [of n] Cons.IH [OF x(2)] x(3) show ?thesis by simp
  qed
qed simp

lemma chunks_records:
  "(\<Sum>c \<in># (\<Sum>f \<in># M. chunk (snd f)). mset (file_records c)) = (\<Sum>f \<in># M. mset (file_records (snd f)))"
  by (induction M) simp_all

lemma contents_by_name:
  assumes "files_wf s"
  shows "jsonl_contents s = (\<Sum>n \<in># mset (map fst (j_files s)). mset (file_records (content s n)))"
proof -
  have d: "distinct (map fst (j_files s))" using assms by (simp add: files_wf_def)
  have "jsonl_contents s = (\<Sum>f \<in># mset (j_files s). mset (file_records (snd f)))"
    unfolding jsonl_contents_def evidence_def evidence_of_def by (rule chunks_records)
  also have "\<dots> = (\<Sum>f \<in># mset (j_files s). mset (file_records (content s (fst f))))"
    using d by (intro arg_cong [where f = sum_mset] image_mset_cong) (auto simp: content_def)
  finally show ?thesis by (simp add: image_mset.compositionality comp_def)
qed

lemma walk_contents:
  assumes "jsonl_ok s" "walkEntriesMode jcs strict s = ((es, er), s')"
  shows "jsonl_ok s' \<and> jsonl_contents s' = jsonl_contents s \<and> (er = None \<longrightarrow> mset es = jsonl_contents s)"
proof -
  obtain env t where n: "next_jenv s = (env, t)" by fastforce
  note t = next_jenv_frame [OF n]
  have ok: "jsonl_ok t" "jsonl_contents t = jsonl_contents s"
    using assms(1) t by (auto simp: jsonl_ok_def jsonl_contents_def clean_def files_wf_def evidence_def keeps_all_def
        named_def list_all_iff dest: in_set_tlD)
  have fl: "flush_writer env t = (None, t)" using ok(1) by (simp add: jsonl_ok_def clean_def flush_empty)
  have s': "s' = t" using assms(2) n fl by (auto simp: walkEntriesMode_def split: if_splits sum.splits)
  have "mset es = jsonl_contents s" if "er = None"
  proof -
    from that assms(2) n fl obtain paths where p: "queryPaths env t = Inr paths" "walk_files jcs strict env t paths = (es, None)"
      by (auto simp: walkEntriesMode_def split: if_splits sum.splits)
    have wf: "files_wf t" using ok(1) by (simp add: jsonl_ok_def clean_def)
    let ?ns = "mset (map fst (j_files t))" and ?r = "\<lambda>n. mset (file_records (content t n))"
    have "mset paths = filter_mset (is_archive (j_name t)) ?ns + {#j_name t#}"
      using p(1) by (auto simp: queryPaths_def archivePaths_def Let_def is_archive_def [abs_def] mset_filter
          split: sum.splits option.splits)
    then have e: "mset es = (\<Sum>n \<in># filter_mset (is_archive (j_name t)) ?ns. ?r n) + ?r (j_name t)"
      using walk_files_records [OF p(2) evidence_content [OF wf]] ok(1) by (simp add: jsonl_ok_def)
    have "filter_mset (\<lambda>n. \<not> is_archive (j_name t) n) ?ns = filter_mset (\<lambda>n. n = j_name t) ?ns"
      using ok(1) is_archive_not_active by (intro filter_mset_cong) (auto simp: jsonl_ok_def named_def)
    moreover have "?ns = filter_mset (is_archive (j_name t)) ?ns + filter_mset (\<lambda>n. \<not> is_archive (j_name t) n) ?ns"
      by (rule multiset_partition)
    ultimately have c: "jsonl_contents t = (\<Sum>n \<in># filter_mset (is_archive (j_name t)) ?ns. ?r n) +
        (\<Sum>n \<in># filter_mset (\<lambda>n. n = j_name t) ?ns. ?r n)"
      unfolding contents_by_name [OF wf] by (metis image_mset_union sum_mset.union)
    have "(\<Sum>n \<in># filter_mset (\<lambda>n. n = j_name t) ?ns. ?r n) = ?r (j_name t)"
    proof (cases "j_name t \<in># ?ns")
      case True
      then have "count ?ns (j_name t) = 1" using wf by (simp add: files_wf_def distinct_count_atmost_1)
      then have "filter_mset (\<lambda>n. n = j_name t) ?ns = {#j_name t#}" by (simp add: filter_eq_replicate_mset)
      then show ?thesis by simp
    next
      case False
      then have "map_of (j_files t) (j_name t) = None" by (simp add: map_of_eq_None_iff)
      moreover have "filter_mset (\<lambda>n. n = j_name t) ?ns = {#}" using False by (simp add: filter_eq_replicate_mset count_eq_zero_iff)
      ultimately show ?thesis by (simp add: content_def)
    qed
    with e c ok(2) show ?thesis by simp
  qed
  with s' ok show ?thesis by blast
qed

lemma with_id_mset: "with_id i (mset es) = mset (filter (\<lambda>e. e_ID e = i) es)"
  by (simp add: with_id_def mset_filter)

lemma jsonl_lookup_contract:
  assumes "jsonl_ok s" "JSONL_LookupEntry jcs i s = ((x, found, er), s')"
  shows "jsonl_ok s' \<and> jsonl_contents s' = jsonl_contents s \<and>
     (er = None \<longrightarrow> (found \<longleftrightarrow> with_id i (jsonl_contents s) \<noteq> {#}) \<and>
        (found \<longrightarrow> x \<in># with_id i (jsonl_contents s)))"
proof -
  obtain es er' t where w: "walkEntriesMode jcs True s = ((es, er'), t)" by (metis prod.collapse)
  let ?f = "filter (\<lambda>e. e_ID e = i) es"
  have t: "s' = t" "x = (if ?f = [] then zero_entry else last ?f)" "found \<longleftrightarrow> length ?f = 1"
    "er = None \<Longrightarrow> er' = None \<and> length ?f \<le> 1"
    using assms(2) by (auto simp: JSONL_LookupEntry_def w Let_def split: if_splits)
  note c = walk_contents [OF assms(1) w]
  have "(found \<longleftrightarrow> with_id i (jsonl_contents s) \<noteq> {#}) \<and> (found \<longrightarrow> x \<in># with_id i (jsonl_contents s))" if "er = None"
  proof -
    from t(4) [OF that] c have m: "with_id i (jsonl_contents s) = mset ?f" "length ?f \<le> 1"
      by (metis with_id_mset)+
    moreover have "found \<longrightarrow> x \<in> set ?f" using t(2,3) last_in_set [of ?f] by auto
    moreover have "found \<longleftrightarrow> ?f \<noteq> []" using t(3) m(2) by (cases ?f) auto
    ultimately show ?thesis unfolding m(1) by (metis mset_zero_iff set_mset_mset)
  qed
  with c t(1) show ?thesis by simp
qed

lemma jsonl_sync_contract:
  assumes "jsonl_ok s" "JSONL_Sync s = (r, s')"
  shows "jsonl_ok s' \<and> jsonl_contents s' = jsonl_contents s"
proof -
  obtain env t where n: "next_jenv s = (env, t)" by fastforce
  note t = next_jenv_frame [OF n]
  have ok: "jsonl_ok t" "jsonl_contents t = jsonl_contents s"
    using assms(1) t by (auto simp: jsonl_ok_def jsonl_contents_def clean_def files_wf_def evidence_def keeps_all_def
        named_def list_all_iff dest: in_set_tlD)
  have fl: "flush_writer env t = (None, t)" using ok(1) by (simp add: jsonl_ok_def clean_def flush_empty)
  have "s' = t" using assms(2) n fl by (auto simp: JSONL_Sync_def split: if_splits sum.splits option.splits)
  with ok show ?thesis by simp
qed

text \<open>The store keeps the contract for the entries it admits, alone and under the instrumented wrapper.\<close>

interpretation jsonl_store: audit_store "jsonl_ops jcs offset now" jsonl_contents compact_entry jsonl_ok admitted durable
  for jcs offset now durable
proof
  show "e_ID (compact_entry e) = e_ID e" for e by (simp add: compact_entry_def)
  have a: "jsonl_ok s' \<and> appended compact_entry e r (jsonl_contents s) (jsonl_contents s')"
    if "admitted e" "jsonl_ok s" "appendBatch [e] d s = (r, s')" for e s r s' d
    using jsonl_append_contract [OF that(2) _ that(3)] that(1) by (auto simp: appended_def)
  show "jsonl_ok s' \<and> appended compact_entry e r (jsonl_contents s) (jsonl_contents s')"
    if "admitted e" "jsonl_ok s" "op_Append (jsonl_ops jcs offset now) e s = (r, s')" for e s r s'
    using a that by (simp add: jsonl_ops_def JSONL_Append_def JSONL_AppendBatch_def)
  show "jsonl_ok s' \<and> appended compact_entry e r (jsonl_contents s) (jsonl_contents s')"
    if "admitted e" "jsonl_ok s" "op_AppendDurable (jsonl_ops jcs offset now) = Some f" "f e s = (r, s')" for e s f r s'
    using a that by (auto simp: jsonl_ops_def JSONL_AppendDurable_def)
qed (auto simp: jsonl_ops_def dest: jsonl_lookup_contract jsonl_sync_contract)

interpretation ijsonl: audit_store "instrumented_ops c (jsonl_ops jcs offset now)"
  "jsonl_contents \<circ> in_store" compact_entry "jsonl_ok \<circ> in_store" admitted durable
  for c jcs offset now durable
  by (rule instrumented_contract, rule jsonl_store.audit_store_axioms)

subsection \<open>Queries see what was appended\<close>

lemma scan_intact_lenient: "intact_file c \<Longrightarrow> scanJSONLMode jcs False c = (file_records c, None)"
  unfolding intact_file_def using file_records_encode scan_intact(1) by auto

lemma walk_files_lenient:
  assumes "\<And>n. intact_file (content s n)" "je_read env = []"
  shows "\<exists>es. walk_files jcs False env s ns = (es, None)"
proof (induction ns)
  case (Cons n ns)
  then obtain es where es: "walk_files jcs False env s ns = (es, None)" by blast
  show ?case
  proof (cases "map_of (j_files s) n")
    case (Some c)
    then have "content s n = c" by (simp add: content_def)
    with assms(1) [of n] scan_intact_lenient Some es assms(2) show ?thesis by simp
  qed (simp add: es assms(2))
qed simp

lemma walk_lenient:
  assumes "jsonl_ok s" "j_open s" "next_jenv s = (env, t)" "je_readdir env = None" "je_read env = []"
  shows "\<exists>es. walkEntriesMode jcs False s = ((es, None), t)"
proof -
  note t = next_jenv_frame [OF assms(3)]
  have fl: "flush_writer env t = (None, t)" using assms(1) t by (simp add: jsonl_ok_def clean_def flush_empty)
  have "files_wf t" "\<forall>c \<in># evidence t. intact_file c"
    using assms(1) t by (simp_all add: jsonl_ok_def clean_def files_wf_def evidence_def)
  from walk_files_lenient [OF evidence_content [OF this] assms(5)] show ?thesis
    using assms(2-4) t fl by (simp add: walkEntriesMode_def queryPaths_def archivePaths_def Let_def)
qed


definition all_filter :: query_filter where
  "all_filter = \<lparr>qf_Method = [], qf_ToolName = [], qf_ClientID = [], qf_From = 0, qf_To = 0, qf_Limit = 0\<rparr>"

lemma demo_admitted: "admitted demo_entry"
proof -
  have "storable demo_entry \<and> length (line_of demo_entry) < 400" by code_simp
  then show ?thesis by (simp add: admitted_def maxLineBytes_def)
qed


end
