(* ===== verification/Jsonl_Async.thy ===== *)
theory Jsonl_Async
  imports Async Jsonl_Contract
begin

text \<open>
  The asynchronous store over the JSON lines store (\<open>internal/audit/storage\<close>, the configuration
  \<open>storage: jsonl\<close> with \<open>async.enabled\<close>): the JSON lines store keeps the contract of batches for the
  entries it admits, alone and instrumented, so what the worker counts as written is on disk.
\<close>

lemma jsonl_batch_contract:
  assumes "list_all admitted es" "jsonl_ok s" "appendBatch es d s = (r, s')"
  shows "jsonl_ok s' \<and> batch_appended compact_entry es r (jsonl_contents s) (jsonl_contents s')"
  using jsonl_append_contract [OF assms(2,1,3)]
  by (auto simp: batch_appended_def intro: exI [of _ 0] exI [of _ "length es"])

lemma jsonl_close_contract:
  assumes "jsonl_ok s" "JSONL_Close s = (r, s')"
  shows "jsonl_ok s' \<and> jsonl_contents s' = jsonl_contents s"
proof -
  obtain env t where n: "next_jenv s = (env, t)" by fastforce
  note t = next_jenv_frame [OF n]
  have ok: "jsonl_ok t" "jsonl_contents t = jsonl_contents s"
    using assms(1) t by (auto simp: jsonl_ok_def jsonl_contents_def clean_def files_wf_def evidence_def keeps_all_def
        named_def list_all_iff dest: in_set_tlD)
  have fl: "flush_writer env t = (None, t)" using ok(1) by (simp add: jsonl_ok_def clean_def flush_empty)
  have "s' = t \<or> s' = t\<lparr>j_open := False, j_buf := [], j_werr := None\<rparr>"
    using assms(2) n fl by (auto simp: JSONL_Close_def split: if_splits option.splits)
  moreover have "jsonl_ok (t\<lparr>j_open := False, j_buf := [], j_werr := None\<rparr>)"
    "jsonl_contents (t\<lparr>j_open := False, j_buf := [], j_werr := None\<rparr>) = jsonl_contents t"
    using ok(1)
    by (auto simp: jsonl_ok_def jsonl_contents_def clean_def files_wf_def evidence_def keeps_all_def named_def)
  ultimately show ?thesis using ok by auto
qed

interpretation jsonl_batches: batch_store "jsonl_ops jcs offset now" jsonl_contents compact_entry jsonl_ok
  admitted durable for jcs offset now durable
proof
  show "jsonl_ok s' \<and> batch_appended compact_entry es r (jsonl_contents s) (jsonl_contents s')"
    if "list_all admitted es" "jsonl_ok s" "op_AppendBatch (jsonl_ops jcs offset now) = Some f" "f es s = (r, s')"
    for es s f r s'
    using that jsonl_batch_contract by (auto simp: jsonl_ops_def JSONL_AppendBatch_def)
  show "jsonl_ok s' \<and> batch_appended compact_entry es r (jsonl_contents s) (jsonl_contents s')"
    if "list_all admitted es" "jsonl_ok s" "op_AppendBatchDurable (jsonl_ops jcs offset now) = Some f" "f es s = (r, s')"
    for es s f r s'
    using that jsonl_batch_contract by (auto simp: jsonl_ops_def JSONL_AppendBatchDurable_def)
qed (auto simp: jsonl_ops_def dest: jsonl_close_contract)

interpretation bjsonl: batch_store "instrumented_ops c (jsonl_ops jcs offset now)" "jsonl_contents \<circ> in_store"
  compact_entry "jsonl_ok \<circ> in_store" admitted durable for c jcs offset now durable
  by (rule instrumented_batch, rule jsonl_batches.batch_store_axioms)


definition demo_jsonl_ops :: "jsonl instrumented store_ops" where
  "demo_jsonl_ops = instrumented_ops \<lparr>ic_metrics = True, ic_backend = ''jsonl'', ic_mode = ''async''\<rparr> (jsonl_ops Inr 0 0)"

definition demo_jsonl_async :: "jsonl instrumented async" where
  "demo_jsonl_async = NewAsyncStore \<lparr>in_store = demo_jsonl (demo_rotating 0) [], in_writes = []\<rparr>
     \<lparr>ac_QueueSize = 2, ac_BatchSize = 8, ac_FlushIntervalMS = 0, ac_Durable = True\<rparr>"


end
