(* ===== verification/Rpc.thy ===== *)
theory Rpc
  imports Mcp Policy Auth Operation
begin

text \<open>
  What the two proxies of \<open>internal/proxy\<close> share: the lenient JSON-RPC decoder and the error
  responses (\<open>stdio.go\<close>), the conversions of \<open>policy.go\<close>, pending calls, and the gateway state
  both work on.

  \<open>gateway\<close> is what a proxy's handlers change: the audit store and its observers, the rate
  limiter, the metrics. \<open>g_n\<close> counts the values drawn from the run time; the \<open>n\<close>-th UUID, ULID
  and clock reading come from \<open>ev\<close>, like the library token bucket and the order in which a range
  over a map visits its entries. \<open>g_accepted\<close>, \<open>g_finals\<close> and \<open>g_lost\<close> are the history the
  theorems speak of, which no handler reads: the operations started, the calls of \<open>Finalize\<close>
  and the operations dropped from a pending map by a later call with the same key. An operation
  is reachable from one pending call only, so a pending call holds it as a value.
\<close>

subsection \<open>JSON-RPC messages\<close>

record rpc_message =
  rm_ID :: string
  rm_Method :: string
  rm_Params :: string
  rm_Result :: string
  rm_Error :: "rpc_error option"

definition zero_rpc_message :: rpc_message where
  "zero_rpc_message =
     \<lparr>rm_ID = [], rm_Method = [], rm_Params = [], rm_Result = [], rm_Error = None\<rparr>"

definition rpc_message_fields :: "(string \<times> rpc_message dec) list" where
  "rpc_message_fields =
     [(''id'', dec_field rm_ID rm_ID_update dec_raw),
      (''method'', dec_field rm_Method rm_Method_update dec_string),
      (''params'', dec_field rm_Params rm_Params_update dec_raw),
      (''result'', dec_field rm_Result rm_Result_update dec_raw),
      (''error'', dec_field rm_Error rm_Error_update dec_rpc_error)]"

definition decode_single :: "string \<Rightarrow> rpc_message option" where
  "decode_single raw =
     (case Unmarshal (dec_struct rpc_message_fields) zero_rpc_message raw of
        None \<Rightarrow> None
      | Some single \<Rightarrow>
          if rm_Method single \<noteq> [] \<or> length (rm_ID single) > 0 then Some single else None)"

definition decodeMessages :: "string \<Rightarrow> rpc_message list res" where
  "decodeMessages raw =
     (case decode_single raw of
        Some single \<Rightarrow> Inr [single]
      | None \<Rightarrow>
          (case Unmarshal (dec_slice zero_rpc_message (dec_struct rpc_message_fields)) [] raw of
             None \<Rightarrow> Inl (''proxy: jsonrpc: decode: '' @ json_error)
           | Some batch \<Rightarrow> Inr batch))"

definition toolNameFromParams :: "string \<Rightarrow> string \<Rightarrow> string" where
  "toolNameFromParams method params =
     (if method \<noteq> ''tools/call'' \<or> length params = 0 then []
      else
        (case Unmarshal (dec_struct [(''name'', dec_string)]) [] params of
           Some (c # cs) \<Rightarrow> c # cs
         | _ \<Rightarrow>
             (case Unmarshal (dec_struct [(''tool_name'', dec_string)]) [] params of
                Some t \<Rightarrow> t
              | None \<Rightarrow> [])))"

definition jsonRPCID :: "string \<Rightarrow> string" where
  "jsonRPCID i =
     (if length i = 0 \<or> i = ''null'' then []
      else (case Unmarshal dec_string [] i of Some s \<Rightarrow> s | None \<Rightarrow> i))"

definition rate_limit_response :: string where
  "rate_limit_response = marshal_struct
     [(''jsonrpc'', quote_string ''2.0''), (''id'', ''null''),
      (''error'', marshal_struct
         [(''code'', ''-32029''), (''message'', quote_string ''rate limit exceeded'')])]"

text \<open>A nil raw message is encoded as \<open>null\<close>.\<close>

definition buildErrorResponse :: "string \<Rightarrow> rpc_error \<Rightarrow> string" where
  "buildErrorResponse i rpcErr =
     (case marshal_members_of
             [(''jsonrpc'', str_member ''2.0''),
              (''id'', if i = [] then Present ''null'' else opt_member (marshal_raw i)),
              (''error'', opt_member (marshal_rpc_error rpcErr))] of
        Some out \<Rightarrow> out
      | None \<Rightarrow> rate_limit_response)"

subsection \<open>Policy decisions and principals\<close>

definition policyDeniedCode :: int where "policyDeniedCode = -32030"

definition policyError :: "decision \<Rightarrow> rpc_error" where
  "policyError d =
     \<lparr>err_Code = policyDeniedCode, err_Message = ''policy denied'',
      err_Data = (case marshal_members_of
          [(''action'', str_member (Action d)), (''reason'', str_omit (Reason d)),
           (''rule_index'', Present (Itoa (RuleIndex d))), (''rule_id'', str_omit (RuleID d))] of
         Some t \<Rightarrow> t | None \<Rightarrow> [])\<rparr>"

definition rateLimitError :: rpc_error where
  "rateLimitError = \<lparr>err_Code = -32029, err_Message = ''rate limit exceeded'', err_Data = []\<rparr>"

definition auditPolicyEvidence :: "decision \<Rightarrow> policy_evidence option" where
  "auditPolicyEvidence d =
     (if \<not> Applied d then None else Some \<lparr>pe_Decision = Action d, pe_RuleID = RuleID d\<rparr>)"

definition outcomeForRPCError :: "rpc_error option \<Rightarrow> string" where
  "outcomeForRPCError e = (if e \<noteq> None then OutcomeUpstreamError else OutcomeSuccess)"

definition auditPrincipal :: "principal option \<Rightarrow> audit_principal option" where
  "auditPrincipal p =
     (case p of
        None \<Rightarrow> None
      | Some p \<Rightarrow>
          Some \<lparr>ap_Subject = Subject p, ap_ClientID = ClientID p, ap_Issuer = Issuer p\<rparr>)"

definition staticAuditPrincipal :: "string \<Rightarrow> audit_principal" where
  "staticAuditPrincipal c = \<lparr>ap_Subject = c, ap_ClientID = c, ap_Issuer = ''static''\<rparr>"

definition metadata_of :: "rpc_message \<Rightarrow> request_metadata" where
  "metadata_of m = MetadataFromMessage
     \<lparr>msg_JSONRPC = [], msg_ID = rm_ID m, msg_Method = rm_Method m, msg_Params = rm_Params m\<rparr>"

definition tool_of :: "string \<Rightarrow> string \<Rightarrow> string" where
  "tool_of method name = (if method = ''tools/call'' then name else [])"

subsection \<open>The gateway\<close>

record pendingCall =
  pc_operation :: "operation option"
  pc_startedAt :: go_time
  pc_completionDirection :: string
  pc_expectsResponse :: bool

type_synonym pending = "(string \<times> pendingCall) list"

record 'l env =
  ev_prims :: prims
  ev_uuid :: "nat \<Rightarrow> string res"
  ev_ulid :: "nat \<Rightarrow> string"
  ev_clock :: "nat \<Rightarrow> go_time"
  ev_order :: "nat \<Rightarrow> pendingCall list \<Rightarrow> pendingCall list"
  ev_bucket :: "duration \<Rightarrow> int \<Rightarrow> 'l"
  ev_take :: "go_time \<Rightarrow> 'l \<Rightarrow> bool \<times> 'l"

record 's gateway_config =
  gc_Audit :: "'s logger option"
  gc_Policy :: "engine option"
  gc_ClientID :: string
  gc_ServerID :: string
  gc_Metrics :: bool

record ('s, 'l) gateway =
  g_world :: "'s world"
  g_limiter :: "'l rate_limiter option"
  g_decisions :: "string list"
  g_rateRejections :: "(string \<times> string) list"
  g_n :: nat
  g_accepted :: "string list"
  g_finals :: "(string \<times> completion \<times> err option) list"
  g_lost :: "string list"

text \<open>\<open>audit.NewOperation\<close> as both proxies call it: an error leaves a call without operation.\<close>

definition start_operation ::
  "'l env \<Rightarrow> 's gateway_config \<Rightarrow> entry \<Rightarrow> go_time \<Rightarrow> ('s, 'l) gateway \<Rightarrow>
   operation option \<times> ('s, 'l) gateway" where
  "start_operation ev c e startedAt g =
     (let g1 = g\<lparr>g_n := Suc (g_n g)\<rparr>
      in case NewOperation (gc_Audit c) (ev_uuid ev (g_n g)) (ev_clock ev (g_n g)) e startedAt of
           Inl er \<Rightarrow> (None, g1)
         | Inr op \<Rightarrow> (Some op, g1\<lparr>g_accepted := g_accepted g @ [Operation_ID (Some op)]\<rparr>))"

text \<open>
  \<open>record\<close> of either proxy. An operation refers to the logger of the configuration it was
  created with; there is none without a logger.
\<close>

definition record_call ::
  "'l env \<Rightarrow> 's gateway_config \<Rightarrow> err \<Rightarrow> pendingCall \<Rightarrow> string \<Rightarrow> string \<Rightarrow> string \<Rightarrow>
   rpc_error option \<Rightarrow> ('s, 'l) gateway \<Rightarrow> err option \<times> ('s, 'l) gateway" where
  "record_call ev c unavailable call outcome direction rslt rpcErr g =
     (case (pc_operation call, gc_Audit c) of
        (Some op, Some l) \<Rightarrow>
          (let cp = \<lparr>cp_Outcome = outcome, cp_Direction = direction, cp_Result = rslt,
                     cp_Error = rpcErr\<rparr>
           in case Finalize (ev_prims ev) l (ev_ulid ev (g_n g)) (ev_clock ev (g_n g)) cp (Some op)
                     (g_world g) of
                (er, op', w) \<Rightarrow>
                  (er, g\<lparr>g_world := w, g_n := Suc (g_n g),
                         g_finals := g_finals g @ [(Operation_ID (Some op), cp, er)]\<rparr>))
      | _ \<Rightarrow> (Some unavailable, g))"

text \<open>\<open>recordPolicyDecision\<close> and the limiter with its metric.\<close>

definition recordPolicyDecision ::
  "'s gateway_config \<Rightarrow> decision \<Rightarrow> ('s, 'l) gateway \<Rightarrow> ('s, 'l) gateway" where
  "recordPolicyDecision c d g =
     (if gc_Policy c = None \<or> \<not> gc_Metrics c \<or> \<not> Applied d then g
      else g\<lparr>g_decisions := g_decisions g @ [Action d]\<rparr>)"

definition limiter_allow ::
  "'l env \<Rightarrow> string \<Rightarrow> string \<Rightarrow> ('s, 'l) gateway \<Rightarrow> bool \<times> ('s, 'l) gateway" where
  "limiter_allow ev client tool g =
     (case RateLimiter_Allow (ev_bucket ev) (ev_take ev) (ev_clock ev (g_n g)) client tool
             (g_limiter g) of
        (ok, l) \<Rightarrow> (ok, g\<lparr>g_limiter := l, g_n := Suc (g_n g)\<rparr>))"

definition rate_rejected ::
  "'s gateway_config \<Rightarrow> string \<Rightarrow> string \<Rightarrow> ('s, 'l) gateway \<Rightarrow> ('s, 'l) gateway" where
  "rate_rejected c client tool g =
     (if gc_Metrics c then g\<lparr>g_rateRejections := g_rateRejections g @ [(client, tool)]\<rparr> else g)"

text \<open>A loop over calls that records each with the same outcome.\<close>

fun finalize_each ::
  "(pendingCall \<Rightarrow> ('s, 'l) gateway \<Rightarrow> err option \<times> ('s, 'l) gateway) \<Rightarrow> pendingCall list \<Rightarrow>
   ('s, 'l) gateway \<Rightarrow> ('s, 'l) gateway" where
  "finalize_each rc [] g = g"
| "finalize_each rc (call # calls) g = finalize_each rc calls (snd (rc call g))"

subsection \<open>Pending maps\<close>

definition delete_key :: "string \<Rightarrow> pending \<Rightarrow> pending" where
  "delete_key i p = filter (\<lambda>e. fst e \<noteq> i) p"

definition op_ids :: "pendingCall list \<Rightarrow> string multiset" where
  "op_ids calls = (\<Sum>call \<in># mset calls.
     case pc_operation call of None \<Rightarrow> {#} | Some op \<Rightarrow> {#Operation_ID (Some op)#})"

text \<open>\<open>m[id] = call\<close>, with the operations that the assignment drops.\<close>

definition replaced :: "string \<Rightarrow> pending \<Rightarrow> string list" where
  "replaced i p =
     (case map_of p i of
        None \<Rightarrow> []
      | Some call \<Rightarrow>
          (case pc_operation call of None \<Rightarrow> [] | Some op \<Rightarrow> [Operation_ID (Some op)]))"

definition pending_wf :: "pending \<Rightarrow> bool" where
  "pending_wf p \<longleftrightarrow> sorted (map fst p) \<and> distinct (map fst p)"

abbreviation pending_ids :: "pending \<Rightarrow> string multiset" where
  "pending_ids p \<equiv> op_ids (map snd p)"

lemma op_ids_simps [simp]:
  "op_ids [] = {#}"
  "op_ids (call # calls) =
     (case pc_operation call of None \<Rightarrow> {#} | Some op \<Rightarrow> {#Operation_ID (Some op)#}) + op_ids calls"
  "op_ids (xs @ ys) = op_ids xs + op_ids ys"
  by (simp_all add: op_ids_def)

lemma op_ids_mset: "mset xs = mset ys \<Longrightarrow> op_ids xs = op_ids ys"
  by (simp add: op_ids_def)

lemma distinct_submset: "\<lbrakk>mset xs \<subseteq># mset ys; distinct ys\<rbrakk> \<Longrightarrow> distinct xs"
proof -
  assume h: "mset xs \<subseteq># mset ys" "distinct ys"
  obtain zs where "mset ys = mset (xs @ zs)"
    using h(1) by (metis ex_mset mset_append mset_subset_eq_exists_conv)
  with h(2) have "distinct (xs @ zs)" using mset_eq_imp_distinct_iff by blast
  then show "distinct xs" by simp
qed

lemma delete_key_wf: "pending_wf p \<Longrightarrow> pending_wf (delete_key i p)"
  by (simp add: pending_wf_def delete_key_def sorted_filter distinct_map_filter)

lemma map_put_wf: "pending_wf p \<Longrightarrow> pending_wf (map_put i call p)"
  by (simp add: pending_wf_def map_put_sorted)

lemma delete_key_id: "i \<notin> fst ` set p \<Longrightarrow> delete_key i p = p"
  by (auto simp: delete_key_def intro!: filter_True)

lemma pending_ids_split:
  "distinct (map fst p) \<Longrightarrow> pending_ids p = mset (replaced i p) + pending_ids (delete_key i p)"
proof (induction p)
  case (Cons e p)
  obtain k call where e: "e = (k, call)" by fastforce
  show ?case
  proof (cases "k = i")
    case True
    then have "delete_key i (e # p) = p" using Cons.prems e delete_key_id [of i p]
      by (simp add: delete_key_def)
    with True e show ?thesis by (simp add: replaced_def split: option.split)
  next
    case False
    with Cons e show ?thesis by (simp add: replaced_def delete_key_def ac_simps)
  qed
qed (simp add: replaced_def delete_key_def)

lemma map_put_ids:
  assumes "pending_wf p"
  shows "pending_ids (map_put i call p) + mset (replaced i p) = op_ids [call] + pending_ids p"
proof -
  have "mset (map snd (map_put i call p)) = add_mset call (mset (map snd (delete_key i p)))"
    using mset_map_put [of p i call] assms by (simp add: delete_key_def pending_wf_def)
  then have "pending_ids (map_put i call p) = op_ids (call # map snd (delete_key i p))"
    by (intro op_ids_mset) simp
  with pending_ids_split [of p i] assms show ?thesis by (simp add: pending_wf_def ac_simps)
qed

subsection \<open>The ledger of operations\<close>

text \<open>Every operation started is finalized by one call, or pending, or was dropped.\<close>

definition op_ledger :: "string multiset \<Rightarrow> ('s, 'l) gateway \<Rightarrow> bool" where
  "op_ledger open_ids g \<longleftrightarrow>
     mset (g_accepted g) = mset (map fst (g_finals g)) + open_ids + mset (g_lost g)"

text \<open>An operation that can be recorded: one created under the configuration's logger.\<close>

definition call_ok :: "'s gateway_config \<Rightarrow> pendingCall \<Rightarrow> bool" where
  "call_ok c call \<longleftrightarrow> (pc_operation call \<noteq> None \<longrightarrow> gc_Audit c \<noteq> None)"

lemma record_call_ledger:
  assumes "record_call ev c u call oc d r x g = (er, g')" "call_ok c call"
  shows "op_ledger ids g' \<longleftrightarrow> op_ledger (op_ids [call] + ids) g" "g_lost g' = g_lost g"
  using assms
  by (auto simp: record_call_def call_ok_def op_ledger_def Let_def
      split: option.splits prod.splits)

text \<open>
  What a proxy's loops rely on in its \<open>record\<close> method: it settles the operation of the call it is
  given and no other.
\<close>

locale call_recorder =
  fixes c :: "'s gateway_config"
    and rc :: "pendingCall \<Rightarrow> string \<Rightarrow> string \<Rightarrow> string \<Rightarrow> rpc_error option \<Rightarrow> ('s, 'l) gateway \<Rightarrow>
      err option \<times> ('s, 'l) gateway"
  assumes settles:
      "\<lbrakk>call_ok c call; rc call oc d r x g = (er, g')\<rbrakk> \<Longrightarrow>
         op_ledger ids g' = op_ledger (op_ids [call] + ids) g"
    and keeps_lost: "rc call oc d r x g = (er, g') \<Longrightarrow> g_lost g' = g_lost g"
begin

lemma settles_snd:
  "call_ok c call \<Longrightarrow> op_ledger ids (snd (rc call oc d r x g)) = op_ledger (op_ids [call] + ids) g"
  using settles [OF _ surjective_pairing] .

lemma keeps_lost_snd [simp]: "g_lost (snd (rc call oc d r x g)) = g_lost g"
  using keeps_lost [OF surjective_pairing] .

lemma finalize_each_settles:
  "list_all (call_ok c) calls \<Longrightarrow>
     op_ledger ids (finalize_each (\<lambda>call. rc call (oc call) (d call) (r call) (x call)) calls g) =
     op_ledger (op_ids calls + ids) g"
proof (induction calls arbitrary: g)
  case (Cons call calls)
  let ?g = "snd (rc call (oc call) (d call) (r call) (x call) g)"
  have "op_ledger (op_ids calls + ids) ?g = op_ledger (op_ids [call] + (op_ids calls + ids)) g"
    using Cons.prems by (intro settles_snd) simp
  with Cons show ?case by (simp add: ac_simps)
qed simp

lemma finalize_each_lost [simp]:
  "g_lost (finalize_each (\<lambda>call. rc call (oc call) (d call) (r call) (x call)) calls g) = g_lost g"
  by (induction calls arbitrary: g) simp_all

end

interpretation gw: call_recorder c "record_call ev c u"
proof
  show "op_ledger ids g' = op_ledger (op_ids [call] + ids) g"
    if "call_ok c call" "record_call ev c u call oc d r x g = (er, g')" for call oc d r x g er g' ids
    using record_call_ledger(1) [OF that(2,1)] .
  show "g_lost g' = g_lost g"
    if "record_call ev c u call oc d r x g = (er, g')" for call oc d r x g er g'
    using that by (auto simp: record_call_def Let_def split: option.splits prod.splits)
qed

lemma start_operation_ledger:
  assumes "start_operation ev c e t g = (oo, g')"
  shows "op_ledger ids g \<longleftrightarrow>
      op_ledger ((case oo of None \<Rightarrow> {#} | Some op \<Rightarrow> {#Operation_ID (Some op)#}) + ids) g'"
    "g_lost g' = g_lost g" "oo \<noteq> None \<Longrightarrow> gc_Audit c \<noteq> None"
  using assms
  by (auto simp: start_operation_def op_ledger_def Let_def NewOperation_def
      split: sum.splits option.splits)

lemma gateway_frame [simp]:
  "op_ledger ids (recordPolicyDecision c d g) = op_ledger ids g"
  "op_ledger ids (rate_rejected c x y g) = op_ledger ids g"
  "op_ledger ids (snd (limiter_allow ev x y g)) = op_ledger ids g"
  "g_lost (recordPolicyDecision c d g) = g_lost g"
  "g_lost (rate_rejected c x y g) = g_lost g"
  "g_lost (snd (limiter_allow ev x y g)) = g_lost g"
  by (simp_all add: recordPolicyDecision_def rate_rejected_def limiter_allow_def op_ledger_def
      split: prod.split)

lemma list_all_map_put:
  "\<lbrakk>list_all P (map snd p); P v\<rbrakk> \<Longrightarrow> list_all P (map snd (map_put k v p))"
  by (induction k v p rule: map_put.induct) auto

lemma list_all_filter: "list_all P (map f xs) \<Longrightarrow> list_all P (map f (filter Q xs))"
  by (auto simp: list_all_iff)

lemma list_all_delete: "list_all P (map snd p) \<Longrightarrow> list_all P (map snd (delete_key i p))"
  by (simp add: delete_key_def list_all_filter)

lemma op_ledger_lost:
  "op_ledger ids (g\<lparr>g_lost := g_lost g @ xs\<rparr>) = op_ledger (ids + mset xs) g"
  by (simp add: op_ledger_def ac_simps)

text \<open>Removing a pending call hands its operation to the caller.\<close>

lemma delete_ids:
  assumes "pending_wf p" "map_of p i = Some call"
  shows "pending_ids p = op_ids [call] + pending_ids (delete_key i p)"
  using pending_ids_split [of p i] assms
  by (simp add: pending_wf_def replaced_def split: option.splits)

lemma map_of_call_ok: "\<lbrakk>list_all P (map snd p); map_of p i = Some call\<rbrakk> \<Longrightarrow> P call"
  by (auto simp: list_all_iff dest!: map_of_SomeD)

lemma take_none: "map_of p i = None \<Longrightarrow> delete_key i p = p"
  by (intro delete_key_id) (simp add: map_of_eq_None_iff)

text \<open>A range over a map visits every entry once.\<close>

definition fair_order :: "'l env \<Rightarrow> bool" where
  "fair_order ev \<longleftrightarrow> (\<forall>n calls. mset (ev_order ev n calls) = mset calls)"

lemma order_ids:
  assumes "fair_order ev"
  shows "op_ids (ev_order ev n calls) = op_ids calls"
    "list_all P (ev_order ev n calls) = list_all P calls"
proof -
  have m: "mset (ev_order ev n calls) = mset calls" using assms by (simp add: fair_order_def)
  then show "op_ids (ev_order ev n calls) = op_ids calls" by (rule op_ids_mset)
  from mset_eq_setD [OF m] show "list_all P (ev_order ev n calls) = list_all P calls"
    by (simp add: list_all_iff)
qed

subsection \<open>A configuration for examples\<close>

text \<open>A store in memory that never fails, no signers and no redaction.\<close>

definition mem_ops :: "entry list store_ops" where
  "mem_ops =
     \<lparr>op_Append = (\<lambda>e s. (None, s @ [e])), op_AppendBatch = None, op_AppendDurable = None,
      op_AppendBatchDurable = None, op_LookupEntry = None, op_Sync = None,
      op_Query = (\<lambda>q s. (Inr s, s)), op_Stats = (\<lambda>s. (Inl [], s)), op_Close = (\<lambda>s. (None, s))\<rparr>"

definition mem_logger :: "entry list logger" where
  "mem_logger =
     \<lparr>lg_store = mem_ops, lg_signer = None, lg_integritySigner = None, lg_redactor = None,
      lg_trace = False, lg_transport = ''stdio'', lg_clientID = ''c'', lg_serverID = ''s'',
      lg_metrics = False, lg_durable = False\<rparr>"

definition mem_gateway :: "(entry list, unit) gateway" where
  "mem_gateway =
     \<lparr>g_world = \<lparr>w_store = [], w_metrics = [], w_traces = []\<rparr>, g_limiter = None, g_decisions = [],
      g_rateRejections = [], g_n = 0, g_accepted = [], g_finals = [], g_lost = []\<rparr>"

definition mem_env :: "unit env" where
  "mem_env =
     \<lparr>ev_prims = \<lparr>p_hmac = (\<lambda>k m. []), p_jcs = Inr, p_float = Some\<rparr>,
      ev_uuid = (\<lambda>n. Inr (CHR ''u'' # show_nat n)), ev_ulid = (\<lambda>n. CHR ''i'' # show_nat n),
      ev_clock = (\<lambda>n. 1 + int n), ev_order = (\<lambda>n calls. calls), ev_bucket = (\<lambda>d n. ()),
      ev_take = (\<lambda>t b. (True, b))\<rparr>"

text \<open>A policy that lets every operation through except calls of the tool \<open>rm\<close>.\<close>

definition no_rm_engine :: engine where
  "no_rm_engine =
     \<lparr>eng_enabled = True, eng_defaultAction = ActionAllow, eng_scope = ScopeAllOperations,
      eng_rules = [\<lparr>rule_ID = ''no-rm'', rule_Action = ActionDeny, rule_Subject = [],
        rule_ClientID = [], rule_Issuer = [], rule_Role = [], rule_Scope = [], rule_ServerID = [],
        rule_Method = ''tools/call'', rule_Name = ''rm'', rule_ToolName = [], rule_Reason = []\<rparr>]\<rparr>"

definition mem_config :: "entry list gateway_config" where
  "mem_config =
     \<lparr>gc_Audit = Some mem_logger, gc_Policy = Some no_rm_engine, gc_ClientID = ''c'',
      gc_ServerID = ''s'', gc_Metrics = True\<rparr>"

definition obj :: "(string \<times> string) list \<Rightarrow> string" where
  "obj ms = marshal_struct ms"

definition rm_params :: string where
  "rm_params = obj [(''name'', quote_string ''rm'')]"

definition ls_params :: string where
  "ls_params = obj [(''name'', quote_string ''ls'')]"

definition call_text :: "string \<Rightarrow> string \<Rightarrow> string" where
  "call_text i params = obj
     [(''id'', i), (''method'', quote_string ''tools/call''), (''params'', params)]"

end
