(* ===== verification/Stdio.thy ===== *)
theory Stdio
  imports Rpc
begin

text \<open>
  The stdio proxy (\<open>internal/proxy/stdio.go\<close>): the pending-call state, the observation of client
  and server messages, and \<open>Run\<close> as a step relation.

  A line is what \<open>bufio.Scanner\<close> returns. The two pipe goroutines, the cleanup loop and
  \<open>Run\<close>'s final finalization interleave: each handler call is one step, and a pipe can be
  interrupted between observing a line and writing it. The process's pipes, signals and exit
  are the environment, which decides which step happens and which read or write fails.
\<close>

subsection \<open>State\<close>

definition pendingCallTTL :: duration where "pendingCallTTL = seconds 30"
definition pendingCallCleanupInterval :: duration where "pendingCallCleanupInterval = seconds 5"

record ('s, 'l) stdio =
  st_gw :: "('s, 'l) gateway"
  st_clientPending :: pending
  st_serverPending :: pending

definition newRPCState :: "('s, 'l) gateway \<Rightarrow> ('s, 'l) stdio" where
  "newRPCState g = \<lparr>st_gw = g, st_clientPending = [], st_serverPending = []\<rparr>"

definition rememberClient :: "string \<Rightarrow> pendingCall \<Rightarrow> ('s, 'l) stdio \<Rightarrow> ('s, 'l) stdio" where
  "rememberClient i call s =
     s\<lparr>st_clientPending := map_put i call (st_clientPending s),
       st_gw := (st_gw s)\<lparr>g_lost := g_lost (st_gw s) @ replaced i (st_clientPending s)\<rparr>\<rparr>"

definition rememberServer :: "string \<Rightarrow> pendingCall \<Rightarrow> ('s, 'l) stdio \<Rightarrow> ('s, 'l) stdio" where
  "rememberServer i call s =
     s\<lparr>st_serverPending := map_put i call (st_serverPending s),
       st_gw := (st_gw s)\<lparr>g_lost := g_lost (st_gw s) @ replaced i (st_serverPending s)\<rparr>\<rparr>"

definition takeClient :: "string \<Rightarrow> ('s, 'l) stdio \<Rightarrow> pendingCall option \<times> ('s, 'l) stdio" where
  "takeClient i s =
     (map_of (st_clientPending s) i, s\<lparr>st_clientPending := delete_key i (st_clientPending s)\<rparr>)"

definition takeServer :: "string \<Rightarrow> ('s, 'l) stdio \<Rightarrow> pendingCall option \<times> ('s, 'l) stdio" where
  "takeServer i s =
     (map_of (st_serverPending s) i, s\<lparr>st_serverPending := delete_key i (st_serverPending s)\<rparr>)"

definition expired :: "go_time \<Rightarrow> string \<times> pendingCall \<Rightarrow> bool" where
  "expired cutoff e \<longleftrightarrow> pc_startedAt (snd e) < cutoff"

text \<open>The order in which a range over a map visits its entries is the environment's.\<close>

definition takeExpired ::
  "'l env \<Rightarrow> go_time \<Rightarrow> duration \<Rightarrow> ('s, 'l) stdio \<Rightarrow> pendingCall list \<times> ('s, 'l) stdio" where
  "takeExpired ev now ttl s =
     (let cutoff = now - ttl; n = g_n (st_gw s)
      in (ev_order ev n (map snd (filter (expired cutoff) (st_clientPending s))) @
          ev_order ev n (map snd (filter (expired cutoff) (st_serverPending s))),
          s\<lparr>st_clientPending := filter (\<lambda>e. \<not> expired cutoff e) (st_clientPending s),
            st_serverPending := filter (\<lambda>e. \<not> expired cutoff e) (st_serverPending s)\<rparr>))"

definition purgeExpired ::
  "'l env \<Rightarrow> go_time \<Rightarrow> duration \<Rightarrow> ('s, 'l) stdio \<Rightarrow> nat \<times> ('s, 'l) stdio" where
  "purgeExpired ev now ttl s = (case takeExpired ev now ttl s of (cs, s') \<Rightarrow> (length cs, s'))"

definition takeClients :: "'l env \<Rightarrow> ('s, 'l) stdio \<Rightarrow> pendingCall list \<times> ('s, 'l) stdio" where
  "takeClients ev s =
     (ev_order ev (g_n (st_gw s)) (map snd (st_clientPending s)), s\<lparr>st_clientPending := []\<rparr>)"

definition takeAll :: "'l env \<Rightarrow> ('s, 'l) stdio \<Rightarrow> pendingCall list \<times> ('s, 'l) stdio" where
  "takeAll ev s =
     (ev_order ev (g_n (st_gw s)) (map snd (st_clientPending s)) @
      ev_order ev (g_n (st_gw s)) (map snd (st_serverPending s)),
      s\<lparr>st_clientPending := [], st_serverPending := []\<rparr>)"

subsection \<open>Operations\<close>

definition stdio_request :: "'s gateway_config \<Rightarrow> string \<Rightarrow> string \<Rightarrow> request" where
  "stdio_request c method name =
     \<lparr>req_Subject = gc_ClientID c, req_ClientID = gc_ClientID c, req_Issuer = ''static'',
      req_Roles = [], req_Scopes = [], req_ServerID = gc_ServerID c, req_Method = method,
      req_Name = name, req_ToolName = tool_of method name\<rparr>"

definition stdio_evaluatePolicy :: "'s gateway_config \<Rightarrow> string \<Rightarrow> string \<Rightarrow> decision" where
  "stdio_evaluatePolicy c method name =
     (if gc_Policy c = None then not_applied
      else Evaluate (gc_Policy c) (stdio_request c method name))"

definition stdio_entry ::
  "'s gateway_config \<Rightarrow> string \<Rightarrow> string \<Rightarrow> string \<Rightarrow> string \<Rightarrow> policy_evidence option \<Rightarrow> entry" where
  "stdio_entry c method reqID mcpName params evidence =
     zero_entry\<lparr>e_Method := method, e_RequestID := reqID, e_MCPName := mcpName,
       e_ToolName := tool_of method mcpName, e_Params := params, e_ClientID := gc_ClientID c,
       e_ServerID := gc_ServerID c, e_Principal := Some (staticAuditPrincipal (gc_ClientID c)),
       e_Policy := evidence\<rparr>"

text \<open>\<open>newPendingCall\<close> with the start time \<open>time.Now()\<close> that its callers pass.\<close>

definition stdio_newPendingCall ::
  "'l env \<Rightarrow> 's gateway_config \<Rightarrow> rpc_message \<Rightarrow> string \<Rightarrow> policy_evidence option \<Rightarrow>
   ('s, 'l) gateway \<Rightarrow> pendingCall \<times> ('s, 'l) gateway" where
  "stdio_newPendingCall ev c m direction evidence g =
     (let startedAt = ev_clock ev (g_n g)
      in case start_operation ev c
                (stdio_entry c (rm_Method m) (jsonRPCID (rm_ID m)) (md_Name (metadata_of m))
                   (rm_Params m) evidence) startedAt g of
           (op, g') \<Rightarrow>
             (\<lparr>pc_operation = op, pc_startedAt = startedAt, pc_completionDirection = direction,
               pc_expectsResponse = False\<rparr>, g'))"

definition stdio_record ::
  "'l env \<Rightarrow> 's gateway_config \<Rightarrow> pendingCall \<Rightarrow> string \<Rightarrow> string \<Rightarrow> string \<Rightarrow> rpc_error option \<Rightarrow>
   ('s, 'l) gateway \<Rightarrow> err option \<times> ('s, 'l) gateway" where
  "stdio_record ev c = record_call ev c ''proxy: stdio: audit operation unavailable''"

definition finalizeCalls ::
  "'l env \<Rightarrow> 's gateway_config \<Rightarrow> string \<Rightarrow> pendingCall list \<times> ('s, 'l) stdio \<Rightarrow> ('s, 'l) stdio" where
  "finalizeCalls ev c outcome cs =
     (case cs of (calls, s) \<Rightarrow>
        s\<lparr>st_gw := finalize_each
            (\<lambda>call. stdio_record ev c call outcome (pc_completionDirection call) [] None)
            calls (st_gw s)\<rparr>)"

definition finalizeAll ::
  "'l env \<Rightarrow> 's gateway_config \<Rightarrow> string \<Rightarrow> ('s, 'l) stdio \<Rightarrow> ('s, 'l) stdio" where
  "finalizeAll ev c outcome s = finalizeCalls ev c outcome (takeAll ev s)"

subsection \<open>Client messages\<close>

text \<open>A message with a method; the first component is the response of a rejection.\<close>

definition client_request ::
  "'l env \<Rightarrow> 's gateway_config \<Rightarrow> rpc_message \<Rightarrow> ('s, 'l) stdio \<Rightarrow> string option \<times> ('s, 'l) stdio" where
  "client_request ev c m s =
     (let name = md_Name (metadata_of m);
          d = stdio_evaluatePolicy c (md_Method (metadata_of m)) name
      in case stdio_newPendingCall ev c m DirectionServerToClient (auditPolicyEvidence d) (st_gw s) of
           (call, g0) \<Rightarrow>
             (let g1 = recordPolicyDecision c d g0
              in if \<not> Allowed d then
                   (Some (buildErrorResponse (rm_ID m) (policyError d)),
                    s\<lparr>st_gw := snd (stdio_record ev c call OutcomeDenied DirectionClientToServer []
                                    (Some (policyError d)) g1)\<rparr>)
                 else
                   (case (if rm_Method m = ''tools/call''
                          then limiter_allow ev (gc_ClientID c) name g1 else (True, g1)) of
                      (ok, g2) \<Rightarrow>
                        if \<not> ok then
                          (Some (buildErrorResponse (rm_ID m) rateLimitError),
                           s\<lparr>st_gw := snd (stdio_record ev c call OutcomeRateLimited
                               DirectionClientToServer [] (Some rateLimitError)
                               (rate_rejected c (gc_ClientID c) name g2))\<rparr>)
                        else if length (rm_ID m) > 0 then
                          (None, rememberClient (rm_ID m) call (s\<lparr>st_gw := g2\<rparr>))
                        else
                          (None, s\<lparr>st_gw := snd (stdio_record ev c call OutcomeSuccess
                                           DirectionClientToServer [] None g2)\<rparr>))))"

definition client_response ::
  "'l env \<Rightarrow> 's gateway_config \<Rightarrow> rpc_message \<Rightarrow> ('s, 'l) stdio \<Rightarrow> ('s, 'l) stdio" where
  "client_response ev c m s =
     (if length (rm_ID m) > 0 then
        (case takeServer (rm_ID m) s of
           (Some call, s') \<Rightarrow>
             s'\<lparr>st_gw := snd (stdio_record ev c call (outcomeForRPCError (rm_Error m))
                              DirectionClientToServer (rm_Result m) (rm_Error m) (st_gw s'))\<rparr>
         | (None, s') \<Rightarrow> s')
      else s)"

fun observe_client ::
  "'l env \<Rightarrow> 's gateway_config \<Rightarrow> rpc_message list \<Rightarrow> ('s, 'l) stdio \<Rightarrow>
   string option \<times> ('s, 'l) stdio" where
  "observe_client ev c [] s = (None, s)"
| "observe_client ev c (m # ms) s =
     (if rm_Method m \<noteq> [] then
        (case client_request ev c m s of
           (Some reject, s') \<Rightarrow> (Some reject, s')
         | (None, s') \<Rightarrow> observe_client ev c ms s')
      else observe_client ev c ms (client_response ev c m s))"

definition observeClientMessage ::
  "'l env \<Rightarrow> 's gateway_config \<Rightarrow> string \<Rightarrow> ('s, 'l) stdio \<Rightarrow> string option \<times> ('s, 'l) stdio" where
  "observeClientMessage ev c raw s =
     (case decodeMessages raw of
        Inl er \<Rightarrow> (None, s)
      | Inr messages \<Rightarrow> observe_client ev c messages s)"

subsection \<open>Server messages\<close>

definition server_request ::
  "'l env \<Rightarrow> 's gateway_config \<Rightarrow> rpc_message \<Rightarrow> ('s, 'l) stdio \<Rightarrow> ('s, 'l) stdio" where
  "server_request ev c m s =
     (case stdio_newPendingCall ev c m DirectionClientToServer None (st_gw s) of
        (call, g) \<Rightarrow>
          if length (rm_ID m) > 0 then rememberServer (rm_ID m) call (s\<lparr>st_gw := g\<rparr>)
          else s\<lparr>st_gw := snd (stdio_record ev c call OutcomeSuccess DirectionServerToClient [] None g)\<rparr>)"

definition server_response ::
  "'l env \<Rightarrow> 's gateway_config \<Rightarrow> rpc_message \<Rightarrow> ('s, 'l) stdio \<Rightarrow> ('s, 'l) stdio" where
  "server_response ev c m s =
     (if length (rm_ID m) > 0 then
        (case takeClient (rm_ID m) s of
           (Some call, s') \<Rightarrow>
             s'\<lparr>st_gw := snd (stdio_record ev c call (outcomeForRPCError (rm_Error m))
                              DirectionServerToClient (rm_Result m) (rm_Error m) (st_gw s'))\<rparr>
         | (None, s') \<Rightarrow> s')
      else s)"

fun observe_server ::
  "'l env \<Rightarrow> 's gateway_config \<Rightarrow> rpc_message list \<Rightarrow> ('s, 'l) stdio \<Rightarrow> ('s, 'l) stdio" where
  "observe_server ev c [] s = s"
| "observe_server ev c (m # ms) s =
     observe_server ev c ms
       (if rm_Method m \<noteq> [] then server_request ev c m s else server_response ev c m s)"

definition observeServerMessage ::
  "'l env \<Rightarrow> 's gateway_config \<Rightarrow> string \<Rightarrow> ('s, 'l) stdio \<Rightarrow> ('s, 'l) stdio" where
  "observeServerMessage ev c raw s =
     (case decodeMessages raw of
        Inl er \<Rightarrow> finalizeCalls ev c OutcomeMalformedUpstreamResponse (takeClients ev s)
      | Inr messages \<Rightarrow> observe_server ev c messages s)"

definition cleanup_tick ::
  "'l env \<Rightarrow> 's gateway_config \<Rightarrow> go_time \<Rightarrow> duration \<Rightarrow> ('s, 'l) stdio \<Rightarrow> ('s, 'l) stdio" where
  "cleanup_tick ev c now ttl s =
     (if ttl \<le> 0 then s
      else
        (case takeExpired ev now ttl s of
           (calls, s') \<Rightarrow>
             if length calls > 0 then finalizeCalls ev c OutcomeTimeout (calls, s') else s'))"

subsection \<open>Running\<close>

datatype pipe = Reading | Holding string | Stopped

record ('s, 'l) stdio_run =
  run_proxy :: "('s, 'l) stdio"
  run_client :: pipe
  run_server :: pipe
  run_upstream :: "string list"
  run_stdout :: "string list"
  run_ended :: bool

text \<open>
  \<open>pipeClientToServer\<close> observes a line and holds it until it is written upstream, or answers it;
  \<open>pipeServerToClient\<close> writes a line to the client and holds it until it is observed. \<open>End\<close> is
  what \<open>Run\<close> does when the context is cancelled or the upstream exits; pipes that do not stop in
  time go on.
\<close>

inductive stdio_step ::
  "'l env \<Rightarrow> 's gateway_config \<Rightarrow> ('s, 'l) stdio_run \<Rightarrow> ('s, 'l) stdio_run \<Rightarrow> bool"
  for ev c where
  ClientForward: "\<lbrakk>run_client r = Reading; observeClientMessage ev c line (run_proxy r) = (None, p)\<rbrakk> \<Longrightarrow>
      stdio_step ev c r (r\<lparr>run_proxy := p, run_client := Holding line\<rparr>)"
| ClientReject: "\<lbrakk>run_client r = Reading;
        observeClientMessage ev c line (run_proxy r) = (Some reject, p)\<rbrakk> \<Longrightarrow>
      stdio_step ev c r (r\<lparr>run_proxy := p, run_stdout := run_stdout r @ [reject]\<rparr>)"
| ClientWrite: "run_client r = Holding line \<Longrightarrow>
      stdio_step ev c r (r\<lparr>run_client := Reading, run_upstream := run_upstream r @ [line]\<rparr>)"
| ClientWriteError: "run_client r = Holding line \<Longrightarrow>
      stdio_step ev c r (r\<lparr>run_client := Stopped,
        run_proxy := finalizeAll ev c OutcomeUpstreamError (run_proxy r)\<rparr>)"
| ClientReadError: "run_client r = Reading \<Longrightarrow>
      stdio_step ev c r (r\<lparr>run_client := Stopped,
        run_proxy := finalizeAll ev c OutcomeClientDisconnect (run_proxy r)\<rparr>)"
| ClientStop: "run_client r = Reading \<Longrightarrow> stdio_step ev c r (r\<lparr>run_client := Stopped\<rparr>)"
| ServerForward: "run_server r = Reading \<Longrightarrow>
      stdio_step ev c r (r\<lparr>run_server := Holding line, run_stdout := run_stdout r @ [line]\<rparr>)"
| ServerObserve: "run_server r = Holding line \<Longrightarrow>
      stdio_step ev c r (r\<lparr>run_server := Reading,
        run_proxy := observeServerMessage ev c line (run_proxy r)\<rparr>)"
| ServerWriteError: "run_server r = Reading \<Longrightarrow>
      stdio_step ev c r (r\<lparr>run_server := Stopped,
        run_proxy := finalizeAll ev c OutcomeClientDisconnect (run_proxy r)\<rparr>)"
| ServerReadError: "run_server r = Reading \<Longrightarrow>
      stdio_step ev c r (r\<lparr>run_server := Stopped,
        run_proxy := finalizeAll ev c OutcomeUpstreamError (run_proxy r)\<rparr>)"
| ServerStop: "run_server r = Reading \<Longrightarrow> stdio_step ev c r (r\<lparr>run_server := Stopped\<rparr>)"
| Tick: "\<not> run_ended r \<Longrightarrow>
      stdio_step ev c r (r\<lparr>run_proxy := cleanup_tick ev c now pendingCallTTL (run_proxy r)\<rparr>)"
| End: "\<lbrakk>\<not> run_ended r; outcome = OutcomeCancelled \<or> outcome = OutcomeUpstreamError\<rbrakk> \<Longrightarrow>
      stdio_step ev c r (r\<lparr>run_ended := True,
        run_proxy := finalizeAll ev c outcome (run_proxy r)\<rparr>)"

definition stdio_start :: "('s, 'l) gateway \<Rightarrow> ('s, 'l) stdio_run" where
  "stdio_start g =
     \<lparr>run_proxy = newRPCState g, run_client = Reading, run_server = Reading, run_upstream = [],
      run_stdout = [], run_ended = False\<rparr>"

subsection \<open>Every operation is accounted for\<close>

definition st_ids :: "('s, 'l) stdio \<Rightarrow> string multiset" where
  "st_ids s = pending_ids (st_clientPending s) + pending_ids (st_serverPending s)"

definition stdio_ok :: "'s gateway_config \<Rightarrow> ('s, 'l) stdio \<Rightarrow> bool" where
  "stdio_ok c s \<longleftrightarrow>
     op_ledger (st_ids s) (st_gw s) \<and>
     pending_wf (st_clientPending s) \<and> pending_wf (st_serverPending s) \<and>
     list_all (call_ok c) (map snd (st_clientPending s)) \<and>
     list_all (call_ok c) (map snd (st_serverPending s))"

interpretation sr: call_recorder c "stdio_record ev c"
  unfolding stdio_record_def by (rule gw.call_recorder_axioms)

lemma newPendingCall_ledger:
  assumes "stdio_newPendingCall ev c m d p g = (call, g')"
  shows "call_ok c call" "op_ledger (op_ids [call] + ids) g' = op_ledger ids g" "g_lost g' = g_lost g"
proof -
  obtain oo h where s: "start_operation ev c
      (stdio_entry c (rm_Method m) (jsonRPCID (rm_ID m)) (md_Name (metadata_of m)) (rm_Params m) p)
      (ev_clock ev (g_n g)) g = (oo, h)" by fastforce
  with assms have "h = g'" "pc_operation call = oo" by (auto simp: stdio_newPendingCall_def)
  with start_operation_ledger [OF s] show "call_ok c call" "g_lost g' = g_lost g"
    "op_ledger (op_ids [call] + ids) g' = op_ledger ids g"
    by (auto simp: call_ok_def)
qed

lemma rememberClient_ok:
  assumes "stdio_ok c s" "call_ok c call" "op_ledger (op_ids [call] + st_ids s) g"
  shows "stdio_ok c (rememberClient i call (s\<lparr>st_gw := g\<rparr>))"
proof -
  let ?p = "st_clientPending s"
  have "pending_ids (map_put i call ?p) + mset (replaced i ?p) = op_ids [call] + pending_ids ?p"
    using assms(1) by (intro map_put_ids) (simp add: stdio_ok_def)
  then have eq: "op_ids [call] + st_ids s =
      pending_ids (map_put i call ?p) + pending_ids (st_serverPending s) + mset (replaced i ?p)"
    by (simp add: st_ids_def ac_simps)
  from assms(1,2) assms(3) [unfolded eq] show ?thesis
    by (simp add: stdio_ok_def rememberClient_def st_ids_def op_ledger_lost map_put_wf
        list_all_map_put)
qed

lemma rememberServer_ok:
  assumes "stdio_ok c s" "call_ok c call" "op_ledger (op_ids [call] + st_ids s) g"
  shows "stdio_ok c (rememberServer i call (s\<lparr>st_gw := g\<rparr>))"
proof -
  let ?p = "st_serverPending s"
  have "pending_ids (map_put i call ?p) + mset (replaced i ?p) = op_ids [call] + pending_ids ?p"
    using assms(1) by (intro map_put_ids) (simp add: stdio_ok_def)
  then have eq: "op_ids [call] + st_ids s =
      pending_ids (st_clientPending s) + pending_ids (map_put i call ?p) + mset (replaced i ?p)"
    by (simp add: st_ids_def ac_simps)
  from assms(1,2) assms(3) [unfolded eq] show ?thesis
    by (simp add: stdio_ok_def rememberServer_def st_ids_def op_ledger_lost map_put_wf
        list_all_map_put)
qed

lemma takeClient_ok:
  assumes "stdio_ok c s" "takeClient i s = (r, s')"
  shows "(case r of None \<Rightarrow> s' = s
     | Some call \<Rightarrow> call_ok c call \<and>
         (\<forall>g. op_ledger (st_ids s') g \<longrightarrow> stdio_ok c (s'\<lparr>st_gw := g\<rparr>)) \<and>
         op_ledger (op_ids [call] + st_ids s') (st_gw s'))"
proof (cases r)
  case None
  with assms show ?thesis
    using take_none [of "st_clientPending s" i] by (auto simp: takeClient_def)
next
  case (Some call)
  with assms have s': "map_of (st_clientPending s) i = Some call"
    "s' = s\<lparr>st_clientPending := delete_key i (st_clientPending s)\<rparr>" by (auto simp: takeClient_def)
  let ?p = "st_clientPending s"
  have "pending_ids ?p = op_ids [call] + pending_ids (delete_key i ?p)"
    using assms(1) s'(1) by (intro delete_ids) (simp_all add: stdio_ok_def)
  then have eq: "st_ids s = op_ids [call] + st_ids s'" by (simp add: st_ids_def s'(2) ac_simps)
  have "call_ok c call" using assms(1) s'(1) by (auto simp: stdio_ok_def intro: map_of_call_ok)
  moreover have "op_ledger (op_ids [call] + st_ids s') (st_gw s')"
    using assms(1) unfolding stdio_ok_def eq by (simp add: s'(2))
  moreover have "stdio_ok c (s'\<lparr>st_gw := g\<rparr>)" if "op_ledger (st_ids s') g" for g
  proof -
    have "list_all (call_ok c) (map snd (delete_key i ?p))" "pending_wf (delete_key i ?p)"
      using assms(1) by (simp_all add: stdio_ok_def delete_key_wf list_all_delete)
    with assms(1) that show ?thesis by (simp add: stdio_ok_def s'(2) st_ids_def)
  qed
  ultimately show ?thesis using Some by simp
qed

lemma takeServer_ok:
  assumes "stdio_ok c s" "takeServer i s = (r, s')"
  shows "(case r of None \<Rightarrow> s' = s
     | Some call \<Rightarrow> call_ok c call \<and>
         (\<forall>g. op_ledger (st_ids s') g \<longrightarrow> stdio_ok c (s'\<lparr>st_gw := g\<rparr>)) \<and>
         op_ledger (op_ids [call] + st_ids s') (st_gw s'))"
proof (cases r)
  case None
  with assms show ?thesis
    using take_none [of "st_serverPending s" i] by (auto simp: takeServer_def)
next
  case (Some call)
  with assms have s': "map_of (st_serverPending s) i = Some call"
    "s' = s\<lparr>st_serverPending := delete_key i (st_serverPending s)\<rparr>" by (auto simp: takeServer_def)
  let ?p = "st_serverPending s"
  have "pending_ids ?p = op_ids [call] + pending_ids (delete_key i ?p)"
    using assms(1) s'(1) by (intro delete_ids) (simp_all add: stdio_ok_def)
  then have eq: "st_ids s = op_ids [call] + st_ids s'" by (simp add: st_ids_def s'(2) ac_simps)
  have "call_ok c call" using assms(1) s'(1) by (auto simp: stdio_ok_def intro: map_of_call_ok)
  moreover have "op_ledger (op_ids [call] + st_ids s') (st_gw s')"
    using assms(1) unfolding stdio_ok_def eq by (simp add: s'(2))
  moreover have "stdio_ok c (s'\<lparr>st_gw := g\<rparr>)" if "op_ledger (st_ids s') g" for g
  proof -
    have "list_all (call_ok c) (map snd (delete_key i ?p))" "pending_wf (delete_key i ?p)"
      using assms(1) by (simp_all add: stdio_ok_def delete_key_wf list_all_delete)
    with assms(1) that show ?thesis by (simp add: stdio_ok_def s'(2) st_ids_def)
  qed
  ultimately show ?thesis using Some by simp
qed

text \<open>Each handler keeps the accounts.\<close>

lemma stdio_ok_gw:
  "\<lbrakk>stdio_ok c s; op_ledger (st_ids s) g\<rbrakk> \<Longrightarrow> stdio_ok c (s\<lparr>st_gw := g\<rparr>)"
  by (simp add: stdio_ok_def st_ids_def)

lemma record_ok:
  assumes "stdio_ok c s" "call_ok c call" "op_ledger (op_ids [call] + st_ids s) g"
  shows "stdio_ok c (s\<lparr>st_gw := snd (stdio_record ev c call oc d r x g)\<rparr>)"
  using assms by (intro stdio_ok_gw) (simp_all only: sr.settles_snd)

lemma client_request_ok:
  assumes "stdio_ok c s"
  shows "stdio_ok c (snd (client_request ev c m s))"
proof -
  let ?n = "md_Name (metadata_of m)"
  define d where "d = stdio_evaluatePolicy c (md_Method (metadata_of m)) ?n"
  obtain call g0 where n: "stdio_newPendingCall ev c m DirectionServerToClient
      (auditPolicyEvidence d) (st_gw s) = (call, g0)" by fastforce
  define g1 where "g1 = recordPolicyDecision c d g0"
  obtain ok g2 where l: "(if rm_Method m = ''tools/call''
      then limiter_allow ev (gc_ClientID c) ?n g1 else (True, g1)) = (ok, g2)" by fastforce
  have led: "op_ledger (op_ids [call] + st_ids s) g1"
    using assms newPendingCall_ledger(2) [OF n] by (simp add: g1_def stdio_ok_def del: op_ids_simps)
  have "g2 = g1 \<or> g2 = snd (limiter_allow ev (gc_ClientID c) ?n g1)"
    using l by (metis snd_conv)
  with led have led2: "op_ledger (op_ids [call] + st_ids s) g2" by (auto simp del: op_ids_simps)
  note ok' = newPendingCall_ledger(1) [OF n]
  have r: "snd (client_request ev c m s) \<in>
    {s\<lparr>st_gw := snd (stdio_record ev c call OutcomeDenied DirectionClientToServer []
        (Some (policyError d)) g1)\<rparr>,
     s\<lparr>st_gw := snd (stdio_record ev c call OutcomeRateLimited DirectionClientToServer []
        (Some rateLimitError) (rate_rejected c (gc_ClientID c) ?n g2))\<rparr>,
     rememberClient (rm_ID m) call (s\<lparr>st_gw := g2\<rparr>),
     s\<lparr>st_gw := snd (stdio_record ev c call OutcomeSuccess DirectionClientToServer [] None g2)\<rparr>}"
    unfolding client_request_def Let_def d_def [symmetric] n prod.case g1_def [symmetric] l by simp
  have led3: "op_ledger (op_ids [call] + st_ids s) (rate_rejected c (gc_ClientID c) ?n g2)"
    using led2 by (simp del: op_ids_simps)
  from r show ?thesis
    using record_ok [OF assms ok' led] record_ok [OF assms ok' led2] record_ok [OF assms ok' led3]
      rememberClient_ok [OF assms ok' led2] by auto
qed

lemma client_response_ok:
  assumes "stdio_ok c s"
  shows "stdio_ok c (client_response ev c m s)"
proof (cases "length (rm_ID m) > 0")
  case True
  obtain r s' where t: "takeServer (rm_ID m) s = (r, s')" by fastforce
  from takeServer_ok [OF assms t] t True assms show ?thesis
    by (cases r) (auto simp: client_response_def sr.settles_snd simp del: op_ids_simps)
qed (use assms in \<open>simp add: client_response_def\<close>)

lemma server_response_ok:
  assumes "stdio_ok c s"
  shows "stdio_ok c (server_response ev c m s)"
proof (cases "length (rm_ID m) > 0")
  case True
  obtain r s' where t: "takeClient (rm_ID m) s = (r, s')" by fastforce
  from takeClient_ok [OF assms t] t True assms show ?thesis
    by (cases r) (auto simp: server_response_def sr.settles_snd simp del: op_ids_simps)
qed (use assms in \<open>simp add: server_response_def\<close>)

lemma server_request_ok:
  assumes "stdio_ok c s"
  shows "stdio_ok c (server_request ev c m s)"
proof -
  obtain call g where n: "stdio_newPendingCall ev c m DirectionClientToServer None (st_gw s) = (call, g)"
    by fastforce
  have "op_ledger (op_ids [call] + st_ids s) g"
    using assms newPendingCall_ledger(2) [OF n] by (simp add: stdio_ok_def del: op_ids_simps)
  with newPendingCall_ledger(1) [OF n] n assms show ?thesis
    by (simp add: server_request_def rememberServer_ok record_ok del: op_ids_simps)
qed

lemma observe_client_ok:
  "\<lbrakk>stdio_ok c s; observe_client ev c ms s = (r, s')\<rbrakk> \<Longrightarrow> stdio_ok c s'"
proof (induction ms arbitrary: s)
  case (Cons m ms)
  show ?case
  proof (cases "rm_Method m = []")
    case True
    with Cons client_response_ok [OF Cons.prems(1)] show ?thesis by auto
  next
    case False
    obtain q t where t: "client_request ev c m s = (q, t)" by fastforce
    with client_request_ok [OF Cons.prems(1), of ev m] have "stdio_ok c t" by simp
    with Cons t False show ?thesis by (cases q) auto
  qed
qed simp

lemma observe_server_ok: "stdio_ok c s \<Longrightarrow> stdio_ok c (observe_server ev c ms s)"
  by (induction ms arbitrary: s) (simp_all add: server_request_ok server_response_ok)

text \<open>Calls taken out of the maps and finalized.\<close>

lemma finalizeCalls_ok:
  assumes "pending_wf (st_clientPending s)" "pending_wf (st_serverPending s)"
    "list_all (call_ok c) (map snd (st_clientPending s))"
    "list_all (call_ok c) (map snd (st_serverPending s))"
    "list_all (call_ok c) calls" "op_ledger (op_ids calls + st_ids s) (st_gw s)"
  shows "stdio_ok c (finalizeCalls ev c oc (calls, s))"
  using assms sr.finalize_each_settles [OF assms(5), where oc = "\<lambda>call. oc"
      and d = pc_completionDirection and r = "\<lambda>call. []" and x = "\<lambda>call. None"
      and g = "st_gw s" and ev = ev]
  by (simp add: finalizeCalls_def stdio_ok_def st_ids_def)

lemma finalizeAll_ok:
  assumes "stdio_ok c s" "fair_order ev"
  shows "stdio_ok c (finalizeAll ev c oc s)"
  unfolding finalizeAll_def takeAll_def
  by (rule finalizeCalls_ok)
    (use assms in \<open>simp_all add: stdio_ok_def st_ids_def pending_wf_def order_ids\<close>)

lemma takeClients_ok:
  assumes "stdio_ok c s" "fair_order ev"
  shows "stdio_ok c (finalizeCalls ev c oc (takeClients ev s))"
  unfolding takeClients_def
  by (rule finalizeCalls_ok)
    (use assms in \<open>simp_all add: stdio_ok_def st_ids_def pending_wf_def order_ids\<close>)

lemma op_ids_filter:
  "op_ids (map f (filter P xs)) + op_ids (map f (filter (\<lambda>x. \<not> P x) xs)) = op_ids (map f xs)"
  by (induction xs) (simp_all add: ac_simps)

lemma pending_wf_filter: "pending_wf p \<Longrightarrow> pending_wf (filter P p)"
  by (simp add: pending_wf_def sorted_filter distinct_map_filter)

lemma takeExpired_ok:
  assumes "stdio_ok c s" "fair_order ev" "takeExpired ev now ttl s = (calls, s')"
  shows "stdio_ok c (finalizeCalls ev c oc (calls, s'))"
proof -
  let ?P = "expired (now - ttl)"
  have calls: "calls = ev_order ev (g_n (st_gw s)) (map snd (filter ?P (st_clientPending s))) @
      ev_order ev (g_n (st_gw s)) (map snd (filter ?P (st_serverPending s)))"
    and s': "s' = s\<lparr>st_clientPending := filter (\<lambda>e. \<not> ?P e) (st_clientPending s),
      st_serverPending := filter (\<lambda>e. \<not> ?P e) (st_serverPending s)\<rparr>"
    using assms(3) by (simp_all add: takeExpired_def Let_def)
  have "op_ids calls + st_ids s' = st_ids s"
    using op_ids_filter [of snd ?P "st_clientPending s"] op_ids_filter [of snd ?P "st_serverPending s"]
    by (simp add: st_ids_def calls s' order_ids [OF assms(2)] ac_simps)
  then have led: "op_ledger (op_ids calls + st_ids s') (st_gw s')"
    using assms(1) by (simp add: stdio_ok_def s' del: op_ids_simps)
  show ?thesis
  proof (rule finalizeCalls_ok [OF _ _ _ _ _ led])
    show "list_all (call_ok c) calls"
      using assms(1) by (simp add: calls stdio_ok_def list_all_filter order_ids(2) [OF assms(2)])
  qed (use assms(1) in \<open>simp_all add: s' stdio_ok_def pending_wf_filter list_all_filter\<close>)
qed

lemma cleanup_ok:
  assumes "stdio_ok c s" "fair_order ev"
  shows "stdio_ok c (cleanup_tick ev c now ttl s)"
proof -
  obtain calls s' where t: "takeExpired ev now ttl s = (calls, s')" by fastforce
  from takeExpired_ok [OF assms t] have "stdio_ok c (finalizeCalls ev c OutcomeTimeout (calls, s'))" .
  moreover have "stdio_ok c s'" if "calls = []"
    using takeExpired_ok [OF assms t, of OutcomeTimeout] that by (simp add: finalizeCalls_def)
  ultimately show ?thesis using assms(1) t by (simp add: cleanup_tick_def)
qed

lemma stdio_step_ok:
  assumes "stdio_step ev c r r'" "stdio_ok c (run_proxy r)" "fair_order ev"
  shows "stdio_ok c (run_proxy r')"
  using assms(1)
proof cases
  case (ClientForward line p)
  with assms show ?thesis
    by (auto simp: observeClientMessage_def split: sum.splits dest: observe_client_ok)
next
  case (ClientReject line reject p)
  with assms show ?thesis
    by (auto simp: observeClientMessage_def split: sum.splits dest: observe_client_ok)
next
  case (ServerObserve line)
  with assms show ?thesis
    by (auto simp: observeServerMessage_def observe_server_ok takeClients_ok split: sum.splits)
qed (use assms in \<open>simp_all add: finalizeAll_ok cleanup_ok\<close>)

definition fresh_gateway :: "('s, 'l) gateway \<Rightarrow> bool" where
  "fresh_gateway g \<longleftrightarrow> g_accepted g = [] \<and> g_finals g = [] \<and> g_lost g = []"

lemma stdio_start_ok: "fresh_gateway g \<Longrightarrow> stdio_ok c (run_proxy (stdio_start g))"
  by (simp add: fresh_gateway_def stdio_start_def newRPCState_def stdio_ok_def op_ledger_def
      st_ids_def pending_wf_def)

lemma stdio_reach_ok:
  assumes "(stdio_step ev c)\<^sup>*\<^sup>* (stdio_start g) r" "fresh_gateway g" "fair_order ev"
  shows "stdio_ok c (run_proxy r)"
  using assms(1)
  by (induction rule: rtranclp_induct) (simp_all add: stdio_start_ok assms stdio_step_ok)

text \<open>
  C9: The accounts of the stdio proxy balance. After any interleaving of the two pipes, the
  cleanup loop and shutdown, with any read and write errors, each operation the proxy started
  has had exactly one \<open>Finalize\<close> call, or is still pending, or was dropped because a later
  request reused its identifier. So no operation is finalized twice when the drawn identifiers
  are distinct.
\<close>
theorem stdio_accounts:
  assumes "(stdio_step ev c)\<^sup>*\<^sup>* (stdio_start g) r" "fresh_gateway g" "fair_order ev"
  defines "s \<equiv> run_proxy r"
  shows "mset (g_accepted (st_gw s)) = mset (map fst (g_finals (st_gw s))) +
      pending_ids (st_clientPending s) + pending_ids (st_serverPending s) + mset (g_lost (st_gw s)) \<and>
    (distinct (g_accepted (st_gw s)) \<longrightarrow> distinct (map fst (g_finals (st_gw s))))"
proof -
  have "stdio_ok c s" unfolding s_def using assms(1-3) by (rule stdio_reach_ok)
  then have *: "mset (g_accepted (st_gw s)) = mset (map fst (g_finals (st_gw s))) +
      (pending_ids (st_clientPending s) + pending_ids (st_serverPending s) + mset (g_lost (st_gw s)))"
    by (simp add: stdio_ok_def op_ledger_def st_ids_def ac_simps)
  then have "mset (map fst (g_finals (st_gw s))) \<subseteq># mset (g_accepted (st_gw s))" by simp
  from distinct_submset [OF this] * show ?thesis by (auto simp: ac_simps)
qed

subsection \<open>What reaches the upstream\<close>

definition message_allowed :: "'s gateway_config \<Rightarrow> rpc_message \<Rightarrow> bool" where
  "message_allowed c m \<longleftrightarrow>
     rm_Method m = [] \<or> Allowed (stdio_evaluatePolicy c (rm_Method m) (md_Name (metadata_of m)))"

definition line_allowed :: "'s gateway_config \<Rightarrow> string \<Rightarrow> bool" where
  "line_allowed c line \<longleftrightarrow>
     (case decodeMessages line of Inl er \<Rightarrow> True | Inr ms \<Rightarrow> list_all (message_allowed c) ms)"

lemma metadata_Method [simp]: "md_Method (metadata_of m) = rm_Method m"
  by (simp add: metadata_of_def MetadataFromMessage_def)

lemma client_request_None:
  "client_request ev c m s = (None, s') \<Longrightarrow> message_allowed c m"
  by (auto simp: client_request_def message_allowed_def Let_def split: prod.splits if_splits)

lemma observe_client_None:
  "observe_client ev c ms s = (None, s') \<Longrightarrow> list_all (message_allowed c) ms"
proof (induction ms arbitrary: s)
  case (Cons m ms)
  show ?case
  proof (cases "rm_Method m = []")
    case True
    with Cons show ?thesis by (simp add: message_allowed_def)
  next
    case False
    with Cons.prems obtain t where "client_request ev c m s = (None, t)"
      "observe_client ev c ms t = (None, s')" by (auto split: prod.splits option.splits)
    with Cons.IH client_request_None show ?thesis by auto
  qed
qed simp

lemma observeClient_None: "observeClientMessage ev c line s = (None, s') \<Longrightarrow> line_allowed c line"
  by (auto simp: observeClientMessage_def line_allowed_def observe_client_None split: sum.splits)

definition forwarded :: "('s, 'l) stdio_run \<Rightarrow> string list" where
  "forwarded r = run_upstream r @ (case run_client r of Holding line \<Rightarrow> [line] | _ \<Rightarrow> [])"

lemma stdio_step_forwarded:
  assumes "stdio_step ev c r r'" "list_all (line_allowed c) (forwarded r)"
  shows "list_all (line_allowed c) (forwarded r')"
  using assms
  by cases (auto simp: forwarded_def observeClient_None split: pipe.splits)

text \<open>
  C12: The policy stands between the client and the upstream. Over all interleavings, a line the
  proxy writes to the upstream either does not decode as JSON-RPC or consists of messages each
  of which the policy allows: one denied message in a batch holds back the whole line.
\<close>
theorem stdio_forwards_allowed:
  assumes "(stdio_step ev c)\<^sup>*\<^sup>* (stdio_start g) r" "line \<in> set (run_upstream r)"
  shows "line_allowed c line"
proof -
  have "list_all (line_allowed c) (forwarded r)"
    using assms(1)
  proof (induction rule: rtranclp_induct)
    case base
    show ?case by (simp add: forwarded_def stdio_start_def)
  next
    case (step y z)
    then show ?case by (blast intro: stdio_step_forwarded)
  qed
  with assms(2) show ?thesis by (simp add: forwarded_def list_all_iff)
qed

subsection \<open>Shutdown\<close>

lemma finalizeAll_empty:
  "st_clientPending (finalizeAll ev c oc s) = []" "st_serverPending (finalizeAll ev c oc s) = []"
  by (simp_all add: finalizeAll_def takeAll_def finalizeCalls_def)


subsection \<open>Examples\<close>

definition ls_line :: "string \<Rightarrow> string" where
  "ls_line i = call_text i ls_params"

definition demo_stdio :: "(entry list, unit) stdio" where
  "demo_stdio = newRPCState mem_gateway"

lemma mem_fair: "fair_order mem_env"
  by (simp add: fair_order_def mem_env_def)

lemma mem_fresh: "fresh_gateway mem_gateway"
  by (simp add: fresh_gateway_def mem_gateway_def)

text \<open>A client sends one request, the proxy forwards it, and shuts down before the reply.\<close>

lemma demo_forward:
  "case observeClientMessage mem_env mem_config (ls_line ''1'') demo_stdio of
     (r, s) \<Rightarrow> r = None \<and> g_accepted (st_gw s) = [''u0''] \<and>
       map fst (st_clientPending s) = [''1''] \<and> g_finals (st_gw s) = []"
  by code_simp

lemma stdio_demo_run:
  obtains r where "(stdio_step mem_env mem_config)\<^sup>*\<^sup>* (stdio_start mem_gateway) r"
    "run_upstream r = [ls_line ''1'']" "g_accepted (st_gw (run_proxy r)) = [''u0'']"
    "run_ended r = False"
proof -
  let ?r0 = "stdio_start mem_gateway :: (entry list, unit) stdio_run"
  obtain p where p: "observeClientMessage mem_env mem_config (ls_line ''1'') demo_stdio = (None, p)"
    "g_accepted (st_gw p) = [''u0'']"
    using demo_forward by (auto split: prod.splits)
  let ?r1 = "?r0\<lparr>run_proxy := p, run_client := Holding (ls_line ''1'')\<rparr>"
  have "stdio_step mem_env mem_config ?r0 ?r1"
    by (rule stdio_step.ClientForward) (use p in \<open>simp_all add: stdio_start_def demo_stdio_def\<close>)
  moreover have "stdio_step mem_env mem_config ?r1
      (?r1\<lparr>run_client := Reading, run_upstream := run_upstream ?r1 @ [ls_line ''1'']\<rparr>)"
    by (rule stdio_step.ClientWrite) simp
  ultimately have "(stdio_step mem_env mem_config)\<^sup>*\<^sup>* ?r0
      (?r1\<lparr>run_client := Reading, run_upstream := run_upstream ?r1 @ [ls_line ''1'']\<rparr>)"
    by (meson r_into_rtranclp rtranclp_trans)
  then show thesis by (rule that) (use p in \<open>simp_all add: stdio_start_def\<close>)
qed

theorem stdio_accounts_witness:
  "\<exists>r. (stdio_step mem_env mem_config)\<^sup>*\<^sup>* (stdio_start mem_gateway) r \<and>
     mset [''u0''] = mset (map fst (g_finals (st_gw (run_proxy r)))) +
       pending_ids (st_clientPending (run_proxy r)) + pending_ids (st_serverPending (run_proxy r)) +
       mset (g_lost (st_gw (run_proxy r)))"
proof -
  obtain r where r: "(stdio_step mem_env mem_config)\<^sup>*\<^sup>* (stdio_start mem_gateway) r"
    "g_accepted (st_gw (run_proxy r)) = [''u0'']" by (rule stdio_demo_run)
  from stdio_accounts [OF r(1) mem_fresh mem_fair] r show ?thesis by metis
qed

theorem stdio_forwards_allowed_witness:
  "line_allowed mem_config (ls_line ''1'') \<and> \<not> line_allowed mem_config (call_text ''1'' rm_params)"
proof
  obtain r where r: "(stdio_step mem_env mem_config)\<^sup>*\<^sup>* (stdio_start mem_gateway) r"
    "run_upstream r = [ls_line ''1'']" by (rule stdio_demo_run)
  show "line_allowed mem_config (ls_line ''1'')"
    by (rule stdio_forwards_allowed [OF r(1)]) (simp add: r(2))
  show "\<not> line_allowed mem_config (call_text ''1'' rm_params)" by code_simp
qed


text \<open>
  A reused request identifier loses an operation. When a client sends two requests with one
  identifier before the first is answered, the second replaces the first in the pending map: both
  are forwarded, and after the reply and shutdown only the second has a terminal record.
\<close>
lemma stdio_id_reuse:
  "case observeClientMessage mem_env mem_config (ls_line ''1'') demo_stdio of
     (r1, s1) \<Rightarrow>
       (case observeClientMessage mem_env mem_config (ls_line ''1'') s1 of
          (r2, s2) \<Rightarrow>
            (let s3 = observeServerMessage mem_env mem_config
                        (obj [(''id'', ''1''), (''result'', ''0'')]) s2;
                 s4 = finalizeAll mem_env mem_config OutcomeCancelled s3
             in r1 = None \<and> r2 = None \<and> g_accepted (st_gw s4) = [''u0'', ''u2''] \<and>
                map fst (g_finals (st_gw s4)) = [''u2''] \<and> g_lost (st_gw s4) = [''u0''] \<and>
                map e_AuditOperationID (w_store (g_world (st_gw s4))) = [''u2'']))"
  by code_simp

definition rpc :: "string \<Rightarrow> string \<Rightarrow> string \<Rightarrow> rpc_message" where
  "rpc i method params =
     \<lparr>rm_ID = i, rm_Method = method, rm_Params = params, rm_Result = [], rm_Error = None\<rparr>"

definition error_line :: string where
  "error_line = obj [(''id'', ''1''), (''method'', quote_string ''tools/call''),
     (''params'', rm_params), (''error'', ''1'')]"

definition twin_line :: string where
  "twin_line = obj [(''id'', ''1''), (''method'', quote_string ''tools/call''),
     (''params'', rm_params), (''Method'', quote_string ''ping'')]"

lemma decode_rm: "decodeMessages (call_text ''1'' rm_params) = Inr [rpc ''1'' ''tools/call'' rm_params]"
  by code_simp

lemma decode_error_line: "\<not> isl (decodeMessages error_line) = False"
  by code_simp

lemma decode_twin: "decodeMessages twin_line = Inr [rpc ''1'' ''ping'' rm_params]"
  by code_simp

lemma rm_denied: "\<not> message_allowed mem_config (rpc i ''tools/call'' rm_params)"
  by code_simp

lemma observe_rm:
  "fst (observe_client mem_env mem_config [rpc ''1'' ''tools/call'' rm_params] demo_stdio) \<noteq> None"
proof
  assume "fst (observe_client mem_env mem_config [rpc ''1'' ''tools/call'' rm_params] demo_stdio) = None"
  then obtain s where "observe_client mem_env mem_config [rpc ''1'' ''tools/call'' rm_params] demo_stdio = (None, s)"
    by (metis prod.collapse)
  from observe_client_None [OF this] rm_denied show False by simp
qed

lemma observe_ping:
  "fst (observe_client mem_env mem_config [rpc ''1'' ''ping'' rm_params] demo_stdio) = None"
  by code_simp

lemma strict_error_line:
  "case DecodeMessages error_line of Inr [m] \<Rightarrow> msg_Method m = ''tools/call'' | _ \<Rightarrow> False"
  by code_simp


text \<open>
  A denied message strands the messages before it. In a batch whose second message is denied,
  the line is not forwarded and the client gets one error response, but the first message stays
  pending although it never went upstream, until the cleanup records it as a timeout.
\<close>
lemma stdio_batch_strands:
  assumes "client_request ev c m s = (None, s1)" "rm_Method m \<noteq> []" "rm_ID m \<noteq> []"
    and "rm_Method m2 \<noteq> []" "\<not> message_allowed c m2"
  shows "\<exists>reject s2. observe_client ev c (m # m2 # ms) s = (Some reject, s2) \<and>
     rm_ID m \<in> fst ` set (st_clientPending s2)"
proof -
  obtain q s2 where q: "client_request ev c m2 s1 = (q, s2)" by fastforce
  have "q \<noteq> None" using client_request_None [of ev c m2 s1 s2] assms(5) q by (cases q) auto
  moreover have "st_clientPending s2 = st_clientPending s1"
    using q assms(5,4)
    by (auto simp: client_request_def Let_def message_allowed_def split: prod.splits)
  moreover have k: "i \<in> fst ` set (map_put i call p)" for i and call :: pendingCall and p
    using set_map_put_fst [of i call p] by simp
  moreover have "rm_ID m \<in> fst ` set (st_clientPending s1)"
    using assms(1,3)
    by (auto simp: k client_request_def Let_def rememberClient_def split: prod.splits if_splits)
  ultimately show ?thesis using q assms(1,2,4) by (cases q) simp_all
qed

end
