(* ===== verification/Go_Net.thy ===== *)
theory Go_Net
  imports Go_Http
begin

text \<open>
  The fragment of \<open>net\<close>, \<open>net/netip\<close> and \<open>net/url\<close> that the HTTP proxy's access lists and its
  target address use: host and port splitting, IPv6 literals, and \<open>url.Parse\<close> of the Go 1.26
  library under the module's Go 1.22 defaults. Only whether an operation fails is kept of the
  library's own error texts (\<open>net_failure\<close>).
\<close>

definition net_failure :: err where "net_failure = ''<net error>''"

subsection \<open>Positions\<close>

fun index_of :: "char \<Rightarrow> string \<Rightarrow> nat option" where
  "index_of c [] = None"
| "index_of c (x # xs) = (if x = c then Some 0 else map_option Suc (index_of c xs))"

definition last_index_of :: "char \<Rightarrow> string \<Rightarrow> nat option" where
  "last_index_of c s = map_option (\<lambda>i. length s - Suc i) (index_of c (rev s))"

definition count_char :: "char \<Rightarrow> string \<Rightarrow> nat" where
  "count_char c s = length (filter (\<lambda>x. x = c) s)"

subsection \<open>Host and port\<close>

text \<open>\<open>net.SplitHostPort\<close>: host and port, \<open>None\<close> for its errors.\<close>

definition SplitHostPort :: "string \<Rightarrow> (string \<times> string) option" where
  "SplitHostPort hostport =
     (case last_index_of CHR '':'' hostport of
        None \<Rightarrow> None
      | Some i \<Rightarrow>
          (case (if prefix ''['' hostport then
                   (case index_of CHR '']'' hostport of
                      None \<Rightarrow> None
                    | Some e \<Rightarrow>
                        if Suc e = i then Some (take (e - 1) (tl hostport), 1, Suc e) else None)
                 else if CHR '':'' \<in> set (take i hostport) then None
                 else Some (take i hostport, 0, 0)) of
             None \<Rightarrow> None
           | Some (host, j, k) \<Rightarrow>
               if CHR ''['' \<in> set (drop j hostport) \<or> CHR '']'' \<in> set (drop k hostport) then None
               else Some (host, drop (Suc i) hostport)))"

definition JoinHostPort :: "string \<Rightarrow> string \<Rightarrow> string" where
  "JoinHostPort host port =
     (if CHR '':'' \<in> set host then ''['' @ host @ '']:'' @ port else host @ '':'' @ port)"

subsection \<open>IPv6 literals\<close>

definition is_hex :: "char \<Rightarrow> bool" where "is_hex c \<longleftrightarrow> hex_val c \<noteq> None"

text \<open>Four decimal fields of at most three digits and 255, without leading zeros.\<close>

definition ipv4_field :: "string \<Rightarrow> bool" where
  "ipv4_field s \<longleftrightarrow>
     s \<noteq> [] \<and> list_all is_digit s \<and> length s \<le> 3 \<and> digits_value s \<le> 255 \<and>
     (length s > 1 \<longrightarrow> hd s \<noteq> CHR ''0'')"

fun split_on :: "char \<Rightarrow> string \<Rightarrow> string list" where
  "split_on c [] = [[]]"
| "split_on c (x # xs) =
     (if x = c then [] # split_on c xs
      else (case split_on c xs of [] \<Rightarrow> [[x]] | y # ys \<Rightarrow> (x # y) # ys))"

definition ipv4_fields :: "string \<Rightarrow> bool" where
  "ipv4_fields s \<longleftrightarrow> length (split_on CHR ''.'' s) = 4 \<and> list_all ipv4_field (split_on CHR ''.'' s)"

text \<open>
  The group loop of \<open>parseIPv6\<close>: \<open>n\<close> groups of the eight are still free, \<open>e\<close> says whether the
  ellipsis was seen. The result is the number of free groups at the end.
\<close>

fun ipv6_groups :: "nat \<Rightarrow> bool \<Rightarrow> string \<Rightarrow> (nat \<times> bool) option" where
  "ipv6_groups 0 e s = (if s = [] then Some (0, e) else None)"
| "ipv6_groups (Suc n) e s =
     (let ds = takeWhile is_hex s; rest = dropWhile is_hex s
      in if ds = [] \<or> length ds > 4 then None
         else if prefix ''.'' rest then
           (if (e \<or> n = 1) \<and> n \<ge> 1 \<and> ipv4_fields s then Some (n - 1, e) else None)
         else if rest = [] then Some (n, e)
         else if hd rest \<noteq> CHR '':'' \<or> tl rest = [] then None
         else if hd (tl rest) = CHR '':'' then
           (if e then None
            else if tl (tl rest) = [] then Some (n, True)
            else ipv6_groups n True (tl (tl rest)))
         else ipv6_groups n e (tl rest))"

definition parseIPv6 :: "string \<Rightarrow> bool" where
  "parseIPv6 s \<longleftrightarrow>
     (if s = ''::'' then True
      else
        (case (if prefix ''::'' s then ipv6_groups 8 True (drop 2 s) else ipv6_groups 8 False s) of
           None \<Rightarrow> False
         | Some (free, e) \<Rightarrow> if free > 0 then e else \<not> e))"

text \<open>\<open>net.ParseIP\<close> of a text with a colon: an IPv6 literal without a zone.\<close>

definition ParseIP6 :: "string \<Rightarrow> bool" where
  "ParseIP6 s \<longleftrightarrow> CHR ''%'' \<notin> set s \<and> parseIPv6 s"

subsection \<open>URLs\<close>

record url =
  u_Scheme :: string
  u_Opaque :: string
  u_User :: bool
  u_Host :: string
  u_Path :: string
  u_RawQuery :: string
  u_Fragment :: string

definition is_alpha :: "char \<Rightarrow> bool" where
  "is_alpha c \<longleftrightarrow> (let n = (of_char c :: nat) in 65 \<le> n \<and> n \<le> 90 \<or> 97 \<le> n \<and> n \<le> 122)"

text \<open>\<open>getScheme\<close>: the scheme and the rest; \<open>None\<close> for a missing scheme before a colon.\<close>

fun scheme_from :: "nat \<Rightarrow> string \<Rightarrow> string \<Rightarrow> string \<Rightarrow> (string \<times> string) option" where
  "scheme_from i acc whole [] = Some ([], whole)"
| "scheme_from i acc whole (c # cs) =
     (if is_alpha c then scheme_from (Suc i) (acc @ [c]) whole cs
      else if is_digit c \<or> c \<in> set ''+-.'' then
        (if i = 0 then Some ([], whole) else scheme_from (Suc i) (acc @ [c]) whole cs)
      else if c = CHR '':'' then (if i = 0 then None else Some (acc, cs))
      else Some ([], whole))"

datatype escape_mode = EncodePath | EncodeHost | EncodeZone | EncodeFragment

definition host_char :: "char \<Rightarrow> bool" where
  "host_char c \<longleftrightarrow> is_alpha c \<or> is_digit c \<or> c \<in> set ''!$&()*+,;=:[]<>-_.~'' \<or>
     c = CHR 0x27 \<or> c = dquote"

fun unescape :: "escape_mode \<Rightarrow> string \<Rightarrow> string option" where
  "unescape mode [] = Some []"
| "unescape mode (c # cs) =
     (if c = CHR ''%'' then
        (case cs of
           a # b # r \<Rightarrow>
             (case (hex_val a, hex_val b) of
                (Some x, Some y) \<Rightarrow>
                  if mode = EncodeHost \<and> x < 8 \<and> [a, b] \<noteq> ''25'' then None
                  else if mode = EncodeZone \<and> [a, b] \<noteq> ''25'' \<and> 16 * x + y \<noteq> 0x20 \<and>
                          \<not> host_char (char_of (16 * x + y)) then None
                  else map_option ((#) (char_of (16 * x + y))) (unescape mode r)
              | _ \<Rightarrow> None)
         | _ \<Rightarrow> None)
      else if (mode = EncodeHost \<or> mode = EncodeZone) \<and> of_char c < (0x80 :: nat) \<and> \<not> host_char c
      then None
      else map_option ((#) c) (unescape mode cs))"

definition validOptionalPort :: "string \<Rightarrow> bool" where
  "validOptionalPort s \<longleftrightarrow> s = [] \<or> hd s = CHR '':'' \<and> list_all is_digit (tl s)"

definition bracket_address :: "string \<Rightarrow> bool" where
  "bracket_address s \<longleftrightarrow>
     (case Cut s CHR ''%'' of
        (a, z, zone) \<Rightarrow> CHR '':'' \<in> set a \<and> parseIPv6 a \<and> (zone \<longrightarrow> z \<noteq> []))"

definition unescape_bracket :: "string \<Rightarrow> string option" where
  "unescape_bracket h =
     (case Cut h CHR ''%'' of
        (a, z, zone) \<Rightarrow>
          if zone \<and> prefix ''25'' z
          then Option.bind (unescape EncodeHost a)
                 (\<lambda>x. map_option (\<lambda>y. x @ y) (unescape EncodeZone (CHR ''%'' # z)))
          else unescape EncodeHost h)"

definition parseHost :: "string \<Rightarrow> string option" where
  "parseHost host =
     (if prefix ''['' host then
        (case last_index_of CHR '']'' host of
           None \<Rightarrow> None
         | Some i \<Rightarrow>
             (let colonPort = drop (Suc i) host
              in if \<not> validOptionalPort colonPort then None
                 else
                   (case unescape_bracket (take (i - 1) (tl host)) of
                      None \<Rightarrow> None
                    | Some h \<Rightarrow>
                        if bracket_address h then Some (''['' @ h @ '']'' @ colonPort) else None)))
      else
        (case last_index_of CHR '':'' host of
           None \<Rightarrow> unescape EncodeHost host
         | Some i \<Rightarrow>
             if validOptionalPort (drop i host) then unescape EncodeHost host else None))"

definition valid_userinfo_char :: "char \<Rightarrow> bool" where
  "valid_userinfo_char c \<longleftrightarrow> is_alpha c \<or> is_digit c \<or> c \<in> set ''-._:~!$&()*+,;=%@'' \<or> c = CHR 0x27"

definition parseAuthority :: "string \<Rightarrow> (bool \<times> string) option" where
  "parseAuthority authority =
     (case last_index_of CHR ''@'' authority of
        None \<Rightarrow> map_option (\<lambda>h. (False, h)) (parseHost authority)
      | Some i \<Rightarrow>
          (case parseHost (drop (Suc i) authority) of
             None \<Rightarrow> None
           | Some h \<Rightarrow>
               if list_all valid_userinfo_char (take i authority) \<and>
                  unescape EncodePath (take i authority) \<noteq> None
               then Some (True, h) else None))"

definition parse_rest :: "url \<Rightarrow> string \<Rightarrow> url option" where
  "parse_rest u rest =
     (if \<not> prefix ''/'' rest then
        (if u_Scheme u \<noteq> [] then Some (u\<lparr>u_Opaque := rest\<rparr>)
         else if CHR '':'' \<in> set (fst (Cut rest CHR ''/'')) then None
         else map_option (\<lambda>p. u\<lparr>u_Path := p\<rparr>) (unescape EncodePath rest))
      else if (u_Scheme u \<noteq> [] \<or> \<not> prefix ''///'' rest) \<and> prefix ''//'' rest then
        (let a = takeWhile (\<lambda>c. c \<noteq> CHR ''/'') (drop 2 rest);
             r = dropWhile (\<lambda>c. c \<noteq> CHR ''/'') (drop 2 rest)
         in case parseAuthority a of
              None \<Rightarrow> None
            | Some (user, host) \<Rightarrow>
                map_option (\<lambda>p. u\<lparr>u_User := user, u_Host := host, u_Path := p\<rparr>)
                  (unescape EncodePath r))
      else map_option (\<lambda>p. u\<lparr>u_Path := p\<rparr>) (unescape EncodePath rest))"

definition ctl_char :: "char \<Rightarrow> bool" where
  "ctl_char c \<longleftrightarrow> of_char c < (0x20 :: nat) \<or> c = CHR 0x7F"

definition empty_url :: url where
  "empty_url = \<lparr>u_Scheme = [], u_Opaque = [], u_User = False, u_Host = [], u_Path = [],
     u_RawQuery = [], u_Fragment = []\<rparr>"

definition url_Parse :: "string \<Rightarrow> url option" where
  "url_Parse raw =
     (case Cut raw CHR ''#'' of
        (s, frag, has) \<Rightarrow>
          if list_ex ctl_char s then None
          else if s = ''*'' then Some (empty_url\<lparr>u_Path := ''*'', u_Fragment := frag\<rparr>)
          else
            (case scheme_from 0 [] s s of
               None \<Rightarrow> None
             | Some (scheme, r) \<Rightarrow>
                 (case Cut r CHR ''?'' of
                    (rest, query, q) \<Rightarrow>
                      (case parse_rest (empty_url\<lparr>u_Scheme := ToLower scheme, u_RawQuery := query\<rparr>) rest of
                         None \<Rightarrow> None
                       | Some u \<Rightarrow> map_option (\<lambda>f. u\<lparr>u_Fragment := f\<rparr>) (unescape EncodeFragment frag)))))"

text \<open>\<open>URL.Hostname\<close> and \<open>URL.Port\<close>.\<close>

definition strip_brackets :: "string \<Rightarrow> string" where
  "strip_brackets h =
     (if prefix ''['' h \<and> suffix '']'' h \<and> length h \<ge> 2 then butlast (tl h) else h)"

definition split_host :: "string \<Rightarrow> string \<times> string" where
  "split_host h =
     (case last_index_of CHR '':'' h of
        Some i \<Rightarrow>
          if validOptionalPort (drop i h) then (strip_brackets (take i h), drop (Suc i) h)
          else (strip_brackets h, [])
      | None \<Rightarrow> (strip_brackets h, []))"

definition Hostname :: "url \<Rightarrow> string" where "Hostname u = fst (split_host (u_Host u))"
definition Port :: "url \<Rightarrow> string" where "Port u = snd (split_host (u_Host u))"

subsection \<open>Facts\<close>

lemma index_of_None: "index_of c s = None \<longleftrightarrow> c \<notin> set s"
  by (induction s) auto

lemma last_index_of_None: "last_index_of c s = None \<longleftrightarrow> c \<notin> set s"
  by (simp add: last_index_of_def index_of_None)

lemma index_of_Some:
  "index_of c s = Some i \<Longrightarrow> s = take i s @ c # drop (Suc i) s \<and> c \<notin> set (take i s)"
  by (induction s arbitrary: i) (auto split: if_splits)

lemma last_index_of_Some:
  assumes "last_index_of c s = Some i"
  shows "s = take i s @ c # drop (Suc i) s \<and> c \<notin> set (drop (Suc i) s)"
proof -
  obtain j where j: "index_of c (rev s) = Some j" "i = length s - Suc j"
    using assms by (auto simp: last_index_of_def)
  note r = index_of_Some [OF j(1)]
  then have jl: "j < length s" by (metis index_of_None j(1) length_rev linorder_not_le option.distinct(1)
        order_refl take_all append_Nil2 drop_all append_eq_conv_conj list.distinct(1) append.right_neutral)
  have "drop (Suc i) s = rev (take j (rev s))"
    using jl j(2) by (simp add: take_rev Suc_diff_Suc)
  moreover have "take i s = rev (drop (Suc j) (rev s))"
    using j(2) by (simp add: drop_rev)
  moreover have "s = rev (drop (Suc j) (rev s)) @ c # rev (take j (rev s))"
    using r by (metis append.assoc append_Cons append_Nil rev_append rev_rev_ident rev.simps(2))
  ultimately show ?thesis using r by simp
qed

end
