(* ===== verification/Http_Access.thy ===== *)
theory Http_Access
  imports Go_Net Mcp
begin

text \<open>
  The parts of the HTTP proxy (\<open>internal/proxy/http.go\<close>) that look at one request without state:
  the browser origin and host allow lists, the headers that are copied to the upstream and back,
  path joining, and which JSON-RPC methods may be sent again.
\<close>

subsection \<open>Origins and hosts\<close>

definition origin_authority :: "url \<Rightarrow> string" where
  "origin_authority parsed =
     (let hostname = ToLower (Hostname parsed);
          port0 = Port parsed;
          port = (if u_Scheme parsed = ''http'' \<and> port0 = ''80'' \<or>
                     u_Scheme parsed = ''https'' \<and> port0 = ''443'' then [] else port0)
      in if port \<noteq> [] then JoinHostPort hostname port
         else if CHR '':'' \<in> set hostname then ''['' @ hostname @ '']'' else hostname)"

definition normalizeOrigin :: "string \<Rightarrow> string res" where
  "normalizeOrigin origin =
     (if origin = [] \<or> TrimSpace origin \<noteq> origin then Inl ''must be a non-empty origin''
      else
        (case url_Parse origin of
           None \<Rightarrow> Inl (''parse: '' @ net_failure)
         | Some parsed \<Rightarrow>
             if u_Scheme parsed \<noteq> ''http'' \<and> u_Scheme parsed \<noteq> ''https''
             then Inl ''scheme must be http or https''
             else if u_Host parsed = [] \<or> u_User parsed \<or>
                     (u_Path parsed \<noteq> [] \<and> u_Path parsed \<noteq> ''/'') \<or> u_RawQuery parsed \<noteq> [] \<or>
                     u_Fragment parsed \<noteq> []
             then Inl ''must contain only scheme and authority''
             else
               (let hostname = ToLower (Hostname parsed)
                in if hostname = [] then Inl ''hostname is required''
                   else if CHR '':'' \<in> set hostname \<and> \<not> ParseIP6 hostname
                   then Inl ''invalid IPv6 hostname''
                   else Inr (ToLower (u_Scheme parsed) @ ''://'' @ origin_authority parsed))))"

definition host_part :: "string \<Rightarrow> string res" where
  "host_part host =
     (case SplitHostPort host of
        Some (parsedHost, port) \<Rightarrow> Inr parsedHost
      | None \<Rightarrow>
          if HasPrefix host ''['' \<and> HasSuffix host '']''
          then Inr (TrimSuffix (TrimPrefix host ''['') '']'')
          else if count_char CHR '':'' host = 1 then Inl ''invalid host and port''
          else Inr host)"

definition normalizeHostname :: "string \<Rightarrow> string res" where
  "normalizeHostname host =
     (if host = [] \<or> TrimSpace host \<noteq> host \<or> ContainsAny host ''/?#@''
      then Inl ''must be a non-empty hostname with optional port''
      else
        (case host_part host of
           Inl e \<Rightarrow> Inl e
         | Inr h0 \<Rightarrow>
             if ContainsAny h0 ''[]'' then Inl ''invalid hostname brackets''
             else if HasSuffix h0 ''..'' then Inl ''invalid hostname''
             else
               (let hostname = ToLower (TrimSuffix h0 ''.'')
                in if hostname = [] \<or>
                      ContainsFunc hostname (\<lambda>r. of_char r \<le> (0x20 :: nat) \<or> r = CHR 0x7F)
                   then Inl ''invalid hostname''
                   else if CHR '':'' \<in> set hostname \<and> \<not> ParseIP6 hostname
                   then Inl ''invalid IPv6 hostname''
                   else Inr hostname)))"

text \<open>A Go set is the list of its elements.\<close>

fun normalized_list :: "(string \<Rightarrow> string res) \<Rightarrow> string \<Rightarrow> string list \<Rightarrow> string list res" where
  "normalized_list f what [] = Inr []"
| "normalized_list f what (x # xs) =
     (case f x of
        Inl e \<Rightarrow> Inl (''proxy: http: allowed '' @ what @ '' '' @ Quote x @ '': '' @ e)
      | Inr v \<Rightarrow>
          (case normalized_list f what xs of Inl e \<Rightarrow> Inl e | Inr vs \<Rightarrow> Inr (v # vs)))"

definition normalizedAllowedOrigins :: "string list \<Rightarrow> string list res" where
  "normalizedAllowedOrigins origins = normalized_list normalizeOrigin ''origin'' origins"

definition normalizedAllowedHosts :: "string list \<Rightarrow> string list res" where
  "normalizedAllowedHosts hosts = normalized_list normalizeHostname ''host'' hosts"

definition ValidateHTTPAccessLists :: "string list \<Rightarrow> string list \<Rightarrow> err option" where
  "ValidateHTTPAccessLists origins hosts =
     (case normalizedAllowedOrigins origins of
        Inl e \<Rightarrow> Some e
      | Inr _ \<Rightarrow> (case normalizedAllowedHosts hosts of Inl e \<Rightarrow> Some e | Inr _ \<Rightarrow> None))"

definition originAllowed :: "string list \<Rightarrow> string \<Rightarrow> bool" where
  "originAllowed allowed origin =
     (if origin = [] \<or> length allowed = 0 then True
      else (case normalizeOrigin origin of Inl e \<Rightarrow> False | Inr v \<Rightarrow> v \<in> set allowed))"

definition hostAllowed :: "string list \<Rightarrow> string \<Rightarrow> bool" where
  "hostAllowed allowed host =
     (if length allowed = 0 then True
      else (case normalizeHostname host of Inl e \<Rightarrow> False | Inr v \<Rightarrow> v \<in> set allowed))"

subsection \<open>Headers\<close>

definition hopByHopHeader :: "string \<Rightarrow> bool" where
  "hopByHopHeader key \<longleftrightarrow>
     ToLower key \<in> set [''connection'', ''keep-alive'', ''proxy-authenticate'', ''proxy-authorization'',
       ''te'', ''trailer'', ''trailers'', ''transfer-encoding'', ''upgrade'']"

definition stripRequestHeader :: "string \<Rightarrow> string list \<Rightarrow> bool" where
  "stripRequestHeader key forwardHeaders =
     (if hopByHopHeader key then True
      else
        (let normalized = ToLower key
         in if normalized = ''authorization'' then normalized \<notin> set forwardHeaders else False))"

text \<open>\<open>Header.Add\<close>, and copying all values of the keys that are not stripped.\<close>

definition Header_Add :: "string \<Rightarrow> string \<Rightarrow> header \<Rightarrow> header" where
  "Header_Add k v h =
     (CanonicalHeaderKey k, Header_Values h k @ [v]) # Header_Del k h"

definition add_values :: "string \<Rightarrow> string list \<Rightarrow> header \<Rightarrow> header" where
  "add_values key vs dst = fold (Header_Add key) vs dst"

definition copy_unless :: "(string \<Rightarrow> bool) \<Rightarrow> header \<Rightarrow> header \<Rightarrow> header" where
  "copy_unless strip dst src =
     fold (\<lambda>(key, vs) dst. if strip key then dst else add_values key vs dst) src dst"

definition copyHeader :: "header \<Rightarrow> header \<Rightarrow> header" where
  "copyHeader dst src = copy_unless hopByHopHeader dst src"

definition copyRequestHeader :: "string list \<Rightarrow> header \<Rightarrow> header \<Rightarrow> header" where
  "copyRequestHeader forwardHeaders dst src =
     copy_unless (\<lambda>key. stripRequestHeader key forwardHeaders) dst src"

definition normalizedForwardHeaders :: "string list \<Rightarrow> string list" where
  "normalizedForwardHeaders headers =
     filter (\<lambda>h. h \<noteq> []) (map (\<lambda>h. TrimSpace (ToLower h)) headers)"

definition hasMCPMetadataHeaders :: "header \<Rightarrow> bool" where
  "hasMCPMetadataHeaders headers \<longleftrightarrow>
     length (Header_Values headers HeaderMethod) > 0 \<or> length (Header_Values headers HeaderName) > 0 \<or>
     length (Header_Values headers HeaderProtocolVersion) > 0"

subsection \<open>Paths, addresses, methods\<close>

definition joinURLPath :: "string \<Rightarrow> string \<Rightarrow> string" where
  "joinURLPath basePath requestPath =
     (if basePath = [] \<or> basePath = ''/'' then requestPath
      else TrimRightFunc (\<lambda>c. c = CHR ''/'') basePath @ ''/'' @
           TrimLeftFunc (\<lambda>c. c = CHR ''/'') requestPath)"

definition clientIP :: "string \<Rightarrow> string" where
  "clientIP remoteAddr =
     (case SplitHostPort remoteAddr of None \<Rightarrow> remoteAddr | Some (host, port) \<Rightarrow> host)"

definition safeJSONRPCMethod :: "string \<Rightarrow> bool" where
  "safeJSONRPCMethod method \<longleftrightarrow>
     method \<in> set [''initialize'', ''ping'', ''tools/list'', ''resources/list'', ''resources/read'',
       ''resources/templates/list'', ''prompts/list'', ''prompts/get'', ''completion/complete'']"

text \<open>
  \<open>mime.ParseMediaType\<close>: the media type; \<open>None\<close> when it or a parameter does not parse or a
  parameter is repeated. The parameters' values are not kept.
\<close>

definition mime_token_char :: "char \<Rightarrow> bool" where
  "mime_token_char c \<longleftrightarrow> 0x20 < (of_char c :: nat) \<and> of_char c < (0x7F :: nat) \<and>
     c \<notin> set ''()<>@,;:/[]?='' \<and> c \<noteq> backslash \<and> c \<noteq> dquote"

fun quoted_end :: "string \<Rightarrow> string option" where
  "quoted_end [] = None"
| "quoted_end (c # cs) =
     (if c = dquote then Some cs
      else if c = backslash \<and> cs \<noteq> [] \<and> (hd cs \<in> set ''()<>@,;:/[]?='' \<or> hd cs = backslash \<or> hd cs = dquote)
      then quoted_end (tl cs)
      else if c = CHR 0x0D \<or> c = CHR 0x0A then None
      else quoted_end cs)"

definition consume_value :: "string \<Rightarrow> string option" where
  "consume_value s =
     (if s \<noteq> [] \<and> hd s = dquote then quoted_end (tl s)
      else if takeWhile mime_token_char s = [] then None
      else Some (dropWhile mime_token_char s))"

definition trim_left :: "string \<Rightarrow> string" where
  "trim_left s = TrimLeftFunc is_space s"

definition consumeMediaParam :: "string \<Rightarrow> (string \<times> string) option" where
  "consumeMediaParam v =
     (let s = trim_left v in
      if \<not> prefix '';'' s then None
      else
        (let s1 = trim_left (tl s);
             key = takeWhile mime_token_char s1;
             s2 = trim_left (dropWhile mime_token_char s1)
         in if key = [] \<or> \<not> prefix ''='' s2 then None
            else map_option (\<lambda>rest. (ToLower key, rest)) (consume_value (trim_left (tl s2)))))"

fun media_params :: "nat \<Rightarrow> string list \<Rightarrow> string \<Rightarrow> bool" where
  "media_params fuel seen s =
     (let s1 = trim_left s in
      if s1 = [] then True
      else
        (case consumeMediaParam s1 of
           None \<Rightarrow> TrimSpace s1 = '';''
         | Some (key, rest) \<Rightarrow>
             (case fuel of
                0 \<Rightarrow> False
              | Suc n \<Rightarrow> key \<notin> set seen \<and> media_params n (key # seen) rest)))"

declare media_params.simps [simp del]

definition media_type :: "string \<Rightarrow> string option" where
  "media_type s =
     (let base = fst (Cut s CHR '';'');
          t = TrimSpace (ToLower base);
          typ = takeWhile mime_token_char t;
          rest = dropWhile mime_token_char t
      in if typ \<noteq> [] \<and>
            (rest = [] \<or> prefix ''/'' rest \<and> tl rest \<noteq> [] \<and> list_all mime_token_char (tl rest)) \<and>
            media_params (length s) [] (drop (length base) s)
         then Some t else None)"

definition isEventStream :: "string \<Rightarrow> bool" where
  "isEventStream contentType =
     (case media_type contentType of
        None \<Rightarrow> Contains (ToLower contentType) ''text/event-stream''
      | Some t \<Rightarrow> t = ''text/event-stream'')"

subsection \<open>What the header copy guarantees\<close>

lemma Header_Values_Add:
  "Header_Values (Header_Add k v h) k' =
     (if CanonicalHeaderKey k' = CanonicalHeaderKey k then Header_Values h k @ [v]
      else Header_Values h k')"
  using Header_Values_Del [of k h k'] by (simp add: Header_Add_def Header_Values_def)

lemma Header_Values_add_values:
  "Header_Values (add_values k vs h) k' =
     (if CanonicalHeaderKey k' = CanonicalHeaderKey k then Header_Values h k @ vs
      else Header_Values h k')"
proof (induction vs arbitrary: h)
  case Nil
  then show ?case by (simp add: add_values_def Header_Values_def)
next
  case (Cons v vs)
  have "add_values k (v # vs) h = add_values k vs (Header_Add k v h)" by (simp add: add_values_def)
  with Cons.IH [of "Header_Add k v h"] show ?case by (simp add: Header_Values_Add)
qed

text \<open>A header map as \<open>net/http\<close> delivers it: canonical keys, each once.\<close>

definition header_wf :: "header \<Rightarrow> bool" where
  "header_wf h \<longleftrightarrow> distinct (map fst h) \<and> list_all (\<lambda>e. CanonicalHeaderKey (fst e) = fst e) h"

lemma copy_unless_Cons:
  "copy_unless strip dst ((key, vs) # src) =
     copy_unless strip (if strip key then dst else add_values key vs dst) src"
  by (simp add: copy_unless_def)

lemma copy_unless_values:
  assumes "header_wf src" "CanonicalHeaderKey k = k"
  shows "Header_Values (copy_unless strip dst src) k =
     Header_Values dst k @ (if strip k then [] else Header_Values src k)"
  using assms
proof (induction src arbitrary: dst)
  case Nil
  then show ?case by (simp add: copy_unless_def Header_Values_def)
next
  case (Cons e src)
  obtain key vs where e: "e = (key, vs)" by fastforce
  have wf: "header_wf src" "CanonicalHeaderKey key = key" "key \<notin> fst ` set src"
    using Cons.prems(1) e by (auto simp: header_wf_def)
  let ?d = "if strip key then dst else add_values key vs dst"
  have IH: "Header_Values (copy_unless strip ?d src) k =
      Header_Values ?d k @ (if strip k then [] else Header_Values src k)"
    using Cons.IH [OF wf(1) Cons.prems(2)] .
  show ?case
  proof (cases "k = key")
    case True
    then have "Header_Values src k = []"
      using wf Cons.prems(2) by (auto simp: Header_Values_def split: option.split dest: map_of_SomeD
          intro!: rev_image_eqI)
    with True IH e show ?thesis
      by (simp add: copy_unless_Cons Header_Values_add_values) (simp add: Header_Values_def wf)
  next
    case False
    with IH e wf Cons.prems(2) show ?thesis
      by (simp add: copy_unless_Cons Header_Values_add_values) (simp add: Header_Values_def)
  qed
qed

subsection \<open>Canonical host names\<close>

lemma count_append [simp]: "count_char c (s @ t) = count_char c s + count_char c t"
  by (simp add: count_char_def)

lemma count_Cons [simp]: "count_char c (x # s) = (if x = c then Suc (count_char c s) else count_char c s)"
  by (simp add: count_char_def)

lemma count_Nil [simp]: "count_char c [] = 0"
  by (simp add: count_char_def)

lemma count_zero: "count_char c s = 0 \<longleftrightarrow> c \<notin> set s"
  by (induction s) auto

lemma is_hex_colon: "\<not> is_hex CHR '':''"
  by (simp add: is_hex_def hex_val_def)

lemma count_dropWhile_hex: "count_char CHR '':'' (dropWhile is_hex s) = count_char CHR '':'' s"
  using is_hex_colon by (induction s) auto

lemma ipv6_groups_colons:
  "ipv6_groups n e s = Some (free, e') \<Longrightarrow>
     (e' \<and> \<not> e \<longrightarrow> count_char CHR '':'' s \<ge> 2) \<and> n \<le> free + count_char CHR '':'' s + 2"
proof (induction n e s rule: ipv6_groups.induct)
  case (1 e s)
  then show ?case by (auto split: if_splits)
next
  case (2 n e s)
  define rest where "rest = dropWhile is_hex s"
  have c: "count_char CHR '':'' s = count_char CHR '':'' rest"
    by (simp add: rest_def count_dropWhile_hex)
  show ?case
  proof (cases "prefix ''.'' rest \<or> rest = []")
    case True
    with 2(3) show ?thesis by (auto simp: Let_def rest_def [symmetric] split: if_splits)
  next
    case False
    with 2(3) obtain x t where r: "rest = CHR '':'' # x # t"
      by (cases rest; cases "tl rest") (auto simp: Let_def rest_def [symmetric] split: if_splits)
    have ok: "\<not> (takeWhile is_hex s = [] \<or> 4 < length (takeWhile is_hex s))" "\<not> prefix ''.'' rest"
      using 2(3) False by (auto simp: Let_def rest_def [symmetric] split: if_splits)
    show ?thesis
    proof (cases "x = CHR '':''")
      case True
      with 2(3) r ok have e: "\<not> e" by (auto simp: Let_def rest_def [symmetric] split: if_splits)
      show ?thesis
      proof (cases "t = []")
        case True
        with 2(3) r \<open>x = _\<close> ok e c show ?thesis by (simp add: Let_def rest_def [symmetric])
      next
        case False
        with 2(3) r \<open>x = _\<close> ok e have "ipv6_groups n True t = Some (free, e')"
          by (simp add: Let_def rest_def [symmetric])
        with 2(1) [OF refl rest_def] r ok \<open>x = _\<close> e False c show ?thesis by simp
      qed
    next
      case False
      with 2(3) r ok have "ipv6_groups n e (x # t) = Some (free, e')"
        by (simp add: Let_def rest_def [symmetric])
      with 2(2) [OF refl rest_def] r ok False c show ?thesis by auto
    qed
  qed
qed

lemma ParseIP6_colons: "ParseIP6 s \<Longrightarrow> count_char CHR '':'' s \<ge> 2"
  by (auto simp: ParseIP6_def parseIPv6_def prefix_def split: if_splits option.splits
      dest!: ipv6_groups_colons)

lemma SplitHostPort_subset: "SplitHostPort host = Some (h, port) \<Longrightarrow> set h \<subseteq> set host"
  by (cases host) (auto simp: SplitHostPort_def split: option.splits if_splits dest!: in_set_takeD)

lemma host_part_subset: "host_part host = Inr h \<Longrightarrow> set h \<subseteq> set host"
  by (auto simp: host_part_def TrimSuffix_def TrimPrefix_def split: option.splits if_splits
      dest!: SplitHostPort_subset in_set_takeD dest: in_set_dropD)

lemma host_part_plain:
  assumes "CHR ''['' \<notin> set v" "CHR '':'' \<notin> set v \<or> count_char CHR '':'' v \<ge> 2"
  shows "host_part v = Inr v"
proof -
  have np: "\<not> prefix ''['' v" using assms(1) by (cases v) auto
  have "SplitHostPort v = None"
  proof (cases "last_index_of CHR '':'' v")
    case (Some i)
    note s = last_index_of_Some [OF Some]
    then have "CHR '':'' \<in> set v" by (metis in_set_conv_decomp)
    with assms(2) have "count_char CHR '':'' v \<ge> 2" by blast
    moreover have "count_char CHR '':'' v =
        count_char CHR '':'' (take i v) + Suc (count_char CHR '':'' (drop (Suc i) v))"
      using s by (metis count_append count_Cons)
    moreover have "count_char CHR '':'' (drop (Suc i) v) = 0" using s by (simp add: count_zero)
    ultimately have "CHR '':'' \<in> set (take i v)" using count_zero [of "CHR '':''" "take i v"] by force
    with Some np show ?thesis by (simp add: SplitHostPort_def)
  qed (simp add: SplitHostPort_def)
  moreover have "count_char CHR '':'' v \<noteq> 1" using assms(2) count_zero [of "CHR '':''" v] by auto
  ultimately show ?thesis using np by (simp add: host_part_def HasPrefix_def)
qed

lemma lower_char_special: "\<lbrakk>lower_char x = c; \<not> (97 \<le> (of_char c :: nat) \<and> of_char c \<le> (122 :: nat))\<rbrakk> \<Longrightarrow> x = c"
  by (auto simp: lower_char_def Let_def of_char_of split: if_splits)

lemma ToLower_special:
  "\<not> (97 \<le> (of_char c :: nat) \<and> of_char c \<le> (122 :: nat)) \<Longrightarrow> c \<in> set (ToLower s) \<Longrightarrow> c \<in> set s"
  by (auto simp: ToLower_def) (metis lower_char_special)+

lemma is_space_low: "is_space c \<Longrightarrow> of_char c \<le> (0x20 :: nat)"
  by (auto simp: is_space_def)

lemma trimmed_dot:
  assumes "\<not> HasSuffix h ''..''"
  shows "\<not> suffix ''.'' (ToLower (TrimSuffix h ''.''))"
proof
  let ?t = "TrimSuffix h ''.''"
  assume "suffix ''.'' (ToLower ?t)"
  then obtain u where u: "ToLower ?t = u @ ''.''" by (auto simp: suffix_def)
  then obtain w x where w: "?t = w @ [x]" "lower_char x = CHR ''.''"
    by (cases ?t rule: rev_cases) (auto simp: ToLower_def)
  have x: "x = CHR ''.''" using lower_char_special [OF w(2)] by simp
  show False
  proof (cases "suffix ''.'' h")
    case True
    then obtain z where "h = z @ ''.''" by (auto simp: suffix_def)
    with w x assms show False by (auto simp: TrimSuffix_def HasSuffix_def suffix_def)
  next
    case False
    with w x show False by (auto simp: TrimSuffix_def suffix_def)
  qed
qed

text \<open>
  Host names are compared in a canonical form. What normalization of a \<open>Host\<close> value returns is
  not empty, in lower case, without port, brackets, control characters or delimiters of a URL,
  and normalizing it again gives the same name: an allow list entry always matches itself.
\<close>
lemma normalizeHostname_canonical:
  assumes "normalizeHostname host = Inr v"
  shows "v \<noteq> [] \<and> ToLower v = v \<and> \<not> ContainsAny v ''[]/?#@'' \<and>
     \<not> ContainsFunc v (\<lambda>r. of_char r \<le> (0x20 :: nat) \<or> r = CHR 0x7F) \<and> normalizeHostname v = Inr v"
proof -
  obtain h where h: "host_part host = Inr h" "\<not> ContainsAny h ''[]''" "\<not> HasSuffix h ''..''"
    and v: "v = ToLower (TrimSuffix h ''.'')" "v \<noteq> []"
    "\<not> ContainsFunc v (\<lambda>r. of_char r \<le> (0x20 :: nat) \<or> r = CHR 0x7F)"
    "CHR '':'' \<in> set v \<longrightarrow> ParseIP6 v" and c: "\<not> ContainsAny host ''/?#@''"
    using assms by (auto simp: normalizeHostname_def Let_def split: sum.splits if_splits)
  have sub: "set (TrimSuffix h ''.'') \<subseteq> set host"
    using host_part_subset [OF h(1)] by (auto simp: TrimSuffix_def dest!: in_set_takeD)
  have "set (TrimSuffix h ''.'') \<subseteq> set h" by (auto simp: TrimSuffix_def dest!: in_set_takeD)
  then have "x \<notin> set (TrimSuffix h ''.'')" if "x \<in> set ''[]'' \<or> x \<in> set ''/?#@''" for x
    using that h(2) sub c unfolding ContainsAny_def list_ex_iff by blast
  then have clean: "x \<notin> set v" if "x \<in> set ''[]'' \<or> x \<in> set ''/?#@''" for x
    using that ToLower_special [of x "TrimSuffix h ''.''"] unfolding v(1) by fastforce
  have lower: "ToLower v = v" by (simp add: v(1))
  have "\<not> list_ex is_space v"
    using v(3) is_space_low unfolding ContainsFunc_def list_ex_iff by blast
  then have trim: "TrimSpace v = v" by (rule TrimSpace_no_space)
  have hp: "host_part v = Inr v"
  proof (rule host_part_plain)
    show "CHR ''['' \<notin> set v" by (rule clean) simp
    show "CHR '':'' \<notin> set v \<or> count_char CHR '':'' v \<ge> 2" using v(4) ParseIP6_colons by blast
  qed
  have dot: "\<not> suffix ''.'' v" using trimmed_dot [OF h(3)] by (simp add: v(1))
  then have "\<not> HasSuffix v ''..''" by (auto simp: HasSuffix_def suffix_def)
  moreover have "TrimSuffix v ''.'' = v" using dot by (simp add: TrimSuffix_def)
  moreover have any: "\<not> ContainsAny v ''/?#@''" "\<not> ContainsAny v ''[]''" "\<not> ContainsAny v ''[]/?#@''"
    unfolding ContainsAny_def list_ex_iff using clean by auto
  ultimately have "normalizeHostname v = Inr v"
    using v(2-4) lower trim hp unfolding normalizeHostname_def by (simp add: Let_def)
  with v lower any show ?thesis by blast
qed

end
