(* ===== verification/Http_Proxy.thy ===== *)
theory Http_Proxy
  imports Rpc Http_Access Retry
begin

text \<open>
  The HTTP proxy (\<open>internal/proxy/http.go\<close>): construction, the upstream request with its retries,
  the observation of request and response bodies, event streams, and the handler \<open>ServeHTTP\<close>.

  \<open>http_net\<close> is what the network does during one request: for every attempt how much of the
  body the transport read and what it returned, whether the client went away while the proxy
  waited, and which writes to the client succeed. \<open>client.Do\<close> itself, TLS and the listening
  server are not modelled; a response is its status, header and body with the error that ends
  the body. \<open>http_out\<close> collects the effects: the gateway, the reply, the metrics and the requests
  sent upstream.
\<close>

subsection \<open>Configuration\<close>

record http_retry_config =
  hrc_MaxRetries :: int
  hrc_InitialIntervalMS :: int
  hrc_MaxIntervalMS :: int

record http_tls_config =
  htc_Enabled :: bool
  htc_CertFile :: string
  htc_KeyFile :: string

record tls_client_config =
  tc_CAFile :: string
  tc_ServerName :: string
  tc_InsecureSkipVerify :: bool
  tc_ClientCertFile :: string
  tc_ClientKeyFile :: string

record tls_client =
  tl_ServerName :: string
  tl_InsecureSkipVerify :: bool
  tl_RootCAs :: "string option"
  tl_Certificate :: "(string \<times> string) option"

text \<open>
  \<open>httpclient.NewTLSConfig\<close>: \<open>read_file\<close>, \<open>valid_pem\<close> and \<open>load\<close> are \<open>os.ReadFile\<close>,
  \<open>AppendCertsFromPEM\<close> and \<open>tls.LoadX509KeyPair\<close>; no settings give no configuration.
\<close>

record key_files =
  read_file :: "string \<Rightarrow> string res"
  valid_pem :: "string \<Rightarrow> bool"
  load_pair :: "string \<Rightarrow> string \<Rightarrow> err option"

definition root_cas :: "key_files \<Rightarrow> string \<Rightarrow> string option res" where
  "root_cas fs ca =
     (if ca = [] then Inr None
      else
        (case read_file fs ca of
           Inl e \<Rightarrow> Inl (''httpclient: read tls ca file: '' @ e)
         | Inr pem \<Rightarrow>
             if \<not> valid_pem fs pem then Inl ''httpclient: parse tls ca file: no certificates found''
             else Inr (Some pem)))"

definition client_pair :: "key_files \<Rightarrow> string \<Rightarrow> string \<Rightarrow> (string \<times> string) option res" where
  "client_pair fs cert key =
     (if cert = [] \<and> key = [] then Inr None
      else if cert = [] \<or> key = []
      then Inl ''httpclient: tls client cert and key must be configured together''
      else
        (case load_pair fs cert key of
           Some e \<Rightarrow> Inl (''httpclient: load tls client certificate: '' @ e)
         | None \<Rightarrow> Inr (Some (cert, key))))"

definition NewTLSConfig :: "key_files \<Rightarrow> tls_client_config \<Rightarrow> tls_client option res" where
  "NewTLSConfig fs c =
     (if tc_CAFile c = [] \<and> tc_ServerName c = [] \<and> \<not> tc_InsecureSkipVerify c \<and>
         tc_ClientCertFile c = [] \<and> tc_ClientKeyFile c = [] then Inr None
      else
        (case root_cas fs (tc_CAFile c) of
           Inl e \<Rightarrow> Inl e
         | Inr roots \<Rightarrow>
             (case client_pair fs (tc_ClientCertFile c) (tc_ClientKeyFile c) of
                Inl e \<Rightarrow> Inl e
              | Inr pair \<Rightarrow>
                  Inr (Some \<lparr>tl_ServerName = tc_ServerName c,
                             tl_InsecureSkipVerify = tc_InsecureSkipVerify c,
                             tl_RootCAs = roots, tl_Certificate = pair\<rparr>))))"

record http_client =
  cl_Timeout :: duration
  cl_TLS :: "tls_client option"

definition httpclient_New :: "key_files \<Rightarrow> duration \<Rightarrow> tls_client_config \<Rightarrow> http_client res" where
  "httpclient_New fs timeout c =
     (case NewTLSConfig fs c of
        Inl e \<Rightarrow> Inl e
      | Inr t \<Rightarrow> Inr \<lparr>cl_Timeout = timeout, cl_TLS = t\<rparr>)"

record 's http_config =
  hc_Upstream :: string
  hc_BindAddress :: string
  hc_Port :: int
  hc_UpstreamTimeoutMS :: int
  hc_ForwardHeaders :: "string list"
  hc_MaxRequestBodyBytes :: int
  hc_MaxHeaderBytes :: int
  hc_ReadHeaderTimeout :: duration
  hc_ReadTimeout :: duration
  hc_WriteTimeout :: duration
  hc_IdleTimeout :: duration
  hc_AllowedOrigins :: "string list"
  hc_AllowedHosts :: "string list"
  hc_Authenticator :: "(header \<Rightarrow> principal option res) option"
  hc_ServerTLS :: http_tls_config
  hc_TLS :: tls_client_config
  hc_Retry :: http_retry_config
  hc_gw :: "'s gateway_config"

definition DefaultHTTPUpstreamTimeoutMS :: int where "DefaultHTTPUpstreamTimeoutMS = 30000"
definition DefaultHTTPMaxRequestBodyBytes :: int where
  "DefaultHTTPMaxRequestBodyBytes = 10 * 1024 * 1024"
definition DefaultHTTPMaxHeaderBytes :: int where "DefaultHTTPMaxHeaderBytes = 1024 * 1024"
definition DefaultHTTPReadHeaderTimeout :: duration where "DefaultHTTPReadHeaderTimeout = seconds 10"
definition DefaultHTTPReadTimeout :: duration where "DefaultHTTPReadTimeout = seconds 30"
definition DefaultHTTPWriteTimeout :: duration where "DefaultHTTPWriteTimeout = seconds 30"
definition DefaultHTTPIdleTimeout :: duration where "DefaultHTTPIdleTimeout = seconds 120"
definition defaultHTTPRetryInitialIntervalMS :: int where "defaultHTTPRetryInitialIntervalMS = 200"
definition defaultHTTPRetryMaxIntervalMS :: int where "defaultHTTPRetryMaxIntervalMS = 2000"

record 's http_proxy =
  hp_config :: "'s http_config"
  hp_authenticate :: "header \<Rightarrow> principal option res"
  hp_upstream :: url
  hp_client :: http_client
  hp_forwardHeaders :: "string list"
  hp_allowedOrigins :: "string list"
  hp_allowedHosts :: "string list"
  hp_serverTLS :: bool

definition positive_or :: "int \<Rightarrow> int \<Rightarrow> int" where
  "positive_or v dflt = (if v \<le> 0 then dflt else v)"

definition retry_defaults :: "http_retry_config \<Rightarrow> http_retry_config" where
  "retry_defaults r =
     (let initial = positive_or (hrc_InitialIntervalMS r) defaultHTTPRetryInitialIntervalMS;
          maximum = positive_or (hrc_MaxIntervalMS r) defaultHTTPRetryMaxIntervalMS
      in \<lparr>hrc_MaxRetries = (if hrc_MaxRetries r < 0 then 0 else hrc_MaxRetries r),
          hrc_InitialIntervalMS = initial,
          hrc_MaxIntervalMS = (if maximum < initial then initial else maximum)\<rparr>)"

definition http_defaults :: "'s http_config \<Rightarrow> 's http_config" where
  "http_defaults c =
     c\<lparr>hc_UpstreamTimeoutMS := positive_or (hc_UpstreamTimeoutMS c) DefaultHTTPUpstreamTimeoutMS,
       hc_MaxRequestBodyBytes := positive_or (hc_MaxRequestBodyBytes c) DefaultHTTPMaxRequestBodyBytes,
       hc_MaxHeaderBytes := positive_or (hc_MaxHeaderBytes c) DefaultHTTPMaxHeaderBytes,
       hc_ReadHeaderTimeout := positive_or (hc_ReadHeaderTimeout c) DefaultHTTPReadHeaderTimeout,
       hc_ReadTimeout := positive_or (hc_ReadTimeout c) DefaultHTTPReadTimeout,
       hc_WriteTimeout := positive_or (hc_WriteTimeout c) DefaultHTTPWriteTimeout,
       hc_IdleTimeout := positive_or (hc_IdleTimeout c) DefaultHTTPIdleTimeout,
       hc_Retry := retry_defaults (hc_Retry c)\<rparr>"

definition default_authenticator :: "'s http_config \<Rightarrow> (header \<Rightarrow> principal option res) res" where
  "default_authenticator c =
     (case hc_Authenticator c of
        Some a \<Rightarrow> Inr a
      | None \<Rightarrow>
          (let local = (if gc_ClientID (hc_gw c) = [] then ''legacy-local'' else gc_ClientID (hc_gw c))
           in case NewNoneAuthenticator \<lparr>Subject = local, ClientID = local, Issuer = ''static'',
                     Roles = [], Scopes = [], Claims = []\<rparr> of
                Inl e \<Rightarrow> Inl (''proxy: http: default authenticator: '' @ e)
              | Inr a \<Rightarrow>
                  Inr (\<lambda>h. case None_Authenticate a h of Inl e \<Rightarrow> Inl e | Inr p \<Rightarrow> Inr (Some p))))"

text \<open>\<open>load\<close> is the result of \<open>tls.LoadX509KeyPair\<close>.\<close>

definition newHTTPServerTLSConfig :: "(string \<Rightarrow> string \<Rightarrow> err option) \<Rightarrow> http_tls_config \<Rightarrow> bool res" where
  "newHTTPServerTLSConfig load c =
     (if \<not> htc_Enabled c then
        (if htc_CertFile c \<noteq> [] \<or> htc_KeyFile c \<noteq> []
         then Inl ''proxy: http: incoming TLS certificate requires tls.enabled=true'' else Inr False)
      else if htc_CertFile c = [] \<or> htc_KeyFile c = []
      then Inl ''proxy: http: tls.cert_file and tls.key_file are required when TLS is enabled''
      else
        (case load (htc_CertFile c) (htc_KeyFile c) of
           Some e \<Rightarrow> Inl (''proxy: http: load incoming TLS certificate: '' @ e)
         | None \<Rightarrow> Inr True))"

definition NewHTTPProxy :: "key_files \<Rightarrow> 's http_config \<Rightarrow> 's http_proxy res" where
  "NewHTTPProxy fs config0 =
     (if hc_Upstream config0 = [] then Inl ''proxy: http: upstream is required''
      else
        (case url_Parse (hc_Upstream config0) of
           None \<Rightarrow> Inl (''proxy: http: parse upstream: '' @ net_failure)
         | Some upstream \<Rightarrow>
             (let config = http_defaults config0
              in case default_authenticator config of
                   Inl e \<Rightarrow> Inl e
                 | Inr a \<Rightarrow>
                     (case httpclient_New fs (wrap64 (milliseconds (hc_UpstreamTimeoutMS config)))
                             (hc_TLS config) of
                        Inl e \<Rightarrow> Inl (''proxy: http: upstream client: '' @ e)
                      | Inr client \<Rightarrow>
                          (case normalizedAllowedOrigins (hc_AllowedOrigins config) of
                             Inl e \<Rightarrow> Inl e
                           | Inr origins \<Rightarrow>
                               (case normalizedAllowedHosts (hc_AllowedHosts config) of
                                  Inl e \<Rightarrow> Inl e
                                | Inr hosts \<Rightarrow>
                                    (case newHTTPServerTLSConfig (load_pair fs) (hc_ServerTLS config) of
                                       Inl e \<Rightarrow> Inl e
                                     | Inr t \<Rightarrow>
                                         Inr \<lparr>hp_config = config, hp_authenticate = a,
                                              hp_upstream = upstream, hp_client = client,
                                              hp_forwardHeaders =
                                                normalizedForwardHeaders (hc_ForwardHeaders config),
                                              hp_allowedOrigins = origins,
                                              hp_allowedHosts = hosts, hp_serverTLS = t\<rparr>)))))))"

subsection \<open>Requests, responses and the network\<close>

record http_request =
  rq_Method :: string
  rq_Host :: string
  rq_Path :: string
  rq_RawQuery :: string
  rq_RemoteAddr :: string
  rq_Header :: header
  rq_Body :: string
  rq_ReadError :: bool

datatype net_error = DeadlineExceeded | Canceled | NetError string

record http_response =
  rs_StatusCode :: int
  rs_Header :: header
  rs_Body :: string
  rs_Error :: "net_error option"

record attempt =
  at_bytesRead :: int
  at_result :: "net_error + http_response"
  at_ctxDone :: "net_error option"

record http_net =
  hn_newRequest :: "err option"
  hn_attempt :: "nat \<Rightarrow> attempt"
  hn_ctxErr :: "net_error option"
  hn_writeFails :: "nat \<Rightarrow> bool"
  hn_parseTime :: "string \<Rightarrow> go_time option"

record upstream_request =
  ur_Method :: string
  ur_URL :: url
  ur_Header :: header
  ur_Host :: string
  ur_Body :: string

record reply =
  rp_Header :: header
  rp_StatusCode :: int
  rp_Body :: string

record ('s, 'l) http_out =
  ho_gw :: "('s, 'l) gateway"
  ho_reply :: reply
  ho_rejections :: "string list"
  ho_retries :: "string list"
  ho_sent :: "upstream_request list"
  ho_delays :: "duration list"

subsection \<open>Upstream requests\<close>

definition retryPolicy :: "'s http_proxy \<Rightarrow> retry_policy" where
  "retryPolicy p =
     (let r = hc_Retry (hp_config p)
      in \<lparr>MaxRetries = hrc_MaxRetries r, InitialInterval = wrap64 (milliseconds (hrc_InitialIntervalMS r)),
          MaxInterval = wrap64 (milliseconds (hrc_MaxIntervalMS r)), Multiplier = 2,
          ShouldRetryFn = Some (StatusCodeClassifier [429, 503])\<rparr>)"

definition targetURL :: "'s http_proxy \<Rightarrow> http_request \<Rightarrow> url" where
  "targetURL p r =
     (hp_upstream p)\<lparr>u_Path := joinURLPath (u_Path (hp_upstream p)) (rq_Path r),
                     u_RawQuery := rq_RawQuery r\<rparr>"

definition forwarded_for :: "http_request \<Rightarrow> header \<Rightarrow> header" where
  "forwarded_for r h =
     (let ip = clientIP (rq_RemoteAddr r); prior = Header_Get h ''X-Forwarded-For''
      in if ip = [] then h
         else if prior \<noteq> [] then Header_Set ''X-Forwarded-For'' (prior @ '', '' @ ip) h
         else Header_Set ''X-Forwarded-For'' ip h)"

definition newUpstreamRequest ::
  "http_net \<Rightarrow> 's http_proxy \<Rightarrow> http_request \<Rightarrow> string \<Rightarrow> upstream_request res" where
  "newUpstreamRequest net p r body =
     (case hn_newRequest net of
        Some e \<Rightarrow> Inl (''proxy: http: create upstream request: '' @ e)
      | None \<Rightarrow>
          Inr \<lparr>ur_Method = rq_Method r, ur_URL = targetURL p r,
               ur_Header = forwarded_for r (copyRequestHeader (hp_forwardHeaders p) [] (rq_Header r)),
               ur_Host = u_Host (hp_upstream p), ur_Body = body\<rparr>)"

definition safeToRetry :: "string \<Rightarrow> string \<Rightarrow> bool" where
  "safeToRetry method body =
     (if method = ''GET'' \<or> method = ''HEAD'' \<or> method = ''OPTIONS'' then True
      else if method \<noteq> ''POST'' \<or> length (TrimSpace body) = 0 then False
      else
        (case decodeMessages body of
           Inl e \<Rightarrow> False
         | Inr messages \<Rightarrow>
             if length messages = 0 then False
             else list_all (\<lambda>m. safeJSONRPCMethod (rm_Method m)) messages))"

definition net_err_text :: "net_error \<Rightarrow> err" where
  "net_err_text e =
     (case e of DeadlineExceeded \<Rightarrow> ''context deadline exceeded'' | Canceled \<Rightarrow> ''context canceled''
      | NetError t \<Rightarrow> t)"

definition shouldRetryUpstream ::
  "retry_policy \<Rightarrow> nat \<Rightarrow> bool \<Rightarrow> int \<Rightarrow> net_error + http_response \<Rightarrow> bool" where
  "shouldRetryUpstream policy attempt safe bodyBytesRead rslt =
     (if \<not> safe then False
      else
        (case rslt of
           Inl e \<Rightarrow>
             if bodyBytesRead \<noteq> 0 then False
             else CanRetry policy (int attempt) 0 (Some (net_err_text e))
         | Inr resp \<Rightarrow> CanRetry policy (int attempt) (rs_StatusCode resp) None))"

definition responseRetryAfter ::
  "(string \<Rightarrow> go_time option) \<Rightarrow> go_time \<Rightarrow> net_error + http_response \<Rightarrow> duration" where
  "responseRetryAfter ParseTime now rslt =
     (case rslt of
        Inl e \<Rightarrow> 0
      | Inr resp \<Rightarrow> parseRetryAfter ParseTime (Header_Get (rs_Header resp) ''Retry-After'') now)"

definition upstreamRetryReason :: "net_error + http_response \<Rightarrow> string" where
  "upstreamRetryReason rslt =
     (case rslt of Inl e \<Rightarrow> ''network'' | Inr resp \<Rightarrow> Itoa (rs_StatusCode resp))"

definition retry_delay :: "retry_policy \<Rightarrow> nat \<Rightarrow> duration \<Rightarrow> duration" where
  "retry_delay policy backoffAttempt retryAfter =
     (let d = Delay policy (int backoffAttempt) retryAfter
      in if d \<le> 0 then InitialInterval policy else d)"

text \<open>
  The retry loop, over the number of the attempt. A retried attempt is below \<open>MaxRetries\<close>, which
  is the termination argument.
\<close>

definition record_retry ::
  "'s http_proxy \<Rightarrow> upstream_request \<Rightarrow> duration \<Rightarrow> net_error + http_response \<Rightarrow> ('s, 'l) http_out \<Rightarrow>
   ('s, 'l) http_out" where
  "record_retry p req delay rslt h =
     h\<lparr>ho_retries := (if gc_Metrics (hc_gw (hp_config p))
                      then ho_retries h @ [upstreamRetryReason rslt] else ho_retries h),
       ho_delays := ho_delays h @ [delay]\<rparr>"

definition send_upstream :: "upstream_request \<Rightarrow> ('s, 'l) http_out \<Rightarrow> ('s, 'l) http_out" where
  "send_upstream req h = h\<lparr>ho_sent := ho_sent h @ [req]\<rparr>"

lemma shouldRetry_bound:
  "shouldRetryUpstream policy attempt safe n rslt \<Longrightarrow> safe \<and> int attempt < MaxRetries policy"
  by (auto simp: shouldRetryUpstream_def CanRetry_def split: sum.splits if_splits)

function upstream_loop ::
  "'l env \<Rightarrow> http_net \<Rightarrow> 's http_proxy \<Rightarrow> http_request \<Rightarrow> string \<Rightarrow> bool \<Rightarrow> nat \<Rightarrow> nat \<Rightarrow>
   ('s, 'l) http_out \<Rightarrow> (net_error + http_response) \<times> ('s, 'l) http_out" where
  "upstream_loop ev net p r body safe attempt backoffAttempt h =
     (case newUpstreamRequest net p r body of
        Inl e \<Rightarrow> (Inl (NetError e), h)
      | Inr req \<Rightarrow>
          (let a = hn_attempt net attempt; h1 = send_upstream req h
           in if \<not> shouldRetryUpstream (retryPolicy p) attempt safe (at_bytesRead a) (at_result a)
              then (at_result a, h1)
              else
                (let retryAfter = responseRetryAfter (hn_parseTime net)
                                    (ev_clock ev (g_n (ho_gw h))) (at_result a);
                     delay = retry_delay (retryPolicy p) backoffAttempt retryAfter;
                     h2 = record_retry p req delay (at_result a) h1
                 in case at_ctxDone a of
                      Some e \<Rightarrow> (Inl e, h2)
                    | None \<Rightarrow>
                        upstream_loop ev net p r body safe (Suc attempt)
                          (if retryAfter \<le> 0 then Suc backoffAttempt else backoffAttempt) h2)))"
  by pat_completeness auto
termination
  by (relation "measure (\<lambda>(ev, net, p, r, body, safe, attempt, backoff, h).
        nat (MaxRetries (retryPolicy p) - int attempt))") (auto dest: shouldRetry_bound)

declare upstream_loop.simps [simp del]

definition doUpstreamRequest ::
  "'l env \<Rightarrow> http_net \<Rightarrow> 's http_proxy \<Rightarrow> http_request \<Rightarrow> string \<Rightarrow> ('s, 'l) http_out \<Rightarrow>
   (net_error + http_response) \<times> ('s, 'l) http_out" where
  "doUpstreamRequest ev net p r body h =
     upstream_loop ev net p r body (safeToRetry (rq_Method r) body) 0 0 h"

subsection \<open>Operations\<close>

definition http_request_of :: "'s gateway_config \<Rightarrow> principal \<Rightarrow> string \<Rightarrow> string \<Rightarrow> request" where
  "http_request_of c pr method name =
     \<lparr>req_Subject = Subject pr, req_ClientID = ClientID pr, req_Issuer = Issuer pr,
      req_Roles = Roles pr, req_Scopes = Scopes pr, req_ServerID = gc_ServerID c,
      req_Method = method, req_Name = name, req_ToolName = tool_of method name\<rparr>"

definition http_evaluatePolicy :: "'s gateway_config \<Rightarrow> principal \<Rightarrow> string \<Rightarrow> string \<Rightarrow> decision" where
  "http_evaluatePolicy c pr method name =
     (if gc_Policy c = None then not_applied
      else Evaluate (gc_Policy c) (http_request_of c pr method name))"

definition http_entry ::
  "'s gateway_config \<Rightarrow> string \<Rightarrow> audit_principal option \<Rightarrow> rpc_message \<Rightarrow> policy_evidence option \<Rightarrow> entry" where
  "http_entry c clientID pr m evidence =
     (let name = md_Name (metadata_of m)
      in zero_entry\<lparr>e_Method := rm_Method m, e_RequestID := jsonRPCID (rm_ID m), e_MCPName := name,
           e_ToolName := tool_of (rm_Method m) name, e_Params := rm_Params m, e_ClientID := clientID,
           e_ServerID := gc_ServerID c,
           e_Principal := (case pr of None \<Rightarrow> Some (staticAuditPrincipal clientID) | Some q \<Rightarrow> Some q),
           e_Policy := evidence\<rparr>)"

definition http_newPendingCall ::
  "'l env \<Rightarrow> 's gateway_config \<Rightarrow> go_time \<Rightarrow> string \<Rightarrow> audit_principal option \<Rightarrow> rpc_message \<Rightarrow>
   policy_evidence option \<Rightarrow> ('s, 'l) gateway \<Rightarrow> pendingCall \<times> ('s, 'l) gateway" where
  "http_newPendingCall ev c startedAt clientID pr m evidence g =
     (case start_operation ev c (http_entry c clientID pr m evidence) startedAt g of
        (op, g') \<Rightarrow>
          (\<lparr>pc_operation = op, pc_startedAt = startedAt, pc_completionDirection = [],
            pc_expectsResponse = (length (rm_ID m) > 0)\<rparr>, g'))"

definition http_record ::
  "'l env \<Rightarrow> 's gateway_config \<Rightarrow> pendingCall \<Rightarrow> string \<Rightarrow> string \<Rightarrow> string \<Rightarrow> rpc_error option \<Rightarrow>
   ('s, 'l) gateway \<Rightarrow> err option \<times> ('s, 'l) gateway" where
  "http_record ev c = record_call ev c ''proxy: http: audit operation unavailable''"

text \<open>A handler's pending map with the gateway.\<close>

type_synonym ('s, 'l) open_calls = "pending \<times> ('s, 'l) gateway"

definition put_call :: "string \<Rightarrow> pendingCall \<Rightarrow> ('s, 'l) open_calls \<Rightarrow> ('s, 'l) open_calls" where
  "put_call key call pg =
     (case pg of (p, g) \<Rightarrow>
        (map_put key call p, g\<lparr>g_lost := g_lost g @ replaced key p\<rparr>))"

definition finalizeHTTPPending ::
  "'l env \<Rightarrow> 's gateway_config \<Rightarrow> string \<Rightarrow> string \<Rightarrow> ('s, 'l) open_calls \<Rightarrow> ('s, 'l) open_calls" where
  "finalizeHTTPPending ev c outcome direction pg =
     (case pg of (p, g) \<Rightarrow>
        ([], finalize_each (\<lambda>call. http_record ev c call outcome direction [] None)
               (ev_order ev (g_n g) (map snd p)) g))"

definition remainder_outcome :: "int \<Rightarrow> pendingCall \<Rightarrow> string" where
  "remainder_outcome statusCode call =
     (if statusCode \<ge> 400 then OutcomeUpstreamError
      else if \<not> pc_expectsResponse call then OutcomeSuccess
      else OutcomeMalformedUpstreamResponse)"

definition remainder_direction :: "int \<Rightarrow> pendingCall \<Rightarrow> string" where
  "remainder_direction statusCode call =
     (if statusCode < 400 \<and> \<not> pc_expectsResponse call then DirectionClientToServer
      else DirectionServerToClient)"

definition finalizeHTTPRemainder ::
  "'l env \<Rightarrow> 's gateway_config \<Rightarrow> int \<Rightarrow> ('s, 'l) open_calls \<Rightarrow> ('s, 'l) open_calls" where
  "finalizeHTTPRemainder ev c statusCode pg =
     (case pg of (p, g) \<Rightarrow>
        ([], finalize_each
               (\<lambda>call. http_record ev c call (remainder_outcome statusCode call)
                         (remainder_direction statusCode call) [] None)
               (ev_order ev (g_n g) (map snd p)) g))"

definition httpFailureOutcome :: "net_error option \<Rightarrow> net_error \<Rightarrow> string" where
  "httpFailureOutcome ctxErr e =
     (case e of
        DeadlineExceeded \<Rightarrow> OutcomeTimeout
      | Canceled \<Rightarrow> if ctxErr = Some Canceled then OutcomeClientDisconnect else OutcomeCancelled
      | NetError t \<Rightarrow> OutcomeUpstreamError)"

subsection \<open>Observing requests\<close>

definition message_decision :: "'s gateway_config \<Rightarrow> principal \<Rightarrow> rpc_message \<Rightarrow> decision" where
  "message_decision c pr m =
     http_evaluatePolicy c pr (md_Method (metadata_of m)) (md_Name (metadata_of m))"

definition http_client_id :: "'s gateway_config \<Rightarrow> principal \<Rightarrow> string" where
  "http_client_id c pr = (if ClientID pr \<noteq> [] then ClientID pr else gc_ClientID c)"

definition http_message ::
  "'l env \<Rightarrow> 's gateway_config \<Rightarrow> go_time \<Rightarrow> principal \<Rightarrow> rpc_message \<Rightarrow> ('s, 'l) open_calls \<Rightarrow>
   string option \<times> ('s, 'l) open_calls" where
  "http_message ev c startedAt pr m pg =
     (case pg of (p, g) \<Rightarrow>
        (let name = md_Name (metadata_of m); d = message_decision c pr m
         in case http_newPendingCall ev c startedAt (http_client_id c pr) (auditPrincipal (Some pr)) m
                   (auditPolicyEvidence d) g of
              (call, g0) \<Rightarrow>
                (let g1 = recordPolicyDecision c d g0
                 in if \<not> Allowed d then
                      (Some (buildErrorResponse (rm_ID m) (policyError d)),
                       (p, snd (http_record ev c call OutcomeDenied DirectionClientToServer []
                                  (Some (policyError d)) g1)))
                    else
                      (case (if rm_Method m = ''tools/call''
                             then limiter_allow ev (ClientID pr) name g1 else (True, g1)) of
                         (ok, g2) \<Rightarrow>
                           if \<not> ok then
                             (Some (buildErrorResponse (rm_ID m) rateLimitError),
                              (p, snd (http_record ev c call OutcomeRateLimited
                                  DirectionClientToServer [] (Some rateLimitError)
                                  (rate_rejected c (ClientID pr) name g2))))
                           else if length (rm_ID m) > 0 then
                             (None, put_call (rm_ID m) call (p, g2))
                           else if pc_operation call \<noteq> None then
                             (None, put_call (''notification:'' @ Operation_ID (pc_operation call)) call
                                      (p, g2))
                           else (None, (p, g2))))))"

fun http_messages ::
  "'l env \<Rightarrow> 's gateway_config \<Rightarrow> go_time \<Rightarrow> principal \<Rightarrow> rpc_message list \<Rightarrow> ('s, 'l) open_calls \<Rightarrow>
   string option \<times> ('s, 'l) open_calls" where
  "http_messages ev c startedAt pr [] pg = (None, pg)"
| "http_messages ev c startedAt pr (m # ms) pg =
     (if rm_Method m = [] then http_messages ev c startedAt pr ms pg
      else
        (case http_message ev c startedAt pr m pg of
           (Some reject, pg') \<Rightarrow> (Some reject, pg')
         | (None, pg') \<Rightarrow> http_messages ev c startedAt pr ms pg'))"

definition observeHTTPRequest ::
  "'l env \<Rightarrow> 's gateway_config \<Rightarrow> string \<Rightarrow> go_time \<Rightarrow> principal \<Rightarrow> ('s, 'l) gateway \<Rightarrow>
   string option \<times> ('s, 'l) open_calls" where
  "observeHTTPRequest ev c raw startedAt pr g =
     (if length (TrimSpace raw) = 0 then (None, ([], g))
      else
        (case decodeMessages raw of
           Inl e \<Rightarrow> (None, ([], g))
         | Inr messages \<Rightarrow> http_messages ev c startedAt pr messages ([], g)))"

subsection \<open>Observing responses\<close>

definition response_message ::
  "'l env \<Rightarrow> 's gateway_config \<Rightarrow> int \<Rightarrow> rpc_message \<Rightarrow> ('s, 'l) open_calls \<Rightarrow> ('s, 'l) open_calls" where
  "response_message ev c statusCode m pg =
     (case pg of (p, g) \<Rightarrow>
        (case map_of p (rm_ID m) of
           None \<Rightarrow> (p, g)
         | Some call \<Rightarrow>
             (delete_key (rm_ID m) p,
              snd (http_record ev c call
                     (if statusCode \<ge> 400 then OutcomeUpstreamError
                      else outcomeForRPCError (rm_Error m))
                     DirectionServerToClient (rm_Result m) (rm_Error m) g))))"

definition observeHTTPResponse ::
  "'l env \<Rightarrow> 's gateway_config \<Rightarrow> string \<Rightarrow> int \<Rightarrow> ('s, 'l) open_calls \<Rightarrow>
   bool \<times> ('s, 'l) open_calls" where
  "observeHTTPResponse ev c raw statusCode pg =
     (if length (fst pg) = 0 \<or> length (TrimSpace raw) = 0 then (True, pg)
      else
        (case decodeMessages raw of
           Inl e \<Rightarrow> (False, pg)
         | Inr messages \<Rightarrow> (True, fold (response_message ev c statusCode) messages pg)))"

text \<open>
  \<open>streamSSE\<close>: one step per line of \<open>ReadBytes\<close>, the last line being what follows the final
  newline. \<open>i\<close> counts the writes to the client.
\<close>

fun read_lines :: "string \<Rightarrow> string list" where
  "read_lines [] = [[]]"
| "read_lines (c # cs) =
     (if c = CHR 0x0A then [c] # read_lines cs
      else (case read_lines cs of [] \<Rightarrow> [[c]] | l # ls \<Rightarrow> (c # l) # ls))"

definition sse_data :: "string \<Rightarrow> string \<Rightarrow> string" where
  "sse_data lineBytes buf =
     (let line = TrimRightFunc (\<lambda>c. c = CHR 0x0D \<or> c = CHR 0x0A) lineBytes
      in if HasPrefix line ''data:'' then buf @ TrimSpace (TrimPrefix line ''data:'') else buf)"

definition sse_event ::
  "'l env \<Rightarrow> 's gateway_config \<Rightarrow> int \<Rightarrow> string \<Rightarrow> string \<Rightarrow> ('s, 'l) open_calls \<Rightarrow>
   string \<times> ('s, 'l) open_calls" where
  "sse_event ev c statusCode lineBytes buf pg =
     (if TrimRightFunc (\<lambda>c. c = CHR 0x0D \<or> c = CHR 0x0A) lineBytes = [] \<and> length buf > 0 then
        (case observeHTTPResponse ev c buf statusCode pg of
           (True, pg') \<Rightarrow> ([], pg')
         | (False, pg') \<Rightarrow> ([], finalizeHTTPRemainder ev c statusCode pg'))
      else (buf, pg))"

definition sse_end ::
  "'l env \<Rightarrow> http_net \<Rightarrow> 's gateway_config \<Rightarrow> int \<Rightarrow> net_error option \<Rightarrow> ('s, 'l) open_calls \<Rightarrow>
   ('s, 'l) open_calls" where
  "sse_end ev net c statusCode er pg =
     (case er of
        None \<Rightarrow> finalizeHTTPRemainder ev c statusCode pg
      | Some e \<Rightarrow>
          finalizeHTTPPending ev c (httpFailureOutcome (hn_ctxErr net) e) DirectionServerToClient pg)"

fun streamSSE ::
  "'l env \<Rightarrow> http_net \<Rightarrow> 's gateway_config \<Rightarrow> int \<Rightarrow> net_error option \<Rightarrow> nat \<Rightarrow> string list \<Rightarrow> string \<Rightarrow>
   string \<Rightarrow> ('s, 'l) open_calls \<Rightarrow> string \<times> ('s, 'l) open_calls" where
  "streamSSE ev net c statusCode er i [] buf out pg = (out, sse_end ev net c statusCode er pg)"
| "streamSSE ev net c statusCode er i (lineBytes # ls) buf out pg =
     (if lineBytes \<noteq> [] \<and> hn_writeFails net i then
        (out, finalizeHTTPPending ev c OutcomeClientDisconnect DirectionServerToClient pg)
      else if lineBytes = [] then (out, sse_end ev net c statusCode er pg)
      else
        (case sse_event ev c statusCode lineBytes (sse_data lineBytes buf) pg of
           (buf', pg') \<Rightarrow>
             streamSSE ev net c statusCode er (Suc i) ls buf' (out @ lineBytes) pg'))"

subsection \<open>The handler\<close>

definition http_Error :: "string \<Rightarrow> int \<Rightarrow> header \<Rightarrow> reply" where
  "http_Error message code h =
     \<lparr>rp_Header = Header_Set ''Content-Type'' ''text/plain; charset=utf-8''
        (Header_Set ''X-Content-Type-Options'' ''nosniff'' (Header_Del ''Content-Length'' h)),
      rp_StatusCode = code, rp_Body = message @ [CHR 0x0A]\<rparr>"

definition rejectHTTPRequest ::
  "'s http_proxy \<Rightarrow> int \<Rightarrow> string \<Rightarrow> string \<Rightarrow> header \<Rightarrow> ('s, 'l) http_out \<Rightarrow> ('s, 'l) http_out" where
  "rejectHTTPRequest p status reason message header h =
     h\<lparr>ho_rejections := (if gc_Metrics (hc_gw (hp_config p)) then ho_rejections h @ [reason]
                          else ho_rejections h),
       ho_reply := http_Error message status header\<rparr>"

definition rejectAuthentication :: "'s http_proxy \<Rightarrow> ('s, 'l) http_out \<Rightarrow> ('s, 'l) http_out" where
  "rejectAuthentication p h =
     rejectHTTPRequest p 401 ''authentication'' ''authentication required''
       (Header_Set ''WWW-Authenticate'' (''Bearer realm='' @ [dquote] @ ''mcp-audit'' @ [dquote]) []) h"

definition validateMCPRequest :: "header \<Rightarrow> string \<Rightarrow> err option" where
  "validateMCPRequest headers body =
     (case InspectRequest headers body of
        Inl e \<Rightarrow> if \<not> hasMCPMetadataHeaders headers then None else Some e
      | Inr metadata \<Rightarrow> None)"

definition writeMCPMetadataError :: "string \<Rightarrow> ('s, 'l) http_out \<Rightarrow> ('s, 'l) http_out" where
  "writeMCPMetadataError body h =
     (let i = (case DecodeMessages body of
                 Inr [m] \<Rightarrow> if length (msg_ID m) > 0 then msg_ID m else ''null''
               | _ \<Rightarrow> ''null'');
          rpcErr = \<lparr>err_Code = -32600, err_Message = ''invalid MCP request metadata'', err_Data = []\<rparr>
      in h\<lparr>ho_reply := \<lparr>rp_Header = Header_Set ''Cache-Control'' ''no-store''
                          (Header_Set ''Content-Type'' ''application/json'' []),
                        rp_StatusCode = 400, rp_Body = buildErrorResponse i rpcErr\<rparr>\<rparr>)"

text \<open>The upstream's response, passed on and observed.\<close>

definition relay_response ::
  "'l env \<Rightarrow> http_net \<Rightarrow> 's http_proxy \<Rightarrow> http_response \<Rightarrow> pending \<Rightarrow> ('s, 'l) http_out \<Rightarrow>
   ('s, 'l) http_out" where
  "relay_response ev net p resp pend h =
     (let c = hc_gw (hp_config p); status = rs_StatusCode resp;
          header = copyHeader [] (rs_Header resp)
      in if isEventStream (Header_Get (rs_Header resp) ''Content-Type'') then
           (case streamSSE ev net c status (rs_Error resp) 0 (read_lines (rs_Body resp)) [] []
                   (pend, ho_gw h) of
              (out, (p', g)) \<Rightarrow>
                h\<lparr>ho_gw := g,
                  ho_reply := \<lparr>rp_Header = header, rp_StatusCode = status, rp_Body = out\<rparr>\<rparr>)
         else
           (case rs_Error resp of
              Some e \<Rightarrow>
                h\<lparr>ho_gw := snd (finalizeHTTPPending ev c (httpFailureOutcome (hn_ctxErr net) e)
                            DirectionServerToClient (pend, ho_gw h)),
                  ho_reply := http_Error ''failed to read upstream response'' 502 header\<rparr>
            | None \<Rightarrow>
                if hn_writeFails net 0 then
                  h\<lparr>ho_gw := snd (finalizeHTTPPending ev c OutcomeClientDisconnect
                              DirectionServerToClient (pend, ho_gw h)),
                    ho_reply := \<lparr>rp_Header = header, rp_StatusCode = status, rp_Body = []\<rparr>\<rparr>
                else
                  h\<lparr>ho_gw := snd (finalizeHTTPRemainder ev c status
                              (snd (observeHTTPResponse ev c (rs_Body resp) status (pend, ho_gw h)))),
                    ho_reply := \<lparr>rp_Header = header, rp_StatusCode = status,
                                 rp_Body = rs_Body resp\<rparr>\<rparr>))"

text \<open>A request that passed authentication, the size limit and the metadata check.\<close>

definition serve_accepted ::
  "'l env \<Rightarrow> http_net \<Rightarrow> 's http_proxy \<Rightarrow> http_request \<Rightarrow> principal \<Rightarrow> go_time \<Rightarrow> ('s, 'l) http_out \<Rightarrow>
   ('s, 'l) http_out" where
  "serve_accepted ev net p r pr startedAt h =
     (let c = hc_gw (hp_config p)
      in case observeHTTPRequest ev c (rq_Body r) startedAt pr (ho_gw h) of
           (Some reject, pg) \<Rightarrow>
             h\<lparr>ho_gw := snd (finalizeHTTPPending ev c OutcomeCancelled DirectionClientToServer pg),
               ho_reply := \<lparr>rp_Header = Header_Set ''Content-Type'' ''application/json'' [],
                            rp_StatusCode = 200, rp_Body = reject\<rparr>\<rparr>
         | (None, (pend, g)) \<Rightarrow>
             (case doUpstreamRequest ev net p r (rq_Body r) (h\<lparr>ho_gw := g\<rparr>) of
                (Inl e, h1) \<Rightarrow>
                  h1\<lparr>ho_gw := snd (finalizeHTTPPending ev c (httpFailureOutcome (hn_ctxErr net) e)
                               DirectionServerToClient (pend, ho_gw h1)),
                     ho_reply := http_Error ''upstream request failed'' 502 []\<rparr>
              | (Inr resp, h1) \<Rightarrow> relay_response ev net p resp pend h1))"

definition ServeHTTP ::
  "'l env \<Rightarrow> http_net \<Rightarrow> 's http_proxy \<Rightarrow> http_request \<Rightarrow> ('s, 'l) http_out \<Rightarrow> ('s, 'l) http_out" where
  "ServeHTTP ev net p r h =
     (if \<not> hostAllowed (hp_allowedHosts p) (rq_Host r)
      then rejectHTTPRequest p 403 ''host'' ''host is not allowed'' [] h
      else if \<not> originAllowed (hp_allowedOrigins p) (Header_Get (rq_Header r) ''Origin'')
      then rejectHTTPRequest p 403 ''origin'' ''origin is not allowed'' [] h
      else
        (case hp_authenticate p (rq_Header r) of
           Inl e \<Rightarrow> rejectAuthentication p h
         | Inr None \<Rightarrow> h\<lparr>ho_reply := http_Error ''authentication failed'' 500 []\<rparr>
         | Inr (Some pr) \<Rightarrow>
             (let startedAt = ev_clock ev (g_n (ho_gw h)) in
              if int (length (rq_Body r)) > hc_MaxRequestBodyBytes (hp_config p)
              then rejectHTTPRequest p 413 ''body_too_large'' ''request body is too large'' [] h
              else if rq_ReadError r
              then h\<lparr>ho_reply := http_Error ''failed to read request'' 400 []\<rparr>
              else
                (case validateMCPRequest (rq_Header r) (rq_Body r) of
                   Some e \<Rightarrow> writeMCPMetadataError (rq_Body r) h
                 | None \<Rightarrow> serve_accepted ev net p r pr startedAt h))))"

subsection \<open>Every operation of a request is settled\<close>

text \<open>The accounts while a request is served: \<open>ids\<close> are the open operations of other requests.\<close>

definition calls_ok :: "'s gateway_config \<Rightarrow> string multiset \<Rightarrow> ('s, 'l) open_calls \<Rightarrow> bool" where
  "calls_ok c ids pg \<longleftrightarrow>
     op_ledger (pending_ids (fst pg) + ids) (snd pg) \<and> pending_wf (fst pg) \<and>
     list_all (call_ok c) (map snd (fst pg))"

interpretation hr: call_recorder c "http_record ev c"
  unfolding http_record_def by (rule gw.call_recorder_axioms)

lemma http_newPendingCall_ledger:
  assumes "http_newPendingCall ev c t i pr m e g = (call, g')"
  shows "call_ok c call" "op_ledger (op_ids [call] + ids) g' = op_ledger ids g"
proof -
  obtain oo h where s: "start_operation ev c (http_entry c i pr m e) t g = (oo, h)" by fastforce
  with assms have "h = g'" "pc_operation call = oo" by (auto simp: http_newPendingCall_def)
  with start_operation_ledger [OF s] show "call_ok c call"
    "op_ledger (op_ids [call] + ids) g' = op_ledger ids g"
    by (auto simp: call_ok_def)
qed

lemma put_call_ok:
  assumes "calls_ok c ids (p, g0)" "call_ok c call" "op_ledger (op_ids [call] + (pending_ids p + ids)) g"
  shows "calls_ok c ids (put_call key call (p, g))"
proof -
  have wf: "pending_wf p" "list_all (call_ok c) (map snd p)" using assms(1) by (simp_all add: calls_ok_def)
  have "op_ids [call] + (pending_ids p + ids) =
      pending_ids (map_put key call p) + ids + mset (replaced key p)"
    using map_put_ids [OF wf(1), of key call] by (simp add: ac_simps del: op_ids_simps)
  with assms(2,3) wf show ?thesis
    by (simp add: calls_ok_def put_call_def op_ledger_lost map_put_wf list_all_map_put del: op_ids_simps)
qed

lemma http_record_ok:
  assumes "calls_ok c ids (p, g0)" "call_ok c call" "op_ledger (op_ids [call] + (pending_ids p + ids)) g"
  shows "calls_ok c ids (p, snd (http_record ev c call oc d r x g))"
  using assms by (simp add: calls_ok_def hr.settles_snd del: op_ids_simps)

lemma http_message_ok:
  assumes "calls_ok c ids (p, g)"
  shows "calls_ok c ids (snd (http_message ev c t pr m (p, g)))"
proof -
  let ?n = "md_Name (metadata_of m)"
  define d where "d = message_decision c pr m"
  obtain call g0 where n: "http_newPendingCall ev c t (http_client_id c pr) (auditPrincipal (Some pr)) m
      (auditPolicyEvidence d) g = (call, g0)" by fastforce
  define g1 where "g1 = recordPolicyDecision c d g0"
  obtain ok g2 where l: "(if rm_Method m = ''tools/call''
      then limiter_allow ev (ClientID pr) ?n g1 else (True, g1)) = (ok, g2)" by fastforce
  note ok' = http_newPendingCall_ledger(1) [OF n]
  have led: "op_ledger (op_ids [call] + (pending_ids p + ids)) g1"
    using assms http_newPendingCall_ledger(2) [OF n] by (simp add: g1_def calls_ok_def del: op_ids_simps)
  have "g2 = g1 \<or> g2 = snd (limiter_allow ev (ClientID pr) ?n g1)"
    using l by (metis snd_conv)
  with led have led2: "op_ledger (op_ids [call] + (pending_ids p + ids)) g2"
    by (auto simp del: op_ids_simps)
  then have led3: "op_ledger (op_ids [call] + (pending_ids p + ids)) (rate_rejected c (ClientID pr) ?n g2)"
    by (simp del: op_ids_simps)
  have none: "calls_ok c ids (p, g2)" if "pc_operation call = None"
    using assms led2 that by (simp add: calls_ok_def)
  have "snd (http_message ev c t pr m (p, g)) \<in>
    {(p, snd (http_record ev c call OutcomeDenied DirectionClientToServer [] (Some (policyError d)) g1)),
     (p, snd (http_record ev c call OutcomeRateLimited DirectionClientToServer []
        (Some rateLimitError) (rate_rejected c (ClientID pr) ?n g2))),
     put_call (rm_ID m) call (p, g2),
     put_call (''notification:'' @ Operation_ID (pc_operation call)) call (p, g2)} \<or>
    snd (http_message ev c t pr m (p, g)) = (p, g2) \<and> pc_operation call = None"
    unfolding http_message_def Let_def d_def [symmetric] n prod.case g1_def [symmetric] l by simp
  then show ?thesis
    using http_record_ok [OF assms ok' led] http_record_ok [OF assms ok' led3]
      put_call_ok [OF assms ok' led2] none by auto
qed

lemma http_messages_ok:
  "calls_ok c ids pg \<Longrightarrow> calls_ok c ids (snd (http_messages ev c t pr ms pg))"
proof (induction ms arbitrary: pg)
  case (Cons m ms)
  obtain q pg' where q: "http_message ev c t pr m pg = (q, pg')" by (rule prod.exhaust)
  have "calls_ok c ids pg'" using http_message_ok [of c ids "fst pg" "snd pg" ev t pr m] Cons.prems q
    by simp
  with Cons q show ?case by (cases q) simp_all
qed simp

lemma observeHTTPRequest_ok:
  "op_ledger ids g \<Longrightarrow> calls_ok c ids (snd (observeHTTPRequest ev c raw t pr g))"
proof -
  assume "op_ledger ids g"
  then have "calls_ok c ids ([], g)" by (simp add: calls_ok_def pending_wf_def)
  with http_messages_ok [OF this] show ?thesis by (simp add: observeHTTPRequest_def split: sum.split)
qed

lemma finalizeHTTPPending_ok:
  assumes "calls_ok c ids pg" "fair_order ev"
  shows "op_ledger ids (snd (finalizeHTTPPending ev c oc d pg))" "fst (finalizeHTTPPending ev c oc d pg) = []"
  using assms
  by (auto simp: finalizeHTTPPending_def calls_ok_def order_ids
      hr.finalize_each_settles [where oc = "\<lambda>_. oc" and d = "\<lambda>_. d" and r = "\<lambda>_. []" and x = "\<lambda>_. None"]
      split: prod.splits)

lemma finalizeHTTPRemainder_ok:
  assumes "calls_ok c ids pg" "fair_order ev"
  shows "op_ledger ids (snd (finalizeHTTPRemainder ev c st pg))" "fst (finalizeHTTPRemainder ev c st pg) = []"
  using assms
  by (auto simp: finalizeHTTPRemainder_def calls_ok_def order_ids
      hr.finalize_each_settles [where oc = "remainder_outcome st" and d = "remainder_direction st"
        and r = "\<lambda>_. []" and x = "\<lambda>_. None"]
      split: prod.splits)

lemma response_message_ok:
  assumes "calls_ok c ids pg"
  shows "calls_ok c ids (response_message ev c st m pg)"
proof (cases "map_of (fst pg) (rm_ID m)")
  case None
  with assms show ?thesis by (cases pg) (simp add: response_message_def)
next
  case (Some call)
  obtain p g where pg: "pg = (p, g)" by fastforce
  have wf: "pending_wf p" "list_all (call_ok c) (map snd p)" "op_ledger (pending_ids p + ids) g"
    using assms by (simp_all add: calls_ok_def pg)
  have "pending_ids p = op_ids [call] + pending_ids (delete_key (rm_ID m) p)"
    using delete_ids [OF wf(1)] Some pg by simp
  then have "op_ledger (op_ids [call] + (pending_ids (delete_key (rm_ID m) p) + ids)) g"
    using wf(3) by (simp add: ac_simps del: op_ids_simps)
  moreover have "call_ok c call" using map_of_call_ok [OF wf(2)] Some pg by simp
  ultimately show ?thesis
    using Some pg wf
    by (simp add: response_message_def calls_ok_def hr.settles_snd delete_key_wf list_all_delete
        del: op_ids_simps)
qed

lemma observeHTTPResponse_ok:
  assumes "calls_ok c ids pg"
  shows "calls_ok c ids (snd (observeHTTPResponse ev c raw st pg))"
proof -
  have "calls_ok c ids (fold (response_message ev c st) ms pg)" for ms
    using assms by (induction ms arbitrary: pg) (simp_all add: response_message_ok)
  with assms show ?thesis by (simp add: observeHTTPResponse_def split: sum.split)
qed

lemma sse_event_ok:
  assumes "calls_ok c ids pg" "fair_order ev"
  shows "calls_ok c ids (snd (sse_event ev c st line buf pg))"
proof -
  obtain b pg' where o: "observeHTTPResponse ev c buf st pg = (b, pg')" by (rule prod.exhaust)
  have pg': "calls_ok c ids pg'" using observeHTTPResponse_ok [OF assms(1), of ev buf st] o by simp
  have "calls_ok c ids (finalizeHTTPRemainder ev c st pg')"
    using finalizeHTTPRemainder_ok [OF pg' assms(2), of st] by (simp add: calls_ok_def pending_wf_def)
  with pg' o assms(1) show ?thesis by (cases b) (simp_all add: sse_event_def)
qed

lemma sse_end_ok:
  "\<lbrakk>calls_ok c ids pg; fair_order ev\<rbrakk> \<Longrightarrow> op_ledger ids (snd (sse_end ev net c st er pg))"
  by (simp add: sse_end_def finalizeHTTPRemainder_ok finalizeHTTPPending_ok split: option.split)

lemma streamSSE_ok:
  "\<lbrakk>calls_ok c ids pg; fair_order ev\<rbrakk> \<Longrightarrow>
     op_ledger ids (snd (snd (streamSSE ev net c st er i ls buf out pg)))"
proof (induction ls arbitrary: i buf out pg)
  case (Cons line ls)
  obtain buf' pg' where e: "sse_event ev c st line (sse_data line buf) pg = (buf', pg')"
    by (rule prod.exhaust)
  have "calls_ok c ids pg'"
    using sse_event_ok [OF Cons.prems, of st line "sse_data line buf"] e by simp
  with Cons e show ?case by (simp add: finalizeHTTPPending_ok sse_end_ok)
qed (simp add: sse_end_ok)

subsection \<open>Retries\<close>

definition retried :: "http_net \<Rightarrow> 's http_proxy \<Rightarrow> bool \<Rightarrow> nat \<Rightarrow> bool" where
  "retried net p safe i \<longleftrightarrow>
     shouldRetryUpstream (retryPolicy p) i safe (at_bytesRead (hn_attempt net i)) (at_result (hn_attempt net i))"

text \<open>The state in which the loop goes on after attempt \<open>i\<close>.\<close>

definition after_wait ::
  "'l env \<Rightarrow> http_net \<Rightarrow> 's http_proxy \<Rightarrow> upstream_request \<Rightarrow> nat \<Rightarrow> nat \<Rightarrow> ('s, 'l) http_out \<Rightarrow>
   nat \<times> ('s, 'l) http_out" where
  "after_wait ev net p req i backoff h =
     (let ra = responseRetryAfter (hn_parseTime net) (ev_clock ev (g_n (ho_gw h))) (at_result (hn_attempt net i))
      in (if ra \<le> 0 then Suc backoff else backoff,
          record_retry p req (retry_delay (retryPolicy p) backoff ra) (at_result (hn_attempt net i))
            (send_upstream req h)))"

lemma upstream_loop_cases:
  assumes "newUpstreamRequest net p r body = Inr req"
  shows "upstream_loop ev net p r body safe i b h =
     (if \<not> retried net p safe i then (at_result (hn_attempt net i), send_upstream req h)
      else
        (case after_wait ev net p req i b h of (b', h') \<Rightarrow>
           (case at_ctxDone (hn_attempt net i) of
              Some e \<Rightarrow> (Inl e, h')
            | None \<Rightarrow> upstream_loop ev net p r body safe (Suc i) b' h')))"
  by (subst upstream_loop.simps) (simp add: assms Let_def retried_def after_wait_def)

lemma after_wait_frame:
  assumes "after_wait ev net p req i b h = (b', h')"
  shows "ho_gw h' = ho_gw h" "ho_sent h' = ho_sent h @ [req]"
  using assms by (auto simp: after_wait_def Let_def record_retry_def send_upstream_def)

lemma upstream_loop_spec:
  assumes req: "newUpstreamRequest net p r body = Inr req"
    and "upstream_loop ev net p r body safe i b h = (res, h')"
  shows "\<exists>k. ho_gw h' = ho_gw h \<and> ho_sent h' = ho_sent h @ replicate (Suc k) req \<and>
     (\<forall>j < k. retried net p safe (i + j)) \<and>
     (res = at_result (hn_attempt net (i + k)) \<or>
      (\<exists>e. retried net p safe (i + k) \<and> at_ctxDone (hn_attempt net (i + k)) = Some e \<and> res = Inl e))"
  using assms(2)
proof (induction "nat (MaxRetries (retryPolicy p) - int i)" arbitrary: i b h rule: less_induct)
  case less
  show ?case
  proof (cases "retried net p safe i")
    case False
    with less.prems show ?thesis
      by (intro exI [of _ 0]) (auto simp: upstream_loop_cases [OF req] send_upstream_def)
  next
    case True
    obtain b1 h1 where a: "after_wait ev net p req i b h = (b1, h1)" by fastforce
    note f = after_wait_frame [OF a]
    show ?thesis
    proof (cases "at_ctxDone (hn_attempt net i)")
      case (Some e)
      with less.prems True a f show ?thesis
        by (intro exI [of _ 0]) (auto simp: upstream_loop_cases [OF req])
    next
      case None
      with less.prems True a have l: "upstream_loop ev net p r body safe (Suc i) b1 h1 = (res, h')"
        by (simp add: upstream_loop_cases [OF req, of ev safe i])
      have "int i < MaxRetries (retryPolicy p)"
        using shouldRetry_bound True unfolding retried_def by blast
      then have "nat (MaxRetries (retryPolicy p) - int (Suc i)) < nat (MaxRetries (retryPolicy p) - int i)"
        by simp
      from less.hyps [OF this l] obtain k where k: "ho_gw h' = ho_gw h1"
        "ho_sent h' = ho_sent h1 @ replicate (Suc k) req" "\<forall>j < k. retried net p safe (Suc i + j)"
        "res = at_result (hn_attempt net (Suc i + k)) \<or>
          (\<exists>e. retried net p safe (Suc i + k) \<and> at_ctxDone (hn_attempt net (Suc i + k)) = Some e \<and> res = Inl e)"
        by blast
      have "retried net p safe (i + j)" if "j < Suc k" for j
        using that k(3) True by (cases j) auto
      with k f show ?thesis by (intro exI [of _ "Suc k"]) auto
    qed
  qed
qed

text \<open>
  C14: Retries are bounded and conservative. Serving a request ends after at most \<open>MaxRetries\<close>
  further copies of one and the same upstream request; each of them follows an answer 429 or 503
  or a network error before a byte of the body was read; and a request that is not known to be
  safe, such as a tool call, is sent exactly once. The caller gets the last attempt's result, or
  the error of a context that ended while waiting.
\<close>
theorem upstream_retries_bounded:
  assumes "newUpstreamRequest net p r body = Inr req"
    and "doUpstreamRequest ev net p r body h = (res, h')"
  shows "\<exists>k. ho_sent h' = ho_sent h @ replicate (Suc k) req \<and>
     int k \<le> max 0 (MaxRetries (retryPolicy p)) \<and>
     (\<not> safeToRetry (rq_Method r) body \<longrightarrow> k = 0) \<and>
     (\<forall>j < k. case at_result (hn_attempt net j) of
        Inl e \<Rightarrow> at_bytesRead (hn_attempt net j) = 0
      | Inr resp \<Rightarrow> rs_StatusCode resp = 429 \<or> rs_StatusCode resp = 503) \<and>
     (res = at_result (hn_attempt net k) \<or> Some res = map_option Inl (at_ctxDone (hn_attempt net k)))"
proof -
  let ?safe = "safeToRetry (rq_Method r) body"
  obtain k where k: "ho_sent h' = ho_sent h @ replicate (Suc k) req"
    "\<forall>j < k. retried net p ?safe j"
    "res = at_result (hn_attempt net k) \<or> Some res = map_option Inl (at_ctxDone (hn_attempt net k))"
    using upstream_loop_spec [OF assms(1) assms(2) [unfolded doUpstreamRequest_def]] by fastforce
  have b: "?safe \<and> int j < MaxRetries (retryPolicy p)" if "j < k" for j
    using k(2) that shouldRetry_bound unfolding retried_def by blast
  have "int k \<le> max 0 (MaxRetries (retryPolicy p))" using b [of "k - 1"] by (cases k) auto
  moreover have "\<not> ?safe \<longrightarrow> k = 0" using b [of 0] by auto
  moreover have "case at_result (hn_attempt net j) of
        Inl e \<Rightarrow> at_bytesRead (hn_attempt net j) = 0
      | Inr resp \<Rightarrow> rs_StatusCode resp = 429 \<or> rs_StatusCode resp = 503" if "j < k" for j
  proof -
    have "retried net p ?safe j" using k(2) that by blast
    then show ?thesis
      by (auto simp: retried_def shouldRetryUpstream_def CanRetry_def IsRetryable_def retryPolicy_def
          Let_def StatusCodeClassifier_def split: sum.splits if_splits)
  qed
  ultimately show ?thesis using k(1,3) by blast
qed

subsection \<open>The whole request\<close>

lemma doUpstream_gw:
  assumes "doUpstreamRequest ev net p r body h = (res, h')"
  shows "ho_gw h' = ho_gw h"
proof (cases "newUpstreamRequest net p r body")
  case (Inl e)
  with assms show ?thesis by (simp add: doUpstreamRequest_def upstream_loop.simps)
next
  case (Inr req)
  from upstream_loop_spec [OF Inr assms [unfolded doUpstreamRequest_def]] show ?thesis by blast
qed

lemma relay_response_ok:
  assumes "calls_ok (hc_gw (hp_config p)) ids (pend, ho_gw h)" "fair_order ev"
  shows "op_ledger ids (ho_gw (relay_response ev net p resp pend h))"
proof -
  let ?c = "hc_gw (hp_config p)"
  have "calls_ok ?c ids (snd (observeHTTPResponse ev ?c raw st (pend, ho_gw h)))" for raw st
    by (rule observeHTTPResponse_ok [OF assms(1)])
  then have a: "op_ledger ids (snd (finalizeHTTPRemainder ev ?c st
      (snd (observeHTTPResponse ev ?c raw st (pend, ho_gw h)))))" for raw st
    using finalizeHTTPRemainder_ok(1) assms(2) by blast
  obtain out p' g where s: "streamSSE ev net ?c (rs_StatusCode resp) (rs_Error resp) 0
      (read_lines (rs_Body resp)) [] [] (pend, ho_gw h) = (out, (p', g))" by (metis surj_pair)
  have b: "op_ledger ids g" using streamSSE_ok [OF assms, of net "rs_StatusCode resp" "rs_Error resp" 0
        "read_lines (rs_Body resp)" "[]" "[]"] s by simp
  show ?thesis
    using a b s finalizeHTTPPending_ok(1) [OF assms]
    by (simp add: relay_response_def Let_def split: option.split)
qed

lemma serve_accepted_ok:
  assumes "op_ledger ids (ho_gw h)" "fair_order ev"
  shows "op_ledger ids (ho_gw (serve_accepted ev net p r pr t h))"
proof -
  let ?c = "hc_gw (hp_config p)"
  obtain q pend g where o: "observeHTTPRequest ev ?c (rq_Body r) t pr (ho_gw h) = (q, (pend, g))"
    by (metis surj_pair)
  have ok: "calls_ok ?c ids (pend, g)"
    using observeHTTPRequest_ok [OF assms(1), of ?c ev "rq_Body r" t pr] o by simp
  show ?thesis
  proof (cases q)
    case (Some reject)
    with o finalizeHTTPPending_ok(1) [OF ok assms(2)] show ?thesis
      by (simp add: serve_accepted_def Let_def)
  next
    case None
    obtain res h1 where d: "doUpstreamRequest ev net p r (rq_Body r) (h\<lparr>ho_gw := g\<rparr>) = (res, h1)"
      by fastforce
    have g: "ho_gw h1 = g" using doUpstream_gw [OF d] by simp
    with ok have ok1: "calls_ok ?c ids (pend, ho_gw h1)" by simp
    show ?thesis
    proof (cases res)
      case (Inl e)
      with None o d finalizeHTTPPending_ok(1) [OF ok1 assms(2)] show ?thesis
        by (simp add: serve_accepted_def Let_def)
    next
      case (Inr resp)
      with None o d relay_response_ok [OF ok1 assms(2)] show ?thesis
        by (simp add: serve_accepted_def Let_def)
    qed
  qed
qed

text \<open>
  C10: Every operation of an HTTP request is settled when the handler returns. Whatever the client,
  the authenticator, the upstream and the network do, on every path through \<open>ServeHTTP\<close>,
  each operation the request started has had exactly one \<open>Finalize\<close> call or was dropped because
  a message of the same batch reused its identifier; other requests' open operations
  (\<open>ids\<close>) are not touched.
\<close>
theorem http_request_settled:
  assumes "fair_order ev"
    and "mset (g_accepted (ho_gw h)) =
      mset (map fst (g_finals (ho_gw h))) + ids + mset (g_lost (ho_gw h))"
    and h'_def: "h' = ServeHTTP ev net p r h"
  shows "mset (g_accepted (ho_gw h')) =
      mset (map fst (g_finals (ho_gw h'))) + ids + mset (g_lost (ho_gw h'))"
proof -
  have led: "op_ledger ids (ho_gw h)" using assms(2) by (simp add: op_ledger_def)
  have "ho_gw (rejectHTTPRequest p s a b hd h) = ho_gw h" for s a b hd
    by (simp add: rejectHTTPRequest_def)
  then have "op_ledger ids (ho_gw h')"
    using led serve_accepted_ok [OF led assms(1)]
    by (simp add: h'_def ServeHTTP_def Let_def rejectAuthentication_def writeMCPMetadataError_def
        split: sum.split option.split)
  then show ?thesis by (simp add: op_ledger_def)
qed

subsection \<open>What reaches the upstream\<close>

definition body_allowed :: "'s gateway_config \<Rightarrow> principal \<Rightarrow> string \<Rightarrow> bool" where
  "body_allowed c pr raw \<longleftrightarrow>
     TrimSpace raw = [] \<or>
     (case decodeMessages raw of
        Inl e \<Rightarrow> True
      | Inr ms \<Rightarrow> list_all (\<lambda>m. rm_Method m = [] \<or> Allowed (message_decision c pr m)) ms)"

lemma http_message_None:
  "http_message ev c t pr m pg = (None, pg') \<Longrightarrow> Allowed (message_decision c pr m)"
  by (auto simp: http_message_def Let_def split: prod.splits if_splits)

lemma http_messages_None:
  "http_messages ev c t pr ms pg = (None, pg') \<Longrightarrow>
     list_all (\<lambda>m. rm_Method m = [] \<or> Allowed (message_decision c pr m)) ms"
  by (induction ms arbitrary: pg)
    (auto split: if_splits prod.splits option.splits dest: http_message_None)

lemma observeHTTPRequest_None:
  "observeHTTPRequest ev c raw t pr g = (None, pg) \<Longrightarrow> body_allowed c pr raw"
  by (auto simp: observeHTTPRequest_def body_allowed_def http_messages_None
      split: if_splits sum.splits)

lemma relay_response_sent [simp]: "ho_sent (relay_response ev net p resp pend h) = ho_sent h"
  by (simp add: relay_response_def Let_def split: option.split prod.split)

text \<open>
  C11: The gate in front of the upstream. If serving a request sends anything upstream, then the
  host and the origin are allowed, the authenticator gave a principal, the body is within the
  limit, its MCP metadata was accepted, and the policy allows that principal every message
  that the body decodes to.
\<close>
theorem http_gate:
  assumes "ho_sent (ServeHTTP ev net p r h) \<noteq> ho_sent h"
  shows "hostAllowed (hp_allowedHosts p) (rq_Host r) \<and>
     originAllowed (hp_allowedOrigins p) (Header_Get (rq_Header r) ''Origin'') \<and>
     int (length (rq_Body r)) \<le> hc_MaxRequestBodyBytes (hp_config p) \<and>
     validateMCPRequest (rq_Header r) (rq_Body r) = None \<and>
     (\<exists>pr. hp_authenticate p (rq_Header r) = Inr (Some pr) \<and>
        body_allowed (hc_gw (hp_config p)) pr (rq_Body r))"
proof -
  have rej: "ho_sent (rejectHTTPRequest p s a b hd h) = ho_sent h" for s a b hd
    by (simp add: rejectHTTPRequest_def)
  have acc: "body_allowed (hc_gw (hp_config p)) pr (rq_Body r)"
    if "ho_sent (serve_accepted ev net p r pr t h) \<noteq> ho_sent h" for pr t
  proof -
    obtain q pg where o: "observeHTTPRequest ev (hc_gw (hp_config p)) (rq_Body r) t pr (ho_gw h) = (q, pg)"
      by (rule prod.exhaust)
    with that have "q = None" by (cases q) (auto simp: serve_accepted_def Let_def)
    with o observeHTTPRequest_None show ?thesis by blast
  qed
  from assms show ?thesis
    using rej acc
    by (auto simp: ServeHTTP_def Let_def rejectAuthentication_def writeMCPMetadataError_def
        split: if_splits sum.splits option.splits)
qed



subsection \<open>Examples\<close>

definition mem_http :: "entry list http_proxy" where
  "mem_http =
     \<lparr>hp_config = \<lparr>hc_Upstream = ''http://up/'', hc_BindAddress = [], hc_Port = 1, hc_UpstreamTimeoutMS = 1,
        hc_ForwardHeaders = [], hc_MaxRequestBodyBytes = 1000, hc_MaxHeaderBytes = 1,
        hc_ReadHeaderTimeout = 1, hc_ReadTimeout = 1, hc_WriteTimeout = 1, hc_IdleTimeout = 1,
        hc_AllowedOrigins = [], hc_AllowedHosts = [], hc_Authenticator = None,
        hc_ServerTLS = \<lparr>htc_Enabled = False, htc_CertFile = [], htc_KeyFile = []\<rparr>,
        hc_TLS = \<lparr>tc_CAFile = [], tc_ServerName = [], tc_InsecureSkipVerify = False,
          tc_ClientCertFile = [], tc_ClientKeyFile = []\<rparr>,
        hc_Retry = \<lparr>hrc_MaxRetries = 1, hrc_InitialIntervalMS = 1, hrc_MaxIntervalMS = 1\<rparr>,
        hc_gw = mem_config\<rparr>,
      hp_authenticate = (\<lambda>h. Inr (Some \<lparr>Subject = ''c'', ClientID = ''c'', Issuer = ''static'',
        Roles = [], Scopes = [], Claims = []\<rparr>)),
      hp_upstream = empty_url\<lparr>u_Scheme := ''http'', u_Host := ''up'', u_Path := ''/''\<rparr>,
      hp_client = \<lparr>cl_Timeout = 1, cl_TLS = None\<rparr>, hp_forwardHeaders = [], hp_allowedOrigins = [], hp_allowedHosts = [], hp_serverTLS = False\<rparr>"

definition mem_request :: http_request where
  "mem_request =
     \<lparr>rq_Method = ''GET'', rq_Host = ''h'', rq_Path = ''/x'', rq_RawQuery = [], rq_RemoteAddr = ''1.2.3.4:5'',
      rq_Header = [(''Authorization'', [''t'']), (''Accept'', [''a'']), (''Te'', [''t''])],
      rq_Body = [], rq_ReadError = False\<rparr>"

definition ok_response :: "int \<Rightarrow> http_response" where
  "ok_response status = \<lparr>rs_StatusCode = status, rs_Header = [], rs_Body = [], rs_Error = None\<rparr>"

text \<open>The upstream is unavailable once and then answers.\<close>

definition mem_net :: http_net where
  "mem_net =
     \<lparr>hn_newRequest = None,
      hn_attempt = (\<lambda>n. \<lparr>at_bytesRead = 0, at_result = Inr (ok_response (if n = 0 then 503 else 200)),
                         at_ctxDone = None\<rparr>),
      hn_ctxErr = None, hn_writeFails = (\<lambda>n. False), hn_parseTime = (\<lambda>s. None)\<rparr>"

definition mem_out :: "(entry list, unit) http_out" where
  "mem_out = \<lparr>ho_gw = mem_gateway, ho_reply = \<lparr>rp_Header = [], rp_StatusCode = 0, rp_Body = []\<rparr>,
     ho_rejections = [], ho_retries = [], ho_sent = [], ho_delays = []\<rparr>"

lemma mem_retry: "retried mem_net mem_http True 0" "\<not> retried mem_net mem_http True (Suc 0)"
  by (simp_all add: retried_def shouldRetryUpstream_def mem_net_def ok_response_def CanRetry_def
      IsRetryable_def retryPolicy_def Let_def mem_http_def StatusCodeClassifier_def)

lemma mem_ok: "newUpstreamRequest mem_net mem_http mem_request [] \<noteq> Inl e"
  by (simp add: newUpstreamRequest_def mem_net_def)

lemma mem_sends:
  obtains req where "newUpstreamRequest mem_net mem_http mem_request [] = Inr req"
    "ho_sent (snd (doUpstreamRequest mem_env mem_net mem_http mem_request [] mem_out)) = [req, req]"
proof -
  obtain req where req: "newUpstreamRequest mem_net mem_http mem_request [] = Inr req"
    using mem_ok by (metis sum.exhaust)
  obtain b h where a: "after_wait mem_env mem_net mem_http req 0 0 mem_out = (b, h)" by fastforce
  have s: "safeToRetry (rq_Method mem_request) []" by (simp add: safeToRetry_def mem_request_def)
  have "at_ctxDone (hn_attempt mem_net n) = None" for n by (simp add: mem_net_def)
  then have "upstream_loop mem_env mem_net mem_http mem_request [] True 0 0 mem_out =
      (at_result (hn_attempt mem_net (Suc 0)), send_upstream req h)"
    by (simp add: upstream_loop_cases [OF req, of mem_env True 0] mem_retry a)
      (simp add: upstream_loop_cases [OF req] mem_retry)
  with after_wait_frame(2) [OF a] s req that show thesis
    by (simp add: doUpstreamRequest_def send_upstream_def mem_out_def)
qed

theorem upstream_retries_bounded_witness:
  "\<exists>req k. newUpstreamRequest mem_net mem_http mem_request [] = Inr req \<and> k = 1 \<and>
     ho_sent (snd (doUpstreamRequest mem_env mem_net mem_http mem_request [] mem_out)) = replicate (Suc k) req \<and>
     int k \<le> max 0 (MaxRetries (retryPolicy mem_http))"
proof -
  obtain req where req: "newUpstreamRequest mem_net mem_http mem_request [] = Inr req"
    "ho_sent (snd (doUpstreamRequest mem_env mem_net mem_http mem_request [] mem_out)) = [req, req]"
    by (rule mem_sends)
  obtain res h' where d: "doUpstreamRequest mem_env mem_net mem_http mem_request [] mem_out = (res, h')"
    by fastforce
  from upstream_retries_bounded [OF req(1) d] obtain k where
    k: "ho_sent h' = ho_sent mem_out @ replicate (Suc k) req" "int k \<le> max 0 (MaxRetries (retryPolicy mem_http))"
    by blast
  with req(2) d have "[req, req] = replicate (Suc k) req" by (simp add: mem_out_def)
  then have "k = 1" by (metis One_nat_def Suc_inject length_Cons length_replicate list.size(3))
  with req d k show ?thesis by (auto simp: mem_out_def)
qed

lemma mem_observe: "observeHTTPRequest ev c [] t pr g = (None, ([], g))"
  by (simp add: observeHTTPRequest_def)

lemma mem_serves:
  "ho_sent (ServeHTTP mem_env mem_net mem_http mem_request mem_out) \<noteq> ho_sent mem_out"
proof -
  have v: "validateMCPRequest (rq_Header mem_request) (rq_Body mem_request) = None" by code_simp
  obtain res h' where "doUpstreamRequest mem_env mem_net mem_http mem_request [] mem_out = (res, h')"
    by fastforce
  moreover have "ho_sent (snd (doUpstreamRequest mem_env mem_net mem_http mem_request [] mem_out)) \<noteq> []"
    by (rule mem_sends) simp
  moreover have "mem_out\<lparr>ho_gw := ho_gw mem_out\<rparr> = mem_out" "rq_Body mem_request = []"
    by (simp_all add: mem_request_def)
  ultimately have "ho_sent (serve_accepted mem_env mem_net mem_http mem_request pr t mem_out) \<noteq> []" for pr t
    by (auto simp: serve_accepted_def Let_def mem_observe split: sum.split)
  with v show ?thesis
    by (simp add: ServeHTTP_def Let_def mem_http_def hostAllowed_def originAllowed_def mem_request_def
        mem_out_def)
qed

theorem http_gate_witness:
  "\<exists>pr. hp_authenticate mem_http (rq_Header mem_request) = Inr (Some pr) \<and>
     body_allowed (hc_gw (hp_config mem_http)) pr (rq_Body mem_request)"
  using http_gate [OF mem_serves] by blast

theorem http_request_settled_witness:
  "mset (g_accepted (ho_gw (ServeHTTP mem_env mem_net mem_http mem_request mem_out))) =
     mset (map fst (g_finals (ho_gw (ServeHTTP mem_env mem_net mem_http mem_request mem_out)))) + {#} +
     mset (g_lost (ho_gw (ServeHTTP mem_env mem_net mem_http mem_request mem_out)))"
  by (rule http_request_settled [OF _ _ refl]) (simp_all add: fair_order_def mem_env_def mem_out_def mem_gateway_def)



end
