(* ===== verification/Verify.thy ===== *)
theory Verify
  imports Sqlite Jsonl "HOL-Library.Word"
begin

text \<open>
  Verification of stored evidence (\<open>internal/audit/verify\<close>): the classification of records, the
  readers for JSON lines files and SQLite databases, and signed checkpoints.

  The operating system and the database engine are arguments: an \<open>artifact\<close> holds the bytes of
  the file, the rows of the table and the answers of the calls that can fail. \<open>vprims\<close> bundles
  HMAC-SHA256, SHA-256 and the third-party canonicalization. A running hash is the bytes written
  to it. Texts of parse errors of the standard library are abbreviated.

  The locale \<open>evidence_reader\<close> is the contract both readers fulfil: what they report and what
  they digest is a function of the sequence of items in the artifact.
\<close>

subsection \<open>Results\<close>

definition FormatAuto :: string where "FormatAuto = ''auto''"
definition FormatJSONL :: string where "FormatJSONL = ''jsonl''"
definition FormatSQLite :: string where "FormatSQLite = ''sqlite''"

record vresult =
  vr_Verified :: int
  vr_Invalid :: int
  vr_Legacy :: int
  vr_Unsigned :: int
  vr_Total :: int
  vr_FirstError :: string
  vr_policyFailed :: bool

definition zero_result :: vresult where
  "zero_result = \<lparr>vr_Verified = 0, vr_Invalid = 0, vr_Legacy = 0, vr_Unsigned = 0, vr_Total = 0,
     vr_FirstError = [], vr_policyFailed = False\<rparr>"

definition Clean :: "vresult \<Rightarrow> bool" where
  "Clean r \<longleftrightarrow> vr_Invalid r = 0 \<and> vr_Unsigned r = 0 \<and> \<not> vr_policyFailed r"

record vprims =
  vp_hmac :: "string \<Rightarrow> string \<Rightarrow> string"
  vp_sha256 :: "string \<Rightarrow> string"
  vp_jcs :: "string \<Rightarrow> string res"

subsection \<open>One record\<close>

record entry_verifier =
  ev_v2 :: verifier
  ev_legacy :: "(string \<times> signer) list"
  ev_requireV2 :: bool

definition newEntryVerifier :: "(string \<times> string) list \<Rightarrow> entry_verifier" where
  "newEntryVerifier keys =
     \<lparr>ev_v2 = NewVerifier keys, ev_legacy = map (\<lambda>(k, s). (k, NewSigner s)) keys,
      ev_requireV2 = False\<rparr>"

text \<open>The status and the error, empty for nil. The loop over the legacy map stops at a match.\<close>

definition verify_entry :: "vprims \<Rightarrow> entry_verifier \<Rightarrow> entry \<Rightarrow> string \<times> err" where
  "verify_entry p v e =
     (if e_Integrity e \<noteq> None then
        (case Verifier_Verify (vp_hmac p) (vp_jcs p) (Some (ev_v2 v)) (IntegrityEntryV2 e)
               (e_Integrity e) of
           Some er \<Rightarrow> (''invalid'', er)
         | None \<Rightarrow> (''verified'', []))
      else if ev_requireV2 v then (''invalid'', ''integrity v2 is required'')
      else if e_Signature e = [] then (''unsigned'', [])
      else if list_ex (\<lambda>(k, s). Signer_Verify (vp_hmac p) (Some s) e) (ev_legacy v)
      then (''legacy'', [])
      else (''invalid'', ''legacy signature does not match any configured key''))"

definition entryLabel :: "string \<Rightarrow> int \<Rightarrow> string" where
  "entryLabel i index = (if i \<noteq> [] then ''entry '' @ i else ''record '' @ Itoa index)"

definition first_error :: "string \<Rightarrow> vresult \<Rightarrow> vresult" where
  "first_error s r = (if vr_FirstError r = [] then r\<lparr>vr_FirstError := s\<rparr> else r)"

definition record_result :: "vprims \<Rightarrow> entry_verifier \<Rightarrow> entry \<Rightarrow> vresult \<Rightarrow> vresult" where
  "record_result p v e r0 =
     (let r = r0\<lparr>vr_Total := vr_Total r0 + 1\<rparr>
      in case verify_entry p v e of
           (status, er) \<Rightarrow>
             if status = ''verified'' then r\<lparr>vr_Verified := vr_Verified r + 1\<rparr>
             else if status = ''legacy'' then r\<lparr>vr_Legacy := vr_Legacy r + 1\<rparr>
             else if status = ''unsigned'' then
               first_error (entryLabel (e_ID e) (vr_Total r) @ '': unsigned'')
                 (r\<lparr>vr_Unsigned := vr_Unsigned r + 1\<rparr>)
             else
               first_error (entryLabel (e_ID e) (vr_Total r) @ '': '' @ er)
                 (r\<lparr>vr_Invalid := vr_Invalid r + 1\<rparr>))"

definition malformed_result :: "int \<Rightarrow> err \<Rightarrow> vresult \<Rightarrow> vresult" where
  "malformed_result index er r =
     first_error (''record '' @ Itoa index @ '': '' @ er)
       (r\<lparr>vr_Total := vr_Total r + 1, vr_Invalid := vr_Invalid r + 1\<rparr>)"

subsection \<open>The ordered digest\<close>

record ordered_digest =
  od_hash :: string
  od_count :: "64 word"

definition newOrderedDigest :: ordered_digest where
  "newOrderedDigest = \<lparr>od_hash = [], od_count = 0\<rparr>"

definition PutUint64 :: "64 word \<Rightarrow> string" where
  "PutUint64 w = map (\<lambda>k. char_of (unat (drop_bit (8 * k) w) mod 256)) [7, 6, 5, 4, 3, 2, 1, 0]"

definition digest_add :: "string \<Rightarrow> ordered_digest \<Rightarrow> ordered_digest" where
  "digest_add canonical d =
     \<lparr>od_hash = od_hash d @ PutUint64 (of_nat (length canonical)) @ canonical,
      od_count = od_count d + 1\<rparr>"

subsection \<open>JSON lines\<close>

record sql_artifact =
  sa_stat :: "err option"
  sa_open :: "err option"
  sa_pragma :: "err option"
  sa_info_query :: "err option"
  sa_info :: "string res list"
  sa_info_rows :: "err option"
  sa_query :: "err option"
  sa_rows :: "(string \<times> string) list res list"
  sa_rows_err :: "err option"

record artifact =
  af_open :: "err option"
  af_header :: "err option"
  af_jsonl_open :: "err option"
  af_bytes :: string
  af_scan :: "err option"
  af_sqlite :: sql_artifact

definition maxJSONLRecordBytes :: nat where "maxJSONLRecordBytes = 32 * 1024 * 1024"

definition scan_error :: "err \<Rightarrow> err" where
  "scan_error er = ''audit: verify: scan JSONL: '' @ er"

fun verify_lines :: "vprims \<Rightarrow> entry_verifier \<Rightarrow> err option \<Rightarrow> int \<Rightarrow> string list \<Rightarrow> vresult \<Rightarrow>
    ordered_digest option \<Rightarrow> vresult \<times> err option \<times> ordered_digest option" where
  "verify_lines p v er n [] r d = (r, map_option scan_error er, d)"
| "verify_lines p v er n (l # ls) r d =
     (if length l \<ge> maxJSONLRecordBytes
      then (r, Some (scan_error ''bufio.Scanner: token too long''), d)
      else
        (let raw = TrimSpace (drop_cr l)
         in if length raw = 0 then verify_lines p v er (n + 1) ls r d
            else
              (case vp_jcs p raw of
                 Inl je \<Rightarrow>
                   verify_lines p v er (n + 1) ls
                     (malformed_result (n + 1) (''invalid or ambiguous JSON: '' @ je) r) d
               | Inr canonical \<Rightarrow>
                   (case unmarshal_entry raw of
                      None \<Rightarrow>
                        verify_lines p v er (n + 1) ls
                          (malformed_result (n + 1) (''decode audit entry: '' @ json_error) r) d
                    | Some e \<Rightarrow>
                        verify_lines p v er (n + 1) ls (record_result p v e r)
                          (map_option (digest_add canonical) d)))))"

definition verifyJSONLPath :: "vprims \<Rightarrow> artifact \<Rightarrow> entry_verifier \<Rightarrow> ordered_digest option \<Rightarrow>
    vresult \<times> err option \<times> ordered_digest option" where
  "verifyJSONLPath p a v d =
     (case af_jsonl_open a of
        Some er \<Rightarrow> (zero_result, Some (''audit: verify: open JSONL: '' @ er), d)
      | None \<Rightarrow> verify_lines p v (af_scan a) 0 (split_lines (af_bytes a)) zero_result d)"

subsection \<open>SQLite\<close>

definition sqliteEntryColumns :: "string list" where
  "sqliteEntryColumns =
     [''id'', ''timestamp'', ''audit_operation_id'', ''outcome'', ''direction'', ''transport'',
      ''method'', ''request_id'', ''mcp_name'', ''tool_name'', ''params'', ''result'', ''error'',
      ''duration_ms'', ''client_id'', ''server_id'', ''principal'', ''policy'', ''signature'',
      ''integrity'']"

definition sqliteRequiredColumns :: "string list" where
  "sqliteRequiredColumns =
     [''id'', ''timestamp'', ''direction'', ''transport'', ''method'', ''duration_ms'',
      ''client_id'', ''server_id'', ''signature'']"

fun scan_columns :: "string res list \<Rightarrow> string list \<Rightarrow> string list res" where
  "scan_columns [] cols = Inr cols"
| "scan_columns (Inl er # rs) cols = Inl (''audit: verify: scan SQLite schema: '' @ er)"
| "scan_columns (Inr name # rs) cols = scan_columns rs (List.insert name cols)"

definition sqliteColumns :: "sql_artifact \<Rightarrow> string list res" where
  "sqliteColumns s =
     (case sa_info_query s of
        Some er \<Rightarrow> Inl (''audit: verify: inspect SQLite schema: '' @ er)
      | None \<Rightarrow>
          (case scan_columns (sa_info s) [] of
             Inl er \<Rightarrow> Inl er
           | Inr columns \<Rightarrow>
               (case sa_info_rows s of
                  Some er \<Rightarrow> Inl (''audit: verify: iterate SQLite schema: '' @ er)
                | None \<Rightarrow>
                    if length columns = 0
                    then Inl ''audit: verify: SQLite table audit_entries does not exist''
                    else Inr columns)))"

text \<open>The selected values of a row: \<open>NULL\<close> for a column the table does not have.\<close>

definition select_row :: "string list \<Rightarrow> (string \<times> string) list \<Rightarrow> (string \<times> string option) list" where
  "select_row available cells =
     map (\<lambda>c. (c, if c \<in> set available then map_of cells c else None)) sqliteEntryColumns"

definition column_value :: "(string \<times> string option) list \<Rightarrow> string \<Rightarrow> string" where
  "column_value values column =
     (case find (\<lambda>(c, x). c = column \<and> x \<noteq> None) values of Some (_, Some s) \<Rightarrow> s | _ \<Rightarrow> [])"

definition json_column :: "string \<Rightarrow> 'a dec \<Rightarrow> 'a \<Rightarrow> 'a \<Rightarrow> string \<Rightarrow> 'a res" where
  "json_column what d absent start raw =
     (if raw \<noteq> [] \<and> raw \<noteq> ''null'' then
        (case Unmarshal d start raw of
           None \<Rightarrow> Inl (''decode '' @ what @ '' field: '' @ json_error)
         | Some x \<Rightarrow> Inr x)
      else Inr absent)"

definition dec_some :: "'a dec \<Rightarrow> 'a option dec" where
  "dec_some d raw v old =
     (case old of
        None \<Rightarrow> (None, True)
      | Some x \<Rightarrow> (case d raw v x of (y, e) \<Rightarrow> (Some y, e)))"

definition scanSQLiteEntry :: "(string \<times> string option) list \<Rightarrow> entry res" where
  "scanSQLiteEntry values =
     (let value = column_value values
      in case ParseRFC3339 (value ''timestamp'') of
           None \<Rightarrow> Inl ''parse timestamp: <time error>''
         | Some timestamp \<Rightarrow>
     (case Atoi (value ''duration_ms'') of
        None \<Rightarrow> Inl ''parse duration_ms: <strconv error>''
      | Some durationMS \<Rightarrow>
     (case json_column ''error'' dec_rpc_error None None (value ''error'') of
        Inl er \<Rightarrow> Inl er
      | Inr rpcErr \<Rightarrow>
     (case json_column ''principal'' (dec_some (dec_struct principal_fields)) None
             (Some zero_principal) (value ''principal'') of
        Inl er \<Rightarrow> Inl er
      | Inr prin \<Rightarrow>
     (case json_column ''policy'' (dec_some (dec_struct policy_fields)) None
             (Some zero_policy) (value ''policy'') of
        Inl er \<Rightarrow> Inl er
      | Inr policy \<Rightarrow>
     (case json_column ''integrity'' (dec_some (dec_struct metadata_fields)) None
             (Some zero_metadata) (value ''integrity'') of
        Inl er \<Rightarrow> Inl er
      | Inr integrity \<Rightarrow>
          Inr (zero_entry\<lparr>e_ID := value ''id'', e_Timestamp := timestamp,
            e_AuditOperationID := value ''audit_operation_id'', e_Outcome := value ''outcome'',
            e_Direction := value ''direction'', e_Transport := value ''transport'',
            e_Method := value ''method'', e_RequestID := value ''request_id'',
            e_MCPName := value ''mcp_name'', e_ToolName := value ''tool_name'',
            e_Params := value ''params'', e_Result := value ''result'', e_Error := rpcErr,
            e_DurationMs := durationMS, e_ClientID := value ''client_id'',
            e_ServerID := value ''server_id'', e_Principal := prin, e_Policy := policy,
            e_Signature := value ''signature'', e_Integrity := integrity\<rparr>)))))))"

fun verify_rows :: "vprims \<Rightarrow> entry_verifier \<Rightarrow> err option \<Rightarrow> string list \<Rightarrow> int \<Rightarrow>
    (string \<times> string) list res list \<Rightarrow> vresult \<Rightarrow> ordered_digest option \<Rightarrow>
    vresult \<times> err option \<times> ordered_digest option" where
  "verify_rows p v er cols n [] r d =
     (r, map_option (\<lambda>x. ''audit: verify: iterate SQLite: '' @ x) er, d)"
| "verify_rows p v er cols n (row # rows) r d =
     (case (case row of Inl x \<Rightarrow> Inl (''scan SQLite entry: '' @ x)
                      | Inr cells \<Rightarrow> scanSQLiteEntry (select_row cols cells)) of
        Inl x \<Rightarrow> verify_rows p v er cols (n + 1) rows (malformed_result (n + 1) x r) d
      | Inr e \<Rightarrow>
          (let r' = record_result p v e r
           in case d of
                None \<Rightarrow> verify_rows p v er cols (n + 1) rows r' d
              | Some dg \<Rightarrow>
                  (case marshal_entry e of
                     None \<Rightarrow> (r', Some (''audit: verify: marshal checkpoint record: '' @ json_error), d)
                   | Some raw \<Rightarrow>
                       (case vp_jcs p raw of
                          Inl x \<Rightarrow>
                            (r', Some (''audit: verify: canonicalize checkpoint record: '' @ x), d)
                        | Inr canonical \<Rightarrow>
                            verify_rows p v er cols (n + 1) rows r' (Some (digest_add canonical dg))))))"

definition verifySQLitePath :: "vprims \<Rightarrow> artifact \<Rightarrow> entry_verifier \<Rightarrow> ordered_digest option \<Rightarrow>
    vresult \<times> err option \<times> ordered_digest option" where
  "verifySQLitePath p a v d =
     (let s = af_sqlite a in
      case sa_stat s of Some er \<Rightarrow> (zero_result, Some (''audit: verify: stat SQLite: '' @ er), d)
      | None \<Rightarrow>
     (case sa_open s of Some er \<Rightarrow> (zero_result, Some (''audit: verify: open SQLite: '' @ er), d)
      | None \<Rightarrow>
     (case sa_pragma s of
        Some er \<Rightarrow> (zero_result, Some (''audit: verify: enable SQLite query-only mode: '' @ er), d)
      | None \<Rightarrow>
     (case sqliteColumns s of
        Inl er \<Rightarrow> (zero_result, Some er, d)
      | Inr available \<Rightarrow>
     (case find (\<lambda>c. c \<notin> set available) sqliteRequiredColumns of
        Some c \<Rightarrow>
          (zero_result, Some (''audit: verify: SQLite audit_entries is missing required column '' @
             Quote c), d)
      | None \<Rightarrow>
     (case sa_query s of
        Some er \<Rightarrow> (zero_result, Some (''audit: verify: query SQLite: '' @ er), d)
      | None \<Rightarrow> verify_rows p v (sa_rows_err s) available 0 (sa_rows s) zero_result d))))))"

subsection \<open>Checkpoints\<close>

definition checkpointAlgorithm :: string where "checkpointAlgorithm = ''hmac-sha256/sha256''"

definition checkpointDomain :: string where
  "checkpointDomain = ''mcp-audit/checkpoint/v1'' @ [CHR 0x0A]"

record checkpoint =
  ck_Version :: int
  ck_Algorithm :: string
  ck_KeyID :: string
  ck_Format :: string
  ck_Records :: "64 word"
  ck_Digest :: string
  ck_Signature :: string

definition checkpoint_members :: "checkpoint \<Rightarrow> (string \<times> member) list" where
  "checkpoint_members c =
     [(''version'', Present (Itoa (ck_Version c))), (''algorithm'', str_member (ck_Algorithm c)),
      (''key_id'', str_member (ck_KeyID c)), (''format'', str_member (ck_Format c)),
      (''records'', Present (show_nat (unat (ck_Records c)))), (''digest'', str_member (ck_Digest c))]"

definition checkpoint_signature :: "vprims \<Rightarrow> checkpoint \<Rightarrow> string \<Rightarrow> string res" where
  "checkpoint_signature p c secret =
     (case marshal_members_of (checkpoint_members c) of
        None \<Rightarrow> Inl json_error
      | Some raw \<Rightarrow>
          (case vp_jcs p raw of
             Inl er \<Rightarrow> Inl er
           | Inr canonical \<Rightarrow>
               Inr (EncodeToString (vp_hmac p secret (checkpointDomain @ canonical)))))"

definition secret_of :: "(string \<times> string) list \<Rightarrow> string \<Rightarrow> string" where
  "secret_of keys k = (case map_of keys k of None \<Rightarrow> [] | Some s \<Rightarrow> s)"

definition checkpoint_verify ::
  "vprims \<Rightarrow> checkpoint \<Rightarrow> string \<Rightarrow> ordered_digest \<Rightarrow> (string \<times> string) list \<Rightarrow> err option" where
  "checkpoint_verify p c format digest keys =
     (if ck_Version c \<noteq> 1 \<or> ck_Algorithm c \<noteq> checkpointAlgorithm \<or> ck_Format c \<noteq> format
      then Some ''audit: checkpoint: unsupported format or version''
      else if secret_of keys (ck_KeyID c) = [] then Some ''audit: checkpoint: unknown signing key''
      else
        (case checkpoint_signature p c (secret_of keys (ck_KeyID c)) of
           Inl er \<Rightarrow> Some (''audit: checkpoint: signature payload: '' @ er)
         | Inr expected \<Rightarrow>
             (case DecodeString (ck_Signature c) of
                None \<Rightarrow> Some ''audit: checkpoint: invalid signature''
              | Some provided \<Rightarrow>
                  if provided \<noteq> or_empty (DecodeString expected)
                  then Some ''audit: checkpoint: invalid signature''
                  else if ck_Records c \<noteq> od_count digest \<or>
                    ck_Digest c \<noteq> EncodeToString (vp_sha256 p (od_hash digest))
                  then Some ''audit: checkpoint: artifact count, order or content does not match''
                  else None)))"

subsection \<open>Verification of an artifact\<close>

record vconfig =
  vc_Format :: string
  vc_Keys :: "(string \<times> string) list"
  vc_RequireIntegrityV2 :: bool
  vc_Checkpoint :: "checkpoint option"
  vc_digest :: "ordered_digest option"

definition detectFormat :: "artifact \<Rightarrow> string res" where
  "detectFormat a =
     (case af_open a of
        Some er \<Rightarrow> Inl (''audit: verify: open input: '' @ er)
      | None \<Rightarrow>
          (case af_header a of
             Some er \<Rightarrow> Inl (''audit: verify: read input header: '' @ er)
           | None \<Rightarrow>
               if take 16 (af_bytes a) = ''SQLite format 3'' @ [CHR 0x00] then Inr FormatSQLite
               else Inr FormatJSONL))"

definition resolve_format :: "artifact \<Rightarrow> string \<Rightarrow> string res" where
  "resolve_format a format =
     (if format = [] \<or> format = FormatAuto then detectFormat a else Inr format)"

definition read_artifact :: "vprims \<Rightarrow> artifact \<Rightarrow> string \<Rightarrow> entry_verifier \<Rightarrow> ordered_digest option \<Rightarrow>
    vresult \<times> err option \<times> ordered_digest option" where
  "read_artifact p a format v d =
     (if format = FormatJSONL then verifyJSONLPath p a v d
      else if format = FormatSQLite then verifySQLitePath p a v d
      else (zero_result, Some (''audit: verify: unsupported format '' @ Quote format), d))"

definition check_checkpoint :: "vprims \<Rightarrow> vconfig \<Rightarrow> string \<Rightarrow> ordered_digest option \<Rightarrow> vresult \<Rightarrow> vresult" where
  "check_checkpoint p config format d r =
     (case (vc_Checkpoint config, d) of
        (Some c, Some dg) \<Rightarrow>
          (case checkpoint_verify p c format dg (vc_Keys config) of
             Some er \<Rightarrow> first_error er (r\<lparr>vr_policyFailed := True\<rparr>)
           | None \<Rightarrow> r)
      | _ \<Rightarrow> r)"

definition VerifyPath :: "vprims \<Rightarrow> artifact \<Rightarrow> vconfig \<Rightarrow> vresult \<times> err option \<times> ordered_digest option" where
  "VerifyPath p a config =
     (case resolve_format a (vc_Format config) of
        Inl er \<Rightarrow> (zero_result, Some er, vc_digest config)
      | Inr format \<Rightarrow>
          (let v = (newEntryVerifier (vc_Keys config))
                 \<lparr>ev_requireV2 := vc_RequireIntegrityV2 config \<or> vc_Checkpoint config \<noteq> None\<rparr>;
               d = (if vc_Checkpoint config \<noteq> None then Some newOrderedDigest else vc_digest config)
           in case read_artifact p a format v d of
                (r, Some er, d') \<Rightarrow> (r, Some er, d')
              | (r, None, d') \<Rightarrow>
                  (let r' = (if ev_requireV2 v \<and> vr_Total r = 0
                             then r\<lparr>vr_policyFailed := True,
                                    vr_FirstError := ''integrity v2 policy requires a non-empty artifact''\<rparr>
                             else r)
                   in (check_checkpoint p config format d' r', None, d'))))"

definition CreateCheckpoint :: "vprims \<Rightarrow> artifact \<Rightarrow> vconfig \<Rightarrow> string \<Rightarrow> checkpoint res" where
  "CreateCheckpoint p a config keyID =
     (let secret = secret_of (vc_Keys config) keyID in
      if secret = [] then Inl ''audit: checkpoint: signing key is required''
      else
        (case resolve_format a (vc_Format config) of
           Inl er \<Rightarrow> Inl er
         | Inr format \<Rightarrow>
             (case VerifyPath p a (config\<lparr>vc_Format := format, vc_RequireIntegrityV2 := True,
                     vc_Checkpoint := None, vc_digest := Some newOrderedDigest\<rparr>) of
                (result, Some er, d) \<Rightarrow> Inl er
              | (result, None, d) \<Rightarrow>
                  if \<not> Clean result
                  then Inl (''audit: checkpoint: source does not satisfy v2 policy: '' @
                            vr_FirstError result)
                  else
                    (let dg = (case d of None \<Rightarrow> newOrderedDigest | Some x \<Rightarrow> x);
                         c = \<lparr>ck_Version = 1, ck_Algorithm = checkpointAlgorithm, ck_KeyID = keyID,
                              ck_Format = format, ck_Records = od_count dg,
                              ck_Digest = EncodeToString (vp_sha256 p (od_hash dg)),
                              ck_Signature = []\<rparr>
                     in case checkpoint_signature p c secret of
                          Inl er \<Rightarrow> Inl (''audit: checkpoint: sign: '' @ er)
                        | Inr s \<Rightarrow> Inr (c\<lparr>ck_Signature := s\<rparr>)))))"

subsection \<open>What is in an artifact\<close>

text \<open>An item is a record that cannot be decoded, or an entry with its canonical form.\<close>

datatype evidence_item = Malformed int err | Decoded entry "string res"

fun jsonl_items :: "vprims \<Rightarrow> int \<Rightarrow> string list \<Rightarrow> evidence_item list" where
  "jsonl_items p n [] = []"
| "jsonl_items p n (l # ls) =
     (let raw = TrimSpace (drop_cr l)
      in if raw = [] then jsonl_items p (n + 1) ls
         else
           (case vp_jcs p raw of
              Inl je \<Rightarrow> Malformed (n + 1) (''invalid or ambiguous JSON: '' @ je)
            | Inr canonical \<Rightarrow>
                (case unmarshal_entry raw of
                   None \<Rightarrow> Malformed (n + 1) (''decode audit entry: '' @ json_error)
                 | Some e \<Rightarrow> Decoded e (Inr canonical))) # jsonl_items p (n + 1) ls)"

definition row_item :: "vprims \<Rightarrow> string list \<Rightarrow> int \<Rightarrow> (string \<times> string) list res \<Rightarrow> evidence_item" where
  "row_item p cols n row =
     (case (case row of Inl x \<Rightarrow> Inl (''scan SQLite entry: '' @ x)
                      | Inr cells \<Rightarrow> scanSQLiteEntry (select_row cols cells)) of
        Inl x \<Rightarrow> Malformed n x
      | Inr e \<Rightarrow> Decoded e (case marshal_entry e of None \<Rightarrow> Inl json_error | Some raw \<Rightarrow> vp_jcs p raw))"

fun sqlite_items :: "vprims \<Rightarrow> string list \<Rightarrow> int \<Rightarrow> (string \<times> string) list res list \<Rightarrow>
    evidence_item list" where
  "sqlite_items p cols n [] = []"
| "sqlite_items p cols n (row # rows) = row_item p cols (n + 1) row # sqlite_items p cols (n + 1) rows"

definition artifact_items :: "vprims \<Rightarrow> artifact \<Rightarrow> string \<Rightarrow> evidence_item list" where
  "artifact_items p a format =
     (if format = FormatJSONL then jsonl_items p 0 (split_lines (af_bytes a))
      else
        (case sqliteColumns (af_sqlite a) of
           Inl _ \<Rightarrow> []
         | Inr cols \<Rightarrow> sqlite_items p cols 0 (sa_rows (af_sqlite a))))"

fun judge :: "vprims \<Rightarrow> entry_verifier \<Rightarrow> vresult \<Rightarrow> evidence_item \<Rightarrow> vresult" where
  "judge p v r (Malformed n er) = malformed_result n er r"
| "judge p v r (Decoded e c) = record_result p v e r"

fun item_status :: "vprims \<Rightarrow> entry_verifier \<Rightarrow> evidence_item \<Rightarrow> string" where
  "item_status p v (Malformed n er) = ''invalid''"
| "item_status p v (Decoded e c) = fst (verify_entry p v e)"

fun canonicals :: "evidence_item list \<Rightarrow> string list" where
  "canonicals [] = []"
| "canonicals (Decoded e (Inr c) # is) = c # canonicals is"
| "canonicals (_ # is) = canonicals is"

definition digest_items :: "evidence_item list \<Rightarrow> ordered_digest \<Rightarrow> ordered_digest" where
  "digest_items is d = fold digest_add (canonicals is) d"

subsection \<open>Facts about single records\<close>

lemma verify_entry_status:
  "fst (verify_entry p v e) \<in> {''verified'', ''legacy'', ''unsigned'', ''invalid''}"
  by (simp add: verify_entry_def split: option.split)

lemma verify_entry_cases:
  obtains "fst (verify_entry p v e) = ''verified''" | "fst (verify_entry p v e) = ''legacy''"
  | "fst (verify_entry p v e) = ''unsigned''" | "fst (verify_entry p v e) = ''invalid''"
  using verify_entry_status [of p v e] by blast

lemma verify_entry_v2:
  "ev_requireV2 v \<Longrightarrow> fst (verify_entry p v e) = ''verified'' \<or> fst (verify_entry p v e) = ''invalid''"
  by (auto simp: verify_entry_def split: option.splits)

lemma first_error_simps [simp]:
  "vr_Verified (first_error s r) = vr_Verified r" "vr_Invalid (first_error s r) = vr_Invalid r"
  "vr_Legacy (first_error s r) = vr_Legacy r" "vr_Unsigned (first_error s r) = vr_Unsigned r"
  "vr_Total (first_error s r) = vr_Total r" "vr_policyFailed (first_error s r) = vr_policyFailed r"
  "vr_FirstError (first_error s r) = (if vr_FirstError r = [] then s else vr_FirstError r)"
  by (simp_all add: first_error_def)

lemma entryLabel_not_Nil [simp]: "entryLabel i n \<noteq> []"
  by (simp add: entryLabel_def)

lemmas result_defs = malformed_result_def record_result_def Let_def case_prod_beta

lemma judge_counts:
  "vr_Total (judge p v r it) = vr_Total r + 1"
  "vr_Verified (judge p v r it) = vr_Verified r + of_bool (item_status p v it = ''verified'')"
  "vr_Legacy (judge p v r it) = vr_Legacy r + of_bool (item_status p v it = ''legacy'')"
  "vr_Unsigned (judge p v r it) = vr_Unsigned r + of_bool (item_status p v it = ''unsigned'')"
  "vr_Invalid (judge p v r it) = vr_Invalid r + of_bool (item_status p v it = ''invalid'')"
  "vr_policyFailed (judge p v r it) = vr_policyFailed r"
  "vr_FirstError (judge p v r it) = [] \<longleftrightarrow> vr_FirstError r = [] \<and>
     item_status p v it \<noteq> ''unsigned'' \<and> item_status p v it \<noteq> ''invalid''"
proof (induct it)
  case (Decoded e c)
  { case 1 show ?case by (simp add: result_defs)
  next
    case 2 show ?case by (cases rule: verify_entry_cases [of p v e]) (simp_all add: result_defs)
  next
    case 3 show ?case by (cases rule: verify_entry_cases [of p v e]) (simp_all add: result_defs)
  next
    case 4 show ?case by (cases rule: verify_entry_cases [of p v e]) (simp_all add: result_defs)
  next
    case 5 show ?case by (cases rule: verify_entry_cases [of p v e]) (simp_all add: result_defs)
  next
    case 6 show ?case by (simp add: result_defs)
  next
    case 7 show ?case by (cases rule: verify_entry_cases [of p v e]) (simp_all add: result_defs) }
qed (simp_all add: result_defs)

definition count_status :: "vprims \<Rightarrow> entry_verifier \<Rightarrow> string \<Rightarrow> evidence_item list \<Rightarrow> int" where
  "count_status p v s is = count_if (\<lambda>it. item_status p v it = s) is"

lemma count_status_simps [simp]:
  "count_status p v s [] = 0"
  "count_status p v s (it # is) = of_bool (item_status p v it = s) + count_status p v s is"
  by (simp_all add: count_status_def)

lemma judge_all_counts:
  "vr_Total (foldl (judge p v) r is) = vr_Total r + int (length is)"
  "vr_Verified (foldl (judge p v) r is) = vr_Verified r + count_status p v ''verified'' is"
  "vr_Legacy (foldl (judge p v) r is) = vr_Legacy r + count_status p v ''legacy'' is"
  "vr_Unsigned (foldl (judge p v) r is) = vr_Unsigned r + count_status p v ''unsigned'' is"
  "vr_Invalid (foldl (judge p v) r is) = vr_Invalid r + count_status p v ''invalid'' is"
  "vr_policyFailed (foldl (judge p v) r is) = vr_policyFailed r"
  by (induction "is" arbitrary: r) (simp_all add: judge_counts)

lemma item_status_cases:
  "item_status p v it \<in> {''verified'', ''legacy'', ''unsigned'', ''invalid''}"
  using verify_entry_status [of p v] by (cases it) simp_all

lemma count_status_partition:
  "count_status p v ''verified'' is + count_status p v ''legacy'' is +
   count_status p v ''unsigned'' is + count_status p v ''invalid'' is = int (length is)"
proof (induction "is")
  case (Cons it "is")
  with item_status_cases [of p v it] show ?case by auto
qed simp

lemma count_status_nonneg [simp]: "0 \<le> count_status p v s is"
  by (simp add: count_status_def)

lemma count_status_0: "count_status p v s is = 0 \<longleftrightarrow> (\<forall>it \<in> set is. item_status p v it \<noteq> s)"
proof (induction "is")
  case (Cons it "is")
  have "0 \<le> count_status p v s is" by simp
  with Cons show ?case by (auto simp: add_nonneg_eq_0_iff)
qed simp

lemma judge_all_first_error:
  "vr_FirstError (foldl (judge p v) r is) = [] \<longleftrightarrow>
     vr_FirstError r = [] \<and> count_status p v ''unsigned'' is = 0 \<and> count_status p v ''invalid'' is = 0"
proof (induction "is" arbitrary: r)
  case (Cons it "is")
  then show ?case by (auto simp: judge_counts count_status_0 simp del: count_status_simps)
qed simp

subsection \<open>The digest determines the sequence\<close>

lemma PutUint64_length [simp]: "length (PutUint64 w) = 8"
  by (simp add: PutUint64_def)

lemma base256_digits:
  assumes "\<And>k. k < 8 \<Longrightarrow> m div 256 ^ k mod 256 = n div 256 ^ k mod (256 :: nat)"
    and "m < 256 ^ 8" "n < 256 ^ 8"
  shows "m = n"
proof -
  have "m mod 256 ^ k = n mod 256 ^ k" if "k \<le> 8" for k
    using that
  proof (induction k)
    case (Suc k)
    have "x mod 256 ^ Suc k = x mod 256 ^ k + 256 ^ k * (x div 256 ^ k mod 256)" for x :: nat
      using mod_mult2_eq [of x "256 ^ k" 256] by (simp add: mult.commute)
    with Suc assms(1) [of k] show ?case by simp
  qed simp
  from this [of 8] assms(2,3) show ?thesis by simp
qed

lemma PutUint64_inj: "PutUint64 v = PutUint64 w \<Longrightarrow> v = w"
proof -
  assume eq: "PutUint64 v = PutUint64 w"
  have c: "char_of (unat (drop_bit (8 * k) v) mod 256) = (char_of (unat (drop_bit (8 * k) w) mod 256) :: char)"
    if "k \<in> set [7, 6, 5, 4, 3, 2, 1, 0]" for k
    using eq that unfolding PutUint64_def map_eq_conv by blast
  have u: "unat (drop_bit (8 * k) x) = unat x div 256 ^ k" for x :: "64 word" and k :: nat
    unfolding unat_drop_bit_eq by (simp add: drop_bit_eq_div power_mult)
  have d: "unat v div 256 ^ k mod 256 = unat w div 256 ^ k mod (256 :: nat)" if "k < 8" for k
  proof -
    from that have "k \<in> set [7, 6, 5, 4, 3, 2, 1, 0]" by auto
    from arg_cong [OF c [OF this], of "of_char :: char \<Rightarrow> nat"] show ?thesis by (simp add: u)
  qed
  have b: "unat x < 256 ^ 8" for x :: "64 word" using unsigned_less [of x] by simp
  have "unat v = unat w" by (rule base256_digits [OF d b b])
  then show "v = w" by (rule unsigned_word_eqI)
qed

definition framed :: "string list \<Rightarrow> string" where
  "framed cs = concat (map (\<lambda>c. PutUint64 (of_nat (length c)) @ c) cs)"

lemma framed_inj:
  assumes "framed cs = framed ds"
    and "\<forall>c \<in> set cs. length c < 2 ^ 64" "\<forall>c \<in> set ds. length c < 2 ^ 64"
  shows "cs = ds"
  using assms
proof (induction cs arbitrary: ds)
  case Nil
  then show ?case by (cases ds) (auto simp: framed_def PutUint64_def)
next
  case (Cons c cs)
  then obtain d ds' where ds: "ds = d # ds'"
    by (cases ds) (auto simp: framed_def PutUint64_def)
  let ?n = "\<lambda>x. of_nat (length x) :: 64 word"
  have eq: "PutUint64 (?n c) @ c @ framed cs = PutUint64 (?n d) @ d @ framed ds'"
    using Cons.prems(1) by (simp add: ds framed_def)
  then have w: "PutUint64 (?n c) = PutUint64 (?n d)" and r: "c @ framed cs = d @ framed ds'"
    by simp_all
  have "length c = unat (?n c)" "length d = unat (?n d)"
    using Cons.prems(2,3) by (simp_all add: ds unat_of_nat)
  with PutUint64_inj [OF w] have "length c = length d" by simp
  with r Cons.IH [of ds'] Cons.prems(2,3) ds show ?case by simp
qed

lemma digest_items_Nil [simp]: "map_option (digest_items []) d = d"
  by (cases d) (simp_all add: digest_items_def)

lemma fold_digest:
  "od_hash (fold digest_add cs d) = od_hash d @ framed cs"
  "od_count (fold digest_add cs d) = od_count d + of_nat (length cs)"
  by (induction cs arbitrary: d) (simp_all add: digest_add_def framed_def)

lemma digest_items_new:
  "od_hash (digest_items is newOrderedDigest) = framed (canonicals is)"
  "od_count (digest_items is newOrderedDigest) = of_nat (length (canonicals is))"
  by (simp_all add: digest_items_def fold_digest newOrderedDigest_def)

subsection \<open>The contract of the readers\<close>

text \<open>
  \<open>rd\<close> is a reader of an artifact that holds \<open>its\<close>: a run without error has judged every item in
  order and digested every canonical form.
\<close>

lemma canonicals_all: "(\<And>it. it \<in> set is \<Longrightarrow> \<exists>e c. it = Decoded e (Inr c)) \<Longrightarrow>
    length (canonicals is) = length is"
  by (induction "is" rule: canonicals.induct) force+

locale evidence_reader =
  fixes p :: vprims
    and rd :: "entry_verifier \<Rightarrow> ordered_digest option \<Rightarrow> vresult \<times> err option \<times> ordered_digest option"
    and its :: "evidence_item list"
  assumes complete: "rd v d = (r, None, d') \<Longrightarrow>
      r = foldl (judge p v) zero_result its \<and> d' = map_option (digest_items its) d"
    and canonical: "\<lbrakk>rd v (Some d0) = (r, None, d'); Decoded e x \<in> set its\<rbrakk> \<Longrightarrow> \<not> isl x"
begin

lemma counts:
  assumes "rd v d = (r, None, d')"
  shows "vr_Total r = int (length its)" "vr_Verified r = count_status p v ''verified'' its"
    "vr_Legacy r = count_status p v ''legacy'' its" "vr_Unsigned r = count_status p v ''unsigned'' its"
    "vr_Invalid r = count_status p v ''invalid'' its" "\<not> vr_policyFailed r"
    "vr_FirstError r = [] \<longleftrightarrow> vr_Unsigned r = 0 \<and> vr_Invalid r = 0"
  using complete [OF assms] by (simp_all add: judge_all_counts judge_all_first_error zero_result_def)

lemma all_verified:
  assumes "rd v d = (r, None, d')" "ev_requireV2 v"
  shows "Clean r \<longleftrightarrow> (\<forall>it \<in> set its. item_status p v it = ''verified'')"
proof -
  have two: "item_status p v it = ''verified'' \<or> item_status p v it = ''invalid''" for it
    using verify_entry_v2 [OF assms(2), of p] by (cases it) auto
  have "item_status p v it = ''verified'' \<longleftrightarrow> item_status p v it \<noteq> ''invalid''"
    "item_status p v it \<noteq> ''unsigned''" for it using two [of it] by auto
  with counts [OF assms(1)] show ?thesis by (simp add: Clean_def count_status_0)
qed

lemma canonicals_length:
  assumes "rd v (Some d0) = (r, None, d')" "\<forall>it \<in> set its. item_status p v it = ''verified''"
  shows "length (canonicals its) = length its"
proof (rule canonicals_all)
  fix it assume it: "it \<in> set its"
  then have "item_status p v it = ''verified''" using assms(2) by blast
  then obtain e x where x: "it = Decoded e x" by (cases it) auto
  with it canonical [OF assms(1), of e x] have "\<not> isl x" by blast
  with x show "\<exists>e c. it = Decoded e (Inr c)" by (cases x) auto
qed

lemma digested:
  assumes "rd v (Some newOrderedDigest) = (r, None, d')"
  obtains dg where "d' = Some dg" "od_hash dg = framed (canonicals its)"
    "od_count dg = of_nat (length (canonicals its))"
  using complete [OF assms] digest_items_new [of its] by simp

end

lemma verify_lines_complete:
  "verify_lines p v er n ls r d = (r', None, d') \<Longrightarrow>
     r' = foldl (judge p v) r (jsonl_items p n ls) \<and> d' = map_option (digest_items (jsonl_items p n ls)) d"
proof (induction p v er n ls r d rule: verify_lines.induct)
  case (2 p v er n l ls r d)
  then show ?case
    by (simp add: Let_def digest_items_def option.map_comp comp_def split: if_splits sum.splits option.splits)
qed simp

lemma verify_rows_complete:
  "verify_rows p v er cols n rows r d = (r', None, d') \<Longrightarrow>
     r' = foldl (judge p v) r (sqlite_items p cols n rows) \<and>
     d' = map_option (digest_items (sqlite_items p cols n rows)) d"
proof (induction p v er cols n rows r d rule: verify_rows.induct)
  case (2 p v er cols n row rows r d)
  then show ?case
    by (simp add: Let_def row_item_def digest_items_def split: sum.splits option.splits)
qed simp

lemma jsonl_items_canonical: "Decoded e x \<in> set (jsonl_items p n ls) \<Longrightarrow> \<not> isl x"
  by (induction p n ls rule: jsonl_items.induct)
    (auto simp: Let_def split: if_splits sum.splits option.splits)

lemma verify_rows_canonical:
  "\<lbrakk>verify_rows p v er cols n rows r (Some d0) = (r', None, d');
    Decoded e x \<in> set (sqlite_items p cols n rows)\<rbrakk> \<Longrightarrow> \<not> isl x"
proof (induction rows arbitrary: n r d0)
  case (Cons row rows)
  then show ?case
    by (auto simp: Let_def row_item_def split: sum.splits option.splits)
qed simp

interpretation jl: evidence_reader p "verifyJSONLPath p a" "artifact_items p a FormatJSONL" for p a
proof
  fix v d r d'
  assume "verifyJSONLPath p a v d = (r, None, d')"
  then show "r = foldl (judge p v) zero_result (artifact_items p a FormatJSONL) \<and>
      d' = map_option (digest_items (artifact_items p a FormatJSONL)) d"
    using verify_lines_complete by (auto simp: verifyJSONLPath_def artifact_items_def split: option.splits)
qed (auto simp: artifact_items_def dest: jsonl_items_canonical)

lemma verifySQLitePathE:
  assumes "verifySQLitePath p a v d = (r, None, d')"
  obtains cols where "sqliteColumns (af_sqlite a) = Inr cols"
    "artifact_items p a FormatSQLite = sqlite_items p cols 0 (sa_rows (af_sqlite a))"
    "verify_rows p v (sa_rows_err (af_sqlite a)) cols 0 (sa_rows (af_sqlite a)) zero_result d = (r, None, d')"
  using assms that
  by (auto simp: verifySQLitePath_def artifact_items_def FormatSQLite_def FormatJSONL_def Let_def
      split: option.splits sum.splits)

interpretation sq: evidence_reader p "verifySQLitePath p a" "artifact_items p a FormatSQLite" for p a
proof
  fix v d r d'
  assume "verifySQLitePath p a v d = (r, None, d')"
  then show "r = foldl (judge p v) zero_result (artifact_items p a FormatSQLite) \<and>
      d' = map_option (digest_items (artifact_items p a FormatSQLite)) d"
    by (rule verifySQLitePathE) (use verify_rows_complete in simp)
next
  fix v d0 r d' e x
  assume "verifySQLitePath p a v (Some d0) = (r, None, d')" "Decoded e x \<in> set (artifact_items p a FormatSQLite)"
  then show "\<not> isl x" by (metis verifySQLitePathE verify_rows_canonical)
qed

interpretation rf: evidence_reader p "read_artifact p a format" "artifact_items p a format" for p a format
  by unfold_locales
    (use jl.complete sq.complete jl.canonical sq.canonical in
      \<open>auto simp: read_artifact_def split: if_splits\<close>)

subsection \<open>Verification as a whole\<close>

definition path_verifier :: "vconfig \<Rightarrow> entry_verifier" where
  "path_verifier config = (newEntryVerifier (vc_Keys config))
     \<lparr>ev_requireV2 := vc_RequireIntegrityV2 config \<or> vc_Checkpoint config \<noteq> None\<rparr>"

lemma VerifyPathE:
  assumes "VerifyPath p a config = (r, None, d)"
  obtains format r0 where "resolve_format a (vc_Format config) = Inr format"
    "read_artifact p a format (path_verifier config)
       (if vc_Checkpoint config \<noteq> None then Some newOrderedDigest else vc_digest config) = (r0, None, d)"
    "r = check_checkpoint p config format d
       (if ev_requireV2 (path_verifier config) \<and> vr_Total r0 = 0
        then r0\<lparr>vr_policyFailed := True,
                vr_FirstError := ''integrity v2 policy requires a non-empty artifact''\<rparr> else r0)"
  using assms that
  by (auto simp: VerifyPath_def path_verifier_def Let_def split: sum.splits prod.splits option.splits)

lemma checkpoint_verify_not_Nil: "checkpoint_verify p c f dg keys = Some er \<Longrightarrow> er \<noteq> []"
  by (auto simp: checkpoint_verify_def split: if_splits sum.splits option.splits)

lemma check_checkpoint_simps [simp]:
  "vr_Verified (check_checkpoint p cf f d r) = vr_Verified r"
  "vr_Invalid (check_checkpoint p cf f d r) = vr_Invalid r"
  "vr_Legacy (check_checkpoint p cf f d r) = vr_Legacy r"
  "vr_Unsigned (check_checkpoint p cf f d r) = vr_Unsigned r"
  "vr_Total (check_checkpoint p cf f d r) = vr_Total r"
  by (simp_all add: check_checkpoint_def split: option.split)

lemma check_checkpoint_failed:
  "vr_policyFailed (check_checkpoint p cf f d r) \<longleftrightarrow> vr_policyFailed r \<or>
     (\<exists>c dg. vc_Checkpoint cf = Some c \<and> d = Some dg \<and> checkpoint_verify p c f dg (vc_Keys cf) \<noteq> None)"
  "vr_FirstError (check_checkpoint p cf f d r) = [] \<longleftrightarrow> vr_FirstError r = [] \<and>
     \<not> (\<exists>c dg. vc_Checkpoint cf = Some c \<and> d = Some dg \<and> checkpoint_verify p c f dg (vc_Keys cf) \<noteq> None)"
  by (auto simp: check_checkpoint_def dest: checkpoint_verify_not_Nil split: option.split)

text \<open>
  C19: The report of a verification, against the items of the artifact. When \<open>VerifyPath\<close> returns
  without error, its counters are the numbers of items of each status and add up to the number of
  items; a first error is reported exactly when the result is not clean; under the version 2
  policy, required directly or by a checkpoint, a clean result means that there is at least one
  item and every item is verified.
\<close>
theorem VerifyPath_report:
  assumes "VerifyPath p a config = (r, None, d)"
  shows "\<exists>format. resolve_format a (vc_Format config) = Inr format \<and>
     (let its = artifact_items p a format; v = path_verifier config
      in vr_Verified r = count_status p v ''verified'' its \<and> vr_Invalid r = count_status p v ''invalid'' its \<and>
         vr_Legacy r = count_status p v ''legacy'' its \<and> vr_Unsigned r = count_status p v ''unsigned'' its \<and>
         vr_Total r = int (length its) \<and>
         vr_Verified r + vr_Invalid r + vr_Legacy r + vr_Unsigned r = vr_Total r \<and>
         (Clean r \<longleftrightarrow> vr_FirstError r = []) \<and>
         (Clean r \<and> ev_requireV2 v \<longrightarrow>
            its \<noteq> [] \<and> (\<forall>it \<in> set its. item_status p v it = ''verified'')))"
proof -
  obtain format r0 where f: "resolve_format a (vc_Format config) = Inr format"
    and rd: "read_artifact p a format (path_verifier config)
       (if vc_Checkpoint config \<noteq> None then Some newOrderedDigest else vc_digest config) = (r0, None, d)"
    and r: "r = check_checkpoint p config format d
       (if ev_requireV2 (path_verifier config) \<and> vr_Total r0 = 0
        then r0\<lparr>vr_policyFailed := True,
                vr_FirstError := ''integrity v2 policy requires a non-empty artifact''\<rparr> else r0)"
    using assms by (rule VerifyPathE)
  let ?its = "artifact_items p a format" and ?v = "path_verifier config"
  note c = rf.counts [OF rd]
  have n: "vr_Verified r = count_status p ?v ''verified'' ?its"
    "vr_Invalid r = count_status p ?v ''invalid'' ?its" "vr_Legacy r = count_status p ?v ''legacy'' ?its"
    "vr_Unsigned r = count_status p ?v ''unsigned'' ?its" "vr_Total r = int (length ?its)"
    using r c(1-5) by simp_all
  have part: "vr_Verified r + vr_Invalid r + vr_Legacy r + vr_Unsigned r = vr_Total r"
    using count_status_partition [of p ?v ?its] n by linarith
  have fe: "Clean r \<longleftrightarrow> vr_FirstError r = []"
    using r c(6,7) by (auto simp: Clean_def check_checkpoint_failed)
  have ok: "?its \<noteq> [] \<and> (\<forall>it \<in> set ?its. item_status p ?v it = ''verified'')"
    if "Clean r" "ev_requireV2 ?v"
  proof -
    have "Clean r0" "vr_Total r0 \<noteq> 0" using that r c(6)
      by (auto simp: Clean_def check_checkpoint_failed split: if_splits)
    with rf.all_verified [OF rd that(2)] c(1) show ?thesis by auto
  qed
  from f n part fe ok show ?thesis unfolding Let_def by blast
qed

subsection \<open>Checkpoints bind the sequence of records\<close>

lemma checkpoint_signature_frame:
  "checkpoint_signature p (c\<lparr>ck_Signature := s\<rparr>) k = checkpoint_signature p c k"
  by (simp add: checkpoint_signature_def checkpoint_members_def)

lemma signature_hex: "checkpoint_signature p c k = Inr s \<Longrightarrow> DecodeString s \<noteq> None"
  by (auto simp: checkpoint_signature_def split: option.splits sum.splits)

lemma CreateCheckpointE:
  assumes "CreateCheckpoint p a config k = Inr c"
  obtains r dg where "resolve_format a (vc_Format config) = Inr (ck_Format c)"
    "VerifyPath p a (config\<lparr>vc_Format := ck_Format c, vc_RequireIntegrityV2 := True,
                     vc_Checkpoint := None, vc_digest := Some newOrderedDigest\<rparr>) = (r, None, dg)"
    "Clean r" "secret_of (vc_Keys config) k \<noteq> []" "ck_KeyID c = k" "ck_Version c = 1"
    "ck_Algorithm c = checkpointAlgorithm"
    "ck_Records c = od_count (case dg of None \<Rightarrow> newOrderedDigest | Some x \<Rightarrow> x)"
    "ck_Digest c = EncodeToString (vp_sha256 p (od_hash (case dg of None \<Rightarrow> newOrderedDigest | Some x \<Rightarrow> x)))"
    "checkpoint_signature p (c\<lparr>ck_Signature := []\<rparr>) (secret_of (vc_Keys config) k) = Inr (ck_Signature c)"
  using assms
  by (auto simp: CreateCheckpoint_def Let_def split: if_splits sum.splits prod.splits option.splits)

text \<open>A signed checkpoint accepts exactly the artifacts with its count and digest.\<close>

lemma checkpoint_verify_signed:
  assumes "CreateCheckpoint p a config k = Inr c"
  shows "checkpoint_verify p c format dg (vc_Keys config) = None \<longleftrightarrow>
     format = ck_Format c \<and> ck_Records c = od_count dg \<and>
     ck_Digest c = EncodeToString (vp_sha256 p (od_hash dg))"
proof -
  obtain r d where "secret_of (vc_Keys config) k \<noteq> []" "ck_KeyID c = k" "ck_Version c = 1"
    "ck_Algorithm c = checkpointAlgorithm"
    and s: "checkpoint_signature p c (secret_of (vc_Keys config) k) = Inr (ck_Signature c)"
    using assms by (rule CreateCheckpointE) (simp add: checkpoint_signature_frame)
  with signature_hex [OF s] show ?thesis
    by (auto simp: checkpoint_verify_def or_empty_def split: option.split)
qed

lemma resolve_format_idem: "resolve_format a f = Inr g \<Longrightarrow> resolve_format b g = Inr g"
  by (auto simp: resolve_format_def detectFormat_def FormatAuto_def FormatJSONL_def FormatSQLite_def
    split: if_splits option.splits)

lemma checkpoint_source:
  assumes "CreateCheckpoint p a config k = Inr c"
  obtains r0 dg where
    "read_artifact p a (ck_Format c) (path_verifier (config\<lparr>vc_Checkpoint := Some c\<rparr>))
       (Some newOrderedDigest) = (r0, None, Some dg)"
    "resolve_format a (vc_Format config) = Inr (ck_Format c)" "Clean r0" "vr_Total r0 \<noteq> 0"
    "ck_Records c = od_count dg" "ck_Digest c = EncodeToString (vp_sha256 p (od_hash dg))"
proof -
  obtain r d where f: "resolve_format a (vc_Format config) = Inr (ck_Format c)"
    and v: "VerifyPath p a (config\<lparr>vc_Format := ck_Format c, vc_RequireIntegrityV2 := True,
                     vc_Checkpoint := None, vc_digest := Some newOrderedDigest\<rparr>) = (r, None, d)"
    and cl: "Clean r" and dg: "ck_Records c = od_count (case d of None \<Rightarrow> newOrderedDigest | Some x \<Rightarrow> x)"
    "ck_Digest c = EncodeToString (vp_sha256 p (od_hash (case d of None \<Rightarrow> newOrderedDigest | Some x \<Rightarrow> x)))"
    using assms by (rule CreateCheckpointE)
  have pv: "path_verifier (config\<lparr>vc_Format := ck_Format c, vc_RequireIntegrityV2 := True,
      vc_Checkpoint := None, vc_digest := Some newOrderedDigest\<rparr>) =
    path_verifier (config\<lparr>vc_Checkpoint := Some c\<rparr>)" by (simp add: path_verifier_def)
  obtain format r0 where rf0: "resolve_format a (ck_Format c) = Inr format"
    and rd: "read_artifact p a format (path_verifier (config\<lparr>vc_Checkpoint := Some c\<rparr>))
       (Some newOrderedDigest) = (r0, None, d)"
    and r: "r = (if vr_Total r0 = 0
        then r0\<lparr>vr_policyFailed := True,
                vr_FirstError := ''integrity v2 policy requires a non-empty artifact''\<rparr> else r0)"
    using v by (rule VerifyPathE) (simp add: pv check_checkpoint_def, simp add: path_verifier_def)
  obtain x where x: "d = Some x" using rd by (rule rf.digested)
  have "format = ck_Format c" using rf0 resolve_format_idem [OF f, of a] by simp
  moreover have "Clean r0" "vr_Total r0 \<noteq> 0" using r cl by (auto simp: Clean_def split: if_splits)
  ultimately show thesis using that rd f dg x by simp
qed

text \<open>
  A checkpoint accepts the artifact it was made from: with the keys, the format and the bytes
  unchanged, verification against it returns no error and is clean, every item is verified, and
  the number of records is the one in the checkpoint.
\<close>
lemma checkpoint_roundtrip:
  assumes "CreateCheckpoint p a config k = Inr c"
  shows "\<exists>r d. VerifyPath p a (config\<lparr>vc_Checkpoint := Some c\<rparr>) = (r, None, d) \<and> Clean r \<and>
     vr_FirstError r = [] \<and> vr_Verified r = vr_Total r \<and> vr_Total r > 0"
proof -
  let ?cf = "config\<lparr>vc_Checkpoint := Some c\<rparr>"
  obtain r0 dg where rd: "read_artifact p a (ck_Format c) (path_verifier ?cf) (Some newOrderedDigest) =
      (r0, None, Some dg)"
    and f: "resolve_format a (vc_Format config) = Inr (ck_Format c)"
    and cl: "Clean r0" and t: "vr_Total r0 \<noteq> 0"
    and dg: "ck_Records c = od_count dg" "ck_Digest c = EncodeToString (vp_sha256 p (od_hash dg))"
    using assms by (rule checkpoint_source)
  have cv: "checkpoint_verify p c (ck_Format c) dg (vc_Keys config) = None"
    using checkpoint_verify_signed [OF assms] dg by simp
  have v: "VerifyPath p a ?cf = (r0, None, Some dg)"
    using rd f t cv by (simp add: VerifyPath_def path_verifier_def Let_def check_checkpoint_def)
  have "vr_FirstError r0 = []" using rf.counts(7) [OF rd] cl by (simp add: Clean_def)
  moreover have "vr_Verified r0 = vr_Total r0" "vr_Total r0 > 0"
  proof -
    have "count_status p (path_verifier ?cf) ''legacy'' (artifact_items p a (ck_Format c)) = 0"
      using rf.all_verified [OF rd] cl by (simp add: count_status_0 path_verifier_def)
    with rf.counts(1-5) [OF rd] cl
      count_status_partition [of p "path_verifier ?cf" "artifact_items p a (ck_Format c)"] t
    show "vr_Verified r0 = vr_Total r0" "vr_Total r0 > 0" by (simp_all add: Clean_def)
  qed
  ultimately show ?thesis using v cl by blast
qed

text \<open>
  C18: A checkpoint binds the sequence of records. An artifact \<open>b\<close> that is read without error is
  clean under a checkpoint made from \<open>a\<close> exactly when it has the same format, all its items are
  verified, and its records have the same canonical forms in the same order: a deleted, added,
  reordered or changed record is detected. It is assumed that SHA-256 maps nothing else to the
  digest of \<open>a\<close> and that no record has \<open>2 ^ 64\<close> bytes.
\<close>
theorem checkpoint_detects:
  assumes ck: "CreateCheckpoint p a config k = Inr c"
    and vp: "VerifyPath p b (config\<lparr>vc_Checkpoint := Some c\<rparr>) = (r, None, d)"
    and sha: "\<And>m. vp_sha256 p m = vp_sha256 p (framed (canonicals (artifact_items p a (ck_Format c)))) \<Longrightarrow>
      m = framed (canonicals (artifact_items p a (ck_Format c)))"
    and short: "\<forall>x \<in> set (canonicals (artifact_items p a (ck_Format c)) @
                          canonicals (artifact_items p b (ck_Format c))). length x < 2 ^ 64"
  shows "Clean r \<longleftrightarrow>
     resolve_format b (vc_Format config) = Inr (ck_Format c) \<and>
     (\<forall>it \<in> set (artifact_items p b (ck_Format c)).
        item_status p (path_verifier (config\<lparr>vc_Checkpoint := Some c\<rparr>)) it = ''verified'') \<and>
     canonicals (artifact_items p b (ck_Format c)) = canonicals (artifact_items p a (ck_Format c))"
proof -
  let ?cf = "config\<lparr>vc_Checkpoint := Some c\<rparr>"
  let ?A = "artifact_items p a (ck_Format c)" and ?B = "artifact_items p b (ck_Format c)"
  obtain r1 dg where rd1: "read_artifact p a (ck_Format c) (path_verifier ?cf) (Some newOrderedDigest) =
      (r1, None, Some dg)"
    and t1: "vr_Total r1 \<noteq> 0" and c1: "Clean r1"
    and dg: "ck_Records c = od_count dg" "ck_Digest c = EncodeToString (vp_sha256 p (od_hash dg))"
    using ck by (rule checkpoint_source)
  have dA: "od_hash dg = framed (canonicals ?A)" "od_count dg = of_nat (length (canonicals ?A))"
    using rf.digested [OF rd1] by auto
  obtain format r0 where f: "resolve_format b (vc_Format config) = Inr format"
    and rd: "read_artifact p b format (path_verifier ?cf) (Some newOrderedDigest) = (r0, None, d)"
    and r: "r = check_checkpoint p ?cf format d (if vr_Total r0 = 0
        then r0\<lparr>vr_policyFailed := True,
                vr_FirstError := ''integrity v2 policy requires a non-empty artifact''\<rparr> else r0)"
    using vp by (rule VerifyPathE) (simp add: path_verifier_def)
  obtain x where x: "d = Some x" "od_hash x = framed (canonicals (artifact_items p b format))"
    "od_count x = of_nat (length (canonicals (artifact_items p b format)))"
    using rd by (rule rf.digested)
  have av: "Clean r0 \<longleftrightarrow> (\<forall>it \<in> set (artifact_items p b format). item_status p (path_verifier ?cf) it = ''verified'')"
    by (rule rf.all_verified [OF rd]) (simp add: path_verifier_def)
  have clean: "Clean r \<longleftrightarrow> Clean r0 \<and> vr_Total r0 \<noteq> 0 \<and> checkpoint_verify p c format x (vc_Keys config) = None"
    unfolding r using x(1) by (auto simp: Clean_def check_checkpoint_failed)
  have seq: "ck_Records c = od_count x \<and> ck_Digest c = EncodeToString (vp_sha256 p (od_hash x)) \<longleftrightarrow>
      canonicals ?B = canonicals ?A" if "format = ck_Format c"
  proof
    assume "ck_Records c = od_count x \<and> ck_Digest c = EncodeToString (vp_sha256 p (od_hash x))"
    then have "vp_sha256 p (framed (canonicals ?B)) = vp_sha256 p (framed (canonicals ?A))"
      using dg dA x that by (auto dest: EncodeToString_inj)
    from framed_inj [OF sha [OF this]] short show "canonicals ?B = canonicals ?A" by auto
  qed (use dg dA x that in simp)
  have nonempty: "vr_Total r0 \<noteq> 0" if "format = ck_Format c" "canonicals ?B = canonicals ?A"
  proof -
    have "?A \<noteq> []" using rf.counts(1) [OF rd1] t1 by auto
    then have "canonicals ?A \<noteq> []"
      using rf.canonicals_length [OF rd1] rf.all_verified [OF rd1] c1 by (auto simp: path_verifier_def)
    with that rf.counts(1) [OF rd] show ?thesis by auto
  qed
  show ?thesis
    using clean av seq nonempty checkpoint_verify_signed [OF ck, of format x] f by auto
qed

subsection \<open>An example artifact\<close>

definition demo_vprims :: vprims where
  "demo_vprims = \<lparr>vp_hmac = (\<lambda>k m. CHR ''x'' # k), vp_sha256 = (\<lambda>m. m), vp_jcs = Inr\<rparr>"

definition no_sqlite :: sql_artifact where
  "no_sqlite = \<lparr>sa_stat = None, sa_open = None, sa_pragma = None, sa_info_query = None, sa_info = [],
     sa_info_rows = None, sa_query = None, sa_rows = [], sa_rows_err = None\<rparr>"

definition jsonl_artifact :: "string \<Rightarrow> artifact" where
  "jsonl_artifact bytes = \<lparr>af_open = None, af_header = None, af_jsonl_open = None, af_bytes = bytes,
     af_scan = None, af_sqlite = no_sqlite\<rparr>"

definition demo_metadata :: string where
  "demo_metadata = marshal_struct [(''version'', ''2''), (''algorithm'', quote_string AlgorithmHMACV2),
     (''key_id'', quote_string DefaultKeyID), (''signature'', quote_string ''786b'')]"

definition demo_text :: "string \<Rightarrow> string" where
  "demo_text i = marshal_struct [(''id'', quote_string i), (''integrity'', demo_metadata)]"

definition demo_signed :: "string \<Rightarrow> entry" where
  "demo_signed i = zero_entry\<lparr>e_ID := i, e_Integrity := Some
     \<lparr>im_Version = 2, im_Algorithm = AlgorithmHMACV2, im_KeyID = DefaultKeyID, im_Signature = ''786b''\<rparr>\<rparr>"

definition demo_vconfig :: vconfig where
  "demo_vconfig = \<lparr>vc_Format = FormatAuto, vc_Keys = [(''default'', ''k'')], vc_RequireIntegrityV2 = False,
     vc_Checkpoint = None, vc_digest = None\<rparr>"

definition demo_two :: artifact where
  "demo_two = jsonl_artifact (demo_text ''a'' @ [newline] @ demo_text ''b'' @ [newline])"

definition demo_swapped :: artifact where
  "demo_swapped = jsonl_artifact (demo_text ''b'' @ [newline] @ demo_text ''a'' @ [newline])"

lemma demo_decode:
  "unmarshal_entry (demo_text ''a'') = Some (demo_signed ''a'')"
  "unmarshal_entry (demo_text ''b'') = Some (demo_signed ''b'')"
  by code_simp+

lemma demo_lines:
  "split_lines (demo_text ''a'' @ [newline] @ demo_text ''b'' @ [newline]) = [demo_text ''a'', demo_text ''b'']"
  "split_lines (demo_text ''b'' @ [newline] @ demo_text ''a'' @ [newline]) = [demo_text ''b'', demo_text ''a'']"
  by code_simp+

lemma demo_raw:
  "TrimSpace (drop_cr (demo_text ''a'')) = demo_text ''a''" "length (demo_text ''a'') = 100"
  "TrimSpace (drop_cr (demo_text ''b'')) = demo_text ''b''" "length (demo_text ''b'') = 100"
  "demo_text ''a'' \<noteq> demo_text ''b''"
  by code_simp+

lemma demo_canonical:
  "case Canonicalize Inr (IntegrityEntryV2 (demo_signed ''a'')) of Inr _ \<Rightarrow> True | Inl _ \<Rightarrow> False"
  "case Canonicalize Inr (IntegrityEntryV2 (demo_signed ''b'')) of Inr _ \<Rightarrow> True | Inl _ \<Rightarrow> False"
  by code_simp+

lemma demo_verify:
  assumes "case Canonicalize Inr (IntegrityEntryV2 (demo_signed i)) of Inr _ \<Rightarrow> True | Inl _ \<Rightarrow> False"
    and "ev_v2 v = NewVerifier [(''default'', ''k'')]"
  shows "verify_entry demo_vprims v (demo_signed i) = (''verified'', [])"
proof -
  have d: "DecodeString ''786b'' = Some ''xk''" by code_simp
  obtain c where "Canonicalize Inr (IntegrityEntryV2 (demo_signed i)) = Inr c"
    using assms(1) by (auto split: sum.splits)
  then show ?thesis using assms(2) d
    by (simp add: verify_entry_def Verifier_Verify_def demo_vprims_def demo_signed_def NewVerifier_def
        VersionV2_def DefaultKeyID_def)
qed

lemmas demo_verified = demo_verify [OF demo_canonical(1)] demo_verify [OF demo_canonical(2)]

lemma demo_items:
  "artifact_items demo_vprims demo_two FormatJSONL =
     [Decoded (demo_signed ''a'') (Inr (demo_text ''a'')), Decoded (demo_signed ''b'') (Inr (demo_text ''b''))]"
  "artifact_items demo_vprims demo_swapped FormatJSONL =
     [Decoded (demo_signed ''b'') (Inr (demo_text ''b'')), Decoded (demo_signed ''a'') (Inr (demo_text ''a''))]"
proof -
  have n: "demo_text ''a'' \<noteq> []" "demo_text ''b'' \<noteq> []" using demo_raw(2,4) by auto
  show "artifact_items demo_vprims demo_two FormatJSONL =
     [Decoded (demo_signed ''a'') (Inr (demo_text ''a'')), Decoded (demo_signed ''b'') (Inr (demo_text ''b''))]"
    by (simp add: artifact_items_def demo_two_def jsonl_artifact_def demo_lines demo_raw demo_decode n
        demo_vprims_def Let_def del: append_Cons append_Nil)
  show "artifact_items demo_vprims demo_swapped FormatJSONL =
     [Decoded (demo_signed ''b'') (Inr (demo_text ''b'')), Decoded (demo_signed ''a'') (Inr (demo_text ''a''))]"
    by (simp add: artifact_items_def demo_swapped_def jsonl_artifact_def demo_lines demo_raw demo_decode n
        demo_vprims_def Let_def del: append_Cons append_Nil)
qed

lemma demo_read:
  assumes "a = demo_two \<or> a = demo_swapped"
  shows "resolve_format a FormatAuto = Inr FormatJSONL"
    and "\<exists>r d'. read_artifact demo_vprims a FormatJSONL v d = (r, None, d')"
proof -
  have "take 16 (demo_text ''a'' @ s) \<noteq> ''SQLite format 3'' @ [CHR 0x00]"
    "take 16 (demo_text ''b'' @ s) \<noteq> ''SQLite format 3'' @ [CHR 0x00]" for s
    by (simp_all add: demo_text_def marshal_struct_def)
  with assms show "resolve_format a FormatAuto = Inr FormatJSONL"
    by (auto simp: resolve_format_def detectFormat_def demo_two_def demo_swapped_def jsonl_artifact_def)
  have n: "demo_text ''a'' \<noteq> []" "demo_text ''b'' \<noteq> []" using demo_raw(2,4) by auto
  show "\<exists>r d'. read_artifact demo_vprims a FormatJSONL v d = (r, None, d')"
    using assms
    by (auto simp: read_artifact_def verifyJSONLPath_def demo_two_def demo_swapped_def jsonl_artifact_def
        demo_lines [simplified] demo_raw demo_decode n demo_vprims_def maxJSONLRecordBytes_def Let_def)
qed

lemma demo_path:
  assumes "a = demo_two \<or> a = demo_swapped" "vc_Format cf = FormatAuto \<or> vc_Format cf = FormatJSONL"
  shows "\<exists>r d. VerifyPath demo_vprims a cf = (r, None, d)"
proof -
  have "resolve_format a (vc_Format cf) = Inr FormatJSONL"
    using demo_read(1) [OF assms(1)] assms(2)
    by (auto simp: resolve_format_def FormatAuto_def FormatJSONL_def)
  moreover obtain r d where "read_artifact demo_vprims a FormatJSONL
      ((newEntryVerifier (vc_Keys cf))\<lparr>ev_requireV2 := vc_RequireIntegrityV2 cf \<or> vc_Checkpoint cf \<noteq> None\<rparr>)
      (if vc_Checkpoint cf \<noteq> None then Some newOrderedDigest else vc_digest cf) = (r, None, d)"
    using demo_read(2) [OF assms(1)] by blast
  ultimately show ?thesis by (simp add: VerifyPath_def Let_def)
qed

lemma demo_signature: "checkpoint_signature demo_vprims c k = Inr (EncodeToString (CHR ''x'' # k))"
  by (simp add: checkpoint_signature_def marshal_members_of_def checkpoint_members_def str_member_def
      demo_vprims_def)

lemma demo_checkpoint:
  "\<exists>c. CreateCheckpoint demo_vprims demo_two demo_vconfig ''default'' = Inr c \<and> ck_Format c = FormatJSONL"
proof -
  let ?cf = "demo_vconfig\<lparr>vc_Format := FormatJSONL, vc_RequireIntegrityV2 := True, vc_Checkpoint := None,
      vc_digest := Some newOrderedDigest\<rparr>"
  obtain r d where v: "VerifyPath demo_vprims demo_two ?cf = (r, None, d)"
    using demo_path [of demo_two ?cf] by auto
  obtain format r0 where f: "resolve_format demo_two FormatJSONL = Inr format"
    and rd: "read_artifact demo_vprims demo_two format (path_verifier ?cf) (Some newOrderedDigest) = (r0, None, d)"
    and r: "r = (if vr_Total r0 = 0
        then r0\<lparr>vr_policyFailed := True,
                vr_FirstError := ''integrity v2 policy requires a non-empty artifact''\<rparr> else r0)"
    using v by (rule VerifyPathE) (simp add: path_verifier_def check_checkpoint_def)
  have format: "format = FormatJSONL" using f by (auto simp: resolve_format_def FormatAuto_def FormatJSONL_def)
  have key: "ev_v2 (path_verifier ?cf) = NewVerifier [(''default'', ''k'')]"
    by (simp add: path_verifier_def newEntryVerifier_def demo_vconfig_def)
  have "Clean r0" using rf.all_verified [OF rd] demo_verified [OF key]
    by (simp add: format demo_items path_verifier_def)
  moreover have "vr_Total r0 = 2" using rf.counts(1) [OF rd] by (simp add: format demo_items)
  ultimately have "Clean r" using r by simp
  moreover have "resolve_format demo_two (vc_Format demo_vconfig) = Inr FormatJSONL"
    using demo_read(1) [of demo_two] by (simp add: demo_vconfig_def)
  moreover have "secret_of (vc_Keys demo_vconfig) ''default'' = ''k''"
    by (simp add: secret_of_def demo_vconfig_def)
  ultimately show ?thesis using v
    by (simp add: CreateCheckpoint_def demo_signature Let_def)
qed

theorem VerifyPath_report_witness:
  "\<exists>r d. VerifyPath demo_vprims demo_two demo_vconfig = (r, None, d) \<and>
     vr_Verified r + vr_Invalid r + vr_Legacy r + vr_Unsigned r = vr_Total r"
proof -
  obtain r d where "VerifyPath demo_vprims demo_two demo_vconfig = (r, None, d)"
    using demo_path [of demo_two demo_vconfig] by (auto simp: demo_vconfig_def)
  with VerifyPath_report [OF this] show ?thesis by (auto simp: Let_def)
qed

theorem checkpoint_detects_witness:
  "\<exists>c r d. CreateCheckpoint demo_vprims demo_two demo_vconfig ''default'' = Inr c \<and>
     VerifyPath demo_vprims demo_swapped (demo_vconfig\<lparr>vc_Checkpoint := Some c\<rparr>) = (r, None, d) \<and> \<not> Clean r"
proof -
  obtain c where c: "CreateCheckpoint demo_vprims demo_two demo_vconfig ''default'' = Inr c"
    and f: "ck_Format c = FormatJSONL" using demo_checkpoint by blast
  let ?cf = "demo_vconfig\<lparr>vc_Checkpoint := Some c\<rparr>"
  obtain r d where v: "VerifyPath demo_vprims demo_swapped ?cf = (r, None, d)"
    using demo_path [of demo_swapped ?cf] by (auto simp: demo_vconfig_def)
  have "vp_sha256 demo_vprims m = m" for m by (simp add: demo_vprims_def)
  then have "\<not> Clean r"
    using checkpoint_detects [OF c v] demo_raw(5) by (simp add: f demo_items demo_raw(2,4))
  with c v show ?thesis by blast
qed

end
