(* ===== verification/Verify_Cli.thy ===== *)
theory Verify_Cli
  imports Verify
begin

text \<open>
  The commands \<open>mcp-audit verify\<close> and \<open>mcp-audit checkpoint\<close> (\<open>cmd/mcp-audit/verify.go\<close>): option
  parsing, keys from the environment, the checkpoint file, output and exit codes.

  \<open>cli_env\<close> holds what the operating system answers: environment variables, the artifact and the
  bytes at a path, and the failures of the calls that write. A command returns its exit code, what
  it printed on both streams, and the file it wrote.
\<close>

subsection \<open>Options\<close>

record verify_options =
  vo_path :: string
  vo_format :: string
  vo_keyID :: string
  vo_json :: bool
  vo_help :: bool
  vo_requireV2 :: bool
  vo_checkpoint :: string
  vo_output :: string

definition default_options :: verify_options where
  "default_options = \<lparr>vo_path = [], vo_format = FormatAuto, vo_keyID = DefaultKeyID, vo_json = False,
     vo_help = False, vo_requireV2 = False, vo_checkpoint = [], vo_output = []\<rparr>"

definition set_valued :: "string \<Rightarrow> string \<Rightarrow> verify_options \<Rightarrow> verify_options" where
  "set_valued argument value opts =
     (if argument = ''--format'' then opts\<lparr>vo_format := value\<rparr>
      else if argument = ''--key-id'' then opts\<lparr>vo_keyID := value\<rparr>
      else if argument = ''--checkpoint'' then opts\<lparr>vo_checkpoint := value\<rparr>
      else if argument = ''--output'' then opts\<lparr>vo_output := value\<rparr>
      else opts)"

definition valued_options :: "string list" where
  "valued_options = [''--format'', ''--key-id'', ''--checkpoint'', ''--output'']"

definition requires_value :: "string \<Rightarrow> err" where
  "requires_value argument = argument @ '' requires a value''"

fun parse_arguments :: "string list \<Rightarrow> verify_options \<Rightarrow> verify_options res" where
  "parse_arguments [] opts = Inr opts"
| "parse_arguments (a # args) opts =
     (if a = ''--help'' \<or> a = ''-h'' then parse_arguments args (opts\<lparr>vo_help := True\<rparr>)
      else if a = ''--json'' then parse_arguments args (opts\<lparr>vo_json := True\<rparr>)
      else if a = ''--require-integrity-v2'' then parse_arguments args (opts\<lparr>vo_requireV2 := True\<rparr>)
      else if a \<in> set valued_options then
        (case args of
           [] \<Rightarrow> Inl (requires_value a)
         | x # rest \<Rightarrow>
             if HasPrefix x ''--'' \<or> x = [] then Inl (requires_value a)
             else parse_arguments rest (set_valued a x opts))
      else if HasPrefix a ''--format=''
      then parse_arguments args (opts\<lparr>vo_format := TrimPrefix a ''--format=''\<rparr>)
      else if HasPrefix a ''--key-id=''
      then parse_arguments args (opts\<lparr>vo_keyID := TrimPrefix a ''--key-id=''\<rparr>)
      else if HasPrefix a ''--checkpoint='' then
        (if TrimPrefix a ''--checkpoint='' = [] then Inl (requires_value ''--checkpoint'')
         else parse_arguments args (opts\<lparr>vo_checkpoint := TrimPrefix a ''--checkpoint=''\<rparr>))
      else if HasPrefix a ''--output='' then
        (if TrimPrefix a ''--output='' = [] then Inl (requires_value ''--output'')
         else parse_arguments args (opts\<lparr>vo_output := TrimPrefix a ''--output=''\<rparr>))
      else if HasPrefix a ''-'' then Inl (''unknown option '' @ Quote a)
      else if vo_path opts \<noteq> []
      then Inl (''expected one audit path, got '' @ Quote (vo_path opts) @ '' and '' @ Quote a)
      else parse_arguments args (opts\<lparr>vo_path := a\<rparr>))"

definition parseVerifyOptions :: "string list \<Rightarrow> verify_options res" where
  "parseVerifyOptions args =
     (case parse_arguments args default_options of
        Inl er \<Rightarrow> Inl er
      | Inr opts \<Rightarrow>
          if vo_help opts then Inr opts
          else if vo_path opts = [] then Inl ''audit path is required''
          else if vo_keyID opts = [] then Inl ''key ID must not be empty''
          else Inr opts)"

subsection \<open>The checkpoint file\<close>

definition maxCheckpointBytes :: nat where "maxCheckpointBytes = 64 * 1024"

definition dec_uint64 :: "64 word dec" where
  "dec_uint64 raw v old =
     (case v of
        JNum n \<Rightarrow>
          if n \<noteq> [] \<and> list_all is_digit n \<and> digits_value n < 2 ^ 64
          then (of_nat (digits_value n), False) else (old, True)
      | JNull \<Rightarrow> (old, False)
      | _ \<Rightarrow> (old, True))"

definition checkpoint_fields :: "(string \<times> checkpoint dec) list" where
  "checkpoint_fields =
     [(''version'', dec_field ck_Version ck_Version_update dec_int),
      (''algorithm'', dec_field ck_Algorithm ck_Algorithm_update dec_string),
      (''key_id'', dec_field ck_KeyID ck_KeyID_update dec_string),
      (''format'', dec_field ck_Format ck_Format_update dec_string),
      (''records'', dec_field ck_Records ck_Records_update dec_uint64),
      (''digest'', dec_field ck_Digest ck_Digest_update dec_string),
      (''signature'', dec_field ck_Signature ck_Signature_update dec_string)]"

definition zero_checkpoint :: checkpoint where
  "zero_checkpoint = \<lparr>ck_Version = 0, ck_Algorithm = [], ck_KeyID = [], ck_Format = [], ck_Records = 0,
     ck_Digest = [], ck_Signature = []\<rparr>"

text \<open>Decoding with \<open>DisallowUnknownFields\<close>: a member without a field is an error.\<close>

definition dec_struct_strict :: "(string \<times> 'a dec) list \<Rightarrow> 'a dec" where
  "dec_struct_strict fs raw v old =
     (case dec_struct fs raw v old of
        (x, e) \<Rightarrow>
          (x, e \<or> (case v of
             JObj members \<Rightarrow> list_ex (\<lambda>(k, r, w). find_field fs k = None) members
           | _ \<Rightarrow> False)))"

definition loadCheckpoint :: "(string \<Rightarrow> string res) \<Rightarrow> string res \<Rightarrow> checkpoint res" where
  "loadCheckpoint jcs file =
     (case file of
        Inl er \<Rightarrow> Inl er
      | Inr bytes \<Rightarrow>
          (let raw = take (maxCheckpointBytes + 1) bytes
           in if length raw > maxCheckpointBytes then Inl ''checkpoint exceeds 64 KiB''
              else
                (case jcs raw of
                   Inl er \<Rightarrow> Inl (''invalid checkpoint JSON: '' @ er)
                 | Inr canonical \<Rightarrow>
                     (case Unmarshal (dec_struct_strict checkpoint_fields) zero_checkpoint canonical of
                        None \<Rightarrow> Inl json_error
                      | Some c \<Rightarrow> Inr c))))"

subsection \<open>Output\<close>

text \<open>An encoder with \<open>SetEscapeHTML(false)\<close> keeps the characters that are special in HTML.\<close>

fun esc_plain :: "string \<Rightarrow> string" where
  "esc_plain [] = []"
| "esc_plain (c # cs) =
     (if c = CHR ''<'' \<or> c = CHR ''>'' \<or> c = CHR ''&'' then c # esc_plain cs
      else if of_char c < (0x80 :: nat) then esc_ascii c @ esc_plain cs
      else
        (let w = utf8_width (c # cs)
         in if w = 0 then u_escape 0xFFFD @ esc_plain cs
            else if prefix [CHR 0xE2, CHR 0x80, CHR 0xA8] (c # cs)
            then u_escape 0x2028 @ esc_plain (drop 2 cs)
            else if prefix [CHR 0xE2, CHR 0x80, CHR 0xA9] (c # cs)
            then u_escape 0x2029 @ esc_plain (drop 2 cs)
            else c # take (w - 1) cs @ esc_plain (drop (w - 1) cs)))"

definition encode_result :: "vresult \<Rightarrow> string" where
  "encode_result r =
     marshal_struct
       ([(''verified'', Itoa (vr_Verified r)), (''invalid'', Itoa (vr_Invalid r)),
         (''legacy'', Itoa (vr_Legacy r)), (''unsigned'', Itoa (vr_Unsigned r)),
         (''total'', Itoa (vr_Total r))] @
        (if vr_FirstError r = [] then []
         else [(''first_error'', dquote # esc_plain (vr_FirstError r) @ [dquote])])) @ [newline]"

definition print_result :: "vresult \<Rightarrow> string" where
  "print_result r =
     ''verified: '' @ Itoa (vr_Verified r) @ [newline] @ ''invalid: '' @ Itoa (vr_Invalid r) @ [newline] @
     ''legacy: '' @ Itoa (vr_Legacy r) @ [newline] @ ''unsigned: '' @ Itoa (vr_Unsigned r) @ [newline]"

definition checkpoint_json :: "checkpoint \<Rightarrow> (string \<times> string) list" where
  "checkpoint_json c =
     [(''version'', Itoa (ck_Version c)), (''algorithm'', quote_string (ck_Algorithm c)),
      (''key_id'', quote_string (ck_KeyID c)), (''format'', quote_string (ck_Format c)),
      (''records'', show_nat (unat (ck_Records c))), (''digest'', quote_string (ck_Digest c)),
      (''signature'', quote_string (ck_Signature c))]"

definition indent_struct :: "(string \<times> string) list \<Rightarrow> string" where
  "indent_struct fs =
     ''{'' @ [newline] @
     join ('','' @ [newline]) (map (\<lambda>(k, v). ''  '' @ quote_string k @ '': '' @ v) fs) @
     [newline] @ ''}''"

subsection \<open>The commands\<close>

record cli_env =
  cl_getenv :: "string \<Rightarrow> string"
  cl_artifact :: "string \<Rightarrow> artifact"
  cl_file :: "string \<Rightarrow> string res"
  cl_stdout :: "err option"
  cl_create :: "string \<Rightarrow> err option"
  cl_write :: "(nat \<times> err) option"
  cl_sync :: "err option"
  cl_close :: "err option"

record cli_result =
  cr_code :: int
  cr_stdout :: string
  cr_stderr :: string
  cr_file :: "(string \<times> string) option"

definition verifyUsage :: string where
  "verifyUsage = ''usage: mcp-audit verify <audit.jsonl|audit.db> [--format auto|jsonl|sqlite] [--key-id ID] [--require-integrity-v2] [--checkpoint FILE] [--json]''"

definition checkpointUsage :: string where
  "checkpointUsage = ''usage: mcp-audit checkpoint <audit.jsonl|audit.db> --output FILE [--format auto|jsonl|sqlite] [--key-id ID] [--json]''"

definition exit_with :: "int \<Rightarrow> string \<Rightarrow> string \<Rightarrow> cli_result" where
  "exit_with code out er = \<lparr>cr_code = code, cr_stdout = out, cr_stderr = er, cr_file = None\<rparr>"

definition error_text :: "err option \<Rightarrow> string" where
  "error_text er = (case er of None \<Rightarrow> ''<nil>'' | Some x \<Rightarrow> x)"

definition signing_secret :: "cli_env \<Rightarrow> string" where
  "signing_secret w =
     (if cl_getenv w ''MCP_AUDIT_SIGNING_SECRET'' = [] then cl_getenv w ''AUDIT_SECRET''
      else cl_getenv w ''MCP_AUDIT_SIGNING_SECRET'')"

definition verify_config :: "cli_env \<Rightarrow> verify_options \<Rightarrow> vconfig" where
  "verify_config w opts =
     \<lparr>vc_Format = vo_format opts,
      vc_Keys = (if signing_secret w \<noteq> [] then [(vo_keyID opts, signing_secret w)] else []),
      vc_RequireIntegrityV2 = vo_requireV2 opts, vc_Checkpoint = None, vc_digest = None\<rparr>"

definition load_config :: "vprims \<Rightarrow> cli_env \<Rightarrow> verify_options \<Rightarrow> vconfig res" where
  "load_config p w opts =
     (if vo_checkpoint opts \<noteq> [] then
        (case loadCheckpoint (vp_jcs p) (cl_file w (vo_checkpoint opts)) of
           Inl er \<Rightarrow> Inl er
         | Inr c \<Rightarrow> Inr ((verify_config w opts)\<lparr>vc_Checkpoint := Some c\<rparr>))
      else Inr (verify_config w opts))"

definition runVerifyCommand :: "vprims \<Rightarrow> cli_env \<Rightarrow> string list \<Rightarrow> cli_result" where
  "runVerifyCommand p w args =
     (case parseVerifyOptions args of
        Inl er \<Rightarrow> exit_with 2 [] (''error: '' @ er @ [newline] @ verifyUsage @ [newline])
      | Inr opts \<Rightarrow>
          if vo_help opts then exit_with 0 (verifyUsage @ [newline]) []
          else if vo_output opts \<noteq> []
          then exit_with 2 [] (''error: --output is only valid for checkpoint'' @ [newline])
          else
            (case load_config p w opts of
               Inl er \<Rightarrow> exit_with 2 [] (''read checkpoint: '' @ er @ [newline])
             | Inr config \<Rightarrow>
                 (case VerifyPath p (cl_artifact w (vo_path opts)) config of
                    (r, Some er, d) \<Rightarrow> exit_with 2 [] (''verification failed: '' @ er @ [newline])
                  | (r, None, d) \<Rightarrow>
                      (case (if vo_json opts then cl_stdout w else None) of
                         Some er \<Rightarrow>
                           exit_with 2 [] (''write verification result: '' @ er @ [newline])
                       | None \<Rightarrow>
                           exit_with (if Clean r then 0 else 1)
                             (if vo_json opts then encode_result r else print_result r)
                             (if vr_FirstError r \<noteq> []
                              then ''first error: '' @ vr_FirstError r @ [newline] else [])))))"

definition runCheckpointCommand :: "vprims \<Rightarrow> cli_env \<Rightarrow> string list \<Rightarrow> cli_result" where
  "runCheckpointCommand p w args =
     (case parseVerifyOptions args of
        Inl er \<Rightarrow> exit_with 2 [] (''error: '' @ er @ [newline] @ checkpointUsage @ [newline])
      | Inr opts \<Rightarrow>
          if vo_help opts then exit_with 0 (checkpointUsage @ [newline]) []
          else if vo_output opts = [] \<or> vo_checkpoint opts \<noteq> [] \<or> vo_requireV2 opts
          then exit_with 2 [] (''error: checkpoint requires --output and accepts no verification flags'' @
                 [newline] @ checkpointUsage @ [newline])
          else
            (case CreateCheckpoint p (cl_artifact w (vo_path opts))
                    \<lparr>vc_Format = vo_format opts, vc_Keys = [(vo_keyID opts, signing_secret w)],
                     vc_RequireIntegrityV2 = False, vc_Checkpoint = None, vc_digest = None\<rparr>
                    (vo_keyID opts) of
               Inl er \<Rightarrow> exit_with 2 [] (''checkpoint failed: '' @ er @ [newline])
             | Inr c \<Rightarrow>
                 (case cl_create w (vo_output opts) of
                    Some er \<Rightarrow> exit_with 2 [] (''create checkpoint: '' @ er @ [newline])
                  | None \<Rightarrow>
                      (let data = indent_struct (checkpoint_json c) @ [newline];
                           content = (case cl_write w of None \<Rightarrow> data | Some (n, _) \<Rightarrow> take n data);
                           writeErr = (case cl_write w of Some (_, er) \<Rightarrow> Some er | None \<Rightarrow> cl_sync w)
                       in if writeErr \<noteq> None \<or> cl_close w \<noteq> None
                          then (exit_with 2 [] (''write checkpoint: '' @ error_text writeErr @
                                  ''; close: '' @ error_text (cl_close w) @ [newline]))
                               \<lparr>cr_file := Some (vo_output opts, content)\<rparr>
                          else
                            (case (if vo_json opts then cl_stdout w else None) of
                               Some er \<Rightarrow>
                                 (exit_with 2 [] (''write checkpoint result: '' @ er @ [newline]))
                                 \<lparr>cr_file := Some (vo_output opts, content)\<rparr>
                             | None \<Rightarrow>
                                 (exit_with 0
                                    (if vo_json opts then marshal_struct (checkpoint_json c) @ [newline]
                                     else ''checkpoint: '' @ vo_output opts @ [newline] @ ''records: '' @
                                       show_nat (unat (ck_Records c)) @ [newline]) [])
                                 \<lparr>cr_file := Some (vo_output opts, content)\<rparr>)))))"

subsection \<open>What the exit codes mean\<close>

lemma VerifyPath_clean_items:
  assumes "VerifyPath p a config = (r, None, d)" "Clean r"
  shows "\<exists>format. resolve_format a (vc_Format config) = Inr format \<and>
     (\<forall>it \<in> set (artifact_items p a format).
        item_status p (path_verifier config) it \<in> {''verified'', ''legacy''} \<and>
        (ev_requireV2 (path_verifier config) \<longrightarrow> item_status p (path_verifier config) it = ''verified'')) \<and>
     (ev_requireV2 (path_verifier config) \<longrightarrow> artifact_items p a format \<noteq> [])"
proof -
  obtain format r0 where f: "resolve_format a (vc_Format config) = Inr format"
    and rd: "read_artifact p a format (path_verifier config)
       (if vc_Checkpoint config \<noteq> None then Some newOrderedDigest else vc_digest config) = (r0, None, d)"
    and r: "r = check_checkpoint p config format d
       (if ev_requireV2 (path_verifier config) \<and> vr_Total r0 = 0
        then r0\<lparr>vr_policyFailed := True,
                vr_FirstError := ''integrity v2 policy requires a non-empty artifact''\<rparr> else r0)"
    using assms(1) by (rule VerifyPathE)
  have c: "Clean r0 \<and> (ev_requireV2 (path_verifier config) \<longrightarrow> vr_Total r0 \<noteq> 0)"
    using assms(2) unfolding r Clean_def check_checkpoint_failed by (simp split: if_splits)
  let ?v = "path_verifier config" and ?its = "artifact_items p a format"
  have no: "item_status p ?v it \<noteq> ''invalid''" "item_status p ?v it \<noteq> ''unsigned''"
    if "it \<in> set ?its" for it
    using rf.counts(4,5) [OF rd] c that by (auto simp: Clean_def count_status_0)
  have "item_status p ?v it \<in> {''verified'', ''legacy''}" if "it \<in> set ?its" for it
    using item_status_cases [of p ?v it] no [OF that] by blast
  moreover have "item_status p ?v it = ''verified''" if "it \<in> set ?its" "ev_requireV2 ?v" for it
    using rf.all_verified [OF rd that(2)] c that(1) by blast
  moreover have "?its \<noteq> []" if "ev_requireV2 ?v" using rf.counts(1) [OF rd] c that by auto
  ultimately show ?thesis using f by blast
qed

lemma runVerifyCommand_ran:
  assumes "parseVerifyOptions args = Inr opts" "\<not> vo_help opts" "cr_code (runVerifyCommand p w args) < 2"
  obtains config r d where "vo_output opts = []" "load_config p w opts = Inr config"
    "VerifyPath p (cl_artifact w (vo_path opts)) config = (r, None, d)"
    "cr_code (runVerifyCommand p w args) = (if Clean r then 0 else 1)"
    "vr_FirstError r = [] \<longleftrightarrow> cr_stderr (runVerifyCommand p w args) = []"
  using assms that
  by (auto simp: runVerifyCommand_def exit_with_def split: if_splits sum.splits prod.splits option.splits)

lemma load_config_policy:
  assumes "load_config p w opts = Inr config"
  shows "vc_Format config = vo_format opts"
    "vc_Keys config = (if signing_secret w \<noteq> [] then [(vo_keyID opts, signing_secret w)] else [])"
    "ev_requireV2 (path_verifier config) \<longleftrightarrow> vo_requireV2 opts \<or> vo_checkpoint opts \<noteq> []"
    "vc_Checkpoint config = None \<longleftrightarrow> vo_checkpoint opts = []"
  using assms by (auto simp: load_config_def verify_config_def path_verifier_def split: if_splits sum.splits)

text \<open>
  C20: The exit code of \<open>mcp-audit verify\<close> can be relied on by a script. When the command ends
  with code 0 after a verification, every item of the artifact was verified under the secret of the
  environment, in the versioned format or, without \<open>--require-integrity-v2\<close> and \<open>--checkpoint\<close>, in
  the legacy format; with one of these options the artifact is not empty and every item is in the
  versioned format. Code 1 means that the artifact was read without error and is not clean.
\<close>
theorem verify_command_exit:
  assumes "parseVerifyOptions args = Inr opts" and "\<not> vo_help opts"
    and "cr_code (runVerifyCommand p w args) \<in> {0, 1}"
  shows "\<exists>config r d format. load_config p w opts = Inr config \<and>
     vc_Keys config = (if signing_secret w \<noteq> [] then [(vo_keyID opts, signing_secret w)] else []) \<and>
     VerifyPath p (cl_artifact w (vo_path opts)) config = (r, None, d) \<and>
     resolve_format (cl_artifact w (vo_path opts)) (vo_format opts) = Inr format \<and>
     (cr_code (runVerifyCommand p w args) = 0 \<longleftrightarrow> Clean r) \<and>
     (cr_code (runVerifyCommand p w args) = 0 \<longrightarrow>
        (\<forall>it \<in> set (artifact_items p (cl_artifact w (vo_path opts)) format).
           item_status p (path_verifier config) it \<in> {''verified'', ''legacy''} \<and>
           (vo_requireV2 opts \<or> vo_checkpoint opts \<noteq> [] \<longrightarrow>
              item_status p (path_verifier config) it = ''verified'')) \<and>
        (vo_requireV2 opts \<or> vo_checkpoint opts \<noteq> [] \<longrightarrow>
           artifact_items p (cl_artifact w (vo_path opts)) format \<noteq> []))"
proof -
  have "cr_code (runVerifyCommand p w args) < 2" using assms(3) by auto
  with assms(1,2) obtain config r d where c: "load_config p w opts = Inr config"
    "VerifyPath p (cl_artifact w (vo_path opts)) config = (r, None, d)"
    "cr_code (runVerifyCommand p w args) = (if Clean r then 0 else 1)"
    by (rule runVerifyCommand_ran)
  note pol = load_config_policy [OF c(1)]
  obtain format where f: "resolve_format (cl_artifact w (vo_path opts)) (vo_format opts) = Inr format"
    using c(2) by (rule VerifyPathE) (simp add: pol)
  have "cr_code (runVerifyCommand p w args) = 0 \<longleftrightarrow> Clean r" using c(3) by simp
  moreover note VerifyPath_clean_items [OF c(2)]
  ultimately show ?thesis using c(1,2) pol f
    by (intro exI [of _ config] exI [of _ r] exI [of _ d] exI [of _ format]) auto
qed

definition demo_cli :: cli_env where
  "demo_cli = \<lparr>cl_getenv = (\<lambda>n. if n = ''AUDIT_SECRET'' then ''k'' else []), cl_artifact = (\<lambda>_. demo_two),
     cl_file = (\<lambda>_. Inl ''missing''), cl_stdout = None, cl_create = (\<lambda>_. None), cl_write = None,
     cl_sync = None, cl_close = None\<rparr>"

theorem verify_command_exit_witness:
  "\<exists>opts. parseVerifyOptions [''audit.jsonl'', ''--require-integrity-v2''] = Inr opts \<and> \<not> vo_help opts \<and>
     cr_code (runVerifyCommand demo_vprims demo_cli [''audit.jsonl'', ''--require-integrity-v2'']) \<in> {0, 1} \<and>
     (\<exists>config. load_config demo_vprims demo_cli opts = Inr config)"
proof -
  let ?args = "[''audit.jsonl'', ''--require-integrity-v2'']"
  let ?o = "default_options\<lparr>vo_path := ''audit.jsonl'', vo_requireV2 := True\<rparr>"
  have o: "parseVerifyOptions ?args = Inr ?o" by code_simp
  have h: "\<not> vo_help ?o" "vo_output ?o = []" "vo_checkpoint ?o = []" "\<not> vo_json ?o"
    by (simp_all add: default_options_def)
  obtain r d where v: "VerifyPath demo_vprims demo_two (verify_config demo_cli ?o) = (r, None, d)"
    using demo_path [of demo_two "verify_config demo_cli ?o"]
    by (auto simp: verify_config_def default_options_def)
  have "cr_code (runVerifyCommand demo_vprims demo_cli ?args) \<in> {0, 1}"
    using v h by (simp add: runVerifyCommand_def o load_config_def exit_with_def demo_cli_def)
  from verify_command_exit [OF o h(1) this] this o h(1) show ?thesis by blast
qed

end
