(* ===== verification/Evidence.thy ===== *)
theory Evidence
  imports Jsonl_Contract Verify
begin

text \<open>
  From the store to the verifier. The JSON lines store writes an entry as one line
  (\<open>Jsonl_Contract\<close>), the verifier (\<open>Verify\<close>) splits the file into lines and decodes them. By the
  round trip of entries (\<open>Entry_Roundtrip\<close>) what it decodes is the entry in compact form, whose
  signed payload is that of the entry that the logger (\<open>Logger\<close>) signed.
\<close>

subsection \<open>Signatures survive storage\<close>

text \<open>The versioned payload holds the raw messages in compact form already.\<close>

definition same_record :: "entry \<Rightarrow> entry \<Rightarrow> bool" where
  "same_record e e' \<longleftrightarrow>
     e' = e\<lparr>e_Params := e_Params e', e_Result := e_Result e', e_Error := map_option compact_error (e_Error e)\<rparr> \<and>
     raw_omit (e_Params e') = raw_omit (e_Params e) \<and> raw_omit (e_Result e') = raw_omit (e_Result e)"

lemma same_record_compact: "storable e \<Longrightarrow> same_record e (compact_entry e)"
  using raw_omit_compact [of 9999] by (simp add: same_record_def storable_def compact_entry_def)

lemma Canonicalize_same:
  assumes "storable e" "same_record e e'"
  shows "Canonicalize jcs (IntegrityEntryV2 e') = Canonicalize jcs (IntegrityEntryV2 e)"
proof -
  obtain a b where e': "e' = e\<lparr>e_Params := a, e_Result := b, e_Error := map_option compact_error (e_Error e)\<rparr>"
    "raw_omit a = raw_omit (e_Params e)" "raw_omit b = raw_omit (e_Result e)"
    using assms(2) unfolding same_record_def by metis
  have er: "(\<lambda>x. \<lparr>err_Code = err_Code x, err_Message = err_Message x, err_Data = err_Data x\<rparr>) = (\<lambda>x :: rpc_error. x)"
    by auto
  have "opt_all error_ok (e_Error e)" using assms(1) by (simp add: storable_def)
  from ptr_compact_error [OF this] e'(2,3)
  have "marshal_v2 (IntegrityEntryV2 e') = marshal_v2 (IntegrityEntryV2 e)"
    unfolding IntegrityEntryV2_def er option.map_ident by (simp add: marshal_v2_def e'(1))
  then show ?thesis
    by (cases "e_Error e") (simp_all add: Canonicalize_def IntegrityEntryV2_def e'(1) compact_error_def)
qed

lemma verify_entry_same:
  assumes "storable e" "same_record e e'" "e_Integrity e \<noteq> None"
  shows "verify_entry q v e' = verify_entry q v e"
proof -
  have "e_Integrity e' = e_Integrity
      (e\<lparr>e_Params := e_Params e', e_Result := e_Result e', e_Error := map_option compact_error (e_Error e)\<rparr>)"
    using assms(2) unfolding same_record_def by (intro arg_cong [where f = e_Integrity]) blast
  then have i: "e_Integrity e' = e_Integrity e" by simp
  have "Verifier_Verify hmac jcs w (IntegrityEntryV2 e') md = Verifier_Verify hmac jcs w (IntegrityEntryV2 e) md"
    for hmac jcs w md unfolding Verifier_Verify_def Canonicalize_same [OF assms(1,2)] by (rule refl)
  with assms(3) show ?thesis unfolding verify_entry_def i by simp
qed

definition prepared_by :: "prims \<Rightarrow> 's logger \<Rightarrow> entry \<Rightarrow> bool" where
  "prepared_by p l e \<longleftrightarrow> (\<exists>ulid now e0. prepare p l ulid now e0 = Inr e)"

definition readable :: "vprims \<Rightarrow> entry \<Rightarrow> bool" where
  "readable q e \<longleftrightarrow> storable e \<and> length (line_of e) < maxJSONLRecordBytes \<and> \<not> isl (vp_jcs q (line_of e))"

lemma readable_items:
  assumes "list_all (readable q) es"
  shows "jsonl_items q n (map line_of es) = map (\<lambda>e. Decoded (compact_entry e) (vp_jcs q (line_of e))) es"
    "\<exists>r' d'. verify_lines q v None n (map line_of es) r d = (r', None, d')"
  using assms
proof (induction es arbitrary: n r d)
  case (Cons e es)
  {
    case 1
    then have e: "storable e" "\<not> isl (vp_jcs q (line_of e))" by (simp_all add: readable_def)
    obtain u where "line_of e = CHR ''{'' # u @ ''}''" using stored_line(4) [OF e(1)] by blast
    note t = braces_trimmed [OF this]
    from e(2) obtain c where "vp_jcs q (line_of e) = Inr c" by (cases "vp_jcs q (line_of e)") auto
    with 1 Cons.IH(1) [of "n + 1"] t stored_line(2) [OF e(1)] show ?case by simp
  next
    case 2
    then have e: "storable e" "\<not> isl (vp_jcs q (line_of e))" "length (line_of e) < maxJSONLRecordBytes"
      by (simp_all add: readable_def)
    obtain u where "line_of e = CHR ''{'' # u @ ''}''" using stored_line(4) [OF e(1)] by blast
    note t = braces_trimmed [OF this]
    from e(2) obtain c where "vp_jcs q (line_of e) = Inr c" by (cases "vp_jcs q (line_of e)") auto
    with 2 Cons.IH(2) [of "n + 1"] t stored_line(2) [OF e(1)] e(3) show ?case by simp
  }
qed simp_all

lemma count_all_verified:
  "\<forall>it \<in> set its. item_status q v it = ''verified'' \<Longrightarrow>
     count_status q v s its = (if s = ''verified'' then int (length its) else 0)"
  by (induction its) auto

text \<open>
  Reading records of a signing logger in any form that keeps the signed payload gives a clean report.
\<close>

definition signs_for :: "prims \<Rightarrow> 's logger \<Rightarrow> vprims \<Rightarrow> vconfig \<Rightarrow> bool" where
  "signs_for p l q config \<longleftrightarrow>
     (case lg_integritySigner l of
        None \<Rightarrow> False
      | Some v \<Rightarrow> is_secret v \<noteq> [] \<and> map_of (vc_Keys config) (is_keyID v) = Some (is_secret v)) \<and>
     vp_hmac q = p_hmac p \<and> vp_jcs q = p_jcs p"

lemma verified_report:
  assumes pr: "list_all (prepared_by p l) es" and st: "list_all storable es" and ne: "es \<noteq> []"
    and sg: "signs_for p l q config" and ck: "vc_Checkpoint config = None"
    and f: "resolve_format a (vc_Format config) = Inr format"
    and rd: "read_artifact q a format (path_verifier config) (vc_digest config) = (r, None, d)"
    and its: "artifact_items q a format = map (\<lambda>e. Decoded (g e) (c e)) es"
    and g: "\<And>e. storable e \<Longrightarrow> same_record e (g e)"
  shows "VerifyPath q a config = (r, None, d) \<and> Clean r \<and>
     vr_Verified r = int (length es) \<and> vr_Total r = int (length es) \<and> vr_FirstError r = []"
proof -
  let ?v = "path_verifier config" and ?its = "map (\<lambda>e. Decoded (g e) (c e)) es"
  obtain v where v: "lg_integritySigner l = Some v" "is_secret v \<noteq> []" "map_of (vc_Keys config) (is_keyID v) = Some (is_secret v)"
    "vp_hmac q = p_hmac p" "vp_jcs q = p_jcs p" using sg by (auto simp: signs_for_def split: option.splits)
  have "fst (verify_entry q ?v (g e)) = ''verified''" if "e \<in> set es" for e
  proof -
    from that pr obtain ulid now e1 where pr: "prepare p l ulid now e1 = Inr e"
      by (auto simp: prepared_by_def list_all_iff)
    have k: "ev_v2 ?v (is_keyID v) = Some (is_secret v)"
      using v(3) by (simp add: path_verifier_def newEntryVerifier_def NewVerifier_def)
    note s = prepare_verifies_v2 [where keys = "ev_v2 ?v", OF pr v(1,2) k]
    have "storable e" using that st by (simp add: list_all_iff)
    with s v(4,5) g show ?thesis
      by (auto simp: verify_entry_same [of e "g e"] verify_entry_def [of q ?v e])
  qed
  then have "count_status q ?v s ?its = (if s = ''verified'' then int (length es) else 0)" for s
    using count_all_verified [of ?its q ?v s] by (auto split: if_splits)
  note c = rf.counts [OF rd, unfolded its this]
  have "VerifyPath q a config = (r, None, d)"
    using rd f c(1) ne ck by (simp add: VerifyPath_def path_verifier_def check_checkpoint_def)
  with c show ?thesis by (auto simp: Clean_def)
qed

text \<open>
  C5: Stored evidence verifies. Take entries that a logger with an integrity signer prepared and
  that can be stored, and a file with the lines that the JSON lines store writes for them. When
  the verifier has the signer's key under its identifier and no checkpoint is asked for,
  verification of the file ends without error and clean, with every record verified: neither the
  compaction of parameters, results and error data by the encoder nor the parsing of times and
  strings changes what was signed. The canonicalization is assumed to accept the lines.
\<close>
theorem stored_evidence_verifies:
  assumes "list_all (prepared_by p l) es" "list_all (readable q) es" "es \<noteq> []"
    and "signs_for p l q config" "vc_Checkpoint config = None"
    and "vc_Format config \<in> {[], FormatAuto, FormatJSONL}"
  shows "\<exists>r d. VerifyPath q (jsonl_artifact (fst (encode_all es))) config = (r, None, d) \<and> Clean r \<and>
     vr_Verified r = int (length es) \<and> vr_Total r = int (length es) \<and> vr_FirstError r = []"
proof -
  let ?a = "jsonl_artifact (fst (encode_all es))"
  have st: "list_all storable es" using assms(2) by (auto simp: readable_def list_all_iff)
  have ls: "split_lines (af_bytes ?a) = map line_of es" using split_encode_all [OF st] by (simp add: jsonl_artifact_def)
  obtain e0 es0 where es: "es = e0 # es0" using assms(3) by (cases es) auto
  with st stored_line(4) [of e0] have "take 16 (af_bytes ?a) \<noteq> ''SQLite format 3'' @ [CHR 0x00]"
    by (auto simp: jsonl_artifact_def encode_all_stored simp del: encode_all.simps)
  then have f: "resolve_format ?a (vc_Format config) = Inr FormatJSONL"
    using assms(6) by (auto simp: resolve_format_def detectFormat_def jsonl_artifact_def FormatAuto_def FormatJSONL_def)
  have its: "artifact_items q ?a FormatJSONL = map (\<lambda>e. Decoded (compact_entry e) (vp_jcs q (line_of e))) es"
    using readable_items(1) [OF assms(2)] ls by (simp add: artifact_items_def)
  have "read_artifact q ?a FormatJSONL v d = verify_lines q v None 0 (map line_of es) zero_result d" for v d
    using ls by (simp add: read_artifact_def verifyJSONLPath_def) (simp add: jsonl_artifact_def)
  with readable_items(2) [OF assms(2)] obtain r d where
    rd: "read_artifact q ?a FormatJSONL (path_verifier config) (vc_digest config) = (r, None, d)" by metis
  from verified_report [OF assms(1) st assms(3-5) f rd its same_record_compact] show ?thesis by blast
qed

text \<open>A record with empty parameters: prepared, stored and read back, it verifies.\<close>

definition demo_signing_logger :: "jsonl logger" where
  "demo_signing_logger =
     \<lparr>lg_store = jsonl_ops Inr 0 0, lg_signer = None, lg_integritySigner = Some (NewIntegritySigner ''k'' []),
      lg_redactor = None, lg_trace = False, lg_transport = ''stdio'', lg_clientID = ''c'', lg_serverID = ''s'',
      lg_metrics = False, lg_durable = True\<rparr>"

definition signing_prims :: prims where
  "signing_prims = \<lparr>p_hmac = (\<lambda>k m. CHR ''x'' # k), p_jcs = Inr, p_float = Some\<rparr>"

lemma demo_prepared:
  "case prepare signing_prims demo_signing_logger ''i'' 7 zero_entry of
     Inl _ \<Rightarrow> False | Inr e \<Rightarrow> storable e \<and> length (line_of e) < 600"
  by code_simp

theorem stored_evidence_verifies_witness:
  "\<exists>e r d. prepare signing_prims demo_signing_logger ''i'' 7 zero_entry = Inr e \<and>
     VerifyPath demo_vprims (jsonl_artifact (fst (encode_all [e]))) demo_vconfig = (r, None, d) \<and> Clean r \<and>
     vr_Verified r = 1"
proof -
  obtain e where e: "prepare signing_prims demo_signing_logger ''i'' 7 zero_entry = Inr e"
    using demo_prepared by (auto split: sum.splits)
  with demo_prepared have a: "storable e" "length (line_of e) < 600" by simp_all
  have "list_all (prepared_by signing_prims demo_signing_logger) [e]" using e by (auto simp: prepared_by_def)
  moreover have "list_all (readable demo_vprims) [e]"
    using a by (simp add: readable_def maxJSONLRecordBytes_def demo_vprims_def)
  moreover have "[e] \<noteq> []" by simp
  moreover have "signs_for signing_prims demo_signing_logger demo_vprims demo_vconfig"
    by (simp add: signs_for_def demo_signing_logger_def NewIntegritySigner_def DefaultKeyID_def demo_vconfig_def
        demo_vprims_def signing_prims_def)
  ultimately have "\<exists>r d. VerifyPath demo_vprims (jsonl_artifact (fst (encode_all [e]))) demo_vconfig = (r, None, d) \<and>
      Clean r \<and> vr_Verified r = int (length [e]) \<and> vr_Total r = int (length [e]) \<and> vr_FirstError r = []"
    by (rule stored_evidence_verifies) (simp_all add: demo_vconfig_def)
  with e show ?thesis by auto
qed

subsection \<open>Legacy signatures do not\<close>

text \<open>
  The legacy signature covers the parameters as the logger got them, while the file holds their
  compact form: a signed record whose parameters are not in compact form does not verify once
  it is read back, unless the authentication code collides.
\<close>

lemma legacy_signature_lost:
  assumes "e = sign_legacy p l e0" "lg_signer l = Some s" "sg_secret s \<noteq> []"
    and "compact_raw (e_Params e0) \<noteq> e_Params e0"
    and "\<And>m m'. p_hmac p (sg_secret s) m = p_hmac p (sg_secret s) m' \<Longrightarrow> m = m'"
  shows "\<not> Signer_Verify (p_hmac p) (Some s) (compact_entry e)"
proof -
  have "e_Signature (compact_entry e) = EncodeToString (p_hmac p (sg_secret s) (legacy_message e0))"
    "e_Params (compact_entry e) = compact_raw (e_Params e0)"
    using assms(1-3) by (simp_all add: compact_entry_def sign_legacy_def Signer_Sign_def Signer_Enabled_def)
  moreover have "legacy_message (compact_entry e) \<noteq> legacy_message e0"
    using assms(1,2,4) by (simp add: legacy_message_def compact_entry_def sign_legacy_def)
  ultimately show ?thesis using assms(5) by (auto simp: Verify_legacy_iff)
qed

end
