(* ===== verification/Sqlite_Evidence.thy ===== *)
theory Sqlite_Evidence
  imports Evidence
begin

text \<open>
  Evidence in SQLite. The store (\<open>internal/audit/storage/sqlite.go\<close>) and the verifier
  (\<open>internal/audit/verify/sqlite.go\<close>) read the table with code of their own: other destinations,
  other defaults, other reactions to a column that does not decode. Both are given the rows the
  store writes, and they agree: an entry is read back as it was, its error with compact data, and
  the records a signing logger prepared verify. Unlike in JSON lines the raw parameters are kept,
  so legacy signatures verify too.
\<close>

subsection \<open>Columns with JSON\<close>

lemma chain_column:
  assumes "chain flds 9998 x ms z"
  shows "\<exists>t. marshal_members_of ms = Some t \<and> present_json (Some t) = Some t \<and> Unmarshal (dec_struct flds) x t = Some z \<and>
     Unmarshal (dec_ptr x (dec_struct flds)) None t = Some (Some z) \<and>
     Unmarshal (dec_some (dec_struct flds)) (Some x) t = Some (Some z)"
proof -
  from chain_struct [OF assms] obtain t xs where t: "marshal_members_of ms = Some t" "enc (Suc 9998) t (JObj xs)"
    "\<And>raw. dec_struct flds raw (JObj xs) x = (z, False)" by blast
  have "parse_json t = Some (t, JObj xs)" by (rule enc_parse [OF t(2)]) (simp add: maxNestingDepth_def)
  moreover have "present_json (Some t) = Some t"
    using marshal_members_braces [OF t(1)] by (auto simp: present_json_def)
  ultimately show ?thesis using t(1,3) by (simp add: Unmarshal_def dec_ptr_def dec_some_def)
qed

text \<open>A nullable column: the text written for a pointer, and what the two readers make of it.\<close>

definition column_of :: "('a \<Rightarrow> string option) \<Rightarrow> 'a option \<Rightarrow> string" where
  "column_of f p = (case Option.bind p f of None \<Rightarrow> [] | Some t \<Rightarrow> t)"

definition reads_back :: "('a \<Rightarrow> string option) \<Rightarrow> 'a dec \<Rightarrow> 'a \<Rightarrow> 'a option \<Rightarrow> 'a option \<Rightarrow> bool" where
  "reads_back f d x p q \<longleftrightarrow>
     (\<forall>w. ptr_json w f p = Inr (column_of f p)) \<and>
     Option.bind (present_json (Some (column_of f p))) (Unmarshal d x) = q \<and>
     (case present_json (Some (column_of f p)) of None \<Rightarrow> q = None
        | Some t \<Rightarrow> Unmarshal (dec_ptr x d) None t = Some q) \<and>
     (\<forall>w. json_column w (dec_ptr x d) None None (column_of f p) = Inr q) \<and>
     (\<forall>w. json_column w (dec_some d) None (Some x) (column_of f p) = Inr q)"

lemma column_roundtrip:
  assumes "\<And>y. p = Some y \<Longrightarrow> chain flds 9998 x (ms y) (n y)" "\<And>y. f y = marshal_members_of (ms y)"
  shows "reads_back f (dec_struct flds) x p (map_option n p)"
proof (cases p)
  case None
  then show ?thesis by (simp add: reads_back_def ptr_json_def column_of_def present_json_def json_column_def)
next
  case (Some y)
  from chain_column [OF assms(1) [OF Some]] obtain t where t: "f y = Some t" "present_json (Some t) = Some t"
    "Unmarshal (dec_struct flds) x t = Some (n y)" "Unmarshal (dec_ptr x (dec_struct flds)) None t = Some (Some (n y))"
    "Unmarshal (dec_some (dec_struct flds)) (Some x) t = Some (Some (n y))"
    unfolding assms(2) by blast
  have c: "column_of f p = t" using t(1) Some by (simp add: column_of_def)
  have "t \<noteq> []" "t \<noteq> ''null''" using t(2) by (auto simp: present_json_def split: if_splits)
  with t Some show ?thesis unfolding c reads_back_def by (simp add: ptr_json_def json_column_def)
qed

subsection \<open>Rows\<close>

definition sql_form :: "entry \<Rightarrow> entry" where
  "sql_form e = e\<lparr>e_Error := map_option compact_error (e_Error e)\<rparr>"

definition stored_row :: "entry \<Rightarrow> row" where
  "stored_row e = \<lparr>r_id = e_ID e, r_timestamp = Some (RFC3339Nano (e_Timestamp e)),
     r_audit_operation_id = Some (e_AuditOperationID e), r_outcome = Some (e_Outcome e),
     r_direction = e_Direction e, r_transport = e_Transport e, r_method = e_Method e,
     r_request_id = Some (e_RequestID e), r_mcp_name = Some (e_MCPName e),
     r_tool_name = Some (e_ToolName e), r_params = Some (e_Params e), r_result = Some (e_Result e),
     r_error = Some (column_of marshal_rpc_error (e_Error e)), r_duration_ms = e_DurationMs e,
     r_client_id = e_ClientID e, r_server_id = e_ServerID e,
     r_principal = Some (column_of marshal_principal (e_Principal e)),
     r_policy = Some (column_of marshal_policy (e_Policy e)), r_signature = Some (e_Signature e),
     r_integrity = Some (column_of marshal_metadata (e_Integrity e))\<rparr>"

lemma stored_columns:
  assumes "storable e"
  shows "reads_back marshal_rpc_error (dec_struct rpc_error_fields) zero_rpc_error (e_Error e) (e_Error (sql_form e))"
    "reads_back marshal_principal (dec_struct principal_fields) zero_principal (e_Principal e) (e_Principal e)"
    "reads_back marshal_policy (dec_struct policy_fields) zero_policy (e_Policy e) (e_Policy e)"
    "reads_back marshal_metadata (dec_struct metadata_fields) zero_metadata (e_Integrity e) (e_Integrity e)"
proof -
  have s: "\<And>y. e_Error e = Some y \<Longrightarrow> error_ok y"
    "\<And>p. e_Principal e = Some p \<Longrightarrow> list_all ValidString [ap_Subject p, ap_ClientID p, ap_Issuer p]"
    "\<And>p. e_Policy e = Some p \<Longrightarrow> list_all ValidString [pe_Decision p, pe_RuleID p]"
    "\<And>m. e_Integrity e = Some m \<Longrightarrow> int64 (im_Version m)"
    "\<And>m. e_Integrity e = Some m \<Longrightarrow> list_all ValidString [im_Algorithm m, im_KeyID m, im_Signature m]"
    using assms by (auto simp: storable_def)
  show "reads_back marshal_rpc_error (dec_struct rpc_error_fields) zero_rpc_error (e_Error e) (e_Error (sql_form e))"
    using column_roundtrip [OF error_chain [OF s(1)] marshal_rpc_error_def] by (simp add: sql_form_def)
  show "reads_back marshal_principal (dec_struct principal_fields) zero_principal (e_Principal e) (e_Principal e)"
    using column_roundtrip [where p = "e_Principal e" and n = "\<lambda>p. p", OF principal_chain [OF s(2)] marshal_principal_def] by (simp add: option.map_ident)
  show "reads_back marshal_policy (dec_struct policy_fields) zero_policy (e_Policy e) (e_Policy e)"
    using column_roundtrip [where p = "e_Policy e" and n = "\<lambda>p. p", OF policy_chain [OF s(3)] marshal_policy_def] by (simp add: option.map_ident)
  show "reads_back marshal_metadata (dec_struct metadata_fields) zero_metadata (e_Integrity e) (e_Integrity e)"
    using column_roundtrip [where p = "e_Integrity e" and n = "\<lambda>p. p", OF metadata_chain [OF s(4,5)] marshal_metadata_def] by (simp add: option.map_ident)
qed

lemma row_written: "storable e \<Longrightarrow> entry_row e = Inr (stored_row e)"
  using stored_columns [of e] by (simp add: reads_back_def entry_row_def stored_row_def)

lemma row_read:
  assumes "storable e"
  shows "row_entry (stored_row e) = Inr (sql_form e)"
proof -
  let ?i = "present_json (Some (column_of marshal_metadata (e_Integrity e)))"
  note c = stored_columns [OF assms, unfolded reads_back_def]
  have t: "ParseRFC3339 (RFC3339Nano (e_Timestamp e)) = Some (e_Timestamp e)"
    by (rule ParseRFC3339_format) (use assms in \<open>simp add: storable_def\<close>)
  have p: "Option.bind (present_json (r_error (stored_row e))) (Unmarshal (dec_struct rpc_error_fields) zero_rpc_error) =
      e_Error (sql_form e)"
    "Option.bind (present_json (r_principal (stored_row e))) (Unmarshal (dec_struct principal_fields) zero_principal) =
      e_Principal e"
    "Option.bind (present_json (r_policy (stored_row e))) (Unmarshal (dec_struct policy_fields) zero_policy) = e_Policy e"
    "present_json (r_integrity (stored_row e)) = ?i"
    using c by (simp_all add: stored_row_def)
  show ?thesis
  proof (cases ?i)
    case None
    with c(4) have "e_Integrity e = None" by simp
    with None p t show ?thesis
      by (simp add: row_entry_def Let_def) (simp add: stored_row_def or_empty_def zero_entry_def sql_form_def)
  next
    case (Some s)
    with c(4) have "Unmarshal dec_metadata None s = Some (e_Integrity e)" by (simp add: dec_metadata_def)
    with Some p t show ?thesis
      by (simp add: row_entry_def Let_def) (simp add: stored_row_def or_empty_def zero_entry_def sql_form_def)
  qed
qed

subsection \<open>The verifier's reader\<close>

text \<open>The columns of a row as the driver hands them to a string destination: integers in decimal, \<open>NULL\<close> left out.\<close>

definition row_cells :: "row \<Rightarrow> (string \<times> string) list" where
  "row_cells r = concat (map (\<lambda>(c, x). case x of None \<Rightarrow> [] | Some s \<Rightarrow> [(c, s)])
     [(''id'', Some (r_id r)), (''timestamp'', r_timestamp r), (''audit_operation_id'', r_audit_operation_id r),
      (''outcome'', r_outcome r), (''direction'', Some (r_direction r)), (''transport'', Some (r_transport r)),
      (''method'', Some (r_method r)), (''request_id'', r_request_id r), (''mcp_name'', r_mcp_name r),
      (''tool_name'', r_tool_name r), (''params'', r_params r), (''result'', r_result r), (''error'', r_error r),
      (''duration_ms'', Some (Itoa (r_duration_ms r))), (''client_id'', Some (r_client_id r)),
      (''server_id'', Some (r_server_id r)), (''principal'', r_principal r), (''policy'', r_policy r),
      (''signature'', r_signature r), (''integrity'', r_integrity r)])"

definition sqlite_artifact :: "sqlite \<Rightarrow> artifact" where
  "sqlite_artifact s = \<lparr>af_open = None, af_header = None, af_jsonl_open = None,
     af_bytes = ''SQLite format 3'' @ [CHR 0x00], af_scan = None,
     af_sqlite = \<lparr>sa_stat = None, sa_open = None, sa_pragma = None, sa_info_query = None,
       sa_info = map Inr sqliteEntryColumns, sa_info_rows = None, sa_query = None,
       sa_rows = map (Inr \<circ> row_cells) (db_rows s), sa_rows_err = None\<rparr>\<rparr>"

lemma selected:
  assumes "set cols = set sqliteEntryColumns"
  shows "select_row cols (row_cells (stored_row e)) =
     [(''id'', Some (e_ID e)), (''timestamp'', Some (RFC3339Nano (e_Timestamp e))),
      (''audit_operation_id'', Some (e_AuditOperationID e)), (''outcome'', Some (e_Outcome e)),
      (''direction'', Some (e_Direction e)), (''transport'', Some (e_Transport e)), (''method'', Some (e_Method e)),
      (''request_id'', Some (e_RequestID e)), (''mcp_name'', Some (e_MCPName e)), (''tool_name'', Some (e_ToolName e)),
      (''params'', Some (e_Params e)), (''result'', Some (e_Result e)),
      (''error'', Some (column_of marshal_rpc_error (e_Error e))), (''duration_ms'', Some (Itoa (e_DurationMs e))),
      (''client_id'', Some (e_ClientID e)), (''server_id'', Some (e_ServerID e)),
      (''principal'', Some (column_of marshal_principal (e_Principal e))),
      (''policy'', Some (column_of marshal_policy (e_Policy e))), (''signature'', Some (e_Signature e)),
      (''integrity'', Some (column_of marshal_metadata (e_Integrity e)))]"
  unfolding select_row_def assms by (simp add: sqliteEntryColumns_def row_cells_def stored_row_def)

lemma scan_read:
  assumes "storable e" "set cols = set sqliteEntryColumns"
  shows "scanSQLiteEntry (select_row cols (row_cells (stored_row e))) = Inr (sql_form e)"
proof -
  note c = stored_columns [OF assms(1), unfolded reads_back_def, folded dec_rpc_error_def]
  have t: "ParseRFC3339 (RFC3339Nano (e_Timestamp e)) = Some (e_Timestamp e)" "Atoi (Itoa (e_DurationMs e)) = Some (e_DurationMs e)"
    using assms(1) by (simp_all add: storable_def ParseRFC3339_format Atoi_Itoa)
  have z: "zero_entry\<lparr>e_ID := e_ID e, e_Timestamp := e_Timestamp e,
      e_AuditOperationID := e_AuditOperationID e, e_Outcome := e_Outcome e, e_Direction := e_Direction e,
      e_Transport := e_Transport e, e_Method := e_Method e, e_RequestID := e_RequestID e, e_MCPName := e_MCPName e,
      e_ToolName := e_ToolName e, e_Params := e_Params e, e_Result := e_Result e, e_Error := e_Error (sql_form e),
      e_DurationMs := e_DurationMs e, e_ClientID := e_ClientID e, e_ServerID := e_ServerID e,
      e_Principal := e_Principal e, e_Policy := e_Policy e, e_Signature := e_Signature e,
      e_Integrity := e_Integrity e\<rparr> = sql_form e"
    by (simp add: zero_entry_def sql_form_def)
  show ?thesis
    using c t by (simp add: scanSQLiteEntry_def selected [OF assms(2)] column_value_def z)
qed

lemma scan_columns_set: "scan_columns (map Inr cs) acc = Inr (fold List.insert cs acc)"
  by (induction cs arbitrary: acc) simp_all

lemma sqlite_columns:
  "\<exists>cols. sqliteColumns (af_sqlite (sqlite_artifact s)) = Inr cols \<and> set cols = set sqliteEntryColumns"
proof -
  have "set (fold List.insert cs acc) = set cs \<union> set acc" for cs acc :: "string list"
    by (induction cs arbitrary: acc) auto
  then have "set (fold List.insert sqliteEntryColumns []) = set sqliteEntryColumns" by simp
  moreover have "sqliteEntryColumns \<noteq> []" by (simp add: sqliteEntryColumns_def)
  ultimately show ?thesis
    by (intro exI [of _ "fold List.insert sqliteEntryColumns []"])
      (auto simp: sqliteColumns_def sqlite_artifact_def scan_columns_set)
qed

subsection \<open>What the store holds verifies\<close>

lemma same_record_sql: "same_record e (sql_form e)"
  by (simp add: same_record_def sql_form_def)

lemma sqlite_items_read:
  assumes "list_all storable es" "set cols = set sqliteEntryColumns"
  shows "sqlite_items q cols n (map (Inr \<circ> row_cells) (map stored_row es)) =
     map (\<lambda>e. Decoded (sql_form e) (case marshal_entry (sql_form e) of None \<Rightarrow> Inl json_error | Some raw \<Rightarrow> vp_jcs q raw)) es"
    "\<exists>r'. verify_rows q v None cols n (map (Inr \<circ> row_cells) (map stored_row es)) r None = (r', None, None)"
  using assms(1)
  by (induction es arbitrary: n r) (simp_all add: row_item_def scan_read [OF _ assms(2)] Let_def)

lemma scan_rows_stored: "list_all storable es \<Longrightarrow> scan_rows (map stored_row es) = (map sql_form es, None)"
  by (induction es) (simp_all add: row_read)

lemma appended_rows:
  assumes "SQLite_AppendBatch es s0 = (None, s)" "db_rows s0 = []" "list_all storable es"
  shows "db_rows s = map stored_row es"
proof -
  from AppendBatch_atomic(1) [OF assms(1)] assms(2) obtain new where
    n: "db_rows s = new" "list_all2 (\<lambda>e x. entry_row e = Inr x) es new" by (cases "es = []") auto
  from n(2) assms(3) have "new = map stored_row es"
    by (induction rule: list_all2_induct) (simp_all add: row_written)
  with n(1) show ?thesis by simp
qed

text \<open>
  C6: Evidence in SQLite verifies, and the store and the verifier read the same records. Take
  entries that a logger with an integrity signer prepared and that can be stored, appended with
  success to an empty store. The store's reader returns them all, with nothing changed but white
  space in error data. When the verifier has the signer's key and no checkpoint or digest is asked
  for, verification of the database ends without error and clean, with every record verified.
\<close>
theorem sqlite_evidence_verifies:
  assumes "list_all (prepared_by p l) es" "list_all storable es" "es \<noteq> []"
    and "SQLite_AppendBatch es s0 = (None, s)" "db_rows s0 = []"
    and "signs_for p l q config" "vc_Checkpoint config = None" "vc_digest config = None"
    and "vc_Format config \<in> {[], FormatAuto, FormatSQLite}"
  shows "scan_rows (db_rows s) = (map sql_form es, None) \<and>
     (\<exists>r. VerifyPath q (sqlite_artifact s) config = (r, None, None) \<and> Clean r \<and>
        vr_Verified r = int (length es) \<and> vr_Total r = int (length es) \<and> vr_FirstError r = [])"
proof -
  let ?a = "sqlite_artifact s"
  note rows = appended_rows [OF assms(4,5,2)]
  obtain cols where cols: "sqliteColumns (af_sqlite ?a) = Inr cols" "set cols = set sqliteEntryColumns"
    using sqlite_columns by blast
  have f: "resolve_format ?a (vc_Format config) = Inr FormatSQLite"
    using assms(9) by (auto simp: resolve_format_def detectFormat_def sqlite_artifact_def FormatAuto_def FormatSQLite_def)
  have rs: "sa_rows (af_sqlite ?a) = map (Inr \<circ> row_cells) (map stored_row es)"
    by (simp add: sqlite_artifact_def rows)
  have its: "artifact_items q ?a FormatSQLite = map (\<lambda>e. Decoded (sql_form e)
      (case marshal_entry (sql_form e) of None \<Rightarrow> Inl json_error | Some raw \<Rightarrow> vp_jcs q raw)) es"
    using sqlite_items_read(1) [OF assms(2) cols(2), of q 0]
    by (simp add: artifact_items_def rs cols(1) FormatSQLite_def FormatJSONL_def)
  have "set sqliteRequiredColumns \<subseteq> set sqliteEntryColumns" by (simp add: sqliteRequiredColumns_def sqliteEntryColumns_def)
  then have "find (\<lambda>c. c \<notin> set cols) sqliteRequiredColumns = None" using cols(2) by (auto simp: find_None_iff)
  then have "read_artifact q ?a FormatSQLite v None = verify_rows q v None cols 0 (map (Inr \<circ> row_cells) (map stored_row es))
      zero_result None" for v
    unfolding rs [symmetric] using cols(1)
    by (simp add: read_artifact_def verifySQLitePath_def Let_def FormatSQLite_def FormatJSONL_def)
      (simp add: sqlite_artifact_def)
  with sqlite_items_read(2) [OF assms(2) cols(2)] assms(8) obtain r where
    rd: "read_artifact q ?a FormatSQLite (path_verifier config) (vc_digest config) = (r, None, None)" by metis
  from verified_report [OF assms(1-3,6,7) f rd its same_record_sql] scan_rows_stored [OF assms(2)] rows
  show ?thesis by auto
qed

theorem sqlite_evidence_verifies_witness:
  "\<exists>e s r. prepare signing_prims demo_signing_logger ''i'' 7 zero_entry = Inr e \<and>
     SQLite_AppendBatch [e] \<lparr>db_rows = [], db_envs = []\<rparr> = (None, s) \<and>
     VerifyPath demo_vprims (sqlite_artifact s) demo_vconfig = (r, None, None) \<and> Clean r \<and> vr_Verified r = 1"
proof -
  obtain e where e: "prepare signing_prims demo_signing_logger ''i'' 7 zero_entry = Inr e" "storable e"
    using demo_prepared by (auto split: sum.splits)
  let ?s = "\<lparr>db_rows = [], db_envs = []\<rparr>"
  have a: "SQLite_AppendBatch [e] ?s = (None, ?s\<lparr>db_rows := [stored_row e]\<rparr>)"
    by (simp add: SQLite_AppendBatch_def next_env_def sql_fine_def row_written [OF e(2)] exec_insert_def)
  have "signs_for signing_prims demo_signing_logger demo_vprims demo_vconfig"
    by (simp add: signs_for_def demo_signing_logger_def NewIntegritySigner_def DefaultKeyID_def demo_vconfig_def
        demo_vprims_def signing_prims_def)
  from sqlite_evidence_verifies [OF _ _ _ a _ this] e obtain r where
    "VerifyPath demo_vprims (sqlite_artifact (?s\<lparr>db_rows := [stored_row e]\<rparr>)) demo_vconfig = (r, None, None)"
    "Clean r" "vr_Verified r = 1"
    by (auto simp: prepared_by_def demo_vconfig_def)
  with e(1) a show ?thesis by blast
qed

end
