(* ===== verification/App_Config.thy ===== *)
theory App_Config
  imports Policy Middleware Http_Proxy
begin

text \<open>
  The configuration of the gateway (\<open>cmd/mcp-audit/main.go\<close>): the sections, the defaults, flag and
  environment overrides, and validation.

  The library that merges defaults, the configuration file, the environment and explicit settings
  is represented by \<open>viper\<close>, the values of its layers; \<open>viper_get\<close> is its documented precedence. The
  decoding of the merged values into the sections is an argument.
\<close>

subsection \<open>Sections\<close>

record http_section =
  hs_MaxRequestBodyBytes :: int
  hs_MaxHeaderBytes :: int
  hs_ReadHeaderTimeout :: duration
  hs_ReadTimeout :: duration
  hs_WriteTimeout :: duration
  hs_IdleTimeout :: duration
  hs_AllowedOrigins :: "string list"
  hs_AllowedHosts :: "string list"

record tls_section =
  ts_Enabled :: bool
  ts_CertFile :: string
  ts_KeyFile :: string
  ts_CAFile :: string
  ts_ServerName :: string
  ts_InsecureSkipVerify :: bool
  ts_ClientCertFile :: string
  ts_ClientKeyFile :: string

record proxy_section =
  px_Transport :: string
  px_Upstream :: string
  px_BindAddress :: string
  px_Port :: int
  px_UpstreamTimeoutMS :: int
  px_ForwardHeaders :: "string list"
  px_HTTP :: http_section
  px_TLS :: tls_section
  px_Retry :: http_retry_config
  px_ClientID :: string
  px_ServerID :: string

record static_section =
  st_BearerToken :: string
  st_Subject :: string
  st_ClientID :: string
  st_Issuer :: string
  st_Roles :: "string list"
  st_Scopes :: "string list"

record auth_section =
  au_Mode :: string
  au_Static :: static_section
  au_OIDC :: jwt_config

record async_section =
  ay_Enabled :: bool
  ay_QueueSize :: int
  ay_BatchSize :: int
  ay_FlushIntervalMS :: int

record rotation_section =
  rt_MaxSizeBytes :: int
  rt_MaxFiles :: int
  rt_Interval :: string
  rt_MaxAgeDays :: int

record audit_section =
  ad_Storage :: string
  ad_Path :: string
  ad_SQLitePath :: string
  ad_Sign :: bool
  ad_Durable :: bool
  ad_Secret :: string
  ad_KeyID :: string
  ad_Async :: async_section
  ad_Rotation :: rotation_section

record middleware_section =
  mw_RateLimitEnabled :: bool
  mw_RequestsPerMinute :: int
  mw_RedactEnabled :: bool
  mw_RedactPatterns :: "string list"

record dashboard_section =
  db_Enabled :: bool
  db_BindAddress :: string
  db_Port :: int
  db_Token :: string

record metrics_section =
  mt_Enabled :: bool
  mt_Port :: int
  mt_Path :: string
  mt_IncludeGoMetrics :: bool
  mt_IncludeProcessMetrics :: bool
  mt_ToolLabels :: bool

record otel_section =
  ot_Enabled :: bool
  ot_Endpoint :: string
  ot_ServiceName :: string
  ot_Headers :: "(string \<times> string) list"
  ot_CAFile :: string
  ot_TLSServerName :: string
  ot_InsecureSkipVerify :: bool
  ot_Retry :: http_retry_config
  ot_QueueSize :: int
  ot_BatchSize :: int
  ot_FlushIntervalMS :: int
  ot_TimeoutMS :: int

record appConfig =
  ap_Proxy :: proxy_section
  ap_Auth :: auth_section
  ap_Audit :: audit_section
  ap_Middleware :: middleware_section
  ap_Policy :: policy_config
  ap_Dashboard :: dashboard_section
  ap_Metrics :: metrics_section
  ap_OTel :: otel_section

subsection \<open>Layers of settings\<close>

datatype setting =
  SStr string | SInt int | SBool bool | SList "string list" | SMap "(string \<times> string) list"
| SRules "rule list"

record viper =
  vi_set :: "(string \<times> setting) list"
  vi_env :: "(string \<times> setting) list"
  vi_file :: "(string \<times> setting) list"
  vi_defaults :: "(string \<times> setting) list"

definition viper_New :: viper where
  "viper_New = \<lparr>vi_set = [], vi_env = [], vi_file = [], vi_defaults = []\<rparr>"

definition viper_get :: "viper \<Rightarrow> string \<Rightarrow> setting option" where
  "viper_get v k = map_of (vi_set v @ vi_env v @ vi_file v @ vi_defaults v) k"

definition viper_Set :: "string \<Rightarrow> setting \<Rightarrow> viper \<Rightarrow> viper" where
  "viper_Set k x v = v\<lparr>vi_set := (k, x) # vi_set v\<rparr>"

definition ModeNone :: string where "ModeNone = ''none''"
definition ModeStaticBearer :: string where "ModeStaticBearer = ''static_bearer''"
definition ModeOIDC :: string where "ModeOIDC = ''oidc''"

definition DefaultBindAddress :: string where "DefaultBindAddress = ''127.0.0.1''"

definition setDefaults :: "viper \<Rightarrow> viper" where
  "setDefaults v = v\<lparr>vi_defaults :=
     [(''proxy.transport'', SStr ''stdio''), (''proxy.bind_address'', SStr []),
      (''proxy.port'', SInt 4422),
      (''proxy.upstream_timeout_ms'', SInt DefaultHTTPUpstreamTimeoutMS),
      (''proxy.forward_headers'', SList []),
      (''proxy.http.max_request_body_bytes'', SInt DefaultHTTPMaxRequestBodyBytes),
      (''proxy.http.max_header_bytes'', SInt DefaultHTTPMaxHeaderBytes),
      (''proxy.http.read_header_timeout'', SInt DefaultHTTPReadHeaderTimeout),
      (''proxy.http.read_timeout'', SInt DefaultHTTPReadTimeout),
      (''proxy.http.write_timeout'', SInt DefaultHTTPWriteTimeout),
      (''proxy.http.idle_timeout'', SInt DefaultHTTPIdleTimeout),
      (''proxy.http.allowed_origins'', SList []), (''proxy.http.allowed_hosts'', SList []),
      (''proxy.tls.ca_file'', SStr []), (''proxy.tls.enabled'', SBool False),
      (''proxy.tls.cert_file'', SStr []), (''proxy.tls.key_file'', SStr []),
      (''proxy.tls.server_name'', SStr []), (''proxy.tls.insecure_skip_verify'', SBool False),
      (''proxy.tls.client_cert_file'', SStr []), (''proxy.tls.client_key_file'', SStr []),
      (''proxy.retry.max_retries'', SInt 0), (''proxy.retry.initial_interval_ms'', SInt 200),
      (''proxy.retry.max_interval_ms'', SInt 2000), (''proxy.client_id'', SStr ''claude-desktop''),
      (''proxy.server_id'', SStr ''filesystem''), (''auth.mode'', SStr ModeNone),
      (''auth.static.bearer_token'', SStr []), (''auth.static.subject'', SStr ''local''),
      (''auth.static.client_id'', SStr []), (''auth.static.issuer'', SStr ''static''),
      (''auth.static.roles'', SList []), (''auth.static.scopes'', SList []),
      (''auth.oidc.issuer'', SStr []), (''auth.oidc.audience'', SStr []),
      (''auth.oidc.jwks_uri'', SStr []), (''auth.oidc.client_id_claim'', SStr ''client_id''),
      (''auth.oidc.roles_claim'', SStr ''roles''), (''auth.oidc.scopes_claim'', SStr ''scope''),
      (''auth.oidc.allowed_methods'',
         SList [''RS256'', ''RS384'', ''RS512'', ''ES256'', ''ES384'', ''ES512'', ''EdDSA'']),
      (''auth.oidc.clock_skew'', SInt (seconds 30)), (''auth.oidc.http_timeout'', SInt (seconds 5)),
      (''auth.oidc.refresh_interval'', SInt (seconds 300)), (''audit.storage'', SStr ''jsonl''),
      (''audit.path'', SStr ''./audit.jsonl''), (''audit.sqlite_path'', SStr ''./audit.db''),
      (''audit.sign'', SBool True), (''audit.durable'', SBool False),
      (''audit.signing.key_id'', SStr DefaultKeyID), (''audit.async.enabled'', SBool False),
      (''audit.async.queue_size'', SInt 4096), (''audit.async.batch_size'', SInt 128),
      (''audit.async.flush_interval_ms'', SInt 1000), (''audit.rotation.max_size_bytes'', SInt 0),
      (''audit.rotation.max_files'', SInt 0), (''audit.rotation.interval'', SStr []),
      (''audit.rotation.max_age_days'', SInt 0), (''middleware.rate_limit.enabled'', SBool True),
      (''middleware.rate_limit.requests_per_minute'', SInt 60),
      (''middleware.redact.enabled'', SBool True),
      (''middleware.redact.patterns'', SList DefaultRedactPatterns),
      (''policy.enabled'', SBool False), (''policy.default_action'', SStr ActionAllow),
      (''policy.scope'', SStr ScopeToolsOnly), (''policy.rules'', SRules []),
      (''dashboard.enabled'', SBool True), (''dashboard.bind_address'', SStr DefaultBindAddress),
      (''dashboard.port'', SInt 9090), (''dashboard.auth.token'', SStr []),
      (''metrics.enabled'', SBool True), (''metrics.port'', SInt 9091),
      (''metrics.path'', SStr ''/metrics''), (''metrics.include_go_metrics'', SBool True),
      (''metrics.include_process_metrics'', SBool True), (''metrics.tool_labels'', SBool True),
      (''otel.enabled'', SBool False), (''otel.endpoint'', SStr ''http://localhost:4318''),
      (''otel.service_name'', SStr ''mcp-audit''), (''otel.headers'', SMap []),
      (''otel.tls.ca_file'', SStr []), (''otel.tls.server_name'', SStr []),
      (''otel.tls.insecure_skip_verify'', SBool False), (''otel.retry.max_retries'', SInt 3),
      (''otel.retry.initial_interval_ms'', SInt 200), (''otel.retry.max_interval_ms'', SInt 2000),
      (''otel.queue_size'', SInt 1024), (''otel.batch_size'', SInt 64),
      (''otel.flush_interval_ms'', SInt 1000), (''otel.timeout_ms'', SInt 5000)] @ vi_defaults v\<rparr>"

subsection \<open>Flags\<close>

record cliFlags =
  fl_config :: string
  fl_transport :: string
  fl_upstream :: string
  fl_port :: int
  fl_timeout :: int
  fl_storage :: string
  fl_noDashboard :: bool
  fl_noMetrics :: bool
  fl_version :: bool
  fl_logLevel :: string
  fl_set :: "string list"

definition set_if :: "bool \<Rightarrow> string \<Rightarrow> setting \<Rightarrow> viper \<Rightarrow> viper" where
  "set_if b k x v = (if b then viper_Set k x v else v)"

definition applyFlagOverrides :: "cliFlags \<Rightarrow> viper \<Rightarrow> viper" where
  "applyFlagOverrides f v =
     (let has = (\<lambda>n. n \<in> set (fl_set f))
      in set_if (has ''no-metrics'' \<and> fl_noMetrics f) ''metrics.enabled'' (SBool False)
        (set_if (has ''no-dashboard'' \<and> fl_noDashboard f) ''dashboard.enabled'' (SBool False)
        (set_if (has ''storage'') ''audit.storage'' (SStr (fl_storage f))
        (set_if (has ''upstream-timeout'') ''proxy.upstream_timeout_ms'' (SInt (fl_timeout f))
        (set_if (has ''port'') ''proxy.port'' (SInt (fl_port f))
        (set_if (has ''upstream'') ''proxy.upstream'' (SStr (fl_upstream f))
        (set_if (has ''transport'') ''proxy.transport'' (SStr (fl_transport f)) v)))))))"

subsection \<open>Validation\<close>

text \<open>
  The checks run in order and the first that fails is the error: \<open>checks\<close> evaluates a list of
  conditions for failure with their errors.
\<close>

fun checks :: "(bool \<times> err) list \<Rightarrow> err option" where
  "checks [] = None"
| "checks ((bad, er) # cs) = (if bad then Some er else checks cs)"

declare checks.simps [simp del]

definition first_failure :: "err option \<Rightarrow> err option \<Rightarrow> err option" where
  "first_failure a b = (case a of Some er \<Rightarrow> Some er | None \<Rightarrow> b)"

lemma first_failure_None [simp]: "first_failure a b = None \<longleftrightarrow> a = None \<and> b = None"
  by (cases a) (simp_all add: first_failure_def)

lemma checks_None [simp]: "checks cs = None \<longleftrightarrow> (\<forall>(bad, er) \<in> set cs. \<not> bad)"
  by (induction cs rule: checks.induct) (auto simp: checks.simps)

definition has_space :: "string \<Rightarrow> bool" where
  "has_space s \<longleftrightarrow> ContainsFunc s is_space"

fun validateForwardHeaders :: "string list \<Rightarrow> err option" where
  "validateForwardHeaders [] = None"
| "validateForwardHeaders (h # hs) =
     (if TrimSpace h \<noteq> h then Some ''main: proxy.forward_headers contains an invalid header name''
      else if h = [] then Some ''main: proxy.forward_headers contains an invalid header name''
      else if has_space h
      then Some (''main: proxy.forward_headers header '' @ Quote h @ '' must not contain whitespace'')
      else if ToLower h \<in> set [''cookie'', ''set-cookie'', ''proxy-authorization'']
      then Some (''main: proxy.forward_headers cannot include '' @ Quote h)
      else validateForwardHeaders hs)"

definition static_client :: "appConfig \<Rightarrow> string" where
  "static_client c =
     (if st_ClientID (au_Static (ap_Auth c)) = [] then px_ClientID (ap_Proxy c)
      else st_ClientID (au_Static (ap_Auth c)))"

definition validateStaticPrincipal :: "appConfig \<Rightarrow> err option" where
  "validateStaticPrincipal c = checks
     [(st_Subject (au_Static (ap_Auth c)) = [] \<or> static_client c = [],
       ''main: auth.static.subject and client_id are required'')]"

definition loopback_names :: "string list" where
  "loopback_names = [''localhost'', ''127.0.0.1'', ''::1'']"

definition bad_url :: "bool \<Rightarrow> url option \<Rightarrow> bool" where
  "bad_url noQuery u =
     (case u of
        None \<Rightarrow> True
      | Some x \<Rightarrow>
          Hostname x = [] \<or> u_Scheme x \<noteq> ''https'' \<and> u_Scheme x \<noteq> ''http'' \<or> u_User x \<or>
          noQuery \<and> u_RawQuery x \<noteq> [] \<or> u_Fragment x \<noteq> [])"

definition insecure_url :: "url option \<Rightarrow> bool" where
  "insecure_url u =
     (case u of
        None \<Rightarrow> False
      | Some x \<Rightarrow> u_Scheme x = ''http'' \<and> Hostname x \<notin> set loopback_names)"

definition supportedMethods :: "string list" where
  "supportedMethods = [''RS256'', ''RS384'', ''RS512'', ''ES256'', ''ES384'', ''ES512'', ''EdDSA'']"

definition validateOIDCConfig :: "appConfig \<Rightarrow> err option" where
  "validateOIDCConfig c =
     (let oidc = au_OIDC (ap_Auth c); issuer = url_Parse (jwt_Issuer oidc);
          parsed = url_Parse (jwt_JWKSURI oidc)
      in first_failure
        (checks
          [(jwt_Issuer oidc = [] \<or> jwt_Audience oidc = [] \<or> jwt_JWKSURI oidc = [],
            ''main: auth.oidc.issuer, audience, and jwks_uri are required''),
           (bad_url True issuer,
            ''main: auth.oidc.issuer must be an absolute HTTP(S) URL without userinfo, query, or fragment''),
           (insecure_url issuer, ''main: auth.oidc.issuer must use HTTPS except on loopback''),
           (bad_url False parsed,
            ''main: auth.oidc.jwks_uri must be an absolute HTTP(S) URL without userinfo or fragment''),
           (insecure_url parsed, ''main: auth.oidc.jwks_uri must use HTTPS except on loopback''),
           (jwt_ClientIDClaim oidc = [] \<or> jwt_RolesClaim oidc = [] \<or> jwt_ScopesClaim oidc = [],
            ''main: auth.oidc claim names must be non-empty''),
           (jwt_ClockSkew oidc < 0 \<or> jwt_HTTPTimeout oidc \<le> 0 \<or> jwt_RefreshInterval oidc \<le> 0,
            ''main: auth.oidc clock_skew must be non-negative and timeouts must be positive''),
           (length (jwt_AllowedMethods oidc) = 0, ''main: auth.oidc.allowed_methods must be non-empty'')])
        (case find (\<lambda>m. m \<notin> set supportedMethods) (jwt_AllowedMethods oidc) of
           Some m \<Rightarrow> Some (''main: auth.oidc.allowed_methods contains unsupported method '' @ Quote m)
         | None \<Rightarrow> None))"

definition validateAuthConfig :: "appConfig \<Rightarrow> err option" where
  "validateAuthConfig c =
     (let a = ap_Auth c
      in if au_Mode a = ModeNone then
           first_failure (validateStaticPrincipal c)
             (checks [(st_BearerToken (au_Static a) \<noteq> [],
                ''main: auth.static.bearer_token requires auth.mode=static_bearer'')])
         else if au_Mode a = ModeStaticBearer then
           first_failure (validateStaticPrincipal c)
             (checks
               [(px_Transport (ap_Proxy c) \<noteq> ''http'',
                 ''main: auth.mode=static_bearer requires proxy.transport=http''),
                (length (st_BearerToken (au_Static a)) < 32,
                 ''main: auth.static.bearer_token must be at least 32 bytes'')])
         else if au_Mode a = ModeOIDC then
           (if px_Transport (ap_Proxy c) \<noteq> ''http''
            then Some ''main: auth.mode=oidc requires proxy.transport=http''
            else validateOIDCConfig c)
         else Some ''main: auth.mode must be none, static_bearer, or oidc'')"

definition rotationConfigured :: "appConfig \<Rightarrow> bool" where
  "rotationConfigured c =
     (let r = ad_Rotation (ap_Audit c)
      in rt_MaxSizeBytes r > 0 \<or> rt_MaxFiles r > 0 \<or> rt_Interval r \<noteq> [] \<or> rt_MaxAgeDays r > 0)"

definition validate_http :: "appConfig \<Rightarrow> err option" where
  "validate_http c =
     (let p = ap_Proxy c; h = px_HTTP p
      in first_failure
        (checks
          [(TrimSpace (px_BindAddress p) \<noteq> px_BindAddress p \<or> has_space (px_BindAddress p),
            ''main: proxy.bind_address must not contain whitespace''),
           (hs_MaxRequestBodyBytes h \<le> 0, ''main: proxy.http.max_request_body_bytes must be > 0''),
           (hs_MaxHeaderBytes h \<le> 0, ''main: proxy.http.max_header_bytes must be > 0''),
           (hs_ReadHeaderTimeout h \<le> 0 \<or> hs_ReadTimeout h \<le> 0 \<or> hs_WriteTimeout h \<le> 0 \<or>
            hs_IdleTimeout h \<le> 0, ''main: proxy.http timeouts must be > 0'')])
        (map_option (\<lambda>er. ''main: '' @ er)
           (ValidateHTTPAccessLists (hs_AllowedOrigins h) (hs_AllowedHosts h))))"

definition validate_tls :: "appConfig \<Rightarrow> err option" where
  "validate_tls c =
     (let p = ap_Proxy c; t = px_TLS p
      in checks
        [((ts_ClientCertFile t = []) \<noteq> (ts_ClientKeyFile t = []),
          ''main: proxy.tls.client_cert_file and proxy.tls.client_key_file must be configured together''),
         (ts_Enabled t \<and> px_Transport p \<noteq> ''http'', ''main: proxy.tls.enabled requires proxy.transport=http''),
         (ts_Enabled t \<and> (ts_CertFile t = [] \<or> ts_KeyFile t = []),
          ''main: proxy.tls.cert_file and proxy.tls.key_file are required when incoming TLS is enabled''),
         (\<not> ts_Enabled t \<and> (ts_CertFile t \<noteq> [] \<or> ts_KeyFile t \<noteq> []),
          ''main: proxy.tls.cert_file and proxy.tls.key_file require proxy.tls.enabled=true'')])"

definition validate_services :: "appConfig \<Rightarrow> err option" where
  "validate_services c =
     (let m = ap_Metrics c; d = ap_Dashboard c; t = ap_OTel c
      in checks
        [(mt_Path m = [] \<or> \<not> HasPrefix (mt_Path m) ''/'', ''main: metrics.path must start with /''),
         (db_Enabled d \<and> TrimSpace (db_BindAddress d) = [],
          ''main: dashboard.bind_address is required when dashboard is enabled''),
         (db_Enabled d \<and> (db_Port d \<le> 0 \<or> db_Port d > 65535),
          ''main: dashboard.port must be between 1 and 65535''),
         (db_Enabled d \<and> db_Token d \<noteq> [] \<and>
          (TrimSpace (db_Token d) \<noteq> db_Token d \<or> has_space (db_Token d)),
          ''main: dashboard.auth.token must not contain whitespace''),
         (ot_Enabled t \<and> ot_Endpoint t = [], ''main: otel.endpoint is required when otel is enabled''),
         (ot_Enabled t \<and> hrc_MaxRetries (ot_Retry t) < 0, ''main: otel.retry.max_retries must be >= 0'')])"

definition validate_audit :: "appConfig \<Rightarrow> err option" where
  "validate_audit c =
     (let a = ap_Audit c; r = ad_Rotation a
      in checks
        [(ad_Storage a \<noteq> ''jsonl'' \<and> ad_Storage a \<noteq> ''sqlite'', ''main: audit.storage must be jsonl or sqlite''),
         (ad_Sign a \<and> (TrimSpace (ad_KeyID a) = [] \<or> has_space (ad_KeyID a)),
          ''main: audit.signing.key_id must be non-empty and contain no whitespace''),
         (ad_Sign a \<and> TrimSpace (ad_Secret a) = [],
          ''main: audit signing is enabled but no signing secret is configured''),
         (rt_MaxSizeBytes r < 0, ''main: audit.rotation.max_size_bytes must be >= 0''),
         (rt_MaxFiles r < 0, ''main: audit.rotation.max_files must be >= 0''),
         (rt_MaxAgeDays r < 0, ''main: audit.rotation.max_age_days must be >= 0''),
         (rt_Interval r \<notin> set [[], ''hourly'', ''daily''],
          ''main: audit.rotation.interval must be empty, hourly, or daily''),
         (ad_Storage a = ''sqlite'' \<and> rotationConfigured c,
          ''main: audit.rotation is only supported with jsonl storage'')])"

definition validateConfig :: "appConfig \<Rightarrow> err option" where
  "validateConfig c =
     (let p = ap_Proxy c
      in first_failure
        (checks
          [(px_Transport p \<noteq> ''stdio'' \<and> px_Transport p \<noteq> ''http'', ''main: proxy.transport must be stdio or http''),
           (px_Upstream p = [], ''main: proxy.upstream is required''),
           (px_Transport p = ''http'' \<and> px_UpstreamTimeoutMS p \<le> 0,
            ''main: proxy.upstream_timeout_ms must be > 0'')])
        (first_failure (if px_Transport p = ''http'' then validate_http c else None)
        (first_failure (checks [(hrc_MaxRetries (px_Retry p) < 0, ''main: proxy.retry.max_retries must be >= 0'')])
        (first_failure (validateForwardHeaders (px_ForwardHeaders p))
        (first_failure (validate_tls c)
        (first_failure (validateAuthConfig c)
        (first_failure (validate_services c) (validate_audit c))))))))"

subsection \<open>Loading\<close>

text \<open>
  \<open>getenv\<close> is the environment (\<open>None\<close> for a variable that is not set). \<open>readIn\<close> is the outcome of
  reading the configuration file: its settings, nothing when it does not exist, or an error.
\<close>

definition Getenv :: "(string \<Rightarrow> string option) \<Rightarrow> string \<Rightarrow> string" where
  "Getenv env n = (case env n of None \<Rightarrow> [] | Some s \<Rightarrow> s)"

definition preferredSigningSecretEnv :: string where
  "preferredSigningSecretEnv = ''MCP_AUDIT_SIGNING_SECRET''"

definition legacySigningSecretEnv :: string where "legacySigningSecretEnv = ''AUDIT_SECRET''"

definition set_secret :: "string \<Rightarrow> appConfig \<Rightarrow> appConfig" where
  "set_secret s c = c\<lparr>ap_Audit := (ap_Audit c)\<lparr>ad_Secret := s\<rparr>\<rparr>"

definition resolveSigningSecret :: "(string \<Rightarrow> string option) \<Rightarrow> appConfig \<Rightarrow> appConfig" where
  "resolveSigningSecret env c0 =
     (let c = (if Getenv env legacySigningSecretEnv \<noteq> []
               then set_secret (Getenv env legacySigningSecretEnv) c0 else c0)
      in case env preferredSigningSecretEnv of None \<Rightarrow> c | Some s \<Rightarrow> set_secret s c)"

definition set_bearer :: "string \<Rightarrow> appConfig \<Rightarrow> appConfig" where
  "set_bearer s c =
     c\<lparr>ap_Auth := (ap_Auth c)\<lparr>au_Static := (au_Static (ap_Auth c))\<lparr>st_BearerToken := s\<rparr>\<rparr>\<rparr>"

definition loadConfig ::
  "(viper \<Rightarrow> appConfig res) \<Rightarrow> (string \<Rightarrow> (string \<times> setting) list option res) \<Rightarrow>
   (string \<Rightarrow> string option) \<Rightarrow> (string \<times> setting) list \<Rightarrow> cliFlags \<Rightarrow> appConfig res" where
  "loadConfig decode readIn env envSettings f =
     (let v = (setDefaults viper_New)\<lparr>vi_env := envSettings\<rparr>
      in case readIn (fl_config f) of
           Inl er \<Rightarrow> Inl (''main: read config: '' @ er)
         | Inr file \<Rightarrow>
             (case decode (applyFlagOverrides f
                     (case file of None \<Rightarrow> v | Some s \<Rightarrow> v\<lparr>vi_file := s\<rparr>)) of
                Inl er \<Rightarrow> Inl (''main: decode config: '' @ er)
              | Inr c0 \<Rightarrow>
                  (let token = Getenv env ''MCP_AUDIT_STATIC_BEARER_TOKEN'';
                       c = resolveSigningSecret env (if token \<noteq> [] then set_bearer token c0 else c0)
                   in case validateConfig c of Some er \<Rightarrow> Inl er | None \<Rightarrow> Inr c)))"

end
