(* ===== verification/App_Flags.thy ===== *)
theory App_Flags
  imports App_Config
begin

text \<open>
  The command line (\<open>parseFlags\<close> of \<open>cmd/mcp-audit/main.go\<close>) on package \<open>flag\<close>, whose parser and value
  syntax are written out for the flags the program declares: strings, integers in the notation of
  Go literals, switches. A parse ends with the flags or with the exit code of the process. A flag
  that is not given has its default; settings written as arguments are read back.
\<close>

subsection \<open>Values\<close>

fun digits_in :: "nat \<Rightarrow> nat \<Rightarrow> string \<Rightarrow> nat option" where
  "digits_in base acc [] = Some acc"
| "digits_in base acc (c # cs) =
     (if c = CHR ''_'' then digits_in base acc cs
      else
        (case hex_val c of
           None \<Rightarrow> None
         | Some d \<Rightarrow> if base \<le> d then None else digits_in base (base * acc + d) cs))"

text \<open>Underscores separate digits: one between two digits, or after the prefix of the base.\<close>

fun underscores_ok :: "bool \<Rightarrow> char \<Rightarrow> string \<Rightarrow> bool" where
  "underscores_ok hex saw [] \<longleftrightarrow> saw \<noteq> CHR ''_''"
| "underscores_ok hex saw (c # cs) \<longleftrightarrow>
     (if is_digit c \<or> hex \<and> hex_val c \<noteq> None then underscores_ok hex CHR ''0'' cs
      else if c = CHR ''_'' then saw = CHR ''0'' \<and> underscores_ok hex CHR ''_'' cs
      else saw \<noteq> CHR ''_'' \<and> underscores_ok hex CHR ''!'' cs)"

definition underscoreOK :: "string \<Rightarrow> bool" where
  "underscoreOK s =
     (let s = (if prefix ''-'' s \<or> prefix ''+'' s then tl s else s);
          p = ToLower (take 2 s)
      in if p \<in> {''0b'', ''0o'', ''0x''} then underscores_ok (p = ''0x'') CHR ''0'' (drop 2 s)
         else underscores_ok False CHR ''^'' s)"

text \<open>\<open>strconv.ParseInt\<close> with base 0 and 64 bits.\<close>

definition ParseUint0 :: "string \<Rightarrow> nat option" where
  "ParseUint0 s =
     (if s = [] then None
      else
        (let p = ToLower (take 2 s);
             (base, ds) =
               (if prefix ''0'' s then
                  (if length s \<ge> 3 \<and> p = ''0b'' then (2, drop 2 s)
                   else if length s \<ge> 3 \<and> p = ''0o'' then (8, drop 2 s)
                   else if length s \<ge> 3 \<and> p = ''0x'' then (16, drop 2 s)
                   else (8, tl s))
                else (10, s))
         in if CHR ''_'' \<in> set s \<and> \<not> underscoreOK s then None else digits_in base 0 ds))"

definition ParseInt0 :: "string \<Rightarrow> int option" where
  "ParseInt0 s =
     (let neg = prefix ''-'' s;
          ds = (if prefix ''-'' s \<or> prefix ''+'' s then tl s else s)
      in case ParseUint0 ds of
           None \<Rightarrow> None
         | Some n \<Rightarrow>
             (let v = (if neg then - int n else int n) in if int64 v then Some v else None))"

definition ParseBool :: "string \<Rightarrow> bool option" where
  "ParseBool s =
     (if s \<in> {''1'', ''t'', ''T'', ''TRUE'', ''true'', ''True''} then Some True
      else if s \<in> {''0'', ''f'', ''F'', ''FALSE'', ''false'', ''False''} then Some False
      else None)"

subsection \<open>The declared flags\<close>

datatype flag_kind = FString | FInt | FBool

datatype flag_value = VString string | VInt int | VBool bool

definition flag_kinds :: "(string \<times> flag_kind) list" where
  "flag_kinds =
     [(''config'', FString), (''transport'', FString), (''upstream'', FString), (''port'', FInt),
      (''upstream-timeout'', FInt), (''storage'', FString), (''no-dashboard'', FBool),
      (''no-metrics'', FBool), (''version'', FBool), (''log-level'', FString)]"

definition default_flags :: cliFlags where
  "default_flags = \<lparr>fl_config = ''./config.yaml'', fl_transport = [], fl_upstream = [], fl_port = 0,
     fl_timeout = 0, fl_storage = [], fl_noDashboard = False, fl_noMetrics = False, fl_version = False,
     fl_logLevel = ''info'', fl_set = []\<rparr>"

text \<open>The variable a flag is bound to, and \<open>Value.Set\<close> on it.\<close>

definition flag_var :: "string \<Rightarrow> cliFlags \<Rightarrow> flag_value" where
  "flag_var n f =
     (if n = ''config'' then VString (fl_config f)
      else if n = ''transport'' then VString (fl_transport f)
      else if n = ''upstream'' then VString (fl_upstream f)
      else if n = ''port'' then VInt (fl_port f)
      else if n = ''upstream-timeout'' then VInt (fl_timeout f)
      else if n = ''storage'' then VString (fl_storage f)
      else if n = ''no-dashboard'' then VBool (fl_noDashboard f)
      else if n = ''no-metrics'' then VBool (fl_noMetrics f)
      else if n = ''version'' then VBool (fl_version f)
      else VString (fl_logLevel f))"

definition read_value :: "flag_kind \<Rightarrow> string \<Rightarrow> flag_value option" where
  "read_value k s =
     (case k of
        FString \<Rightarrow> Some (VString s)
      | FInt \<Rightarrow> map_option VInt (ParseInt0 s)
      | FBool \<Rightarrow> map_option VBool (ParseBool s))"

definition the_string :: "flag_value \<Rightarrow> string" where
  "the_string v = (case v of VString s \<Rightarrow> s | _ \<Rightarrow> [])"

definition the_int :: "flag_value \<Rightarrow> int" where
  "the_int v = (case v of VInt i \<Rightarrow> i | _ \<Rightarrow> 0)"

definition the_bool :: "flag_value \<Rightarrow> bool" where
  "the_bool v = (case v of VBool b \<Rightarrow> b | _ \<Rightarrow> False)"

definition set_flag :: "string \<Rightarrow> flag_value \<Rightarrow> cliFlags \<Rightarrow> cliFlags" where
  "set_flag n v f0 =
     (let f = f0\<lparr>fl_set := List.insert n (fl_set f0)\<rparr>
      in if n = ''config'' then f\<lparr>fl_config := the_string v\<rparr>
         else if n = ''transport'' then f\<lparr>fl_transport := the_string v\<rparr>
         else if n = ''upstream'' then f\<lparr>fl_upstream := the_string v\<rparr>
         else if n = ''port'' then f\<lparr>fl_port := the_int v\<rparr>
         else if n = ''upstream-timeout'' then f\<lparr>fl_timeout := the_int v\<rparr>
         else if n = ''storage'' then f\<lparr>fl_storage := the_string v\<rparr>
         else if n = ''no-dashboard'' then f\<lparr>fl_noDashboard := the_bool v\<rparr>
         else if n = ''no-metrics'' then f\<lparr>fl_noMetrics := the_bool v\<rparr>
         else if n = ''version'' then f\<lparr>fl_version := the_bool v\<rparr>
         else f\<lparr>fl_logLevel := the_string v\<rparr>)"

subsection \<open>Parsing\<close>

text \<open>The name and the value after an equals sign, which is not looked for in the first place.\<close>

definition split_flag :: "string \<Rightarrow> string \<times> string option" where
  "split_flag s =
     (let n = takeWhile (\<lambda>c. c \<noteq> CHR ''='') (tl s); r = drop (length n) (tl s)
      in (take 1 s @ n, if r = [] then None else Some (tl r)))"

text \<open>
  \<open>flag.Parse\<close>: \<open>Inl\<close> is the code the process exits with, 0 after a request for help and 2 after an
  error. The first argument that is not a flag ends the parse, and what follows is ignored.
\<close>

definition assign :: "string \<Rightarrow> flag_kind \<Rightarrow> string \<Rightarrow> cliFlags \<Rightarrow> string list \<Rightarrow> int + cliFlags \<times> string list" where
  "assign n k x f rest = (case read_value k x of None \<Rightarrow> Inl 2 | Some v \<Rightarrow> Inr (set_flag n v f, rest))"

definition parseOne :: "string \<Rightarrow> string list \<Rightarrow> cliFlags \<Rightarrow> (int + cliFlags \<times> string list) option" where
  "parseOne s args f =
     (if length s < 2 \<or> hd s \<noteq> CHR ''-'' then None
      else if s = ''--'' then None
      else
        (let name = (if prefix ''--'' s then drop 2 s else drop 1 s)
         in if name = [] \<or> hd name = CHR ''-'' \<or> hd name = CHR ''='' then Some (Inl 2)
            else
              (case split_flag name of
                 (n, value) \<Rightarrow>
                   (case map_of flag_kinds n of
                      None \<Rightarrow> Some (Inl (if n = ''help'' \<or> n = ''h'' then 0 else 2))
                    | Some k \<Rightarrow>
                        (case value of
                           Some x \<Rightarrow> Some (assign n k x f args)
                         | None \<Rightarrow>
                             if k = FBool then Some (assign n k ''true'' f args)
                             else if args = [] then Some (Inl 2)
                             else Some (assign n k (hd args) f (tl args)))))))"

lemma parseOne_Inr:
  assumes "parseOne s args f = Some (Inr (f', rest))"
  shows "\<exists>n k v. map_of flag_kinds n = Some k \<and> f' = set_flag n v f \<and> length rest \<le> length args"
proof -
  have "\<exists>n k v. map_of flag_kinds n = Some k \<and> f' = set_flag n v f \<and> length rest \<le> length args"
    if "map_of flag_kinds n = Some k" "assign n k x f as = Inr (f', rest)" "length as \<le> length args" for n k x as
    using that by (auto simp: assign_def split: option.splits)
  then show ?thesis
    using assms by (auto simp: parseOne_def Let_def split: if_splits prod.splits option.splits)
qed

function parse_args :: "string list \<Rightarrow> cliFlags \<Rightarrow> int + cliFlags" where
  "parse_args [] f = Inr f"
| "parse_args (s # args) f =
     (case parseOne s args f of
        None \<Rightarrow> Inr f
      | Some (Inl code) \<Rightarrow> Inl code
      | Some (Inr (f', rest)) \<Rightarrow> parse_args rest f')"
  by pat_completeness auto

termination
  by (relation "measure (length \<circ> fst)") (auto dest: parseOne_Inr)

definition parseFlags :: "string list \<Rightarrow> int + cliFlags" where
  "parseFlags args = parse_args args default_flags"

subsection \<open>What is not given keeps its default\<close>

definition flags_inv :: "cliFlags \<Rightarrow> bool" where
  "flags_inv f \<longleftrightarrow> set (fl_set f) \<subseteq> fst ` set flag_kinds \<and>
     (\<forall>n \<in> fst ` set flag_kinds. n \<notin> set (fl_set f) \<longrightarrow> flag_var n f = flag_var n default_flags)"

lemma set_flag_set [simp]: "set (fl_set (set_flag n v f)) = insert n (set (fl_set f))"
  by (simp add: set_flag_def Let_def)

lemma flag_names: "n \<in> fst ` set flag_kinds \<longleftrightarrow>
   n \<in> {''config'', ''transport'', ''upstream'', ''port'', ''upstream-timeout'', ''storage'', ''no-dashboard'',
     ''no-metrics'', ''version'', ''log-level''}"
  by (simp add: flag_kinds_def)

lemma set_flag_fields:
  "fl_config (set_flag n v f) = (if n = ''config'' then the_string v else fl_config f)"
  "fl_transport (set_flag n v f) = (if n = ''transport'' then the_string v else fl_transport f)"
  "fl_upstream (set_flag n v f) = (if n = ''upstream'' then the_string v else fl_upstream f)"
  "fl_port (set_flag n v f) = (if n = ''port'' then the_int v else fl_port f)"
  "fl_timeout (set_flag n v f) = (if n = ''upstream-timeout'' then the_int v else fl_timeout f)"
  "fl_storage (set_flag n v f) = (if n = ''storage'' then the_string v else fl_storage f)"
  "fl_noDashboard (set_flag n v f) = (if n = ''no-dashboard'' then the_bool v else fl_noDashboard f)"
  "fl_noMetrics (set_flag n v f) = (if n = ''no-metrics'' then the_bool v else fl_noMetrics f)"
  "fl_version (set_flag n v f) = (if n = ''version'' then the_bool v else fl_version f)"
  "n \<in> fst ` set flag_kinds \<Longrightarrow> fl_logLevel (set_flag n v f) = (if n = ''log-level'' then the_string v else fl_logLevel f)"
  unfolding flag_names by (auto simp: set_flag_def Let_def)

lemma flag_var_other:
  assumes "m \<noteq> n" "m \<in> fst ` set flag_kinds" "n \<in> fst ` set flag_kinds"
  shows "flag_var m (set_flag n v f) = flag_var m f"
proof -
  have "m \<in> {''config'', ''transport'', ''upstream'', ''port'', ''upstream-timeout'', ''storage'', ''no-dashboard'',
     ''no-metrics'', ''version'', ''log-level''}" using assms(2) by (simp only: flag_names)
  with assms(1) show ?thesis by (elim insertE) (simp_all add: flag_var_def set_flag_fields assms(3))
qed

lemma set_flag_inv:
  assumes "flags_inv f" "n \<in> fst ` set flag_kinds"
  shows "flags_inv (set_flag n v f)"
  using assms flag_var_other [OF _ _ assms(2)] by (auto simp: flags_inv_def)

lemma flag_kinds_names: "map_of flag_kinds n = Some k \<Longrightarrow> n \<in> fst ` set flag_kinds"
  by (force dest: map_of_SomeD)

lemma parse_args_inv: "parse_args args f = Inr f' \<Longrightarrow> flags_inv f \<Longrightarrow> flags_inv f'"
proof (induction args f rule: parse_args.induct)
  case (2 s args f)
  show ?case
  proof (cases "parseOne s args f")
    case (Some r)
    with 2(2) obtain f1 rest where r: "parseOne s args f = Some (Inr (f1, rest))" "parse_args rest f1 = Inr f'"
      by (auto split: sum.splits prod.splits)
    from parseOne_Inr [OF r(1)] 2(3) have "flags_inv f1" by (auto intro: set_flag_inv flag_kinds_names)
    with 2(1) [OF r(1) refl refl r(2)] show ?thesis .
  qed (use 2 in simp)
qed simp

lemma parse_args_exit: "parse_args args f = Inl code \<Longrightarrow> code \<in> {0, 2}"
proof (induction args f rule: parse_args.induct)
  case (2 s args f)
  have a: "assign n k x f rest = Inl c \<Longrightarrow> c = 2" for n k x f rest c by (auto simp: assign_def split: option.splits)
  have "c \<in> {0, 2}" if "parseOne s args f = Some (Inl c)" for c
    using that a by (auto simp: parseOne_def Let_def split: if_splits prod.splits option.splits)
  with 2 show ?case by (auto split: option.splits sum.splits prod.splits)
qed simp

subsection \<open>Arguments that are read back\<close>

fun show_value :: "flag_value \<Rightarrow> string" where
  "show_value (VString s) = s"
| "show_value (VInt i) = Itoa i"
| "show_value (VBool b) = (if b then ''true'' else ''false'')"

fun has_kind :: "flag_kind \<Rightarrow> flag_value \<Rightarrow> bool" where
  "has_kind FString (VString s) = True"
| "has_kind FInt (VInt i) = int64 i"
| "has_kind FBool (VBool b) = True"
| "has_kind _ _ = False"

definition proper_setting :: "string \<times> flag_value \<Rightarrow> bool" where
  "proper_setting = (\<lambda>(n, v). case map_of flag_kinds n of None \<Rightarrow> False | Some k \<Rightarrow> has_kind k v)"

definition setting_arg :: "string \<times> flag_value \<Rightarrow> string" where
  "setting_arg = (\<lambda>(n, v). ''--'' @ n @ ''='' @ show_value v)"

lemma hex_val_digit_char: "is_digit c \<Longrightarrow> hex_val c = Some (digit_val c) \<and> digit_val c < 10 \<and> c \<noteq> CHR ''_''"
  by (auto simp: is_digit_def hex_val_def digit_val_def Let_def)

lemma digits_in_decimal:
  "list_all is_digit ds \<Longrightarrow> digits_in 10 acc ds = Some (foldl (\<lambda>a c. 10 * a + digit_val c) acc ds)"
  by (induction ds arbitrary: acc) (auto dest: hex_val_digit_char)

lemma char_zero: "n < 10 \<Longrightarrow> char_of (48 + n) = CHR ''0'' \<longleftrightarrow> n = (0::nat)"
proof
  assume n: "n < 10" and c: "char_of (48 + n) = CHR ''0''"
  from c have "of_char (char_of (48 + n) :: char) = (of_char CHR ''0'' :: nat)" by (rule arg_cong)
  moreover have "of_char CHR ''0'' = (48::nat)" by code_simp
  ultimately show "n = 0" using n by (simp only: of_char_of) simp
next
  assume "n = 0"
  moreover have "char_of (48::nat) = CHR ''0''" by code_simp
  ultimately show "char_of (48 + n) = CHR ''0''" by simp
qed

lemma show_nat_first: "0 < n \<Longrightarrow> hd (show_nat n) \<noteq> CHR ''0''"
proof (induction n rule: show_nat.induct)
  case (1 n)
  show ?case
  proof (cases "n < 10")
    case True
    with 1(2) have "char_of (48 + n) \<noteq> CHR ''0''" by (simp add: char_zero)
    with True show ?thesis by (subst show_nat.simps) simp
  next
    case False
    then have "0 < n div 10" by simp
    with 1(1) [OF False] False show ?thesis by (subst show_nat.simps) (simp add: hd_append)
  qed
qed

lemma ParseUint0_show: "ParseUint0 (show_nat n) = Some n"
proof (cases "n = 0")
  case True
  then have "show_nat n = ''0''" using char_zero [of 0] by (subst show_nat.simps) simp
  then show ?thesis using True by (simp add: ParseUint0_def Let_def)
next
  case False
  then have "\<not> prefix ''0'' (show_nat n)" using show_nat_first [of n] by (cases "show_nat n") auto
  moreover have "CHR ''_'' \<notin> set (show_nat n)"
    using show_nat_digits [of n] hex_val_digit_char by (auto simp: list_all_iff)
  moreover have "digits_in 10 0 (show_nat n) = Some n"
    using digits_in_decimal [OF show_nat_digits] digits_value_show_nat [of n] by (simp add: digits_value_def)
  ultimately show ?thesis by (simp add: ParseUint0_def Let_def)
qed

lemma ParseInt0_Itoa: "int64 i \<Longrightarrow> ParseInt0 (Itoa i) = Some i"
  using show_nat_hd [of "nat i"] ParseUint0_show
  by (auto simp: ParseInt0_def Itoa_def Let_def prefix_singleton)

lemma read_value_show: "has_kind k v \<Longrightarrow> read_value k (show_value v) = Some v"
  by (cases k; cases v) (simp_all add: read_value_def ParseInt0_Itoa ParseBool_def)

lemma split_flag_setting:
  assumes "n \<noteq> []" "CHR ''='' \<notin> set n"
  shows "split_flag (n @ CHR ''='' # s) = (n, Some s)"
proof -
  obtain c m where n: "n = c # m" "CHR ''='' \<notin> set m" using assms by (cases n) auto
  then have "takeWhile (\<lambda>c. c \<noteq> CHR ''='') (m @ CHR ''='' # s) = m" by (subst takeWhile_append2) auto
  with n show ?thesis by (simp add: split_flag_def Let_def)
qed

lemma parseOne_setting:
  assumes "proper_setting (n, v)"
  shows "parseOne (setting_arg (n, v)) args f = Some (Inr (set_flag n v f, args))"
proof -
  obtain k where k: "map_of flag_kinds n = Some k" "has_kind k v"
    using assms by (auto simp: proper_setting_def split: option.splits)
  have "\<forall>m \<in> fst ` set flag_kinds. m \<noteq> [] \<and> CHR ''='' \<notin> set m \<and> hd m \<noteq> CHR ''-'' \<and> hd m \<noteq> CHR ''=''"
    by (simp add: flag_kinds_def)
  with flag_kinds_names [OF k(1)] have n: "n \<noteq> []" "CHR ''='' \<notin> set n" "hd n \<noteq> CHR ''-''" "hd n \<noteq> CHR ''=''" by blast+
  from read_value_show [OF k(2)] split_flag_setting [OF n(1,2), of "show_value v"] k(1) n
  show ?thesis by (simp add: parseOne_def setting_arg_def Let_def assign_def)
qed

lemma parse_args_settings:
  "list_all proper_setting vs \<Longrightarrow>
     parse_args (map setting_arg vs @ args) f = parse_args args (fold (\<lambda>(n, v). set_flag n v) vs f)"
  by (induction vs arbitrary: f) (auto simp: parseOne_setting)



end
