(* ===== verification/Otel_Span.thy ===== *)
theory Otel_Span
  imports Metrics Integrity Go_Net
begin

text \<open>
  The data of the trace exporter (\<open>internal/otel\<close>): the attribute names of \<open>semconv.go\<close>, the structs
  of \<open>otlp.go\<close> with their JSON form, and the part of \<open>exporter.go\<close> that turns an audit entry into a
  span: names, attributes, times, status and random identifiers, and the addresses of the
  endpoint and the upstream.

  Random bytes are answers of the system, which can fail. A URL stays in its parsed form. The
  theorem says what a span carries of its entry.
\<close>

subsection \<open>Addresses\<close>

definition hex_value :: "string \<Rightarrow> nat" where
  "hex_value s = foldl (\<lambda>n c. 16 * n + (case hex_val c of None \<Rightarrow> 0 | Some d \<Rightarrow> d)) 0 s"

fun show_hex :: "nat \<Rightarrow> string" where
  "show_hex n = (if n < 16 then [hex_digit n] else show_hex (n div 16) @ [hex_digit (n mod 16)])"

declare show_hex.simps [simp del]

fun cut_ellipsis :: "string \<Rightarrow> string \<times> string option" where
  "cut_ellipsis [] = ([], None)"
| "cut_ellipsis (c # cs) =
     (if prefix ''::'' (c # cs) then ([], Some (tl cs))
      else (case cut_ellipsis cs of (l, r) \<Rightarrow> (c # l, r)))"

definition ip_field :: "string \<Rightarrow> nat list" where
  "ip_field f =
     (if CHR ''.'' \<in> set f then
        (case map digits_value (split_on CHR ''.'' f) of
           [a, b, c, d] \<Rightarrow> [256 * a + b, 256 * c + d]
         | _ \<Rightarrow> [])
      else [hex_value f])"

definition ip_words :: "string \<Rightarrow> nat list" where
  "ip_words s = (if s = [] then [] else concat (map ip_field (split_on CHR '':'' s)))"

text \<open>The eight groups of a valid IPv6 literal.\<close>

definition ip6_groups :: "string \<Rightarrow> nat list" where
  "ip6_groups s =
     (case cut_ellipsis s of
        (l, None) \<Rightarrow> ip_words l
      | (l, Some r) \<Rightarrow>
          ip_words l @ replicate (8 - (length (ip_words l) + length (ip_words r))) 0 @ ip_words r)"

text \<open>The first longest run of zeros, as its start and length.\<close>

definition zero_run :: "nat list \<Rightarrow> nat \<times> nat" where
  "zero_run ws = fold (\<lambda>i (j, n). let m = length (takeWhile (\<lambda>w. w = 0) (drop i ws))
     in if 2 \<le> m \<and> n < m then (i, m) else (j, n)) [0..<length ws] (0, 0)"

definition dotted :: "nat \<Rightarrow> nat \<Rightarrow> string" where
  "dotted a b = join ''.'' (map show_nat [a div 256, a mod 256, b div 256, b mod 256])"

definition ip6_String :: "nat list \<Rightarrow> string" where
  "ip6_String ws =
     (if take 6 ws = [0, 0, 0, 0, 0, 0xFFFF] then dotted (ws ! 6) (ws ! 7)
      else
        (case zero_run ws of
           (i, n) \<Rightarrow>
             if n = 0 then join '':'' (map show_hex ws)
             else join '':'' (map show_hex (take i ws)) @ ''::'' @
                  join '':'' (map show_hex (drop (i + n) ws))))"

text \<open>\<open>net.ParseIP\<close> followed by \<open>IP.String\<close>.\<close>

definition ParseIP_String :: "string \<Rightarrow> string option" where
  "ParseIP_String s =
     (case dropWhile (\<lambda>c. c \<notin> set ''.:%'') s of
        [] \<Rightarrow> None
      | c # _ \<Rightarrow>
          if c = CHR ''.'' then (if ipv4_fields s then Some s else None)
          else if c = CHR '':'' then (if ParseIP6 s then Some (ip6_String (ip6_groups s)) else None)
          else None)"

definition upstreamAddress :: "string \<Rightarrow> string \<times> int" where
  "upstreamAddress upstream =
     (case url_Parse upstream of
        None \<Rightarrow> ([], 0)
      | Some parsed \<Rightarrow>
          if u_Host parsed = [] then ([], 0)
          else
            (let host = Hostname parsed;
                 rawPort = Port parsed;
                 port = (if rawPort \<noteq> [] then (case Atoi rawPort of Some p \<Rightarrow> p | None \<Rightarrow> 0)
                         else if u_Scheme parsed = ''http'' then 80
                         else if u_Scheme parsed = ''https'' then 443
                         else 0)
             in case ParseIP_String host of Some ip \<Rightarrow> (ip, port) | None \<Rightarrow> (host, port)))"

definition TrimRight_slash :: "string \<Rightarrow> string" where
  "TrimRight_slash s = TrimRightFunc (\<lambda>c. c = CHR ''/'') s"

definition tracesEndpoint :: "string \<Rightarrow> url res" where
  "tracesEndpoint endpoint =
     (case url_Parse endpoint of
        None \<Rightarrow> Inl (''otel: parse endpoint: '' @ net_failure)
      | Some parsed \<Rightarrow>
          if u_Scheme parsed = [] \<or> u_Host parsed = []
          then Inl ''otel: endpoint must include scheme and host''
          else if HasSuffix (u_Path parsed) ''/v1/traces'' then Inr parsed
          else Inr (parsed\<lparr>u_Path := TrimRight_slash (u_Path parsed) @ ''/v1/traces''\<rparr>))"

definition copyHeaders :: "(string \<times> string) list \<Rightarrow> (string \<times> string) list" where
  "copyHeaders headers = filter (\<lambda>(key, value). TrimSpace key \<noteq> []) headers"

subsection \<open>Attributes and spans\<close>

definition attrServiceName :: string where "attrServiceName = ''service.name''"
definition attrMCPMethodName :: string where "attrMCPMethodName = ''mcp.method.name''"
definition attrGenAIOperationName :: string where "attrGenAIOperationName = ''gen_ai.operation.name''"
definition attrGenAIToolName :: string where "attrGenAIToolName = ''gen_ai.tool.name''"
definition attrJSONRPCRequestID :: string where "attrJSONRPCRequestID = ''jsonrpc.request.id''"
definition attrNetworkTransport :: string where "attrNetworkTransport = ''network.transport''"
definition attrNetworkProtocolName :: string where
  "attrNetworkProtocolName = ''network.protocol.name''"
definition attrServerAddress :: string where "attrServerAddress = ''server.address''"
definition attrServerPort :: string where "attrServerPort = ''server.port''"
definition attrRPCResponseStatusCode :: string where
  "attrRPCResponseStatusCode = ''rpc.response.status_code''"
definition attrErrorType :: string where "attrErrorType = ''error.type''"
definition attrMCPAuditEntryID :: string where "attrMCPAuditEntryID = ''mcp_audit.entry_id''"
definition attrMCPAuditDirection :: string where "attrMCPAuditDirection = ''mcp_audit.direction''"
definition attrMCPAuditClientID :: string where "attrMCPAuditClientID = ''mcp_audit.client_id''"
definition attrMCPAuditServerID :: string where "attrMCPAuditServerID = ''mcp_audit.server_id''"
definition attrMCPAuditStorage :: string where "attrMCPAuditStorage = ''mcp_audit.storage''"
definition attrMCPAuditSignaturePresent :: string where
  "attrMCPAuditSignaturePresent = ''mcp_audit.signature.present''"

lemmas attr_defs = attrServiceName_def attrMCPMethodName_def attrGenAIOperationName_def
  attrGenAIToolName_def attrJSONRPCRequestID_def attrNetworkTransport_def
  attrNetworkProtocolName_def attrServerAddress_def attrServerPort_def
  attrRPCResponseStatusCode_def attrErrorType_def attrMCPAuditEntryID_def
  attrMCPAuditDirection_def attrMCPAuditClientID_def attrMCPAuditServerID_def
  attrMCPAuditStorage_def attrMCPAuditSignaturePresent_def

record any_value =
  av_String :: string
  av_Int :: string
  av_Bool :: "bool option"

record key_value =
  kv_Key :: string
  kv_Value :: any_value

definition stringAttr :: "string \<Rightarrow> string \<Rightarrow> key_value" where
  "stringAttr key v = \<lparr>kv_Key = key, kv_Value = \<lparr>av_String = v, av_Int = [], av_Bool = None\<rparr>\<rparr>"

definition intAttr :: "string \<Rightarrow> int \<Rightarrow> key_value" where
  "intAttr key v = \<lparr>kv_Key = key, kv_Value = \<lparr>av_String = [], av_Int = Itoa v, av_Bool = None\<rparr>\<rparr>"

definition boolAttr :: "string \<Rightarrow> bool \<Rightarrow> key_value" where
  "boolAttr key v = \<lparr>kv_Key = key, kv_Value = \<lparr>av_String = [], av_Int = [], av_Bool = Some v\<rparr>\<rparr>"

record otlp_status =
  os_Message :: string
  os_Code :: int

record otlp_span =
  sp_TraceID :: string
  sp_SpanID :: string
  sp_Name :: string
  sp_Kind :: int
  sp_Start :: string
  sp_End :: string
  sp_Attributes :: "key_value list"
  sp_Status :: otlp_status

definition spanKindInternal :: int where "spanKindInternal = 1"
definition statusCodeOK :: int where "statusCodeOK = 1"
definition statusCodeError :: int where "statusCodeError = 2"

definition spanName :: "entry \<Rightarrow> string" where
  "spanName e = (if e_ToolName e = [] then e_Method e else e_Method e @ '' '' @ e_ToolName e)"

definition networkTransport :: "string \<Rightarrow> string" where
  "networkTransport t = (if t = ''stdio'' then ''pipe'' else if t = ''http'' then ''tcp'' else t)"

definition errorType :: "int \<Rightarrow> string" where
  "errorType code =
     (if code = -32029 then ''rate_limited'' else if code = -32030 then ''policy_denied''
      else ''jsonrpc_error'')"

definition otel_normalizeDirection :: "string \<Rightarrow> string" where
  "otel_normalizeDirection direction =
     (if direction = DirectionClientToServer then ''client_to_server''
      else if direction = DirectionServerToClient then ''server_to_client''
      else if direction = [] then ''unknown'' else direction)"

definition string_if :: "string \<Rightarrow> string \<Rightarrow> key_value list" where
  "string_if key v = (if v = [] then [] else [stringAttr key v])"

definition error_attributes :: "entry \<Rightarrow> key_value list" where
  "error_attributes e =
     (case e_Error e of
        Some er \<Rightarrow> [intAttr attrRPCResponseStatusCode (err_Code er),
                    stringAttr attrErrorType (errorType (err_Code er))]
      | None \<Rightarrow> string_if attrErrorType (FailureType e))"

definition attributes :: "string \<Rightarrow> string \<Rightarrow> int \<Rightarrow> entry \<Rightarrow> key_value list" where
  "attributes storage serverAddress serverPort e =
     [stringAttr attrMCPMethodName (e_Method e),
      stringAttr attrNetworkTransport (networkTransport (e_Transport e)),
      stringAttr attrMCPAuditEntryID (e_ID e),
      stringAttr attrMCPAuditDirection (otel_normalizeDirection (e_Direction e)),
      boolAttr attrMCPAuditSignaturePresent (e_Signature e \<noteq> [])] @
     (if e_Transport e = ''http'' then [stringAttr attrNetworkProtocolName ''http''] else []) @
     (if e_Method e = ''tools/call'' then [stringAttr attrGenAIOperationName ''execute_tool''] else []) @
     string_if attrJSONRPCRequestID (e_RequestID e) @
     string_if attrGenAIToolName (e_ToolName e) @
     string_if attrMCPAuditClientID (e_ClientID e) @
     string_if attrMCPAuditServerID (e_ServerID e) @
     string_if attrMCPAuditStorage storage @
     string_if attrServerAddress serverAddress @
     (if 0 < serverPort then [intAttr attrServerPort serverPort] else []) @
     error_attributes e"

text \<open>The answers to the two reads of random bytes and the clock, for one span.\<close>

record span_env =
  se_trace :: "string res"
  se_span :: "string res"
  se_clock :: go_time

definition randomHex :: "string res \<Rightarrow> string res" where
  "randomHex raw =
     (case raw of Inl er \<Rightarrow> Inl (''otel: random id: '' @ er) | Inr bytes \<Rightarrow> Inr (EncodeToString bytes))"

definition unix_epoch :: go_time where "unix_epoch = 62135596800000000000"

definition UnixNano :: "go_time \<Rightarrow> int" where
  "UnixNano t = wrap64 (t - unix_epoch)"

definition span_times :: "go_time \<Rightarrow> entry \<Rightarrow> go_time \<times> go_time" where
  "span_times now e =
     (let fin = (if IsZero (e_Timestamp e) then now else e_Timestamp e);
          start = (if e_DurationMs e < 0 then fin
                   else fin + wrap64 (milliseconds (wrap64 (- e_DurationMs e))))
      in (start, fin))"

definition span_status :: "entry \<Rightarrow> otlp_status" where
  "span_status e =
     (case e_Error e of
        Some er \<Rightarrow> \<lparr>os_Message = err_Message er, os_Code = statusCodeError\<rparr>
      | None \<Rightarrow>
          if FailureType e \<noteq> [] then \<lparr>os_Message = FailureType e, os_Code = statusCodeError\<rparr>
          else \<lparr>os_Message = [], os_Code = statusCodeOK\<rparr>)"

definition spanFromEntry ::
  "string \<Rightarrow> string \<Rightarrow> int \<Rightarrow> span_env \<Rightarrow> entry \<Rightarrow> otlp_span res" where
  "spanFromEntry storage serverAddress serverPort env e =
     (case randomHex (se_trace env) of
        Inl er \<Rightarrow> Inl er
      | Inr traceID \<Rightarrow>
          (case randomHex (se_span env) of
             Inl er \<Rightarrow> Inl er
           | Inr spanID \<Rightarrow>
               (case span_times (se_clock env) e of
                  (start, fin) \<Rightarrow>
                    Inr \<lparr>sp_TraceID = traceID, sp_SpanID = spanID, sp_Name = spanName e,
                         sp_Kind = spanKindInternal, sp_Start = Itoa (UnixNano start),
                         sp_End = Itoa (UnixNano fin),
                         sp_Attributes = attributes storage serverAddress serverPort e,
                         sp_Status = span_status e\<rparr>)))"

subsection \<open>JSON form\<close>

definition marshal_list :: "('a \<Rightarrow> string) \<Rightarrow> 'a list \<Rightarrow> string" where
  "marshal_list f xs = CHR ''['' # join '','' (map f xs) @ '']''"

definition member_if :: "bool \<Rightarrow> string \<Rightarrow> string \<Rightarrow> (string \<times> string) list" where
  "member_if b k v = (if b then [(k, v)] else [])"

definition marshal_value :: "any_value \<Rightarrow> string" where
  "marshal_value v = marshal_struct
     (member_if (av_String v \<noteq> []) ''stringValue'' (quote_string (av_String v)) @
      member_if (av_Int v \<noteq> []) ''intValue'' (quote_string (av_Int v)) @
      (case av_Bool v of None \<Rightarrow> [] | Some b \<Rightarrow> [(''boolValue'', if b then ''true'' else ''false'')]))"

definition marshal_attr :: "key_value \<Rightarrow> string" where
  "marshal_attr a = marshal_struct
     [(''key'', quote_string (kv_Key a)), (''value'', marshal_value (kv_Value a))]"

definition marshal_status :: "otlp_status \<Rightarrow> string" where
  "marshal_status s = marshal_struct
     (member_if (os_Message s \<noteq> []) ''message'' (quote_string (os_Message s)) @
      member_if (os_Code s \<noteq> 0) ''code'' (Itoa (os_Code s)))"

definition marshal_span :: "otlp_span \<Rightarrow> string" where
  "marshal_span s = marshal_struct
     ([(''traceId'', quote_string (sp_TraceID s)), (''spanId'', quote_string (sp_SpanID s)),
       (''name'', quote_string (sp_Name s)), (''kind'', Itoa (sp_Kind s)),
       (''startTimeUnixNano'', quote_string (sp_Start s)),
       (''endTimeUnixNano'', quote_string (sp_End s))] @
      member_if (sp_Attributes s \<noteq> []) ''attributes'' (marshal_list marshal_attr (sp_Attributes s)) @
      [(''status'', marshal_status (sp_Status s))])"

definition marshal_payload :: "string \<Rightarrow> otlp_span list \<Rightarrow> string" where
  "marshal_payload serviceName spans =
     (let res = marshal_struct
            [(''attributes'', marshal_list marshal_attr [stringAttr attrServiceName serviceName])];
          scope = marshal_struct
            [(''name'', quote_string ''github.com/P4ST4S/mcp-audit/internal/otel'')];
          scopeSpans = marshal_struct
            [(''scope'', scope), (''spans'', marshal_list marshal_span spans)]
      in marshal_struct
           [(''resourceSpans'', marshal_list (\<lambda>x. x) [marshal_struct
              [(''resource'', res), (''scopeSpans'', marshal_list (\<lambda>x. x) [scopeSpans])]])])"

subsection \<open>What a span carries\<close>

lemma kv_Key_attr [simp]:
  "kv_Key (stringAttr k v) = k" "kv_Key (intAttr k i) = k" "kv_Key (boolAttr k b) = k"
  by (simp_all add: stringAttr_def intAttr_def boolAttr_def)

lemma keys_string_if [simp]: "map kv_Key (string_if k v) = (if v = [] then [] else [k])"
  by (simp add: string_if_def)

lemma keys_error: "map kv_Key (error_attributes e) =
    (case e_Error e of Some er \<Rightarrow> [attrRPCResponseStatusCode, attrErrorType]
     | None \<Rightarrow> if FailureType e = [] then [] else [attrErrorType])"
  by (simp add: error_attributes_def split: option.split)

lemma attributes_keys: "map kv_Key (attributes st addr port e) = concat
   [[attrMCPMethodName, attrNetworkTransport, attrMCPAuditEntryID, attrMCPAuditDirection,
     attrMCPAuditSignaturePresent],
    if e_Transport e = ''http'' then [attrNetworkProtocolName] else [],
    if e_Method e = ''tools/call'' then [attrGenAIOperationName] else [],
    if e_RequestID e = [] then [] else [attrJSONRPCRequestID],
    if e_ToolName e = [] then [] else [attrGenAIToolName],
    if e_ClientID e = [] then [] else [attrMCPAuditClientID],
    if e_ServerID e = [] then [] else [attrMCPAuditServerID],
    if st = [] then [] else [attrMCPAuditStorage],
    if addr = [] then [] else [attrServerAddress],
    if 0 < port then [attrServerPort] else [],
    map kv_Key (error_attributes e)]"
  by (simp add: attributes_def)

lemma subseq_concat: "list_all2 subseq xss yss \<Longrightarrow> subseq (concat xss) (concat yss)"
  by (induction rule: list_all2_induct) (auto intro: list_emb_append_mono)

lemma subseq_distinct: "subseq xs ys \<Longrightarrow> distinct ys \<Longrightarrow> distinct xs"
  by (induction rule: list_emb.induct) (auto dest: list_emb_set)

lemma attributes_distinct: "distinct (map kv_Key (attributes st addr port e))"
proof -
  have "subseq (map kv_Key (error_attributes e)) [attrRPCResponseStatusCode, attrErrorType]"
    by (simp add: keys_error split: option.split)
  then have "subseq (map kv_Key (attributes st addr port e)) (concat
      [[attrMCPMethodName, attrNetworkTransport, attrMCPAuditEntryID, attrMCPAuditDirection,
        attrMCPAuditSignaturePresent], [attrNetworkProtocolName], [attrGenAIOperationName],
       [attrJSONRPCRequestID], [attrGenAIToolName], [attrMCPAuditClientID], [attrMCPAuditServerID],
       [attrMCPAuditStorage], [attrServerAddress], [attrServerPort],
       [attrRPCResponseStatusCode, attrErrorType]])"
    unfolding attributes_keys by (intro subseq_concat list_all2_Cons [THEN iffD2] conjI) simp_all
  then show ?thesis by (rule subseq_distinct) (simp add: attr_defs)
qed

lemma error_type_iff:
  "attrErrorType \<in> kv_Key ` set (attributes st addr port e) \<longleftrightarrow> FailureType e \<noteq> []"
proof -
  have "attrErrorType \<in> kv_Key ` set (error_attributes e) \<longleftrightarrow> FailureType e \<noteq> []"
    unfolding set_map [symmetric] keys_error
    by (simp add: FailureType_def split: option.split)
  then show ?thesis
    by (simp add: attributes_def string_if_def image_Un) (simp add: attr_defs image_iff)
qed

lemma status_iff: "os_Code (span_status e) = statusCodeError \<longleftrightarrow> FailureType e \<noteq> []"
  by (simp add: span_status_def FailureType_def statusCodeError_def statusCodeOK_def split: option.split)

lemma span_duration:
  assumes "0 \<le> e_DurationMs e" "int64 (milliseconds (e_DurationMs e))" "span_times now e = (a, b)"
  shows "b - a = milliseconds (e_DurationMs e)"
proof -
  have "int64 (- e_DurationMs e)" "int64 (milliseconds (- e_DurationMs e))"
    using assms(1,2) by (simp_all add: int64_def milliseconds_def max_int64_def min_int64_def)
  with assms(1,3) show ?thesis by (auto simp: span_times_def Let_def milliseconds_def)
qed

lemma span_fields:
  assumes "spanFromEntry st addr port env e = Inr s"
  obtains tb sb a b where "se_trace env = Inr tb" "se_span env = Inr sb"
    "span_times (se_clock env) e = (a, b)" "sp_TraceID s = EncodeToString tb"
    "sp_SpanID s = EncodeToString sb" "sp_Start s = Itoa (UnixNano a)" "sp_End s = Itoa (UnixNano b)"
    "sp_Attributes s = attributes st addr port e" "sp_Status s = span_status e"
proof -
  obtain a b where "span_times (se_clock env) e = (a, b)" by fastforce
  with assms that show thesis
    by (auto simp: spanFromEntry_def randomHex_def split: sum.splits)
qed

definition hide :: "string \<Rightarrow> string \<Rightarrow> audit_principal option \<Rightarrow> policy_evidence option \<Rightarrow> entry \<Rightarrow> entry" where
  "hide p r who pol e = e\<lparr>e_Params := p, e_Result := r, e_Principal := who, e_Policy := pol\<rparr>"

lemma hide_sel [simp]:
  "e_ID (hide p r who pol e) = e_ID e" "e_Timestamp (hide p r who pol e) = e_Timestamp e"
  "e_Direction (hide p r who pol e) = e_Direction e" "e_Transport (hide p r who pol e) = e_Transport e"
  "e_Method (hide p r who pol e) = e_Method e" "e_RequestID (hide p r who pol e) = e_RequestID e"
  "e_ToolName (hide p r who pol e) = e_ToolName e" "e_Error (hide p r who pol e) = e_Error e"
  "e_DurationMs (hide p r who pol e) = e_DurationMs e" "e_ClientID (hide p r who pol e) = e_ClientID e"
  "e_ServerID (hide p r who pol e) = e_ServerID e" "e_Signature (hide p r who pol e) = e_Signature e"
  by (simp_all add: hide_def)

lemma span_hide:
  assumes "FailureType (hide p r who pol e) = FailureType e"
  shows "spanFromEntry st addr port env (hide p r who pol e) = spanFromEntry st addr port env e"
proof -
  have "spanName (hide p r who pol e) = spanName e" by (simp add: spanName_def)
  moreover have "span_times (se_clock env) (hide p r who pol e) = span_times (se_clock env) e"
    by (simp add: span_times_def Let_def)
  moreover have "error_attributes (hide p r who pol e) = error_attributes e"
    "span_status (hide p r who pol e) = span_status e"
    using assms by (simp_all add: error_attributes_def span_status_def split: option.split)
  moreover from this have "attributes st addr port (hide p r who pol e) = attributes st addr port e"
    by (simp add: attributes_def)
  ultimately show ?thesis unfolding spanFromEntry_def by (simp only:)
qed

text \<open>
  C31: What a span carries. Its identifiers decode to the random bytes drawn for it; no attribute key
  occurs twice; it has the error status exactly when the entry failed, and exactly then it has an
  error type; it lasts as long as the call when the times fit 64 bits. The parameters, the result,
  the principal and the policy evidence of the entry do not leave through it, beyond whether the
  call failed.
\<close>
theorem span_contents:
  assumes "spanFromEntry st addr port env e = Inr s"
    and "0 \<le> e_DurationMs e" "int64 (milliseconds (e_DurationMs e))"
    and "span_times (se_clock env) e = (a, b)" "int64 (a - unix_epoch)" "int64 (b - unix_epoch)"
  shows "se_trace env = Inr (the (DecodeString (sp_TraceID s))) \<and>
     se_span env = Inr (the (DecodeString (sp_SpanID s))) \<and>
     distinct (map kv_Key (sp_Attributes s)) \<and>
     (os_Code (sp_Status s) = statusCodeError \<longleftrightarrow> FailureType e \<noteq> []) \<and>
     (attrErrorType \<in> kv_Key ` set (sp_Attributes s) \<longleftrightarrow> FailureType e \<noteq> []) \<and>
     (\<exists>x y. Atoi (sp_Start s) = Some x \<and> Atoi (sp_End s) = Some y \<and>
        y - x = milliseconds (e_DurationMs e)) \<and>
     (\<forall>p r who pol. FailureType (hide p r who pol e) = FailureType e \<longrightarrow>
        spanFromEntry st addr port env (hide p r who pol e) = Inr s)"
proof -
  from assms(1) obtain tb sb a' b' where s: "se_trace env = Inr tb" "se_span env = Inr sb"
    "span_times (se_clock env) e = (a', b')" "sp_TraceID s = EncodeToString tb"
    "sp_SpanID s = EncodeToString sb" "sp_Start s = Itoa (UnixNano a')" "sp_End s = Itoa (UnixNano b')"
    "sp_Attributes s = attributes st addr port e" "sp_Status s = span_status e" by (rule span_fields)
  with assms(4) have ab: "a' = a" "b' = b" by simp_all
  have "Atoi (sp_Start s) = Some (a - unix_epoch)" "Atoi (sp_End s) = Some (b - unix_epoch)"
    using assms(5,6) by (simp_all add: s(6,7) ab UnixNano_def Atoi_Itoa)
  moreover have "(b - unix_epoch) - (a - unix_epoch) = milliseconds (e_DurationMs e)"
    using span_duration [OF assms(2-4)] by simp
  ultimately have t: "\<exists>x y. Atoi (sp_Start s) = Some x \<and> Atoi (sp_End s) = Some y \<and>
        y - x = milliseconds (e_DurationMs e)" by blast
  have "\<forall>p r who pol. FailureType (hide p r who pol e) = FailureType e \<longrightarrow>
        spanFromEntry st addr port env (hide p r who pol e) = Inr s"
    by (simp add: span_hide assms(1))
  with t show ?thesis
    by (simp add: s attributes_distinct status_iff error_type_iff)
qed

definition demo_span_entry :: entry where
  "demo_span_entry = zero_entry\<lparr>e_Timestamp := 63871891200000000000, e_Method := ''tools/call'',
     e_ToolName := ''rm'', e_Transport := ''http'', e_DurationMs := 3, e_Outcome := OutcomeDenied,
     e_Params := ''{}''\<rparr>"

definition demo_span_env :: span_env where
  "demo_span_env = \<lparr>se_trace = Inr ''0123456789abcdef'', se_span = Inr ''01234567'', se_clock = 7\<rparr>"

theorem span_contents_witness:
  "\<exists>s. spanFromEntry ''sqlite'' ''h'' 80 demo_span_env demo_span_entry = Inr s \<and>
     os_Code (sp_Status s) = statusCodeError \<and>
     spanFromEntry ''sqlite'' ''h'' 80 demo_span_env (hide [] ''1'' None None demo_span_entry) = Inr s"
proof -
  have f: "FailureType demo_span_entry = OutcomeDenied"
    "FailureType (hide [] ''1'' None None demo_span_entry) = OutcomeDenied"
    by (simp_all add: FailureType_def demo_span_entry_def hide_def zero_entry_def Outcome_Valid_def outcome_defs)
  have ne: "OutcomeDenied \<noteq> []" by (simp add: OutcomeDenied_def)
  have t: "span_times (se_clock demo_span_env) demo_span_entry =
      (63871891200000000000 - 3000000, 63871891200000000000)"
    by (simp add: span_times_def demo_span_entry_def milliseconds_def int64_def max_int64_def min_int64_def)
  have i: "int64 (63871891200000000000 - 3000000 - unix_epoch)" "int64 (63871891200000000000 - unix_epoch)"
    "0 \<le> e_DurationMs demo_span_entry" "int64 (milliseconds (e_DurationMs demo_span_entry))"
    by (simp_all add: int64_def unix_epoch_def max_int64_def min_int64_def demo_span_entry_def milliseconds_def)
  obtain s where s: "spanFromEntry ''sqlite'' ''h'' 80 demo_span_env demo_span_entry = Inr s"
    by (simp add: spanFromEntry_def randomHex_def demo_span_env_def case_prod_beta)
  from span_contents [OF s i(3,4) t i(1,2)] s f ne show ?thesis by simp
qed

end
