(* ===== verification/Otel.thy ===== *)
theory Otel
  imports Otel_Span Retry Http_Proxy
begin

text \<open>
  The trace exporter (\<open>internal/otel/exporter.go\<close>): construction, the bounded queue, the worker that
  batches and posts, and shutdown.

  \<open>exporter\<close> is the struct with the channel \<open>entries\<close> as a list, the batch of the goroutine \<open>run\<close>
  and flags for a closed channel and an ended goroutine. \<open>ex_out\<close> collects what the exporter does
  to the outside: calls of the metrics recorder, requests, waits and log messages. \<open>ex_accepted\<close>,
  \<open>ex_refused\<close> and \<open>ex_flushed\<close> are history variables. The answers of the collector, the clock and
  the source of random bytes are an argument of every flush. The headers are bindings in the
  order of iteration.

  \<open>otel_step\<close> interleaves clients, the ticker, the worker and shutdown. A flush is one step: it
  works on the worker's own batch, and clients do not see it before it ends.
\<close>

subsection \<open>Configuration\<close>

definition defaultEndpoint :: string where "defaultEndpoint = ''http://localhost:4318''"
definition defaultServiceName :: string where "defaultServiceName = ''mcp-audit''"
definition defaultQueueSize :: int where "defaultQueueSize = 1024"
definition defaultBatchSize :: int where "defaultBatchSize = 64"
definition defaultFlushIntervalMS :: int where "defaultFlushIntervalMS = 1000"
definition defaultTimeoutMS :: int where "defaultTimeoutMS = 5000"
definition defaultRetryInitialMS :: int where "defaultRetryInitialMS = 200"
definition defaultRetryMaxMS :: int where "defaultRetryMaxMS = 2000"

record otel_config =
  oc_Endpoint :: string
  oc_ServiceName :: string
  oc_Storage :: string
  oc_Upstream :: string
  oc_Headers :: "(string \<times> string) list"
  oc_TLSCAFile :: string
  oc_TLSServerName :: string
  oc_TLSInsecureSkipVerify :: bool
  oc_QueueSize :: int
  oc_BatchSize :: int
  oc_FlushIntervalMS :: int
  oc_TimeoutMS :: int
  oc_MaxRetries :: int
  oc_RetryInitialMS :: int
  oc_RetryMaxMS :: int
  oc_Metrics :: bool

datatype delivery = Delivered | Dropped string | Abandoned

record otel_out =
  oo_calls :: "metric_call list"
  oo_sent :: "upstream_request list"
  oo_delays :: "duration list"
  oo_logs :: "string list"

record exporter =
  ex_config :: otel_config
  ex_client :: http_client
  ex_endpoint :: url
  ex_serverAddress :: string
  ex_serverPort :: int
  ex_headers :: "(string \<times> string) list"
  ex_queue :: "entry list"
  ex_closed :: bool
  ex_batch :: "entry list"
  ex_done :: bool
  ex_out :: otel_out
  ex_accepted :: "entry list"
  ex_refused :: "entry list"
  ex_flushed :: "(entry list \<times> delivery) list"

definition or_default :: "int \<Rightarrow> int \<Rightarrow> int" where
  "or_default v d = (if v \<le> 0 then d else v)"

definition otel_defaults :: "otel_config \<Rightarrow> otel_config" where
  "otel_defaults c =
     (let initial = or_default (oc_RetryInitialMS c) defaultRetryInitialMS;
          most = or_default (oc_RetryMaxMS c) defaultRetryMaxMS
      in c\<lparr>oc_Endpoint := (if oc_Endpoint c = [] then defaultEndpoint else oc_Endpoint c),
           oc_ServiceName := (if oc_ServiceName c = [] then defaultServiceName else oc_ServiceName c),
           oc_QueueSize := or_default (oc_QueueSize c) defaultQueueSize,
           oc_BatchSize := or_default (oc_BatchSize c) defaultBatchSize,
           oc_FlushIntervalMS := or_default (oc_FlushIntervalMS c) defaultFlushIntervalMS,
           oc_TimeoutMS := or_default (oc_TimeoutMS c) defaultTimeoutMS,
           oc_MaxRetries := (if oc_MaxRetries c < 0 then 0 else oc_MaxRetries c),
           oc_RetryInitialMS := initial,
           oc_RetryMaxMS := (if most < initial then initial else most)\<rparr>)"

definition newHTTPClient :: "key_files \<Rightarrow> otel_config \<Rightarrow> http_client res" where
  "newHTTPClient fs c =
     (case httpclient_New fs (wrap64 (milliseconds (oc_TimeoutMS c)))
             \<lparr>tc_CAFile = oc_TLSCAFile c, tc_ServerName = oc_TLSServerName c,
              tc_InsecureSkipVerify = oc_TLSInsecureSkipVerify c,
              tc_ClientCertFile = [], tc_ClientKeyFile = []\<rparr> of
        Inl er \<Rightarrow> Inl (''otel: '' @ er)
      | Inr client \<Rightarrow> Inr client)"

definition record_calls :: "metric_call list \<Rightarrow> exporter \<Rightarrow> exporter" where
  "record_calls cs x =
     (if oc_Metrics (ex_config x)
      then x\<lparr>ex_out := (ex_out x)\<lparr>oo_calls := oo_calls (ex_out x) @ cs\<rparr>\<rparr> else x)"

definition updateQueueMetrics :: "exporter \<Rightarrow> exporter" where
  "updateQueueMetrics x = record_calls [OTelQueueDepth (int (length (ex_queue x)))] x"

definition queue_cap :: "exporter \<Rightarrow> nat" where
  "queue_cap x = nat (oc_QueueSize (ex_config x))"

definition NewExporter :: "key_files \<Rightarrow> otel_config \<Rightarrow> exporter res" where
  "NewExporter fs config0 =
     (let config = otel_defaults config0 in
      case tracesEndpoint (oc_Endpoint config) of
        Inl er \<Rightarrow> Inl er
      | Inr endpoint \<Rightarrow>
     (case newHTTPClient fs config of
        Inl er \<Rightarrow> Inl er
      | Inr client \<Rightarrow>
     (case upstreamAddress (oc_Upstream config) of
        (serverAddress, serverPort) \<Rightarrow>
          (let x = \<lparr>ex_config = config, ex_client = client, ex_endpoint = endpoint,
                    ex_serverAddress = serverAddress, ex_serverPort = serverPort,
                    ex_headers = copyHeaders (oc_Headers config), ex_queue = [], ex_closed = False,
                    ex_batch = [], ex_done = False,
                    ex_out = \<lparr>oo_calls = [], oo_sent = [], oo_delays = [], oo_logs = []\<rparr>,
                    ex_accepted = [], ex_refused = [], ex_flushed = []\<rparr>
           in Inr (record_calls [OTelQueueCapacity (int (queue_cap x))] (updateQueueMetrics x))))))"

subsection \<open>Clients\<close>

definition ExportAuditEntry :: "entry \<Rightarrow> exporter option \<Rightarrow> err option \<times> exporter option" where
  "ExportAuditEntry en ox =
     (case ox of
        None \<Rightarrow> (None, None)
      | Some x \<Rightarrow>
          if e_Method en \<noteq> ''tools/call'' then (None, Some x)
          else if ex_closed x then (Some ''otel: exporter is closed'', Some x)
          else if length (ex_queue x) < queue_cap x
          then (None, Some (updateQueueMetrics
                 (x\<lparr>ex_queue := ex_queue x @ [en], ex_accepted := ex_accepted x @ [en]\<rparr>)))
          else (Some ''otel: export queue is full'',
                Some (record_calls [OTelDrop ''queue_full'' 1]
                  (x\<lparr>ex_refused := ex_refused x @ [en]\<rparr>))))"

text \<open>\<open>Close\<close> closes the channel once, then waits for the worker or the context.\<close>

definition Close_begin :: "exporter \<Rightarrow> exporter" where
  "Close_begin x = (if ex_closed x then x else x\<lparr>ex_closed := True\<rparr>)"

text \<open>\<open>None\<close> while it waits; \<open>first\<close> says which ready case of the \<open>select\<close> is taken.\<close>

definition Close_return :: "bool \<Rightarrow> err option \<Rightarrow> exporter \<Rightarrow> err option option" where
  "Close_return first ctxErr x =
     (case ctxErr of
        None \<Rightarrow> if ex_done x then Some None else None
      | Some er \<Rightarrow> if ex_done x \<and> first then Some None else Some (Some (''otel: close: '' @ er)))"

subsection \<open>Posting a batch\<close>

record post_env =
  po_newRequest :: "err option"
  po_result :: "net_error + http_response"
  po_now :: go_time
  po_duration :: duration

record flush_env =
  fe_span :: "nat \<Rightarrow> span_env"
  fe_post :: "nat \<Rightarrow> post_env"
  fe_parseTime :: "string \<Rightarrow> go_time option"

fun spans_of :: "exporter \<Rightarrow> (nat \<Rightarrow> span_env) \<Rightarrow> nat \<Rightarrow> entry list \<Rightarrow> otlp_span list res" where
  "spans_of x envs i [] = Inr []"
| "spans_of x envs i (en # es) =
     (case spanFromEntry (oc_Storage (ex_config x)) (ex_serverAddress x) (ex_serverPort x) (envs i) en of
        Inl er \<Rightarrow> Inl er
      | Inr s \<Rightarrow>
          (case spans_of x envs (Suc i) es of Inl er \<Rightarrow> Inl er | Inr ss \<Rightarrow> Inr (s # ss)))"

definition requestBody :: "exporter \<Rightarrow> (nat \<Rightarrow> span_env) \<Rightarrow> entry list \<Rightarrow> string res" where
  "requestBody x envs es =
     (case spans_of x envs 0 es of
        Inl er \<Rightarrow> Inl er
      | Inr spans \<Rightarrow> Inr (marshal_payload (oc_ServiceName (ex_config x)) spans))"

definition export_headers :: "exporter \<Rightarrow> header" where
  "export_headers x =
     (let h = Header_Set ''Content-Type'' ''application/json''
                (fold (\<lambda>(k, v). Header_Set k v) (ex_headers x) [])
      in if Header_Get h ''User-Agent'' = [] then Header_Set ''User-Agent'' ''mcp-audit-otlp/1'' h
         else h)"

definition export_request :: "exporter \<Rightarrow> string \<Rightarrow> upstream_request" where
  "export_request x payload =
     \<lparr>ur_Method = ''POST'', ur_URL = ex_endpoint x, ur_Header = export_headers x,
      ur_Host = u_Host (ex_endpoint x), ur_Body = payload\<rparr>"

definition success_status :: "int \<Rightarrow> bool" where
  "success_status status \<longleftrightarrow> 200 \<le> status \<and> status < 300"

definition postPayload :: "(string \<Rightarrow> go_time option) \<Rightarrow> post_env \<Rightarrow> int \<times> duration \<times> string \<times> err option" where
  "postPayload ParseTime p =
     (case po_newRequest p of
        Some er \<Rightarrow> (0, 0, [], Some er)
      | None \<Rightarrow>
          (case po_result p of
             Inl er \<Rightarrow> (0, 0, [], Some (net_err_text er))
           | Inr resp \<Rightarrow>
               if success_status (rs_StatusCode resp) then (rs_StatusCode resp, 0, [], None)
               else (rs_StatusCode resp,
                     parseRetryAfter ParseTime (Header_Get (rs_Header resp) ''Retry-After'') (po_now p),
                     take 1024 (rs_Body resp), None)))"

definition post_sent :: "exporter \<Rightarrow> post_env \<Rightarrow> string \<Rightarrow> upstream_request list" where
  "post_sent x p payload = (if po_newRequest p = None then [export_request x payload] else [])"

definition otel_retryPolicy :: "exporter \<Rightarrow> retry_policy" where
  "otel_retryPolicy x =
     (let c = ex_config x
      in \<lparr>MaxRetries = oc_MaxRetries c, InitialInterval = wrap64 (milliseconds (oc_RetryInitialMS c)),
          MaxInterval = wrap64 (milliseconds (oc_RetryMaxMS c)), Multiplier = 2,
          ShouldRetryFn = Some ShouldRetry\<rparr>)"

definition otel_record :: "exporter \<Rightarrow> metric_call list \<Rightarrow> otel_out \<Rightarrow> otel_out" where
  "otel_record x cs out =
     (if oc_Metrics (ex_config x) then out\<lparr>oo_calls := oo_calls out @ cs\<rparr> else out)"

function export_loop ::
  "exporter \<Rightarrow> flush_env \<Rightarrow> string \<Rightarrow> int \<Rightarrow> int \<Rightarrow> int \<Rightarrow> int \<Rightarrow> otel_out \<Rightarrow> delivery \<times> otel_out" where
  "export_loop x env payload spans tries attempt backoffAttempt out =
     (if \<not> attempt < tries then (Abandoned, out)
      else
        (let p = fe_post env (nat attempt);
             out1 = out\<lparr>oo_sent := oo_sent out @ post_sent x p payload\<rparr>
         in case postPayload (fe_parseTime env) p of
              (status, retryAfter, body, er) \<Rightarrow>
                if er = None \<and> success_status status
                then (Delivered, otel_record x [OTelExport ''ok'' (po_duration p) spans] out1)
                else
                  (let retryable = IsRetryable (otel_retryPolicy x) status er;
                       finalAttempt = (attempt = tries - 1)
                   in if \<not> retryable \<or> finalAttempt then
                        (let label = (if \<not> retryable then ''permanent_error'' else ''error'');
                             msg = (if er \<noteq> None then ''failed to export otlp traces''
                                    else ''otlp export rejected'')
                         in (Dropped label,
                             (otel_record x [OTelExport label (po_duration p) spans, OTelDrop label spans]
                                out1)\<lparr>oo_logs := oo_logs out1 @ [msg]\<rparr>))
                      else
                        (let delay = Delay (otel_retryPolicy x) backoffAttempt retryAfter;
                             out2 = otel_record x [OTelExport ''retry'' (po_duration p) spans] out1
                         in export_loop x env payload spans tries (attempt + 1)
                              (if retryAfter \<le> 0 then backoffAttempt + 1 else backoffAttempt)
                              (out2\<lparr>oo_delays := oo_delays out2 @ [delay]\<rparr>)))))"
  by pat_completeness auto

termination export_loop
  by (relation "measure (\<lambda>(x, env, payload, spans, tries, attempt, b, out). nat (tries - attempt))") auto

declare export_loop.simps [simp del]

definition export_attempts :: "exporter \<Rightarrow> int" where
  "export_attempts x = wrap64 (oc_MaxRetries (ex_config x) + 1)"

definition exportPayload ::
  "exporter \<Rightarrow> flush_env \<Rightarrow> string \<Rightarrow> int \<Rightarrow> otel_out \<Rightarrow> delivery \<times> otel_out" where
  "exportPayload x env payload spans out = export_loop x env payload spans (export_attempts x) 0 0 out"

definition otel_flush :: "flush_env \<Rightarrow> exporter \<Rightarrow> exporter" where
  "otel_flush env x =
     (if length (ex_batch x) = 0 then x
      else
        (case requestBody x (fe_span env) (ex_batch x) of
           Inl er \<Rightarrow>
             record_calls [OTelDrop ''encode_error'' (int (length (ex_batch x)))]
               (x\<lparr>ex_out := (ex_out x)\<lparr>oo_logs := oo_logs (ex_out x) @ [''failed to build otlp payload'']\<rparr>,
                  ex_flushed := ex_flushed x @ [(ex_batch x, Dropped ''encode_error'')]\<rparr>)
         | Inr payload \<Rightarrow>
             (case exportPayload x env payload (int (length (ex_batch x))) (ex_out x) of
                (d, out) \<Rightarrow>
                  updateQueueMetrics
                    (x\<lparr>ex_out := out, ex_flushed := ex_flushed x @ [(ex_batch x, d)]\<rparr>))))"

subsection \<open>The worker\<close>

definition otel_receive :: "flush_env \<Rightarrow> exporter \<Rightarrow> exporter" where
  "otel_receive env x =
     (case ex_queue x of
        [] \<Rightarrow> x
      | en # q \<Rightarrow>
          (let x1 = updateQueueMetrics (x\<lparr>ex_queue := q\<rparr>);
               x2 = x1\<lparr>ex_batch := ex_batch x1 @ [en]\<rparr>
           in if int (length (ex_batch x2)) \<ge> oc_BatchSize (ex_config x2)
              then (otel_flush env x2)\<lparr>ex_batch := []\<rparr> else x2))"

definition otel_drained :: "flush_env \<Rightarrow> exporter \<Rightarrow> exporter" where
  "otel_drained env x = (otel_flush env (updateQueueMetrics x))\<lparr>ex_batch := [], ex_done := True\<rparr>"

definition otel_tick :: "flush_env \<Rightarrow> exporter \<Rightarrow> exporter" where
  "otel_tick env x =
     (if length (ex_batch x) = 0 then x else (otel_flush env x)\<lparr>ex_batch := []\<rparr>)"

inductive otel_step :: "exporter \<Rightarrow> exporter \<Rightarrow> bool" where
  Export: "ExportAuditEntry en (Some x) = (r, Some x') \<Longrightarrow> otel_step x x'"
| Close: "otel_step x (Close_begin x)"
| Receive: "\<not> ex_done x \<Longrightarrow> ex_queue x \<noteq> [] \<Longrightarrow> otel_step x (otel_receive env x)"
| Drained: "\<not> ex_done x \<Longrightarrow> ex_closed x \<Longrightarrow> ex_queue x = [] \<Longrightarrow> otel_step x (otel_drained env x)"
| Tick: "\<not> ex_done x \<Longrightarrow> otel_step x (otel_tick env x)"

subsection \<open>The retry loop against its specification\<close>

type_synonym answer = "int \<times> duration \<times> string \<times> err option"

definition answer :: "flush_env \<Rightarrow> nat \<Rightarrow> answer" where
  "answer env i = postPayload (fe_parseTime env) (fe_post env i)"

definition good :: "answer \<Rightarrow> bool" where
  "good a = (case a of (status, retryAfter, body, er) \<Rightarrow> er = None \<and> success_status status)"

definition again :: "answer \<Rightarrow> bool" where
  "again a = (case a of (status, retryAfter, body, er) \<Rightarrow> ShouldRetry status er)"

definition again_after :: "answer \<Rightarrow> duration" where
  "again_after a = (case a of (status, retryAfter, body, er) \<Rightarrow> retryAfter)"

text \<open>The first answer that is not worth a retry decides.\<close>

definition verdict :: "answer list \<Rightarrow> delivery" where
  "verdict as =
     (case find (\<lambda>a. \<not> again a) as of
        Some a \<Rightarrow> if good a then Delivered else Dropped ''permanent_error''
      | None \<Rightarrow> if as = [] then Abandoned else Dropped ''error'')"

lemma good_not_again: "good a \<Longrightarrow> \<not> again a"
  by (auto simp: good_def again_def ShouldRetry_def success_status_def)

lemma verdict_simps [simp]:
  "verdict [] = Abandoned"
  "good a \<Longrightarrow> verdict (a # as) = Delivered"
  "\<not> good a \<Longrightarrow> \<not> again a \<Longrightarrow> verdict (a # as) = Dropped ''permanent_error''"
  "again a \<Longrightarrow> verdict [a] = Dropped ''error''"
  "again a \<Longrightarrow> as \<noteq> [] \<Longrightarrow> verdict (a # as) = verdict as"
  by (auto simp: verdict_def good_not_again split: option.split)

lemma retryable_again:
  "answer env i = (st, ra, body, er) \<Longrightarrow> IsRetryable (otel_retryPolicy x) st er = again (answer env i)"
  by (simp add: IsRetryable_def otel_retryPolicy_def Let_def again_def)

definition posted :: "exporter \<Rightarrow> flush_env \<Rightarrow> string \<Rightarrow> int \<Rightarrow> otel_out \<Rightarrow> otel_out" where
  "posted x env payload attempt out =
     out\<lparr>oo_sent := oo_sent out @ post_sent x (fe_post env (nat attempt)) payload\<rparr>"

definition again_out :: "exporter \<Rightarrow> flush_env \<Rightarrow> string \<Rightarrow> int \<Rightarrow> int \<Rightarrow> int \<Rightarrow> otel_out \<Rightarrow> otel_out" where
  "again_out x env payload spans attempt b out =
     (let p = fe_post env (nat attempt);
          out2 = otel_record x [OTelExport ''retry'' (po_duration p) spans] (posted x env payload attempt out)
      in out2\<lparr>oo_delays := oo_delays out2 @
           [Delay (otel_retryPolicy x) b (again_after (answer env (nat attempt)))]\<rparr>)"

lemma export_loop_over:
  "\<not> attempt < tries \<Longrightarrow> export_loop x env payload spans tries attempt b out = (Abandoned, out)"
  by (simp add: export_loop.simps)

lemma export_loop_good:
  "attempt < tries \<Longrightarrow> good (answer env (nat attempt)) \<Longrightarrow>
   export_loop x env payload spans tries attempt b out =
     (Delivered, otel_record x [OTelExport ''ok'' (po_duration (fe_post env (nat attempt))) spans]
        (posted x env payload attempt out))"
  by (cases "answer env (nat attempt)")
    (simp add: export_loop.simps [of _ _ _ _ _ attempt] good_def answer_def posted_def Let_def)

lemma export_loop_stop:
  assumes "attempt < tries" "\<not> good (answer env (nat attempt))"
    "\<not> again (answer env (nat attempt)) \<or> attempt = tries - 1"
  defines "label \<equiv> (if \<not> again (answer env (nat attempt)) then ''permanent_error'' else ''error'')"
  shows "\<exists>l. export_loop x env payload spans tries attempt b out =
     (Dropped label,
      (otel_record x [OTelExport label (po_duration (fe_post env (nat attempt))) spans, OTelDrop label spans]
         (posted x env payload attempt out))\<lparr>oo_logs := l\<rparr>)"
proof (cases "answer env (nat attempt)")
  case a: (fields st ra body er)
  then have ng: "(er = None \<and> success_status st) = False" using assms(2) by (simp add: good_def)
  show ?thesis
    unfolding export_loop.simps [of x env payload spans tries attempt b out]
    using assms(1,3) a retryable_again [OF a, of x]
    by (auto simp: answer_def [symmetric] posted_def Let_def label_def ng)
qed

lemma export_loop_again:
  assumes "attempt < tries" "again (answer env (nat attempt))" "attempt \<noteq> tries - 1"
  shows "\<exists>b'. (b' = b \<or> b' = b + 1) \<and> export_loop x env payload spans tries attempt b out =
     export_loop x env payload spans tries (attempt + 1) b' (again_out x env payload spans attempt b out)"
proof (cases "answer env (nat attempt)")
  case a: (fields st ra body er)
  have ng: "(er = None \<and> success_status st) = False"
    using good_not_again [of "answer env (nat attempt)"] assms(2) a by (auto simp: good_def)
  have "export_loop x env payload spans tries attempt b out =
     export_loop x env payload spans tries (attempt + 1) (if ra \<le> 0 then b + 1 else b)
       (again_out x env payload spans attempt b out)"
    using assms a retryable_again [OF a, of x]
    by (simp add: export_loop.simps [of _ _ _ _ _ attempt] answer_def [symmetric] posted_def
        again_out_def again_after_def Let_def ng)
  then show ?thesis by (intro exI [of _ "if ra \<le> 0 then b + 1 else b"]) simp
qed

lemma attempts_upt: "0 \<le> a \<Longrightarrow> a < n \<Longrightarrow> [nat a..<nat n] = nat a # [nat (a + 1)..<nat n]" for a n :: int
  by (simp add: upt_conv_Cons nat_add_distrib)

lemma export_loop_verdict:
  assumes "0 \<le> attempt"
  shows "fst (export_loop x env payload spans tries attempt b out) =
     verdict (map (answer env) [nat attempt..<nat tries])"
  using assms
proof (induction "nat (tries - attempt)" arbitrary: attempt b out)
  case 0
  then show ?case by (simp add: export_loop_over)
next
  case (Suc n)
  then have lt: "attempt < tries" by simp
  note up = attempts_upt [OF Suc.prems lt]
  consider (good) "good (answer env (nat attempt))"
    | (stop) "\<not> good (answer env (nat attempt))" "\<not> again (answer env (nat attempt)) \<or> attempt = tries - 1"
    | (more) "again (answer env (nat attempt))" "attempt \<noteq> tries - 1" by blast
  then show ?case
  proof cases
    case good
    then show ?thesis by (simp add: export_loop_good lt up)
  next
    case stop
    from export_loop_stop [OF lt stop, of x payload spans b out] stop show ?thesis by (auto simp: up)
  next
    case more
    from export_loop_again [OF lt more, of b x payload spans out] obtain b' where
      l: "export_loop x env payload spans tries attempt b out =
        export_loop x env payload spans tries (attempt + 1) b' (again_out x env payload spans attempt b out)"
      by blast
    have "n = nat (tries - (attempt + 1))" "0 \<le> attempt + 1" using Suc.hyps(2) Suc.prems by simp_all
    from Suc.hyps(1) [OF this] more lt Suc.prems show ?thesis by (simp add: l up)
  qed
qed

subsection \<open>What the retry loop does to the outside\<close>

definition drop_sum :: "string \<Rightarrow> metric_call list \<Rightarrow> int" where
  "drop_sum s cs = sum_list (map (drop_part [s]) cs)"

definition ok_sum :: "metric_call list \<Rightarrow> int" where
  "ok_sum cs = sum_list (map (span_part [''ok'']) cs)"

lemma sums_append [simp]:
  "drop_sum s [] = 0" "drop_sum s (cs @ ds) = drop_sum s cs + drop_sum s ds"
  "ok_sum [] = 0" "ok_sum (cs @ ds) = ok_sum cs + ok_sum ds"
  by (simp_all add: drop_sum_def ok_sum_def)

lemma sums_Cons [simp]:
  "drop_sum s (c # cs) = drop_part [s] c + drop_sum s cs" "ok_sum (c # cs) = span_part [''ok''] c + ok_sum cs"
  by (simp_all add: drop_sum_def ok_sum_def)

lemma parts [simp]:
  "drop_part l (OTelExport r d n) = 0" "span_part l (OTelDrop r n) = 0"
  "drop_part l (OTelQueueDepth k) = 0" "span_part l (OTelQueueDepth k) = 0"
  "drop_part l (OTelQueueCapacity k) = 0" "span_part l (OTelQueueCapacity k) = 0"
  "r \<noteq> [] \<Longrightarrow> ValidString r \<Longrightarrow> drop_part [s] (OTelDrop r n) = (if r = s then max 0 n else 0)"
  "r \<noteq> [] \<Longrightarrow> r \<noteq> ''ok'' \<Longrightarrow> span_part [''ok''] (OTelExport r d n) = 0"
  "span_part [''ok''] (OTelExport ''ok'' d n) = max 0 n"
  by (auto simp: drop_part_def span_part_def or_unknown_def)

definition effect :: "exporter \<Rightarrow> string \<Rightarrow> int \<Rightarrow> delivery \<Rightarrow> nat \<Rightarrow> otel_out \<Rightarrow> otel_out \<Rightarrow> bool" where
  "effect x payload spans d n out out' \<longleftrightarrow>
     (\<exists>cs ss ds.
        oo_calls out' = oo_calls out @ (if oc_Metrics (ex_config x) then cs else []) \<and>
        (\<forall>s. drop_sum s cs = (if d = Dropped s then max 0 spans else 0)) \<and>
        ok_sum cs = (if d = Delivered then max 0 spans else 0) \<and>
        oo_sent out' = oo_sent out @ ss \<and> set ss \<subseteq> {export_request x payload} \<and> length ss \<le> n \<and>
        oo_delays out' = oo_delays out @ ds \<and>
        (\<forall>t \<in> set ds. \<exists>b ra. 0 \<le> b \<and> t = Delay (otel_retryPolicy x) b ra))"

lemma otel_record_sel [simp]:
  "oo_calls (otel_record x cs out) = oo_calls out @ (if oc_Metrics (ex_config x) then cs else [])"
  "oo_sent (otel_record x cs out) = oo_sent out" "oo_delays (otel_record x cs out) = oo_delays out"
  by (simp_all add: otel_record_def)

lemma posted_sel [simp]:
  "oo_calls (posted x env payload a out) = oo_calls out"
  "oo_delays (posted x env payload a out) = oo_delays out"
  "\<exists>ss. oo_sent (posted x env payload a out) = oo_sent out @ ss \<and> set ss \<subseteq> {export_request x payload} \<and>
     length ss \<le> 1"
  by (auto simp: posted_def post_sent_def)

lemma effect_last:
  assumes "oo_calls out' = oo_calls out @ (if oc_Metrics (ex_config x) then cs else [])"
    "\<And>s. drop_sum s cs = (if d = Dropped s then max 0 spans else 0)"
    "ok_sum cs = (if d = Delivered then max 0 spans else 0)"
    "oo_sent out' = oo_sent (posted x env payload a out)" "oo_delays out' = oo_delays out" "1 \<le> n"
  shows "effect x payload spans d n out out'"
proof -
  obtain ss where "oo_sent (posted x env payload a out) = oo_sent out @ ss"
    "set ss \<subseteq> {export_request x payload}" "length ss \<le> 1" using posted_sel(3) by blast
  with assms show ?thesis unfolding effect_def by (intro exI [of _ cs] exI [of _ ss] exI [of _ "[]"]) simp
qed

lemma effect_again:
  assumes "0 \<le> b" "effect x payload spans d n (again_out x env payload spans a b out) out'"
  shows "effect x payload spans d (Suc n) out out'"
proof -
  let ?o = "again_out x env payload spans a b out"
  let ?c = "OTelExport ''retry'' (po_duration (fe_post env (nat a))) spans"
  let ?d = "Delay (otel_retryPolicy x) b (again_after (answer env (nat a)))"
  obtain ss where s: "oo_sent (posted x env payload a out) = oo_sent out @ ss"
    "set ss \<subseteq> {export_request x payload}" "length ss \<le> 1" using posted_sel(3) by blast
  have o: "oo_calls ?o = oo_calls out @ (if oc_Metrics (ex_config x) then [?c] else [])"
    "oo_sent ?o = oo_sent out @ ss" "oo_delays ?o = oo_delays out @ [?d]"
    by (simp_all add: again_out_def Let_def s)
  from assms(2) obtain cs ss' ds where
    "oo_calls out' = oo_calls ?o @ (if oc_Metrics (ex_config x) then cs else [])"
    "\<forall>s. drop_sum s cs = (if d = Dropped s then max 0 spans else 0)"
    "ok_sum cs = (if d = Delivered then max 0 spans else 0)"
    "oo_sent out' = oo_sent ?o @ ss'" "set ss' \<subseteq> {export_request x payload}" "length ss' \<le> n"
    "oo_delays out' = oo_delays ?o @ ds"
    "\<forall>t \<in> set ds. \<exists>b ra. 0 \<le> b \<and> t = Delay (otel_retryPolicy x) b ra"
    unfolding effect_def by blast
  with o s assms(1) show ?thesis unfolding effect_def
    by (intro exI [of _ "?c # cs"] exI [of _ "ss @ ss'"] exI [of _ "?d # ds"]) auto
qed

lemma export_loop_effect:
  assumes "0 \<le> attempt" "0 \<le> b" "export_loop x env payload spans tries attempt b out = (d, out')"
  shows "effect x payload spans d (nat (tries - attempt)) out out'"
  using assms
proof (induction "nat (tries - attempt)" arbitrary: attempt b out)
  case 0
  then have "d = Abandoned" "out' = out" by (simp_all add: export_loop_over)
  then show ?case unfolding effect_def by (auto intro!: exI [of _ "[]"])
next
  case (Suc n)
  then have lt: "attempt < tries" by simp
  let ?a = "answer env (nat attempt)"
  consider (good) "good ?a" | (stop) "\<not> good ?a" "\<not> again ?a \<or> attempt = tries - 1"
    | (more) "again ?a" "attempt \<noteq> tries - 1" by blast
  then show ?case
  proof cases
    case good
    have "d = Delivered" "out' = otel_record x [OTelExport ''ok'' (po_duration (fe_post env (nat attempt))) spans]
        (posted x env payload attempt out)"
      using Suc.prems(3) export_loop_good [OF lt good, of x payload spans b out] by simp_all
    with Suc.hyps(2) show ?thesis by (intro effect_last [of _ _ _ "[OTelExport ''ok'' _ spans]"]) auto
  next
    case stop
    let ?l = "if \<not> again ?a then ''permanent_error'' else ''error''"
    from export_loop_stop [OF lt stop, of x payload spans b out] Suc.prems(3)
    obtain l where o: "d = Dropped ?l" "out' = (otel_record x [OTelExport ?l (po_duration (fe_post env (nat attempt))) spans,
        OTelDrop ?l spans] (posted x env payload attempt out))\<lparr>oo_logs := l\<rparr>" by auto
    show ?thesis
      by (rule effect_last [of _ _ _ "[OTelExport ?l (po_duration (fe_post env (nat attempt))) spans, OTelDrop ?l spans]"])
        (use Suc.hyps(2) in \<open>simp_all add: o\<close>)
  next
    case more
    from export_loop_again [OF lt more, of b x payload spans out] obtain b' where
      b': "b' = b \<or> b' = b + 1" and
      l: "export_loop x env payload spans tries (attempt + 1) b' (again_out x env payload spans attempt b out) = (d, out')"
      unfolding Suc.prems(3) by metis
    have n: "n = nat (tries - (attempt + 1))" "0 \<le> attempt + 1" "0 \<le> b'"
      using Suc.hyps(2) Suc.prems(1,2) b' by auto
    from Suc.hyps(1) [OF n l] effect_again [OF Suc.prems(2)] show ?thesis
      unfolding Suc.hyps(2) [symmetric] n(1) [symmetric] by blast
  qed
qed

subsection \<open>Delays\<close>

lemma defaults_wf:
  "0 < oc_QueueSize (otel_defaults c)" "0 < oc_BatchSize (otel_defaults c)"
  "0 \<le> oc_MaxRetries (otel_defaults c)" "0 < oc_RetryInitialMS (otel_defaults c)"
  "oc_RetryInitialMS (otel_defaults c) \<le> oc_RetryMaxMS (otel_defaults c)"
  by (simp_all add: otel_defaults_def or_default_def Let_def defaultQueueSize_def defaultBatchSize_def
      defaultRetryInitialMS_def defaultRetryMaxMS_def)

lemma record_calls_sel [simp]:
  "ex_config (record_calls cs x) = ex_config x" "ex_endpoint (record_calls cs x) = ex_endpoint x"
  "ex_queue (record_calls cs x) = ex_queue x" "ex_batch (record_calls cs x) = ex_batch x"
  "ex_closed (record_calls cs x) = ex_closed x" "ex_done (record_calls cs x) = ex_done x"
  "ex_accepted (record_calls cs x) = ex_accepted x" "ex_refused (record_calls cs x) = ex_refused x"
  "ex_flushed (record_calls cs x) = ex_flushed x"
  "oo_sent (ex_out (record_calls cs x)) = oo_sent (ex_out x)"
  "oo_calls (ex_out (record_calls cs x)) =
     oo_calls (ex_out x) @ (if oc_Metrics (ex_config x) then cs else [])"
  by (simp_all add: record_calls_def)

lemma queue_metrics_sel [simp]:
  "ex_config (updateQueueMetrics x) = ex_config x" "ex_endpoint (updateQueueMetrics x) = ex_endpoint x"
  "ex_queue (updateQueueMetrics x) = ex_queue x" "ex_batch (updateQueueMetrics x) = ex_batch x"
  "ex_closed (updateQueueMetrics x) = ex_closed x" "ex_done (updateQueueMetrics x) = ex_done x"
  "ex_accepted (updateQueueMetrics x) = ex_accepted x" "ex_refused (updateQueueMetrics x) = ex_refused x"
  "ex_flushed (updateQueueMetrics x) = ex_flushed x"
  "oo_sent (ex_out (updateQueueMetrics x)) = oo_sent (ex_out x)"
  "drop_sum s (oo_calls (ex_out (updateQueueMetrics x))) = drop_sum s (oo_calls (ex_out x))"
  "ok_sum (oo_calls (ex_out (updateQueueMetrics x))) = ok_sum (oo_calls (ex_out x))"
  by (simp_all add: updateQueueMetrics_def)

lemma NewExporter_fields:
  assumes "NewExporter fs c = Inr x"
  shows "ex_config x = otel_defaults c" "ex_queue x = []" "ex_batch x = []" "\<not> ex_closed x" "\<not> ex_done x"
    "ex_accepted x = []" "ex_refused x = []" "ex_flushed x = []" "oo_sent (ex_out x) = []"
    "drop_sum s (oo_calls (ex_out x)) = 0" "ok_sum (oo_calls (ex_out x)) = 0"
    "\<exists>u. tracesEndpoint (oc_Endpoint (otel_defaults c)) = Inr u \<and> ex_endpoint x = u"
  using assms
  by (auto simp: NewExporter_def Let_def split: sum.splits prod.splits)

text \<open>
  The one overflow of \<open>Delay\<close> cannot happen here: intervals are whole milliseconds, so that a
  doubled interval is a multiple of five and never \<open>2 ^ 63\<close>.
\<close>

lemma raw_delay_milliseconds:
  assumes "InitialInterval p = milliseconds n" "Multiplier p = 2"
  shows "raw_delay p attempt \<noteq> float_max_int64"
proof
  assume "raw_delay p attempt = float_max_int64"
  then have "real_of_int (milliseconds n * 2 ^ nat attempt) = real_of_int 9223372036854775808"
    by (simp add: raw_delay_eq assms backoff_multiplier_def float_max_int64_def)
  then have "milliseconds n * 2 ^ nat attempt = 9223372036854775808" by (simp only: of_int_eq_iff)
  moreover have "5 dvd milliseconds n * 2 ^ nat attempt" by (simp add: milliseconds_def)
  ultimately show False by simp
qed

lemma otel_delay_bounds:
  assumes "ex_config x = otel_defaults c" "int64 (milliseconds (oc_RetryMaxMS (otel_defaults c)))"
  shows "0 < Delay (otel_retryPolicy x) b ra \<and>
     Delay (otel_retryPolicy x) b ra \<le> milliseconds (oc_RetryMaxMS (otel_defaults c))"
proof -
  let ?p = "otel_retryPolicy x"
  have le: "milliseconds (oc_RetryInitialMS (otel_defaults c)) \<le> milliseconds (oc_RetryMaxMS (otel_defaults c))"
    and pos: "0 < milliseconds (oc_RetryInitialMS (otel_defaults c))"
    using defaults_wf [of c] by (simp_all add: milliseconds_def)
  then have "int64 (milliseconds (oc_RetryInitialMS (otel_defaults c)))"
    using assms(2) by (simp add: int64_def min_int64_def)
  then have f: "InitialInterval ?p = milliseconds (oc_RetryInitialMS (otel_defaults c))"
    "MaxInterval ?p = milliseconds (oc_RetryMaxMS (otel_defaults c))" "Multiplier ?p = 2" and wf: "policy_wf ?p"
    using assms pos by (simp_all add: otel_retryPolicy_def Let_def policy_wf_def)
  from Delay_bounded [OF wf raw_delay_milliseconds [OF f(1,3)], where retryAfter = ra and attempt = b] f le pos show ?thesis
    by (cases "ra \<le> 0") auto
qed

text \<open>
  C30: One export. For an exporter built by the constructor, with a number of retries below the
  64-bit maximum and a maximal interval that fits, the outcome of an export is decided by the
  first of at most \<open>MaxRetries + 1\<close> answers that is not worth a retry: a success delivers the
  batch, another answer drops it as permanent, and when every answer asks for a retry it is dropped
  after the last. At most \<open>MaxRetries + 1\<close> requests are sent, all of them the same \<open>POST\<close>; every
  wait is positive and at most the maximal interval, whatever the collector asks for; and exactly
  one of the counters for delivered and dropped spans grows, by the number of spans.
\<close>
theorem export_exact:
  assumes "NewExporter fs c = Inr x0" "ex_config x = ex_config x0"
    and "oc_MaxRetries c < max_int64" "int64 (milliseconds (oc_RetryMaxMS (otel_defaults c)))"
    and "0 \<le> spans" "exportPayload x env payload spans out = (d, out')"
  defines "n \<equiv> Suc (nat (oc_MaxRetries (otel_defaults c)))"
  shows "d = verdict (map (answer env) [0..<n]) \<and> d \<noteq> Abandoned \<and>
     (\<exists>cs ss ds. oo_sent out' = oo_sent out @ ss \<and> length ss \<le> n \<and> set ss \<subseteq> {export_request x payload} \<and>
        oo_delays out' = oo_delays out @ ds \<and>
        (\<forall>t \<in> set ds. 0 < t \<and> t \<le> milliseconds (oc_RetryMaxMS (otel_defaults c))) \<and>
        oo_calls out' = oo_calls out @ (if oc_Metrics (ex_config x) then cs else []) \<and>
        (\<forall>s. drop_sum s cs = (if d = Dropped s then spans else 0)) \<and>
        ok_sum cs = (if d = Delivered then spans else 0))"
proof -
  have c: "ex_config x = otel_defaults c" using NewExporter_fields(1) [OF assms(1)] assms(2) by simp
  have m: "0 \<le> oc_MaxRetries (otel_defaults c)" "oc_MaxRetries (otel_defaults c) < max_int64"
    using assms(3) by (simp_all add: otel_defaults_def Let_def max_int64_def)
  then have "int64 (oc_MaxRetries (otel_defaults c) + 1)" by (simp add: int64_def min_int64_def)
  with m have a: "export_attempts x = oc_MaxRetries (otel_defaults c) + 1" "nat (export_attempts x) = n"
    by (simp_all add: export_attempts_def c n_def nat_add_distrib)
  from assms(6) have l: "export_loop x env payload spans (export_attempts x) 0 0 out = (d, out')"
    by (simp add: exportPayload_def)
  from export_loop_verdict [of 0 x env payload spans "export_attempts x" 0 out] l a(2)
  have v: "d = verdict (map (answer env) [0..<n])" by simp
  moreover have "verdict (map (answer env) [0..<n]) \<noteq> Abandoned"
    by (simp add: verdict_def n_def split: option.split)
  moreover have "effect x payload spans d n out out'"
    using export_loop_effect [OF order_refl order_refl l] a(2) by simp
  then obtain cs ss ds where e:
    "oo_calls out' = oo_calls out @ (if oc_Metrics (ex_config x) then cs else [])"
    "\<forall>s. drop_sum s cs = (if d = Dropped s then max 0 spans else 0)"
    "ok_sum cs = (if d = Delivered then max 0 spans else 0)"
    "oo_sent out' = oo_sent out @ ss" "set ss \<subseteq> {export_request x payload}" "length ss \<le> n"
    "oo_delays out' = oo_delays out @ ds"
    "\<forall>t \<in> set ds. \<exists>b ra. 0 \<le> b \<and> t = Delay (otel_retryPolicy x) b ra" unfolding effect_def by blast
  have "\<forall>t \<in> set ds. 0 < t \<and> t \<le> milliseconds (oc_RetryMaxMS (otel_defaults c))"
    using otel_delay_bounds [OF c assms(4)] e(8) by metis
  ultimately show ?thesis using e assms(5) by (intro conjI exI [of _ cs] exI [of _ ss] exI [of _ ds]) auto
qed

subsection \<open>Accounting\<close>

definition dropped_spans :: "string \<Rightarrow> (entry list \<times> delivery) list \<Rightarrow> int" where
  "dropped_spans s fl = sum_list (map (\<lambda>(b, d). if d = Dropped s then int (length b) else 0) fl)"

definition delivered_spans :: "(entry list \<times> delivery) list \<Rightarrow> int" where
  "delivered_spans fl = sum_list (map (\<lambda>(b, d). if d = Delivered then int (length b) else 0) fl)"

lemma spans_append [simp]:
  "dropped_spans s [] = 0" "delivered_spans [] = 0"
  "dropped_spans s (fl @ [(b, d)]) = dropped_spans s fl + (if d = Dropped s then int (length b) else 0)"
  "delivered_spans (fl @ [(b, d)]) = delivered_spans fl + (if d = Delivered then int (length b) else 0)"
  by (simp_all add: dropped_spans_def delivered_spans_def)

definition counted :: "exporter \<Rightarrow> bool" where
  "counted x \<longleftrightarrow>
     (oc_Metrics (ex_config x) \<longrightarrow>
        (\<forall>s. drop_sum s (oo_calls (ex_out x)) = dropped_spans s (ex_flushed x) +
           (if s = ''queue_full'' then int (length (ex_refused x)) else 0)) \<and>
        ok_sum (oo_calls (ex_out x)) = delivered_spans (ex_flushed x)) \<and>
     length (oo_sent (ex_out x)) \<le> nat (export_attempts x) * length (ex_flushed x) \<and>
     (Abandoned \<in> snd ` set (ex_flushed x) \<longrightarrow> export_attempts x \<le> 0)"

lemma otel_flush_sel [simp]:
  "ex_config (otel_flush env x) = ex_config x" "ex_queue (otel_flush env x) = ex_queue x"
  "ex_closed (otel_flush env x) = ex_closed x" "ex_done (otel_flush env x) = ex_done x"
  "ex_accepted (otel_flush env x) = ex_accepted x" "ex_refused (otel_flush env x) = ex_refused x"
  "concat (map fst (ex_flushed (otel_flush env x))) = concat (map fst (ex_flushed x)) @ ex_batch x"
  by (simp_all add: otel_flush_def split: sum.split prod.split)

lemma flush_counted:
  assumes "counted x"
  shows "counted (otel_flush env x)"
proof (cases "ex_batch x = []")
  case True
  with assms show ?thesis by (simp add: otel_flush_def)
next
  case False
  show ?thesis
  proof (cases "requestBody x (fe_span env) (ex_batch x)")
    case (Inl er)
    with False assms show ?thesis
      by (auto simp: otel_flush_def counted_def export_attempts_def)
  next
    case (Inr payload)
    let ?n = "int (length (ex_batch x))"
    obtain d out where e: "exportPayload x env payload ?n (ex_out x) = (d, out)" by fastforce
    then have l: "export_loop x env payload ?n (export_attempts x) 0 0 (ex_out x) = (d, out)"
      by (simp add: exportPayload_def)
    have "d = Abandoned \<longrightarrow> export_attempts x \<le> 0"
      using export_loop_verdict [of 0 x env payload ?n "export_attempts x" 0 "ex_out x"] l
      by (auto simp: verdict_def split: option.splits if_splits)
    moreover from export_loop_effect [OF order_refl order_refl l] have
      "effect x payload ?n d (nat (export_attempts x)) (ex_out x) out" by simp
    then obtain cs ss where
      "oo_calls out = oo_calls (ex_out x) @ (if oc_Metrics (ex_config x) then cs else [])"
      "\<forall>s. drop_sum s cs = (if d = Dropped s then ?n else 0)" "ok_sum cs = (if d = Delivered then ?n else 0)"
      "oo_sent out = oo_sent (ex_out x) @ ss" "length ss \<le> nat (export_attempts x)"
      unfolding effect_def by auto
    ultimately show ?thesis using False assms
      by (auto simp: otel_flush_def Inr e counted_def export_attempts_def)
  qed
qed

definition otel_inv :: "exporter \<Rightarrow> bool" where
  "otel_inv x \<longleftrightarrow>
     ex_accepted x = concat (map fst (ex_flushed x)) @ ex_batch x @ ex_queue x \<and>
     length (ex_queue x) \<le> queue_cap x \<and>
     int (length (ex_batch x)) < oc_BatchSize (ex_config x) \<and>
     (ex_done x \<longrightarrow> ex_closed x \<and> ex_batch x = [] \<and> ex_queue x = []) \<and> counted x"

lemma counted_upd [simp]:
  "counted (updateQueueMetrics x) = counted x"
  "counted (x\<lparr>ex_batch := b\<rparr>) = counted x" "counted (x\<lparr>ex_queue := q\<rparr>) = counted x"
  "counted (x\<lparr>ex_closed := c\<rparr>) = counted x" "counted (x\<lparr>ex_done := c\<rparr>) = counted x"
  "counted (x\<lparr>ex_accepted := a\<rparr>) = counted x"
  by (simp_all add: counted_def export_attempts_def)

lemma counted_refused:
  "counted x \<Longrightarrow> counted (record_calls [OTelDrop ''queue_full'' 1] (x\<lparr>ex_refused := ex_refused x @ [en]\<rparr>))"
  by (auto simp: counted_def export_attempts_def)

lemma queue_cap_cong: "ex_config x = ex_config y \<Longrightarrow> queue_cap x = queue_cap y"
  by (simp add: queue_cap_def)

lemma otel_step_config: "otel_step x x' \<Longrightarrow> ex_config x' = ex_config x"
  by (induction rule: otel_step.induct)
    (auto simp: ExportAuditEntry_def Close_begin_def otel_receive_def otel_drained_def otel_tick_def Let_def
      split: if_splits list.splits)

lemma otel_step_inv:
  assumes "otel_step x x'" "otel_inv x" "0 < oc_BatchSize (ex_config x)"
  shows "otel_inv x'"
  using assms
proof (induction rule: otel_step.induct)
  case (Export en x r x')
  then show ?case
    by (auto simp: ExportAuditEntry_def otel_inv_def queue_cap_def counted_refused split: if_splits)
next
  case (Close x)
  then show ?case by (auto simp: Close_begin_def otel_inv_def queue_cap_def)
next
  case (Receive x env)
  then obtain en q where q: "ex_queue x = en # q" by (cases "ex_queue x") auto
  let ?x = "(updateQueueMetrics (x\<lparr>ex_queue := q\<rparr>))\<lparr>ex_batch := ex_batch x @ [en]\<rparr>"
  have "counted ?x" using Receive.prems(1) by (simp add: otel_inv_def)
  then have "counted (otel_flush env ?x)" by (rule flush_counted)
  with Receive show ?case by (auto simp: otel_receive_def q otel_inv_def queue_cap_def Let_def)
next
  case (Drained x env)
  have "counted (otel_flush env (updateQueueMetrics x))"
    using Drained.prems(1) by (intro flush_counted) (simp add: otel_inv_def)
  with Drained show ?case by (auto simp: otel_drained_def otel_inv_def queue_cap_def)
next
  case (Tick x env)
  have "counted (otel_flush env x)" using Tick.prems(1) by (intro flush_counted) (simp add: otel_inv_def)
  with Tick show ?case by (auto simp: otel_tick_def otel_inv_def queue_cap_def)
qed

lemma otel_reach_inv:
  assumes "otel_step\<^sup>*\<^sup>* x x'" "otel_inv x" "0 < oc_BatchSize (ex_config x)"
  shows "otel_inv x' \<and> ex_config x' = ex_config x"
  using assms(1)
proof (induction rule: rtranclp_induct)
  case base
  from assms(2) show ?case by simp
next
  case (step y z)
  with assms(3) otel_step_inv [of y z] otel_step_config [of y z] show ?case by simp
qed

lemma otel_drains:
  assumes "ex_closed x" "ex_done x \<or> length (ex_queue x) = n"
  shows "\<exists>x'. otel_step\<^sup>*\<^sup>* x x' \<and> ex_done x' \<and> ex_accepted x' = ex_accepted x"
  using assms
proof (induction n arbitrary: x)
  case 0
  show ?case
  proof (cases "ex_done x")
    case False
    with 0 have "otel_step x (otel_drained undefined x)" by (intro otel_step.Drained) auto
    then show ?thesis by (intro exI [of _ "otel_drained undefined x"]) (simp add: otel_drained_def)
  qed auto
next
  case (Suc n)
  show ?case
  proof (cases "ex_done x")
    case False
    let ?x = "otel_receive undefined x"
    from False Suc.prems have l: "length (ex_queue x) = Suc n" by simp
    then have s: "otel_step x ?x" using False by (intro otel_step.Receive) auto
    from l obtain en q where q: "ex_queue x = en # q" by (cases "ex_queue x") auto
    have "ex_closed ?x" "length (ex_queue ?x) = n" "ex_accepted ?x = ex_accepted x"
      using Suc.prems(1) l by (simp_all add: otel_receive_def q Let_def)
    with Suc.IH [of ?x] obtain x' where "otel_step\<^sup>*\<^sup>* ?x x'" "ex_done x'" "ex_accepted x' = ex_accepted x" by auto
    with s show ?thesis by (meson converse_rtranclp_into_rtranclp)
  qed auto
qed

text \<open>
  C29: No span is lost without a trace. Over every interleaving of clients, the ticker, the worker and
  shutdown, and any answers of the collector, the entries the queue accepted are, in order, those of
  the batches that were flushed, the batch of the worker and the queue, which never exceeds its
  capacity. With metrics on, the counters say exactly how many spans were delivered and how many
  were dropped for each reason, refusals of a full queue included. No batch is abandoned unless the
  number of attempts overflowed 64 bits. At most that many requests are sent per batch. Once the
  worker has ended nothing is left, and after \<open>Close\<close> it can always end.
\<close>
theorem otel_accounts:
  assumes "NewExporter fs c = Inr x0" "otel_step\<^sup>*\<^sup>* x0 x"
  shows "ex_accepted x = concat (map fst (ex_flushed x)) @ ex_batch x @ ex_queue x \<and>
     int (length (ex_queue x)) \<le> oc_QueueSize (otel_defaults c) \<and>
     (ex_done x \<longrightarrow> ex_accepted x = concat (map fst (ex_flushed x))) \<and>
     (oc_Metrics c \<longrightarrow>
        (\<forall>s. drop_sum s (oo_calls (ex_out x)) = dropped_spans s (ex_flushed x) +
           (if s = ''queue_full'' then int (length (ex_refused x)) else 0)) \<and>
        ok_sum (oo_calls (ex_out x)) = delivered_spans (ex_flushed x)) \<and>
     length (oo_sent (ex_out x)) \<le> nat (export_attempts x) * length (ex_flushed x) \<and>
     (oc_MaxRetries c < max_int64 \<longrightarrow> Abandoned \<notin> snd ` set (ex_flushed x)) \<and>
     (ex_closed x \<longrightarrow> (\<exists>x'. otel_step\<^sup>*\<^sup>* x x' \<and> ex_done x' \<and> ex_accepted x' = ex_accepted x))"
proof -
  note n = NewExporter_fields [OF assms(1)]
  have "otel_inv x0"
    using defaults_wf [of c] by (simp add: otel_inv_def counted_def n)
  with otel_reach_inv [OF assms(2)] defaults_wf(2) [of c] have i: "otel_inv x" and cf: "ex_config x = otel_defaults c"
    by (simp_all add: n(1))
  have "0 < export_attempts x" if "oc_MaxRetries c < max_int64"
  proof -
    have "int64 (oc_MaxRetries (otel_defaults c) + 1)" "0 \<le> oc_MaxRetries (otel_defaults c)"
      using that by (auto simp: int64_def otel_defaults_def Let_def max_int64_def min_int64_def)
    then show ?thesis by (simp add: export_attempts_def cf)
  qed
  moreover have "oc_Metrics (ex_config x) = oc_Metrics c"
    by (simp add: cf otel_defaults_def Let_def)
  moreover have "ex_closed x \<Longrightarrow> \<exists>x'. otel_step\<^sup>*\<^sup>* x x' \<and> ex_done x' \<and> ex_accepted x' = ex_accepted x"
    by (rule otel_drains) auto
  moreover have "int (length (ex_queue x)) \<le> oc_QueueSize (otel_defaults c)"
    using i defaults_wf(1) [of c] by (auto simp: otel_inv_def queue_cap_def cf)
  ultimately show ?thesis using i by (auto simp: otel_inv_def counted_def)
qed

subsection \<open>Examples\<close>

definition demo_otel_config :: otel_config where
  "demo_otel_config =
     \<lparr>oc_Endpoint = [], oc_ServiceName = [], oc_Storage = ''sqlite'', oc_Upstream = ''http://h'',
      oc_Headers = [(''X-Key'', ''k'')], oc_TLSCAFile = [], oc_TLSServerName = [],
      oc_TLSInsecureSkipVerify = False, oc_QueueSize = 1, oc_BatchSize = 1, oc_FlushIntervalMS = 0,
      oc_TimeoutMS = 0, oc_MaxRetries = 1, oc_RetryInitialMS = 0, oc_RetryMaxMS = 0,
      oc_Metrics = True\<rparr>"

definition demo_key_files :: key_files where
  "demo_key_files = \<lparr>read_file = (\<lambda>_. Inl []), valid_pem = (\<lambda>_. False), load_pair = (\<lambda>_ _. None)\<rparr>"

definition demo_exporter :: exporter where
  "demo_exporter = (case NewExporter demo_key_files demo_otel_config of Inr x \<Rightarrow> x)"

definition demo_flush_env :: "int \<Rightarrow> flush_env" where
  "demo_flush_env status =
     \<lparr>fe_span = (\<lambda>_. demo_span_env),
      fe_post = (\<lambda>_. \<lparr>po_newRequest = None,
        po_result = Inr \<lparr>rs_StatusCode = status, rs_Header = [], rs_Body = [], rs_Error = None\<rparr>,
        po_now = 0, po_duration = 5\<rparr>),
      fe_parseTime = (\<lambda>_. None)\<rparr>"

lemma demo_exporter_new: "NewExporter demo_key_files demo_otel_config = Inr demo_exporter"
proof -
  have "case NewExporter demo_key_files demo_otel_config of Inl er \<Rightarrow> False | Inr x \<Rightarrow> True" by code_simp
  then show ?thesis by (simp add: demo_exporter_def split: sum.splits)
qed

definition demo_export :: "exporter \<Rightarrow> exporter" where
  "demo_export x = the (snd (ExportAuditEntry demo_span_entry (Some x)))"

lemma demo_export_step: "otel_step x (demo_export x)"
  by (rule otel_step.Export [of demo_span_entry _ "fst (ExportAuditEntry demo_span_entry (Some x))"])
    (simp add: demo_export_def ExportAuditEntry_def)

lemma demo_delivers:
  assumes "ex_config x = otel_defaults demo_otel_config" "ex_batch x = [demo_span_entry]"
  shows "ex_flushed (otel_flush (demo_flush_env 200) x) = ex_flushed x @ [([demo_span_entry], Delivered)]"
proof -
  let ?env = "demo_flush_env 200"
  obtain payload where p: "requestBody x (fe_span ?env) [demo_span_entry] = Inr payload"
    by (simp add: requestBody_def spanFromEntry_def demo_flush_env_def demo_span_env_def randomHex_def case_prod_beta)
  have n: "wrap64 (oc_MaxRetries (otel_defaults demo_otel_config) + 1) = 2"
    "verdict (map (answer ?env) [0..<2]) = Delivered" by code_simp+
  obtain d out where e: "exportPayload x ?env payload 1 (ex_out x) = (d, out)" by fastforce
  then have "d = Delivered"
    using export_loop_verdict [of 0 x ?env payload 1 2 0 "ex_out x"] n
    by (simp add: exportPayload_def export_attempts_def assms(1))
  with e p assms(2) show ?thesis by (simp add: otel_flush_def)
qed

theorem otel_accounts_witness:
  "\<exists>x. otel_step\<^sup>*\<^sup>* demo_exporter x \<and> ex_done x \<and> ex_accepted x = concat (map fst (ex_flushed x)) \<and>
     ok_sum (oo_calls (ex_out x)) = 1 \<and> drop_sum ''queue_full'' (oo_calls (ex_out x)) = 1"
proof -
  let ?env = "demo_flush_env 200"
  let ?a = "demo_export demo_exporter" let ?b = "demo_export ?a"
  let ?r = "otel_receive ?env ?b" let ?d = "otel_drained ?env (Close_begin ?r)"
  note new = NewExporter_fields [OF demo_exporter_new]
  have k: "nat (oc_QueueSize (otel_defaults demo_otel_config)) = 1" "oc_BatchSize (otel_defaults demo_otel_config) = 1"
    "e_Method demo_span_entry = ''tools/call''" "oc_Metrics demo_otel_config" by code_simp+
  have a: "ex_config ?a = otel_defaults demo_otel_config" "ex_queue ?a = [demo_span_entry]" "ex_batch ?a = []"
    "\<not> ex_closed ?a" "\<not> ex_done ?a" "ex_flushed ?a = []" "ex_refused ?a = []"
    by (simp_all add: demo_export_def ExportAuditEntry_def new k queue_cap_def)
  have b: "ex_config ?b = otel_defaults demo_otel_config" "ex_queue ?b = [demo_span_entry]" "ex_batch ?b = []"
    "\<not> ex_closed ?b" "\<not> ex_done ?b" "ex_flushed ?b = []" "ex_refused ?b = [demo_span_entry]"
    by (simp_all add: demo_export_def [of ?a] ExportAuditEntry_def a k queue_cap_def)
  have r: "ex_queue ?r = []" "ex_batch ?r = []" "\<not> ex_closed ?r" "\<not> ex_done ?r"
    "ex_flushed ?r = [([demo_span_entry], Delivered)]" "ex_refused ?r = [demo_span_entry]"
    by (simp_all add: otel_receive_def b k Let_def demo_delivers)
  have d: "ex_done ?d" "ex_flushed ?d = [([demo_span_entry], Delivered)]" "ex_refused ?d = [demo_span_entry]"
    by (simp_all add: otel_drained_def Close_begin_def otel_flush_def r)
  have "otel_step ?b ?r" by (rule otel_step.Receive) (simp_all add: b)
  moreover have "otel_step (Close_begin ?r) ?d"
    by (rule otel_step.Drained) (simp_all add: Close_begin_def r)
  ultimately have run: "otel_step\<^sup>*\<^sup>* demo_exporter ?d"
    using demo_export_step [of demo_exporter] demo_export_step [of ?a] otel_step.Close [of ?r]
    by (meson converse_rtranclp_into_rtranclp rtranclp.rtrancl_refl)
  have "delivered_spans [([demo_span_entry], Delivered)] = 1"
    "dropped_spans ''queue_full'' [([demo_span_entry], Delivered)] = 0"
    by (simp_all add: delivered_spans_def dropped_spans_def)
  moreover have "\<forall>s. drop_sum s (oo_calls (ex_out ?d)) = dropped_spans s (ex_flushed ?d) +
      (if s = ''queue_full'' then int (length (ex_refused ?d)) else 0)"
    "ok_sum (oo_calls (ex_out ?d)) = delivered_spans (ex_flushed ?d)"
    "ex_accepted ?d = concat (map fst (ex_flushed ?d))"
    using otel_accounts [OF demo_exporter_new run] d(1) k(4) by blast+
  ultimately have "ex_accepted ?d = concat (map fst (ex_flushed ?d)) \<and>
      ok_sum (oo_calls (ex_out ?d)) = 1 \<and> drop_sum ''queue_full'' (oo_calls (ex_out ?d)) = 1"
    unfolding d(2,3) by simp
  with run d(1) show ?thesis by blast
qed

theorem export_exact_witness:
  "\<exists>d out. exportPayload demo_exporter (demo_flush_env 400) ''{}'' 2 (ex_out demo_exporter) = (d, out) \<and>
     d = Dropped ''permanent_error'' \<and> d = verdict (map (answer (demo_flush_env 400)) [0..<2])"
proof -
  obtain d out where e: "exportPayload demo_exporter (demo_flush_env 400) ''{}'' 2 (ex_out demo_exporter) = (d, out)"
    by fastforce
  have m: "oc_MaxRetries demo_otel_config < max_int64"
    "int64 (milliseconds (oc_RetryMaxMS (otel_defaults demo_otel_config)))" "(0::int) \<le> 2" by code_simp+
  have n: "Suc (nat (oc_MaxRetries (otel_defaults demo_otel_config))) = 2"
    "verdict (map (answer (demo_flush_env 400)) [0..<2]) = Dropped ''permanent_error''" by code_simp+
  from export_exact [OF demo_exporter_new refl m e] e show ?thesis unfolding n by auto
qed

text \<open>
  The exception: with the largest number of retries the number of attempts wraps to a negative
  number, so no request is sent and the batch is gone without a trace in the metrics.
\<close>

lemma otel_retries_overflow:
  assumes "oc_MaxRetries (ex_config x) = max_int64"
  shows "exportPayload x env payload spans out = (Abandoned, out)"
proof -
  have "wrap64 (max_int64 + 1) < 0" by code_simp
  with assms show ?thesis by (simp add: exportPayload_def export_attempts_def export_loop_over)
qed

end
