(* ===== verification/Dashboard.thy ===== *)
theory Dashboard
  imports Go_Net Logger
begin

text \<open>
  The read-only dashboard (\<open>internal/dashboard/server.go\<close>): its bearer token, the limiter of failed
  authentications, and the two queries.

  A map is a list of bindings with distinct keys. The order in which Go iterates over a map is not
  specified, so the sweep of the limiter takes it as an argument. Request paths are clean, as the
  multiplexer redirects others. The page is a constant here (its script is in
  theory \<open>Dashboard_Page\<close>); responses keep the decoded data.
\<close>

subsection \<open>Failed authentications\<close>

definition bearerChallenge :: string where
  "bearerChallenge = ''Bearer realm='' @ [dquote] @ ''mcp-audit-dashboard'' @ [dquote]"

definition authFailureLimit :: int where "authFailureLimit = 10"
definition authFailureWindow :: duration where "authFailureWindow = seconds 60"
definition authFailureMaxPrincipals :: nat where "authFailureMaxPrincipals = 4096"

record bucket =
  bk_windowStart :: go_time
  bk_failures :: int

type_synonym attempts = "(string \<times> bucket) list"

record auth_limiter =
  al_limit :: int
  al_window :: duration
  al_maxPrincipals :: nat
  al_attempts :: attempts

definition newAuthFailureLimiter :: "int \<Rightarrow> duration \<Rightarrow> nat \<Rightarrow> auth_limiter" where
  "newAuthFailureLimiter limit window maxPrincipals =
     \<lparr>al_limit = limit, al_window = window, al_maxPrincipals = maxPrincipals, al_attempts = []\<rparr>"

definition drop_key :: "string \<Rightarrow> attempts \<Rightarrow> attempts" where
  "drop_key k m = filter (\<lambda>e. fst e \<noteq> k) m"

definition window_over :: "auth_limiter \<Rightarrow> go_time \<Rightarrow> bucket \<Rightarrow> bool" where
  "window_over l now b \<longleftrightarrow> now - bk_windowStart b \<ge> al_window l"

text \<open>The loop over the bindings in the order \<open>it\<close>; it deletes from the map \<open>m\<close> it runs over.\<close>

fun sweep :: "auth_limiter \<Rightarrow> go_time \<Rightarrow> attempts \<Rightarrow> attempts \<Rightarrow> string \<Rightarrow> go_time \<Rightarrow> attempts \<times> string" where
  "sweep l now [] m oldest t = (m, oldest)"
| "sweep l now ((k, b) # it) m oldest t =
     (if window_over l now b then sweep l now it (drop_key k m) oldest t
      else if oldest = [] \<or> bk_windowStart b < t then sweep l now it m k (bk_windowStart b)
      else sweep l now it m oldest t)"

definition ensureCapacity :: "attempts \<Rightarrow> go_time \<Rightarrow> auth_limiter \<Rightarrow> auth_limiter" where
  "ensureCapacity it now l =
     (if length (al_attempts l) < al_maxPrincipals l then l
      else
        (case sweep l now it (al_attempts l) [] 0 of
           (m, oldest) \<Rightarrow>
             l\<lparr>al_attempts :=
               (if length m \<ge> al_maxPrincipals l \<and> oldest \<noteq> [] then drop_key oldest m else m)\<rparr>))"

definition recordFailure :: "attempts \<Rightarrow> string \<Rightarrow> go_time \<Rightarrow> auth_limiter \<Rightarrow> bool \<times> auth_limiter" where
  "recordFailure it who now l0 =
     (let (b0, l) = (case map_of (al_attempts l0) who of
            None \<Rightarrow> (\<lparr>bk_windowStart = now, bk_failures = 0\<rparr>, ensureCapacity it now l0)
          | Some b \<Rightarrow> (b, l0));
          b1 = (if window_over l now b0 then \<lparr>bk_windowStart = now, bk_failures = 0\<rparr> else b0);
          b = b1\<lparr>bk_failures := bk_failures b1 + 1\<rparr>
      in (bk_failures b \<le> al_limit l,
          l\<lparr>al_attempts := (who, b) # drop_key who (al_attempts l)\<rparr>))"

definition reset_failures :: "string \<Rightarrow> auth_limiter \<Rightarrow> auth_limiter" where
  "reset_failures who l = l\<lparr>al_attempts := drop_key who (al_attempts l)\<rparr>"

subsection \<open>Queries\<close>

text \<open>\<open>URL.Query\<close>: pairs that do not decode or contain a semicolon are dropped.\<close>

definition QueryUnescape :: "string \<Rightarrow> string option" where
  "QueryUnescape s = unescape EncodeFragment (map (\<lambda>c. if c = CHR ''+'' then CHR '' '' else c) s)"

definition query_pair :: "string \<Rightarrow> (string \<times> string) list" where
  "query_pair s =
     (if s = [] \<or> CHR '';'' \<in> set s then []
      else
        (case Cut s CHR ''='' of
           (k, v, _) \<Rightarrow>
             (case (QueryUnescape k, QueryUnescape v) of
                (Some k', Some v') \<Rightarrow> [(k', v')]
              | _ \<Rightarrow> [])))"

definition ParseQuery :: "string \<Rightarrow> (string \<times> string) list" where
  "ParseQuery q = concat (map query_pair (split_on CHR ''&'' q))"

definition Values_Get :: "(string \<times> string) list \<Rightarrow> string \<Rightarrow> string" where
  "Values_Get vs k = (case map_of vs k of None \<Rightarrow> [] | Some v \<Rightarrow> v)"

definition time_param :: "string \<Rightarrow> string \<Rightarrow> go_time res" where
  "time_param name raw =
     (if raw = [] then Inr 0
      else (case ParseRFC3339 raw of
              None \<Rightarrow> Inl (''dashboard: invalid '' @ name @ '' timestamp'')
            | Some t \<Rightarrow> Inr t))"

definition queryFilter :: "string \<Rightarrow> query_filter res" where
  "queryFilter rawQuery =
     (let values = ParseQuery rawQuery; limit = Values_Get values ''limit'' in
      case (if limit = [] then Some 100 else Atoi limit) of
        None \<Rightarrow> Inl ''dashboard: invalid limit''
      | Some n \<Rightarrow>
     (case time_param ''from'' (Values_Get values ''from'') of
        Inl er \<Rightarrow> Inl er
      | Inr from \<Rightarrow>
     (case time_param ''to'' (Values_Get values ''to'') of
        Inl er \<Rightarrow> Inl er
      | Inr to \<Rightarrow>
          Inr \<lparr>qf_Method = Values_Get values ''method'', qf_ToolName = Values_Get values ''tool_name'',
               qf_ClientID = Values_Get values ''client_id'', qf_From = from, qf_To = to,
               qf_Limit = n\<rparr>)))"

subsection \<open>The server\<close>

record dash_config =
  dc_Enabled :: bool
  dc_BindAddress :: string
  dc_Port :: int
  dc_Token :: string

record dash_server =
  ds_config :: dash_config
  ds_authFailures :: "auth_limiter option"

definition default_bind :: string where "default_bind = ''127.0.0.1''"

definition NewServer :: "dash_config \<Rightarrow> dash_server" where
  "NewServer config0 =
     (let config = config0
            \<lparr>dc_BindAddress := (if TrimSpace (dc_BindAddress config0) = [] then default_bind
                                else dc_BindAddress config0),
             dc_Token := TrimSpace (dc_Token config0)\<rparr>
      in \<lparr>ds_config = config,
          ds_authFailures =
            (if dc_Token config \<noteq> []
             then Some (newAuthFailureLimiter authFailureLimit authFailureWindow authFailureMaxPrincipals)
             else None)\<rparr>)"

definition listenAddress :: "dash_server \<Rightarrow> string" where
  "listenAddress s =
     (let host = dc_BindAddress (ds_config s)
      in (if CHR '':'' \<in> set host then ''['' @ host @ '']'' else host) @ '':'' @
         Itoa (dc_Port (ds_config s)))"

definition validBearerToken :: "string \<Rightarrow> string \<Rightarrow> bool" where
  "validBearerToken hdr want =
     (case Cut hdr CHR '' '' of
        (scheme, credentials, ok) \<Rightarrow>
          if \<not> ok \<or> \<not> EqualFold scheme ''Bearer'' then False
          else
            (let got = TrimLeftFunc is_space credentials
             in if got = [] \<or> length got \<noteq> length want \<or> ContainsFunc got is_space then False
                else got = want))"

record dash_request =
  dq_RemoteAddr :: string
  dq_Path :: string
  dq_RawQuery :: string
  dq_Header :: header

definition authPrincipal :: "dash_request \<Rightarrow> string" where
  "authPrincipal r =
     (case SplitHostPort (dq_RemoteAddr r) of
        Some (host, _) \<Rightarrow>
          if host \<noteq> [] then host
          else if dq_RemoteAddr r \<noteq> [] then dq_RemoteAddr r else ''unknown''
      | None \<Rightarrow> if dq_RemoteAddr r \<noteq> [] then dq_RemoteAddr r else ''unknown'')"

datatype dash_body = Page | Entries "entry list" | Statistics stats | Message string

record dash_response =
  dr_status :: int
  dr_header :: "(string \<times> string) list"
  dr_body :: dash_body

definition http_error :: "string \<Rightarrow> int \<Rightarrow> (string \<times> string) list \<Rightarrow> dash_response" where
  "http_error msg status hs = \<lparr>dr_status = status, dr_header = hs, dr_body = Message msg\<rparr>"

definition writeJSON :: "dash_body \<Rightarrow> dash_response" where
  "writeJSON b = \<lparr>dr_status = 200,
     dr_header = [(''Cache-Control'', ''no-store''), (''Content-Type'', ''application/json'')], dr_body = b\<rparr>"

definition dash_index :: dash_response where
  "dash_index = \<lparr>dr_status = 200, dr_header = [(''Content-Type'', ''text/html; charset=utf-8'')],
     dr_body = Page\<rparr>"

definition dash_entries :: "'s store_ops \<Rightarrow> dash_request \<Rightarrow> 's \<Rightarrow> dash_response \<times> 's" where
  "dash_entries ops r s =
     (case queryFilter (dq_RawQuery r) of
        Inl er \<Rightarrow> (http_error er 400 [], s)
      | Inr f \<Rightarrow>
          (case op_Query ops f s of
             (Inl _, s') \<Rightarrow> (http_error ''failed to query entries'' 500 [], s')
           | (Inr es, s') \<Rightarrow> (writeJSON (Entries es), s')))"

definition dash_stats :: "'s store_ops \<Rightarrow> 's \<Rightarrow> dash_response \<times> 's" where
  "dash_stats ops s =
     (case op_Stats ops s of
        (Inl _, s') \<Rightarrow> (http_error ''failed to query stats'' 500 [], s')
      | (Inr st, s') \<Rightarrow> (writeJSON (Statistics st), s'))"

definition dash_mux :: "'s store_ops \<Rightarrow> dash_request \<Rightarrow> 's \<Rightarrow> dash_response \<times> 's" where
  "dash_mux ops r s =
     (if dq_Path r = ''/api/entries'' then dash_entries ops r s
      else if dq_Path r = ''/api/stats'' then dash_stats ops s
      else (dash_index, s))"

definition dash_authenticate ::
  "'s store_ops \<Rightarrow> dash_request \<Rightarrow> attempts \<Rightarrow> go_time \<Rightarrow> dash_server \<Rightarrow> 's \<Rightarrow>
   dash_response \<times> dash_server \<times> 's" where
  "dash_authenticate ops r it now d s =
     (case ds_authFailures d of
        None \<Rightarrow> (case dash_mux ops r s of (resp, s') \<Rightarrow> (resp, d, s'))
      | Some l \<Rightarrow>
          (let who = authPrincipal r
           in if validBearerToken (Header_Get (dq_Header r) ''Authorization'') (dc_Token (ds_config d)) then
                (case dash_mux ops r s of
                   (resp, s') \<Rightarrow> (resp, d\<lparr>ds_authFailures := Some (reset_failures who l)\<rparr>, s'))
              else
                (case recordFailure it who now l of
                   (allowed, l') \<Rightarrow>
                     (if \<not> allowed
                      then http_error ''too many authentication attempts'' 429
                             [(''Retry-After'', Itoa (authFailureWindow div seconds 1))]
                      else http_error ''unauthorized'' 401 [(''WWW-Authenticate'', bearerChallenge)],
                      d\<lparr>ds_authFailures := Some l'\<rparr>, s))))"

subsection \<open>The limiter stays bounded\<close>

definition limiter_ok :: "auth_limiter \<Rightarrow> bool" where
  "limiter_ok l \<longleftrightarrow> distinct (map fst (al_attempts l)) \<and> [] \<notin> fst ` set (al_attempts l) \<and>
     length (al_attempts l) \<le> al_maxPrincipals l \<and> al_maxPrincipals l > 0"

lemma drop_key_simps [simp]:
  "set (drop_key k m) = {e \<in> set m. fst e \<noteq> k}" "length (drop_key k m) \<le> length m"
  "distinct (map fst m) \<Longrightarrow> distinct (map fst (drop_key k m))"
  by (auto simp: drop_key_def distinct_map_filter)

lemma drop_key_length: "(k, b) \<in> set m \<Longrightarrow> length (drop_key k m) < length m"
  unfolding drop_key_def by (rule length_filter_less) auto

lemma sweep_map:
  "fst (sweep l now it m oldest t) = filter (\<lambda>e. \<not> (\<exists>b. (fst e, b) \<in> set it \<and> window_over l now b)) m"
proof (induction l now it m oldest t rule: sweep.induct)
  case (2 l now k b it m oldest t)
  then show ?case by (auto simp: drop_key_def intro!: filter_cong)
qed simp

lemma sweep_oldest:
  "snd (sweep l now it m oldest t) = oldest \<or>
     (\<exists>b. (snd (sweep l now it m oldest t), b) \<in> set it \<and> \<not> window_over l now b)"
proof (induction l now it m oldest t rule: sweep.induct)
  case (2 l now k b it m oldest t)
  then show ?case by (auto split: if_splits)
qed simp

lemma sweep_found:
  assumes "(k, b) \<in> set it" "\<not> window_over l now b" "[] \<notin> fst ` set it"
  shows "snd (sweep l now it m oldest t) \<noteq> []"
  using assms
proof (induction l now it m oldest t arbitrary: k b rule: sweep.induct)
  case (2 l now k' b' it m oldest t)
  have keep: "snd (sweep l now it m o' t') \<noteq> []" if "o' \<noteq> []" for o' t'
    using sweep_oldest [of l now it m o' t'] that 2(6) by (auto simp: image_iff)
  show ?case
  proof (cases "(k, b) = (k', b')")
    case True
    with 2(5) have "\<not> window_over l now b'" "k' \<noteq> []" using 2(6) by auto
    then show ?thesis using keep [of k'] keep [of oldest] by simp
  next
    case False
    with 2 show ?thesis by auto
  qed
qed simp

text \<open>\<open>it\<close> lists the bindings of the map in some order.\<close>

lemma ensureCapacity_room:
  assumes "limiter_ok l" "set it = set (al_attempts l)"
  shows "length (al_attempts (ensureCapacity it now l)) < al_maxPrincipals l"
    "limiter_ok (ensureCapacity it now l)" "set (al_attempts (ensureCapacity it now l)) \<subseteq> set (al_attempts l)"
    "al_maxPrincipals (ensureCapacity it now l) = al_maxPrincipals l" "al_limit (ensureCapacity it now l) = al_limit l"
    "al_window (ensureCapacity it now l) = al_window l"
proof -
  obtain m oldest where s: "sweep l now it (al_attempts l) [] 0 = (m, oldest)" by fastforce
  have m: "m = filter (\<lambda>e. \<not> (\<exists>b. (fst e, b) \<in> set it \<and> window_over l now b)) (al_attempts l)"
    using sweep_map [of l now it "al_attempts l" "[]" 0] s by simp
  have room: "length (drop_key oldest m) < al_maxPrincipals l" if len: "length m \<ge> al_maxPrincipals l" "oldest \<noteq> []"
  proof -
    obtain b where b: "(oldest, b) \<in> set it" "\<not> window_over l now b"
      using sweep_oldest [of l now it "al_attempts l" "[]" 0] s len(2) by auto
    have d: "distinct (map fst (al_attempts l))" using assms(1) by (simp add: limiter_ok_def)
    have same: "b' = b" if "(oldest, b') \<in> set it" for b'
      using eq_key_imp_eq_value [OF d, of oldest b' b] that b(1) assms(2) by simp
    have live: "\<not> (\<exists>b'. (oldest, b') \<in> set it \<and> window_over l now b')" using same b(2) by blast
    have "(oldest, b) \<in> set (al_attempts l)" using b(1) assms(2) by simp
    with live have "(oldest, b) \<in> set m" unfolding m set_filter by simp
    then have "length (drop_key oldest m) < length m" by (rule drop_key_length)
    also have "length m \<le> al_maxPrincipals l" using assms(1) by (simp add: m limiter_ok_def le_trans [OF length_filter_le])
    finally show ?thesis .
  qed
  have full: "oldest \<noteq> []" if "length m \<ge> al_maxPrincipals l"
  proof -
    have "m \<noteq> []" using that assms(1) by (auto simp: limiter_ok_def)
    then obtain k b where "(k, b) \<in> set m" by (cases m) auto
    then have "(k, b) \<in> set it" "\<not> window_over l now b" using assms(2) by (auto simp: m)
    with sweep_found [of k b it l now "al_attempts l" "[]" 0] s assms show ?thesis by (auto simp: limiter_ok_def)
  qed
  show "length (al_attempts (ensureCapacity it now l)) < al_maxPrincipals l"
    using room full by (cases "length m \<ge> al_maxPrincipals l") (auto simp: ensureCapacity_def s not_le)
  show "limiter_ok (ensureCapacity it now l)"
    using assms(1) room full by (auto simp: ensureCapacity_def s limiter_ok_def m distinct_map_filter not_le
        less_imp_le intro: le_trans [OF length_filter_le])
  show "set (al_attempts (ensureCapacity it now l)) \<subseteq> set (al_attempts l)"
    by (auto simp: ensureCapacity_def s m)
  show "al_maxPrincipals (ensureCapacity it now l) = al_maxPrincipals l" "al_limit (ensureCapacity it now l) = al_limit l"
    "al_window (ensureCapacity it now l) = al_window l" by (simp_all add: ensureCapacity_def s)
qed

lemma recordFailure_ok:
  assumes "limiter_ok l" "set it = set (al_attempts l)" "who \<noteq> []" "recordFailure it who now l = (allowed, l')"
  shows "limiter_ok l'" "al_maxPrincipals l' = al_maxPrincipals l" "al_limit l' = al_limit l" "al_window l' = al_window l"
proof -
  note e = ensureCapacity_room [OF assms(1,2), of now]
  define l1 where "l1 = (case map_of (al_attempts l) who of None \<Rightarrow> ensureCapacity it now l | Some b \<Rightarrow> l)"
  have l1: "limiter_ok l1" "al_maxPrincipals l1 = al_maxPrincipals l" "al_limit l1 = al_limit l"
    "al_window l1 = al_window l"
    using assms(1) e by (simp_all add: l1_def split: option.split)
  obtain b where l': "l' = l1\<lparr>al_attempts := (who, b) # drop_key who (al_attempts l1)\<rparr>"
    using assms(4) by (auto simp: recordFailure_def l1_def Let_def split: option.splits prod.splits)
  have "length (drop_key who (al_attempts l1)) < al_maxPrincipals l1"
  proof (cases "map_of (al_attempts l) who")
    case None
    then show ?thesis
      using le_less_trans [OF drop_key_simps(2) [of who "al_attempts l1"], of "al_maxPrincipals l"] e(1,4)
      by (simp add: l1_def)
  next
    case (Some b)
    then have "(who, b) \<in> set (al_attempts l1)" by (simp add: l1_def map_of_SomeD)
    from drop_key_length [OF this] l1(1) show ?thesis by (simp add: limiter_ok_def)
  qed
  with l1(1) assms(3) show "limiter_ok l'" by (auto simp: l' limiter_ok_def)
  show "al_maxPrincipals l' = al_maxPrincipals l" "al_limit l' = al_limit l" "al_window l' = al_window l"
    using l1 by (simp_all add: l')
qed

lemma reset_ok: "limiter_ok l \<Longrightarrow> limiter_ok (reset_failures who l)"
  by (auto simp: limiter_ok_def reset_failures_def intro: le_trans [OF drop_key_simps(2)])

lemma authPrincipal_not_Nil: "authPrincipal r \<noteq> []"
  by (auto simp: authPrincipal_def split: option.split)

text \<open>Requests served one after the other, from a new server on.\<close>

inductive dash_reach :: "'s store_ops \<Rightarrow> dash_config \<Rightarrow> dash_server \<Rightarrow> 's \<Rightarrow> bool" for ops c where
  start: "dash_reach ops c (NewServer c) s"
| request: "\<lbrakk>dash_reach ops c d s; \<And>l. ds_authFailures d = Some l \<Longrightarrow> set it = set (al_attempts l);
    dash_authenticate ops r it now d s = (resp, d', s')\<rbrakk> \<Longrightarrow> dash_reach ops c d' s'"

lemma dash_authenticate_frame:
  assumes "dash_authenticate ops r it now d s = (resp, d', s')"
  shows "ds_config d' = ds_config d" "ds_authFailures d' = None \<longleftrightarrow> ds_authFailures d = None"
    "\<And>l'. ds_authFailures d' = Some l' \<Longrightarrow> \<exists>l. ds_authFailures d = Some l \<and>
       (l' = reset_failures (authPrincipal r) l \<or> l' = snd (recordFailure it (authPrincipal r) now l))"
  using assms by (auto simp: dash_authenticate_def Let_def split: option.splits prod.splits if_splits)

lemma dash_reach_ok:
  assumes "dash_reach ops c d s"
  shows "ds_config d = ds_config (NewServer c) \<and>
     (ds_authFailures d = None \<longleftrightarrow> TrimSpace (dc_Token c) = []) \<and>
     (\<forall>l. ds_authFailures d = Some l \<longrightarrow>
        limiter_ok l \<and> al_maxPrincipals l = authFailureMaxPrincipals \<and> al_limit l = authFailureLimit \<and>
        al_window l = authFailureWindow)"
  using assms
proof induction
  case (start s)
  then show ?case
    by (auto simp: NewServer_def Let_def newAuthFailureLimiter_def limiter_ok_def authFailureMaxPrincipals_def)
next
  case (request d s it r now resp d' s')
  note f = dash_authenticate_frame [OF request(3)]
  have "limiter_ok l' \<and> al_maxPrincipals l' = authFailureMaxPrincipals \<and> al_limit l' = authFailureLimit \<and>
      al_window l' = authFailureWindow" if l': "ds_authFailures d' = Some l'" for l'
  proof -
    obtain l where l: "ds_authFailures d = Some l"
      "l' = reset_failures (authPrincipal r) l \<or> l' = snd (recordFailure it (authPrincipal r) now l)"
      using f(3) [OF l'] by blast
    have ok: "limiter_ok l" "al_maxPrincipals l = authFailureMaxPrincipals" "al_limit l = authFailureLimit"
      "al_window l = authFailureWindow" using request(4) l(1) by auto
    obtain a l2 where rf: "recordFailure it (authPrincipal r) now l = (a, l2)" by fastforce
    from l(2) show ?thesis
      using reset_ok [OF ok(1), of "authPrincipal r"] ok
        recordFailure_ok [OF ok(1) request(2) [OF l(1)] authPrincipal_not_Nil rf]
      by (auto simp: rf reset_failures_def)
  qed
  with request(4) f(1,2) show ?case by auto
qed

text \<open>
  C28: The dashboard gives out data only to holders of the token, and remembers a bounded number of
  others. In every state that a sequence of requests can reach: when a token is configured, a
  request whose \<open>Authorization\<close> header is not the bearer token is answered with 401 or 429 and
  does not reach the store; a request with the token is served, whatever happened before, also
  when its remote address is over the limit; and at most \<open>authFailureMaxPrincipals\<close> addresses are
  kept, whatever order the map is swept in.
\<close>
theorem dashboard_gate:
  assumes "dash_reach ops c d s" and "TrimSpace (dc_Token c) \<noteq> []"
    and "dash_authenticate ops r it now d s = (resp, d', s')"
  shows "(validBearerToken (Header_Get (dq_Header r) ''Authorization'') (TrimSpace (dc_Token c)) \<longrightarrow>
            (resp, s') = dash_mux ops r s) \<and>
         (\<not> validBearerToken (Header_Get (dq_Header r) ''Authorization'') (TrimSpace (dc_Token c)) \<longrightarrow>
            s' = s \<and> dr_status resp \<in> {401, 429} \<and> (\<exists>m. dr_body resp = Message m)) \<and>
         (\<exists>l. ds_authFailures d = Some l \<and> length (al_attempts l) \<le> 4096 \<and> distinct (map fst (al_attempts l)))"
proof -
  note ok = dash_reach_ok [OF assms(1)]
  from ok assms(2) obtain l where l: "ds_authFailures d = Some l" by auto
  have t: "dc_Token (ds_config d) = TrimSpace (dc_Token c)" using ok by (simp add: NewServer_def Let_def)
  have "length (al_attempts l) \<le> 4096" "distinct (map fst (al_attempts l))"
    using ok l by (auto simp: limiter_ok_def authFailureMaxPrincipals_def)
  moreover have "(resp, s') = dash_mux ops r s"
    if "validBearerToken (Header_Get (dq_Header r) ''Authorization'') (TrimSpace (dc_Token c))"
    using assms(3) that l t by (auto simp: dash_authenticate_def Let_def split: prod.splits)
  moreover have "s' = s \<and> dr_status resp \<in> {401, 429} \<and> (\<exists>m. dr_body resp = Message m)"
    if "\<not> validBearerToken (Header_Get (dq_Header r) ''Authorization'') (TrimSpace (dc_Token c))"
    using assms(3) that l t by (auto simp: dash_authenticate_def Let_def http_error_def split: prod.splits if_splits)
  ultimately show ?thesis using l by blast
qed

text \<open>
  The token is accepted in exactly the header values that consist of the scheme, a space, further
  white space and the token itself.
\<close>
lemma validBearerToken_iff:
  "validBearerToken hdr want \<longleftrightarrow> want \<noteq> [] \<and> \<not> list_ex is_space want \<and>
     (\<exists>scheme ws. hdr = scheme @ '' '' @ ws @ want \<and> CHR '' '' \<notin> set scheme \<and> EqualFold scheme ''Bearer'' \<and>
        list_all is_space ws)"
proof
  assume v: "validBearerToken hdr want"
  obtain scheme cred where c: "Cut hdr CHR '' '' = (scheme, cred, True)" "EqualFold scheme ''Bearer''"
    and g: "TrimLeftFunc is_space cred = want" "want \<noteq> []" "\<not> ContainsFunc want is_space"
    using v by (auto simp: validBearerToken_def Let_def split: prod.splits if_splits)
  have "hdr = scheme @ '' '' @ takeWhile is_space cred @ want" "CHR '' '' \<notin> set scheme"
    using c(1) g(1) by (auto simp: Cut_found TrimLeftFunc_def)
  moreover have "list_all is_space (takeWhile is_space cred)" by (auto simp: list_all_iff dest: set_takeWhileD)
  ultimately show "want \<noteq> [] \<and> \<not> list_ex is_space want \<and>
     (\<exists>scheme ws. hdr = scheme @ '' '' @ ws @ want \<and> CHR '' '' \<notin> set scheme \<and> EqualFold scheme ''Bearer'' \<and>
        list_all is_space ws)" using c(2) g(2,3) by (auto simp: ContainsFunc_def)
next
  assume "want \<noteq> [] \<and> \<not> list_ex is_space want \<and>
     (\<exists>scheme ws. hdr = scheme @ '' '' @ ws @ want \<and> CHR '' '' \<notin> set scheme \<and> EqualFold scheme ''Bearer'' \<and>
        list_all is_space ws)"
  then obtain scheme ws where w: "want \<noteq> []" "\<not> list_ex is_space want" "hdr = scheme @ '' '' @ ws @ want"
    "CHR '' '' \<notin> set scheme" "EqualFold scheme ''Bearer''" "list_all is_space ws" by blast
  have "Cut hdr CHR '' '' = (scheme, ws @ want, True)" using w(3,4) by (simp add: Cut_found)
  moreover have "TrimLeftFunc is_space (ws @ want) = want"
    using w(1,2,6) by (cases want) (auto simp: TrimLeftFunc_def list_all_iff dropWhile_append)
  ultimately show "validBearerToken hdr want"
    using w(1,2,5) by (simp add: validBearerToken_def ContainsFunc_def)
qed

definition memory_ops :: "entry list store_ops" where
  "memory_ops = \<lparr>op_Append = (\<lambda>e s. (None, s @ [e])), op_AppendBatch = None, op_AppendDurable = None,
     op_AppendBatchDurable = None, op_LookupEntry = None, op_Sync = None,
     op_Query = (\<lambda>f s. (Inr (LimitNewest (filter (\<lambda>e. MatchFilter e f) s) (qf_Limit f)), s)),
     op_Stats = (\<lambda>s. (Inr (BuildStats 0 0 s), s)), op_Close = (\<lambda>s. (None, s))\<rparr>"

definition demo_dash :: dash_config where
  "demo_dash = \<lparr>dc_Enabled = True, dc_BindAddress = [], dc_Port = 9090, dc_Token = ''t''\<rparr>"

definition demo_query :: dash_request where
  "demo_query = \<lparr>dq_RemoteAddr = ''10.0.0.1:5'', dq_Path = ''/api/entries'', dq_RawQuery = ''limit=5'',
     dq_Header = []\<rparr>"

theorem dashboard_gate_witness:
  "\<exists>resp d'. dash_authenticate memory_ops demo_query [] 0 (NewServer demo_dash) [zero_entry] =
       (resp, d', [zero_entry]) \<and> dr_status resp \<in> {401, 429}"
proof -
  obtain resp d' s' where r: "dash_authenticate memory_ops demo_query [] 0 (NewServer demo_dash) [zero_entry] = (resp, d', s')"
    by (metis prod.collapse)
  have "TrimSpace (dc_Token demo_dash) \<noteq> []"
    "\<not> validBearerToken (Header_Get (dq_Header demo_query) ''Authorization'') (TrimSpace (dc_Token demo_dash))"
    by code_simp+
  with dashboard_gate [OF dash_reach.start _ r] r show ?thesis by auto
qed

end
