(* ===== verification/App_Main.thy ===== *)
theory App_Main
  imports App_Config App_Flags Verify_Cli Instrumented Otel Dashboard
begin

text \<open>
  Start-up and shutdown of the gateway (\<open>cmd/mcp-audit/main.go\<close>): the objects built from a
  configuration, and \<open>main\<close> itself with its exit code and the order of its effects.

  \<open>main_env\<close> holds what the run time answers: the constructors of code that talks to the operating
  system, and how the servers end. \<open>os.Exit\<close> ends the process without the deferred calls; a return
  from \<open>main\<close> runs them, last deferred first.
\<close>

subsection \<open>Objects built from the configuration\<close>

datatype authenticator = None_Auth principal | Static_Auth static_bearer | JWT_Auth jwt_config

definition static_principal :: "appConfig \<Rightarrow> principal" where
  "static_principal c =
     (let s = au_Static (ap_Auth c)
      in \<lparr>Subject = st_Subject s, ClientID = static_client c, Issuer = st_Issuer s, Roles = st_Roles s,
          Scopes = st_Scopes s, Claims = []\<rparr>)"

definition newAuthenticator ::
  "(string \<Rightarrow> string) \<Rightarrow> (jwt_config \<Rightarrow> jwt_config res) \<Rightarrow> appConfig \<Rightarrow> authenticator res" where
  "newAuthenticator sha newJWT c =
     (let a = ap_Auth c
      in if au_Mode a = ModeNone then map_sum id None_Auth (NewNoneAuthenticator (static_principal c))
         else if au_Mode a = ModeStaticBearer
         then map_sum id Static_Auth
                (NewStaticBearerAuthenticator sha (st_BearerToken (au_Static a)) (static_principal c))
         else if au_Mode a = ModeOIDC then map_sum id JWT_Auth (newJWT (au_OIDC a))
         else Inl (''main: unsupported auth mode '' @ Quote (au_Mode a)))"

definition newPolicy :: "appConfig \<Rightarrow> engine option res" where
  "newPolicy c =
     (case NewEngine (ap_Policy c) of
        Inl er \<Rightarrow> Inl er
      | Inr engine \<Rightarrow> if \<not> cfg_Enabled (ap_Policy c) then Inr None else Inr (Some engine))"

datatype backend = Jsonl_Backend jsonl | Sqlite_Backend sqlite

record opened_store =
  os_backend :: backend
  os_instr :: instr_config
  os_async :: "async_config option"

definition jsonl_config_of :: "appConfig \<Rightarrow> jsonl_config" where
  "jsonl_config_of c =
     (let r = ad_Rotation (ap_Audit c)
      in \<lparr>jc_MaxSizeBytes = rt_MaxSizeBytes r, jc_MaxFiles = rt_MaxFiles r, jc_Interval = rt_Interval r,
          jc_MaxAgeDays = rt_MaxAgeDays r, jc_Durable = ad_Durable (ap_Audit c)\<rparr>)"

definition wrap_store :: "appConfig \<Rightarrow> backend \<Rightarrow> opened_store" where
  "wrap_store c b =
     (let a = ap_Audit c; y = ad_Async a
      in \<lparr>os_backend = b,
          os_instr = \<lparr>ic_metrics = mt_Enabled (ap_Metrics c), ic_backend = ad_Storage a,
                      ic_mode = (if ay_Enabled y then ''async'' else ''sync'')\<rparr>,
          os_async = (if ay_Enabled y
             then Some \<lparr>ac_QueueSize = ay_QueueSize y, ac_BatchSize = ay_BatchSize y,
                        ac_FlushIntervalMS = ay_FlushIntervalMS y, ac_Durable = ad_Durable a\<rparr>
             else None)\<rparr>)"

definition openStore ::
  "(string \<Rightarrow> jsonl_config \<Rightarrow> jsonl res) \<Rightarrow> (string \<Rightarrow> sqlite res) \<Rightarrow> appConfig \<Rightarrow> opened_store res" where
  "openStore newJSONL newSQLite c =
     (let a = ap_Audit c
      in if ad_Storage a = ''jsonl''
         then map_sum id (\<lambda>s. wrap_store c (Jsonl_Backend s)) (newJSONL (ad_Path a) (jsonl_config_of c))
         else if ad_Storage a = ''sqlite''
         then map_sum id (\<lambda>s. wrap_store c (Sqlite_Backend s)) (newSQLite (ad_SQLitePath a))
         else Inl (''main: unknown storage backend '' @ Quote (ad_Storage a)))"

text \<open>The logger over the operations \<open>ops\<close> of the opened store.\<close>

definition logger_of :: "'s store_ops \<Rightarrow> appConfig \<Rightarrow> 's logger" where
  "logger_of ops c =
     (let a = ap_Audit c; m = ap_Middleware c; p = ap_Proxy c
      in \<lparr>lg_store = ops,
          lg_signer = (if ad_Sign a then Some (NewSigner (ad_Secret a)) else None),
          lg_integritySigner =
            (if ad_Sign a then Some (NewIntegritySigner (ad_Secret a) (ad_KeyID a)) else None),
          lg_redactor = Some (NewRedactor (mw_RedactEnabled m) (mw_RedactPatterns m)),
          lg_trace = ot_Enabled (ap_OTel c), lg_transport = px_Transport p,
          lg_clientID = px_ClientID p, lg_serverID = px_ServerID p,
          lg_metrics = mt_Enabled (ap_Metrics c), lg_durable = ad_Durable a\<rparr>)"

definition http_config_of ::
  "appConfig \<Rightarrow> (header \<Rightarrow> principal option res) \<Rightarrow> 's logger \<Rightarrow> engine option \<Rightarrow> 's http_config" where
  "http_config_of c authenticate l engine =
     (let p = ap_Proxy c; h = px_HTTP p; t = px_TLS p
      in \<lparr>hc_Upstream = px_Upstream p, hc_BindAddress = px_BindAddress p, hc_Port = px_Port p,
          hc_UpstreamTimeoutMS = px_UpstreamTimeoutMS p, hc_ForwardHeaders = px_ForwardHeaders p,
          hc_MaxRequestBodyBytes = hs_MaxRequestBodyBytes h, hc_MaxHeaderBytes = hs_MaxHeaderBytes h,
          hc_ReadHeaderTimeout = hs_ReadHeaderTimeout h, hc_ReadTimeout = hs_ReadTimeout h,
          hc_WriteTimeout = hs_WriteTimeout h, hc_IdleTimeout = hs_IdleTimeout h,
          hc_AllowedOrigins = hs_AllowedOrigins h, hc_AllowedHosts = hs_AllowedHosts h,
          hc_Authenticator = Some authenticate,
          hc_ServerTLS = \<lparr>htc_Enabled = ts_Enabled t, htc_CertFile = ts_CertFile t,
                          htc_KeyFile = ts_KeyFile t\<rparr>,
          hc_TLS = \<lparr>tc_CAFile = ts_CAFile t, tc_ServerName = ts_ServerName t,
                    tc_InsecureSkipVerify = ts_InsecureSkipVerify t,
                    tc_ClientCertFile = ts_ClientCertFile t, tc_ClientKeyFile = ts_ClientKeyFile t\<rparr>,
          hc_Retry = px_Retry p,
          hc_gw = \<lparr>gc_Audit = Some l, gc_Policy = engine, gc_ClientID = px_ClientID p,
                   gc_ServerID = px_ServerID p, gc_Metrics = mt_Enabled (ap_Metrics c)\<rparr>\<rparr>)"

subsection \<open>Versions and log levels\<close>

record build_info =
  bi_version :: string
  bi_settings :: "(string \<times> string) list"

fun build_setting :: "(string \<times> string) list \<Rightarrow> string \<times> string \<Rightarrow> string \<times> string" where
  "build_setting [] cd = cd"
| "build_setting ((k, x) # ss) (c, d) =
     build_setting ss
       (if k = ''vcs.revision'' \<and> (c = [] \<or> c = ''unknown'') then x else c,
        if k = ''vcs.time'' \<and> (d = [] \<or> d = ''unknown'') then x else d)"

definition buildMetadata :: "build_info option \<Rightarrow> string \<times> string \<times> string \<Rightarrow> string \<times> string \<times> string" where
  "buildMetadata info vcd =
     (case vcd of
        (v, c, d) \<Rightarrow>
          (case info of
             None \<Rightarrow> (v, c, d)
           | Some i \<Rightarrow>
               (if (v = [] \<or> v = ''dev'') \<and> bi_version i \<noteq> [] \<and> bi_version i \<noteq> ''(devel)''
                then bi_version i else v, build_setting (bi_settings i) (c, d))))"

definition versionString :: "build_info option \<Rightarrow> string \<times> string \<times> string \<Rightarrow> string" where
  "versionString info vcd =
     (case buildMetadata info vcd of
        (v, c, d) \<Rightarrow> ''mcp-audit '' @ v @ '' (commit '' @ c @ '', built '' @ d @ '')'')"

datatype log_level = LevelDebug | LevelInfo | LevelWarn | LevelError

definition newLogger :: "string \<Rightarrow> log_level" where
  "newLogger level =
     (if ToLower level = ''debug'' then LevelDebug
      else if ToLower level = ''warn'' then LevelWarn
      else if ToLower level = ''error'' then LevelError
      else LevelInfo)"

definition configuredLogLevel :: "cliFlags \<Rightarrow> string" where
  "configuredLogLevel f = (if fl_logLevel f = [] then ''info'' else fl_logLevel f)"

subsection \<open>The main function\<close>

datatype main_event =
  Printed string
| Warned string
| Failed_with string
| Listening string
| Served string
| Closed string

record main_result =
  mr_code :: int
  mr_events :: "main_event list"

text \<open>The flag of a server's error says whether it is \<open>context.Canceled\<close>.\<close>

record main_env =
  mn_args :: "string list"
  mn_prims :: vprims
  mn_cli :: cli_env
  mn_build :: "build_info option"
  mn_decode :: "viper \<Rightarrow> appConfig res"
  mn_readIn :: "string \<Rightarrow> (string \<times> setting) list option res"
  mn_getenv :: "string \<Rightarrow> string option"
  mn_envSettings :: "(string \<times> setting) list"
  mn_jsonl :: "string \<Rightarrow> jsonl_config \<Rightarrow> jsonl res"
  mn_sqlite :: "string \<Rightarrow> sqlite res"
  mn_sha :: "string \<Rightarrow> string"
  mn_newJWT :: "jwt_config \<Rightarrow> jwt_config res"
  mn_authenticate :: "authenticator \<Rightarrow> header \<Rightarrow> principal option res"
  mn_files :: key_files
  mn_run :: "(bool \<times> err) option"
  mn_listen :: "(bool \<times> err) option"
  mn_background :: "err option option"

definition recommendedSecretBytes :: nat where "recommendedSecretBytes = 32"

definition os_Exit :: "int \<Rightarrow> main_event list \<Rightarrow> main_result" where
  "os_Exit code evs = \<lparr>mr_code = code, mr_events = evs\<rparr>"

definition fatal :: "string \<Rightarrow> main_event list \<Rightarrow> main_result" where
  "fatal msg evs = os_Exit 1 (evs @ [Failed_with msg])"

text \<open>A return from \<open>main\<close>: the authenticator (only the OIDC one has \<open>Close\<close>), the store, the exporter.\<close>

definition main_return :: "appConfig \<Rightarrow> main_event list \<Rightarrow> main_result" where
  "main_return c evs =
     \<lparr>mr_code = 0,
      mr_events = evs @ (if au_Mode (ap_Auth c) = ModeOIDC then [Closed ''authenticator''] else []) @
        [Closed ''store''] @ (if ot_Enabled (ap_OTel c) then [Closed ''exporter''] else [])\<rparr>"

text \<open>After the transport: \<open>er\<close> is the value of the variable \<open>err\<close> of \<open>main\<close>.\<close>

definition main_end :: "main_env \<Rightarrow> appConfig \<Rightarrow> (bool \<times> err) option \<Rightarrow> main_event list \<Rightarrow> main_result" where
  "main_end env c er evs =
     (case er of
        Some (False, m) \<Rightarrow> fatal (''proxy stopped with error: '' @ m) evs
      | _ \<Rightarrow>
          (case mn_background env of
             Some (Some m) \<Rightarrow> fatal (''background server stopped with error: '' @ m) evs
           | _ \<Rightarrow> main_return c evs))"

text \<open>
  The branch for HTTP declares its own \<open>err\<close>, so the error of \<open>ListenAndServe\<close> does not reach the
  variable that is examined afterwards, which is nil here.
\<close>

definition main_transport :: "main_env \<Rightarrow> appConfig \<Rightarrow> 's logger \<Rightarrow> engine option \<Rightarrow> authenticator \<Rightarrow>
    main_event list \<Rightarrow> main_result" where
  "main_transport env c l engine a evs =
     (if px_Transport (ap_Proxy c) = ''stdio'' then main_end env c (mn_run env) (evs @ [Served ''stdio''])
      else if px_Transport (ap_Proxy c) = ''http'' then
        (case NewHTTPProxy (mn_files env) (http_config_of c (mn_authenticate env a) l engine) of
           Inl er \<Rightarrow> fatal (''failed to create http proxy: '' @ er) evs
         | Inr httpProxy \<Rightarrow>
             (let shadowed = mn_listen env
              in main_end env c None (evs @ [Listening ''http'', Served ''http''])))
      else main_end env c
        (Some (False, ''main: unknown transport '' @ Quote (px_Transport (ap_Proxy c)))) evs)"

definition main_warnings :: "appConfig \<Rightarrow> main_event list" where
  "main_warnings c =
     (if px_Transport (ap_Proxy c) = ''http'' \<and> TrimSpace (px_BindAddress (ap_Proxy c)) = []
      then [Warned ''proxy.bind_address is not configured; legacy all-interface binding is active'']
      else []) @
     (if ad_Sign (ap_Audit c) \<and> length (ad_Secret (ap_Audit c)) < recommendedSecretBytes
      then [Warned ''audit signing secret is shorter than the recommended minimum''] else [])"

definition dashboardConfigFromApp :: "appConfig \<Rightarrow> dash_config" where
  "dashboardConfigFromApp c =
     \<lparr>dc_Enabled = True, dc_BindAddress = db_BindAddress (ap_Dashboard c), dc_Port = db_Port (ap_Dashboard c),
      dc_Token = db_Token (ap_Dashboard c)\<rparr>"

text \<open>\<open>None\<close> is the recorder that does nothing. The constructor returns no error.\<close>

definition newMetrics :: "appConfig \<Rightarrow> recorder option res" where
  "newMetrics c =
     (let m = ap_Metrics c
      in if \<not> mt_Enabled m then Inr None
         else Inr (Some (NewPrometheusRecorder
                \<lparr>pc_Port = mt_Port m, pc_Path = mt_Path m, pc_IncludeGoMetrics = mt_IncludeGoMetrics m,
                 pc_IncludeProcessMetrics = mt_IncludeProcessMetrics m, pc_ToolLabels = mt_ToolLabels m\<rparr>)))"

text \<open>The recorder handed to the exporter is never nil: switched off, it is the one that does nothing.\<close>

definition otel_config_of :: "appConfig \<Rightarrow> otel_config" where
  "otel_config_of c =
     (let t = ap_OTel c
      in \<lparr>oc_Endpoint = ot_Endpoint t, oc_ServiceName = ot_ServiceName t,
          oc_Storage = ad_Storage (ap_Audit c), oc_Upstream = px_Upstream (ap_Proxy c),
          oc_Headers = ot_Headers t, oc_TLSCAFile = ot_CAFile t, oc_TLSServerName = ot_TLSServerName t,
          oc_TLSInsecureSkipVerify = ot_InsecureSkipVerify t, oc_QueueSize = ot_QueueSize t,
          oc_BatchSize = ot_BatchSize t, oc_FlushIntervalMS = ot_FlushIntervalMS t,
          oc_TimeoutMS = ot_TimeoutMS t, oc_MaxRetries = hrc_MaxRetries (ot_Retry t),
          oc_RetryInitialMS = hrc_InitialIntervalMS (ot_Retry t),
          oc_RetryMaxMS = hrc_MaxIntervalMS (ot_Retry t), oc_Metrics = True\<rparr>)"

definition newTraceExporter :: "key_files \<Rightarrow> appConfig \<Rightarrow> exporter option res" where
  "newTraceExporter fs c =
     (if \<not> ot_Enabled (ap_OTel c) then Inr None
      else (case NewExporter fs (otel_config_of c) of Inl er \<Rightarrow> Inl er | Inr x \<Rightarrow> Inr (Some x)))"

definition main_servers :: "appConfig \<Rightarrow> main_event list" where
  "main_servers c =
     (if db_Enabled (ap_Dashboard c) then [Listening ''dashboard''] else []) @
     (if mt_Enabled (ap_Metrics c) then [Listening ''metrics''] else [])"

definition main_run :: "'s store_ops \<Rightarrow> main_env \<Rightarrow> appConfig \<Rightarrow> main_result" where
  "main_run ops env c =
     (let evs = main_warnings c in
      case newMetrics c of
        Inl er \<Rightarrow> fatal (''failed to initialize metrics: '' @ er) evs
      | Inr rec \<Rightarrow>
     (case newTraceExporter (mn_files env) c of
        Inl er \<Rightarrow> fatal (''failed to initialize otel exporter: '' @ er) evs
      | Inr traceExporter \<Rightarrow>
     (case openStore (mn_jsonl env) (mn_sqlite env) c of
        Inl er \<Rightarrow> fatal (''failed to open audit store: '' @ er) evs
      | Inr store \<Rightarrow>
     (case newPolicy c of
        Inl er \<Rightarrow> fatal (''failed to initialize policy engine: '' @ er) evs
      | Inr engine \<Rightarrow>
     (case newAuthenticator (mn_sha env) (mn_newJWT env) c of
        Inl er \<Rightarrow> fatal (''failed to initialize client authentication: '' @ er) evs
      | Inr a \<Rightarrow> main_transport env c (logger_of ops c) engine a (evs @ main_servers c))))))"

definition gateway_start :: "'s store_ops \<Rightarrow> main_env \<Rightarrow> cliFlags \<Rightarrow> main_result" where
  "gateway_start ops env flags =
     (if fl_version flags
      then os_Exit 0 [Printed (versionString (mn_build env) (''dev'', ''unknown'', ''unknown''))]
      else
        (case loadConfig (mn_decode env) (mn_readIn env) (mn_getenv env) (mn_envSettings env)
                flags of
           Inl er \<Rightarrow> fatal (''failed to load config: '' @ er) []
         | Inr c \<Rightarrow> main_run ops env c))"

text \<open>Package \<open>flag\<close> ends the process itself when the command line is not accepted.\<close>

definition gateway_main :: "'s store_ops \<Rightarrow> main_env \<Rightarrow> main_result" where
  "gateway_main ops env =
     (let args = mn_args env
      in if args \<noteq> [] \<and> hd args = ''verify''
         then os_Exit (cr_code (runVerifyCommand (mn_prims env) (mn_cli env) (tl args))) []
         else if args \<noteq> [] \<and> hd args = ''checkpoint''
         then os_Exit (cr_code (runCheckpointCommand (mn_prims env) (mn_cli env) (tl args))) []
         else
           (case parseFlags args of
              Inl code \<Rightarrow> os_Exit code []
            | Inr flags \<Rightarrow> gateway_start ops env flags))"

subsection \<open>A validated configuration\<close>

lemma map_sum_Inl: "map_sum id f x = Inl e \<longleftrightarrow> x = Inl e"
  by (cases x) simp_all

lemma valid_parts:
  assumes "validateConfig c = None"
  shows "px_Transport (ap_Proxy c) = ''stdio'' \<or> px_Transport (ap_Proxy c) = ''http''"
    "px_Upstream (ap_Proxy c) \<noteq> []"
    "px_Transport (ap_Proxy c) = ''http'' \<longrightarrow> validate_http c = None"
    "validate_tls c = None" "validateAuthConfig c = None" "validate_services c = None"
    "validate_audit c = None"
  using assms by (auto simp: validateConfig_def Let_def split: if_splits)

lemma valid_authenticator:
  assumes "validateConfig c = None" "au_Mode (ap_Auth c) \<noteq> ModeOIDC"
  shows "\<exists>a. newAuthenticator sha newJWT c = Inr a"
  using valid_parts(5) [OF assms(1)] assms(2)
  by (auto simp: validateAuthConfig_def validateStaticPrincipal_def newAuthenticator_def Let_def
      static_principal_def NewNoneAuthenticator_def NewStaticBearerAuthenticator_def split: if_splits)

lemma valid_oidc:
  assumes "validateConfig c = None" "au_Mode (ap_Auth c) = ModeOIDC"
  shows "px_Transport (ap_Proxy c) = ''http''" "jwt_Issuer (au_OIDC (ap_Auth c)) \<noteq> []"
    "jwt_Audience (au_OIDC (ap_Auth c)) \<noteq> []" "jwt_JWKSURI (au_OIDC (ap_Auth c)) \<noteq> []"
    "0 \<le> jwt_ClockSkew (au_OIDC (ap_Auth c))" "jwt_defaults (au_OIDC (ap_Auth c)) = au_OIDC (ap_Auth c)"
proof -
  have o: "px_Transport (ap_Proxy c) = ''http'' \<and> validateOIDCConfig c = None"
    using valid_parts(5) [OF assms(1)] assms(2)
    by (auto simp: validateAuthConfig_def Let_def ModeOIDC_def ModeNone_def ModeStaticBearer_def split: if_splits)
  then show "px_Transport (ap_Proxy c) = ''http''" "jwt_Issuer (au_OIDC (ap_Auth c)) \<noteq> []"
    "jwt_Audience (au_OIDC (ap_Auth c)) \<noteq> []" "jwt_JWKSURI (au_OIDC (ap_Auth c)) \<noteq> []"
    "0 \<le> jwt_ClockSkew (au_OIDC (ap_Auth c))" "jwt_defaults (au_OIDC (ap_Auth c)) = au_OIDC (ap_Auth c)"
    by (simp_all add: validateOIDCConfig_def Let_def jwt_defaults_def defaulted_def)
qed

lemma valid_signers:
  assumes "validateConfig c = None" "ad_Sign (ap_Audit c)"
  shows "ad_Secret (ap_Audit c) \<noteq> []"
    "NewIntegritySigner (ad_Secret (ap_Audit c)) (ad_KeyID (ap_Audit c)) =
       \<lparr>is_secret = ad_Secret (ap_Audit c), is_keyID = ad_KeyID (ap_Audit c)\<rparr>"
  using valid_parts(7) [OF assms(1)] assms(2)
  by (auto simp: validate_audit_def Let_def NewIntegritySigner_def)

lemma valid_rotation:
  assumes "validateConfig c = None"
  shows "clamp0 (jc_MaxSizeBytes (jsonl_config_of c)) = jc_MaxSizeBytes (jsonl_config_of c)"
    "clamp0 (jc_MaxFiles (jsonl_config_of c)) = jc_MaxFiles (jsonl_config_of c)"
    "clamp0 (jc_MaxAgeDays (jsonl_config_of c)) = jc_MaxAgeDays (jsonl_config_of c)"
    "ad_Storage (ap_Audit c) = ''jsonl'' \<or> ad_Storage (ap_Audit c) = ''sqlite''"
  using valid_parts(7) [OF assms]
  by (auto simp: validate_audit_def Let_def clamp0_def jsonl_config_of_def)

lemma valid_http:
  assumes "validateConfig c = None" "px_Transport (ap_Proxy c) = ''http''"
    and "NewHTTPProxy fs (http_config_of c f l engine) = Inl er"
  shows "url_Parse (px_Upstream (ap_Proxy c)) = None \<or>
     (\<exists>e. root_cas fs (ts_CAFile (px_TLS (ap_Proxy c))) = Inl e) \<or>
     (\<exists>e. load_pair fs (ts_ClientCertFile (px_TLS (ap_Proxy c))) (ts_ClientKeyFile (px_TLS (ap_Proxy c))) = Some e) \<or>
     (\<exists>e. load_pair fs (ts_CertFile (px_TLS (ap_Proxy c))) (ts_KeyFile (px_TLS (ap_Proxy c))) = Some e)"
proof -
  have h: "ValidateHTTPAccessLists (hs_AllowedOrigins (px_HTTP (ap_Proxy c)))
      (hs_AllowedHosts (px_HTTP (ap_Proxy c))) = None"
    using valid_parts(3) [OF assms(1)] assms(2) by (simp add: validate_http_def Let_def)
  obtain os hs where o: "normalizedAllowedOrigins (hs_AllowedOrigins (px_HTTP (ap_Proxy c))) = Inr os"
    "normalizedAllowedHosts (hs_AllowedHosts (px_HTTP (ap_Proxy c))) = Inr hs"
    using h by (auto simp: ValidateHTTPAccessLists_def split: sum.splits)
  have t: "(ts_ClientCertFile (px_TLS (ap_Proxy c)) = []) = (ts_ClientKeyFile (px_TLS (ap_Proxy c)) = [])"
    "ts_Enabled (px_TLS (ap_Proxy c)) \<longrightarrow> ts_CertFile (px_TLS (ap_Proxy c)) \<noteq> [] \<and> ts_KeyFile (px_TLS (ap_Proxy c)) \<noteq> []"
    "\<not> ts_Enabled (px_TLS (ap_Proxy c)) \<longrightarrow> ts_CertFile (px_TLS (ap_Proxy c)) = [] \<and> ts_KeyFile (px_TLS (ap_Proxy c)) = []"
    using valid_parts(4) [OF assms(1)] by (auto simp: validate_tls_def Let_def)
  show ?thesis
    using assms(3) valid_parts(2) [OF assms(1)] o t
    by (auto simp: NewHTTPProxy_def http_config_of_def http_defaults_def default_authenticator_def
        httpclient_New_def NewTLSConfig_def client_pair_def newHTTPServerTLSConfig_def Let_def
        split: option.splits sum.splits if_splits)
qed


definition demo_app :: appConfig where
  "demo_app =
     \<lparr>ap_Proxy = \<lparr>px_Transport = ''http'', px_Upstream = ''http://upstream/'', px_BindAddress = [],
        px_Port = 4422, px_UpstreamTimeoutMS = 30000, px_ForwardHeaders = [''X-Trace''],
        px_HTTP = \<lparr>hs_MaxRequestBodyBytes = 1024, hs_MaxHeaderBytes = 1024, hs_ReadHeaderTimeout = seconds 10,
          hs_ReadTimeout = seconds 30, hs_WriteTimeout = seconds 30, hs_IdleTimeout = seconds 120,
          hs_AllowedOrigins = [], hs_AllowedHosts = []\<rparr>,
        px_TLS = \<lparr>ts_Enabled = False, ts_CertFile = [], ts_KeyFile = [], ts_CAFile = [], ts_ServerName = [],
          ts_InsecureSkipVerify = False, ts_ClientCertFile = [], ts_ClientKeyFile = []\<rparr>,
        px_Retry = \<lparr>hrc_MaxRetries = 0, hrc_InitialIntervalMS = 200, hrc_MaxIntervalMS = 2000\<rparr>,
        px_ClientID = ''c'', px_ServerID = ''s''\<rparr>,
      ap_Auth = \<lparr>au_Mode = ModeNone,
        au_Static = \<lparr>st_BearerToken = [], st_Subject = ''local'', st_ClientID = [], st_Issuer = ''static'',
          st_Roles = [], st_Scopes = []\<rparr>,
        au_OIDC = \<lparr>jwt_Issuer = [], jwt_Audience = [], jwt_JWKSURI = [], jwt_ClientIDClaim = [],
          jwt_RolesClaim = [], jwt_ScopesClaim = [], jwt_AllowedMethods = [], jwt_ClockSkew = 0,
          jwt_HTTPTimeout = 0, jwt_RefreshInterval = 0\<rparr>\<rparr>,
      ap_Audit = \<lparr>ad_Storage = ''sqlite'', ad_Path = [], ad_SQLitePath = ''audit.db'', ad_Sign = True,
        ad_Durable = False, ad_Secret = ''k'', ad_KeyID = ''default'',
        ad_Async = \<lparr>ay_Enabled = True, ay_QueueSize = 0, ay_BatchSize = 0, ay_FlushIntervalMS = 0\<rparr>,
        ad_Rotation = \<lparr>rt_MaxSizeBytes = 0, rt_MaxFiles = 0, rt_Interval = [], rt_MaxAgeDays = 0\<rparr>\<rparr>,
      ap_Middleware = \<lparr>mw_RateLimitEnabled = True, mw_RequestsPerMinute = 60, mw_RedactEnabled = True,
        mw_RedactPatterns = []\<rparr>,
      ap_Policy = \<lparr>cfg_Enabled = False, cfg_DefaultAction = [], cfg_Scope = [], cfg_Rules = []\<rparr>,
      ap_Dashboard = \<lparr>db_Enabled = False, db_BindAddress = [], db_Port = 0, db_Token = []\<rparr>,
      ap_Metrics = \<lparr>mt_Enabled = False, mt_Port = 0, mt_Path = ''/metrics'', mt_IncludeGoMetrics = False,
        mt_IncludeProcessMetrics = False, mt_ToolLabels = False\<rparr>,
      ap_OTel = \<lparr>ot_Enabled = False, ot_Endpoint = [], ot_ServiceName = [], ot_Headers = [], ot_CAFile = [],
        ot_TLSServerName = [], ot_InsecureSkipVerify = False,
        ot_Retry = \<lparr>hrc_MaxRetries = 0, hrc_InitialIntervalMS = 0, hrc_MaxIntervalMS = 0\<rparr>,
        ot_QueueSize = 0, ot_BatchSize = 0, ot_FlushIntervalMS = 0, ot_TimeoutMS = 0\<rparr>\<rparr>"

lemma demo_app_valid: "validateConfig demo_app = None"
  by code_simp


subsection \<open>The gateway and the verifier agree\<close>

text \<open>The environment in which \<open>verify\<close> runs gives the secret the gateway used.\<close>

lemma secrets_agree:
  assumes "loadConfig decode readIn env envSettings f = Inr c" "ad_Sign (ap_Audit c)"
    and "cl_getenv w = Getenv env"
    and "Getenv env legacySigningSecretEnv \<noteq> [] \<or> env preferredSigningSecretEnv \<noteq> None"
  shows "signing_secret w = ad_Secret (ap_Audit c)" "ad_Secret (ap_Audit c) \<noteq> []"
    "validateConfig c = None"
proof -
  obtain c0 where c: "c = resolveSigningSecret env c0" "validateConfig c = None"
    using assms(1) by (auto simp: loadConfig_def Let_def split: sum.splits option.splits)
  then show v: "ad_Secret (ap_Audit c) \<noteq> []" "validateConfig c = None"
    using valid_signers(1) [OF c(2) assms(2)] by simp_all
  show "signing_secret w = ad_Secret (ap_Audit c)"
    using v(1) assms(3,4) unfolding c(1)
    by (auto simp: resolveSigningSecret_def signing_secret_def set_secret_def Getenv_def Let_def
        preferredSigningSecretEnv_def legacySigningSecretEnv_def split: option.splits if_splits)
qed

text \<open>
  C21: What the gateway signs, the verification command accepts. A record prepared by the logger of
  a gateway that was started with signing on and a secret from the environment is classified as
  verified by \<open>mcp-audit verify\<close> in the same environment with the gateway's key identifier,
  whether or not the versioned format is required.
\<close>
theorem gateway_evidence_verifies:
  assumes "loadConfig decode readIn env envSettings f = Inr c" and "ad_Sign (ap_Audit c)"
    and "cl_getenv w = Getenv env"
    and "Getenv env legacySigningSecretEnv \<noteq> [] \<or> env preferredSigningSecretEnv \<noteq> None"
    and "prepare p (logger_of ops c) ulid now e = Inr e'"
    and "vp_hmac q = p_hmac p" "vp_jcs q = p_jcs p"
    and "vo_keyID opts = ad_KeyID (ap_Audit c)" "load_config q w opts = Inr config"
  shows "verify_entry q (path_verifier config) e' = (''verified'', [])"
proof -
  note a = secrets_agree [OF assms(1-4)]
  let ?v = "\<lparr>is_secret = ad_Secret (ap_Audit c), is_keyID = ad_KeyID (ap_Audit c)\<rparr>"
  have l: "lg_integritySigner (logger_of ops c) = Some ?v"
    using assms(2) valid_signers(2) [OF a(3) assms(2)] by (simp add: logger_of_def Let_def)
  have k: "ev_v2 (path_verifier config) (is_keyID ?v) = Some (is_secret ?v)"
    using load_config_policy(2) [OF assms(9)] a(1,2) assms(8)
    by (simp add: path_verifier_def newEntryVerifier_def NewVerifier_def)
  show ?thesis
    using prepare_verifies_v2 [where keys = "ev_v2 (path_verifier config)", OF assms(5) l _ k] a(2) assms(6,7) by (simp add: verify_entry_def)
qed

subsection \<open>How the process ends\<close>

lemmas main_defs = main_end_def fatal_def os_Exit_def main_return_def

lemma quiet_events [simp]:
  "Closed x \<notin> set (main_warnings c)" "Served x \<notin> set (main_warnings c)" "Failed_with x \<notin> set (main_warnings c)"
  "Closed x \<notin> set (main_servers c)" "Served x \<notin> set (main_servers c)" "Failed_with x \<notin> set (main_servers c)"
  by (simp_all add: main_warnings_def main_servers_def)

lemma main_end_closes:
  assumes "Closed ''store'' \<notin> set evs"
  shows "Closed ''store'' \<in> set (mr_events (main_end env c er evs)) \<longleftrightarrow> mr_code (main_end env c er evs) = 0"
  using assms by (auto simp: main_defs split: option.splits bool.splits)

lemma main_transport_closes:
  assumes "Closed ''store'' \<notin> set evs"
  shows "Closed ''store'' \<in> set (mr_events (main_transport env c l g a evs)) \<longleftrightarrow>
    mr_code (main_transport env c l g a evs) = 0"
  using assms main_end_closes
  by (auto simp: main_transport_def Let_def fatal_def os_Exit_def split: sum.splits)

lemma main_run_cases:
  "(\<exists>m. main_run ops env c = fatal m (main_warnings c)) \<or>
   (\<exists>g a. main_run ops env c = main_transport env c (logger_of ops c) g a (main_warnings c @ main_servers c))"
  unfolding main_run_def Let_def by (auto split: option.split sum.split)

lemma gateway_start_cases:
  assumes "\<not> fl_version flags"
  obtains m evs where "gateway_start ops env flags = fatal m evs" "\<And>x. Served x \<notin> set evs" "\<And>x. Closed x \<notin> set evs"
  | c g a where
    "gateway_start ops env flags = main_transport env c (logger_of ops c) g a (main_warnings c @ main_servers c)"
proof (cases "loadConfig (mn_decode env) (mn_readIn env) (mn_getenv env) (mn_envSettings env) flags")
  case (Inl er)
  with assms that(1) [of "''failed to load config: '' @ er" "[]"] show thesis by (simp add: gateway_start_def)
next
  case (Inr c)
  with assms have g: "gateway_start ops env flags = main_run ops env c" by (simp add: gateway_start_def)
  show thesis
    using main_run_cases [of ops env c] that(1) [of _ "main_warnings c"] that(2) [of c] unfolding g by fastforce
qed

lemma http_listener_lost:
  assumes "Served ''http'' \<in> set (mr_events (gateway_start ops env flags))" "mn_background env = None"
  shows "mr_code (gateway_start ops env flags) = 0 \<and>
    Failed_with x \<notin> set (mr_events (gateway_start ops env flags))"
proof (cases "fl_version flags")
  case True
  with assms(1) show ?thesis by (simp add: gateway_start_def os_Exit_def)
next
  case False
  then show ?thesis
  proof (cases rule: gateway_start_cases [of flags ops env])
    case (1 msg evs)
    with assms(1) show ?thesis by (simp add: fatal_def os_Exit_def)
  next
    case (2 c g a)
    with assms show ?thesis
      by (auto simp: main_transport_def main_defs Let_def split: sum.splits option.splits if_splits bool.splits)
  qed
qed

text \<open>
  C23: The exit code and the orderly close. The audit store is closed exactly when the process
  returns with code 0 after a transport was served; every failure exits with code 1 and leaves the
  store, with the queue of an asynchronous store, as it is. An error of the stdio transport gives
  code 1, but an error of the HTTP listener is lost: whatever \<open>ListenAndServe\<close> returns, the process
  reports nothing and returns with code 0 unless a background server failed.
\<close>
theorem main_outcomes:
  "(Closed ''store'' \<in> set (mr_events (gateway_start ops env flags)) \<longleftrightarrow>
      mr_code (gateway_start ops env flags) = 0 \<and> \<not> fl_version flags) \<and>
   (Served ''stdio'' \<in> set (mr_events (gateway_start ops env flags)) \<and> mn_run env = Some (False, m) \<longrightarrow>
      mr_code (gateway_start ops env flags) = 1 \<and> Closed ''store'' \<notin> set (mr_events (gateway_start ops env flags))) \<and>
   (Served ''http'' \<in> set (mr_events (gateway_start ops env flags)) \<and> mn_background env = None \<longrightarrow>
      mr_code (gateway_start ops env flags) = 0 \<and> Failed_with x \<notin> set (mr_events (gateway_start ops env flags)))"
proof (cases "fl_version flags")
  case True
  then show ?thesis by (simp add: gateway_start_def os_Exit_def)
next
  case False
  from this show ?thesis
  proof (cases rule: gateway_start_cases [of flags ops env])
    case (1 msg evs)
    then show ?thesis using False by (simp add: fatal_def os_Exit_def)
  next
    case (2 c g a)
    let ?r = "main_transport env c (logger_of ops c) g a (main_warnings c @ main_servers c)"
    have "Closed ''store'' \<in> set (mr_events ?r) \<longleftrightarrow> mr_code ?r = 0"
      by (rule main_transport_closes) simp
    moreover have "mr_code ?r = 1" if "Served ''stdio'' \<in> set (mr_events ?r)" "mn_run env = Some (False, m)"
      using that by (auto simp: main_transport_def main_defs Let_def split: sum.splits option.splits if_splits)
    ultimately show ?thesis using 2 False http_listener_lost [of ops env flags x] by auto
  qed
qed

subsection \<open>An example environment\<close>

definition demo_flags :: cliFlags where
  "demo_flags = \<lparr>fl_config = ''config.yaml'', fl_transport = [], fl_upstream = [], fl_port = 0, fl_timeout = 0,
     fl_storage = [], fl_noDashboard = False, fl_noMetrics = False, fl_version = False, fl_logLevel = [],
     fl_set = []\<rparr>"

definition demo_getenv :: "string \<Rightarrow> string option" where
  "demo_getenv n = (if n = ''AUDIT_SECRET'' then Some ''k'' else None)"

definition demo_listen_env :: main_env where
  "demo_listen_env = \<lparr>mn_args = [], mn_prims = demo_vprims, mn_cli = demo_cli,
     mn_build = None, mn_decode = (\<lambda>v. Inr demo_app), mn_readIn = (\<lambda>_. Inr None), mn_getenv = demo_getenv,
     mn_envSettings = [], mn_jsonl = (\<lambda>_ _. Inl ''unused''),
     mn_sqlite = (\<lambda>_. Inr \<lparr>db_rows = [], db_envs = []\<rparr>), mn_sha = (\<lambda>s. s), mn_newJWT = Inr,
     mn_authenticate = (\<lambda>_ _. Inr None),
     mn_files = \<lparr>read_file = (\<lambda>_. Inl []), valid_pem = (\<lambda>_. False), load_pair = (\<lambda>_ _. None)\<rparr>,
     mn_run = None, mn_listen = Some (False, ''proxy: http: listen: listen tcp :4422: bind: address already in use''),
     mn_background = None\<rparr>"

lemma demo_loads:
  "loadConfig (\<lambda>v. Inr demo_app) (\<lambda>_. Inr None) demo_getenv [] demo_flags = Inr demo_app"
proof -
  have "resolveSigningSecret demo_getenv demo_app = demo_app" "Getenv demo_getenv ''MCP_AUDIT_STATIC_BEARER_TOKEN'' = []"
    by code_simp+
  then show ?thesis using demo_app_valid by (simp add: loadConfig_def Let_def)
qed

lemma demo_serves: "Served ''http'' \<in> set (mr_events (gateway_start (sqlite_ops 0 0) demo_listen_env demo_flags))"
proof -
  let ?fs = "mn_files demo_listen_env"
  have tr: "px_Transport (ap_Proxy demo_app) = ''http''" by code_simp
  have "url_Parse (px_Upstream (ap_Proxy demo_app)) \<noteq> None" by code_simp
  moreover have "root_cas ?fs (ts_CAFile (px_TLS (ap_Proxy demo_app))) = Inr None"
    by (simp add: root_cas_def demo_app_def)
  moreover have "load_pair ?fs x y = None" for x y by (simp add: demo_listen_env_def)
  ultimately have proxy: "\<exists>h. NewHTTPProxy ?fs (http_config_of demo_app f (logger_of (sqlite_ops 0 0) demo_app) g) = Inr h"
    for f g
    using valid_http [OF demo_app_valid tr, of ?fs f "logger_of (sqlite_ops 0 0) demo_app" g]
    by (cases "NewHTTPProxy ?fs (http_config_of demo_app f (logger_of (sqlite_ops 0 0) demo_app) g)") auto
  have load: "loadConfig (mn_decode demo_listen_env) (mn_readIn demo_listen_env) (mn_getenv demo_listen_env)
      (mn_envSettings demo_listen_env) demo_flags = Inr demo_app"
    using demo_loads by (simp add: demo_listen_env_def)
  have p: "newPolicy demo_app = Inr None" by code_simp
  obtain a where a: "newAuthenticator (\<lambda>s. s) Inr demo_app = Inr a"
    using valid_authenticator [OF demo_app_valid, of "\<lambda>s. s" Inr] by (auto simp: demo_app_def ModeNone_def ModeOIDC_def)
  have st: "\<exists>s. openStore (mn_jsonl demo_listen_env) (mn_sqlite demo_listen_env) demo_app = Inr s"
    by (simp add: openStore_def demo_app_def demo_listen_env_def)
  have off: "\<not> mt_Enabled (ap_Metrics demo_app)" "\<not> ot_Enabled (ap_OTel demo_app)" by code_simp+
  have run: "main_run (sqlite_ops 0 0) demo_listen_env demo_app =
      main_transport demo_listen_env demo_app (logger_of (sqlite_ops 0 0) demo_app) None a
        (main_warnings demo_app @ main_servers demo_app)"
    using st off p a
    by (auto simp: main_run_def newMetrics_def newTraceExporter_def demo_listen_env_def)
  have "\<not> fl_version demo_flags" "mn_background demo_listen_env = None"
    by (simp_all add: demo_listen_env_def demo_flags_def)
  then show ?thesis
    using proxy [of "mn_authenticate demo_listen_env a" None] tr
    by (auto simp: gateway_start_def load run main_transport_def main_end_def main_return_def)
qed

theorem main_outcomes_witness:
  "mn_listen demo_listen_env \<noteq> None \<and>
   Served ''http'' \<in> set (mr_events (gateway_start (sqlite_ops 0 0) demo_listen_env demo_flags)) \<and>
   mr_code (gateway_start (sqlite_ops 0 0) demo_listen_env demo_flags) = 0"
proof -
  have "mn_background demo_listen_env = None" "mn_listen demo_listen_env \<noteq> None"
    by (simp_all add: demo_listen_env_def)
  then show ?thesis using demo_serves main_outcomes [of "sqlite_ops 0 0" demo_listen_env demo_flags] by blast
qed

theorem gateway_evidence_verifies_witness:
  "\<exists>e'. prepare \<lparr>p_hmac = vp_hmac demo_vprims, p_jcs = vp_jcs demo_vprims, p_float = Some\<rparr>
       (logger_of (sqlite_ops 0 0) demo_app) ''i'' 7 zero_entry = Inr e' \<and>
     verify_entry demo_vprims (path_verifier (verify_config demo_cli default_options)) e' = (''verified'', [])"
proof -
  let ?p = "\<lparr>p_hmac = vp_hmac demo_vprims, p_jcs = vp_jcs demo_vprims, p_float = Some\<rparr>"
  have "case prepare ?p (logger_of (sqlite_ops 0 0) demo_app) ''i'' 7 zero_entry of Inr _ \<Rightarrow> True | Inl _ \<Rightarrow> False"
    by code_simp
  then obtain e' where e': "prepare ?p (logger_of (sqlite_ops 0 0) demo_app) ''i'' 7 zero_entry = Inr e'"
    by (auto split: sum.splits)
  have "verify_entry demo_vprims (path_verifier (verify_config demo_cli default_options)) e' = (''verified'', [])"
  proof (rule gateway_evidence_verifies [where opts = default_options, OF demo_loads _ _ _ e'])
    show "cl_getenv demo_cli = Getenv demo_getenv"
      by (auto simp: demo_cli_def Getenv_def demo_getenv_def)
  qed (simp_all add: demo_app_def Getenv_def demo_getenv_def legacySigningSecretEnv_def default_options_def
      DefaultKeyID_def load_config_def)
  with e' show ?thesis by blast
qed

end
