(* ===== verification/Serve.thy ===== *)
theory Serve
  imports App_Main
begin

text \<open>
  The listening servers: \<open>ListenAndServe\<close> of the HTTP proxy (\<open>internal/proxy/http.go\<close>), the dashboard
  (\<open>internal/dashboard/server.go\<close>) and the metrics recorder (\<open>internal/metrics/recorder.go\<close>). Each
  starts a goroutine that listens and waits for the context or for the listener's end. The three
  are one step relation over the text that opens their errors; its rules interleave the
  cancellation, the end of the listener, the answer of \<open>Shutdown\<close> and the waiting function.
\<close>

subsection \<open>The servers\<close>

record http_server =
  hv_Addr :: string
  hv_MaxHeaderBytes :: int
  hv_ReadHeaderTimeout :: duration
  hv_ReadTimeout :: duration
  hv_WriteTimeout :: duration
  hv_IdleTimeout :: duration
  hv_TLS :: bool

definition httpServer :: "'s http_proxy \<Rightarrow> http_server" where
  "httpServer p =
     (let c = hp_config p
      in \<lparr>hv_Addr = JoinHostPort (hc_BindAddress c) (Itoa (hc_Port c)),
          hv_MaxHeaderBytes = hc_MaxHeaderBytes c, hv_ReadHeaderTimeout = hc_ReadHeaderTimeout c,
          hv_ReadTimeout = hc_ReadTimeout c, hv_WriteTimeout = hc_WriteTimeout c,
          hv_IdleTimeout = hc_IdleTimeout c, hv_TLS = hp_serverTLS p\<rparr>)"

text \<open>Fields that are not set are zero: no limit on reading, writing and idle connections.\<close>

definition metrics_server :: "recorder \<Rightarrow> http_server" where
  "metrics_server r =
     \<lparr>hv_Addr = '':'' @ Itoa (pc_Port (pr_config r)), hv_MaxHeaderBytes = 0, hv_ReadHeaderTimeout = seconds 10,
      hv_ReadTimeout = 0, hv_WriteTimeout = 0, hv_IdleTimeout = 0, hv_TLS = False\<rparr>"

subsection \<open>Waiting for a server\<close>

definition ErrServerClosed :: err where "ErrServerClosed = ''http: Server closed''"

text \<open>What the goroutine sends when the listener ends with the error \<open>er\<close>.\<close>

definition listener_value :: "err option \<Rightarrow> err option" where
  "listener_value er = (if er \<noteq> None \<and> er \<noteq> Some ErrServerClosed then er else None)"

datatype serve_pc = Selecting | Shutting | Draining | Returned "err option"

text \<open>\<open>sv_errs\<close> is the channel of capacity one; \<open>sv_end\<close> is what the listener ended with.\<close>

record serve =
  sv_ctx :: bool
  sv_shutdown :: bool
  sv_end :: "err option option"
  sv_errs :: "err option list"
  sv_pc :: serve_pc

definition serve_start :: serve where
  "serve_start = \<lparr>sv_ctx = False, sv_shutdown = False, sv_end = None, sv_errs = [], sv_pc = Selecting\<rparr>"

text \<open>
  A listener ends with an error, and with \<open>ErrServerClosed\<close> only after \<open>Shutdown\<close> was called, as the
  package documents; \<open>Shutdown\<close> answers when the connections are idle or its deadline has passed.
\<close>

inductive serve_step :: "string \<Rightarrow> serve \<Rightarrow> serve \<Rightarrow> bool" for name where
  cancel: "\<not> sv_ctx s \<Longrightarrow> serve_step name s (s\<lparr>sv_ctx := True\<rparr>)"
| listener: "sv_end s = None \<Longrightarrow> (er = ErrServerClosed \<Longrightarrow> sv_shutdown s) \<Longrightarrow> sv_errs s = [] \<Longrightarrow>
    serve_step name s (s\<lparr>sv_end := Some (Some er), sv_errs := [listener_value (Some er)]\<rparr>)"
| cancelled: "sv_pc s = Selecting \<Longrightarrow> sv_ctx s \<Longrightarrow> serve_step name s (s\<lparr>sv_shutdown := True, sv_pc := Shutting\<rparr>)"
| received: "sv_pc s = Selecting \<Longrightarrow> sv_errs s = r # rest \<Longrightarrow>
    serve_step name s
      (s\<lparr>sv_errs := rest, sv_pc := Returned (map_option (\<lambda>m. name @ '': listen: '' @ m) r)\<rparr>)"
| shutdown_fails: "sv_pc s = Shutting \<Longrightarrow>
    serve_step name s (s\<lparr>sv_pc := Returned (Some (name @ '': shutdown: '' @ m))\<rparr>)"
| shutdown_ends: "sv_pc s = Shutting \<Longrightarrow> serve_step name s (s\<lparr>sv_pc := Draining\<rparr>)"
| drained: "sv_pc s = Draining \<Longrightarrow> sv_errs s = r # rest \<Longrightarrow>
    serve_step name s (s\<lparr>sv_errs := rest, sv_pc := Returned r\<rparr>)"

definition http_serve :: "serve \<Rightarrow> serve \<Rightarrow> bool" where
  "http_serve = serve_step ''proxy: http''"

definition metrics_serve :: "serve \<Rightarrow> serve \<Rightarrow> bool" where
  "metrics_serve = serve_step ''metrics''"

definition dash_serve :: "serve \<Rightarrow> serve \<Rightarrow> bool" where
  "dash_serve = serve_step ''dashboard''"

text \<open>A dashboard that is switched off returns at once.\<close>

definition dash_serve_start :: "dash_server \<Rightarrow> serve" where
  "dash_serve_start s =
     (if dc_Enabled (ds_config s) then serve_start else serve_start\<lparr>sv_pc := Returned None\<rparr>)"

subsection \<open>What a server returns\<close>

definition listen_failed :: "serve \<Rightarrow> err \<Rightarrow> bool" where
  "listen_failed s m \<longleftrightarrow> sv_end s = Some (Some m) \<and> m \<noteq> ErrServerClosed"

definition serve_inv :: "string \<Rightarrow> serve \<Rightarrow> bool" where
  "serve_inv name s \<longleftrightarrow>
     (sv_pc s = Selecting \<longrightarrow> \<not> sv_shutdown s) \<and> (sv_pc s \<in> {Shutting, Draining} \<longrightarrow> sv_shutdown s) \<and>
     (sv_shutdown s \<longrightarrow> sv_ctx s) \<and>
     (sv_end s = None \<longrightarrow> sv_errs s = []) \<and> sv_end s \<noteq> Some None \<and>
     (sv_end s = Some (Some ErrServerClosed) \<longrightarrow> sv_shutdown s) \<and>
     (\<forall>er. sv_end s = Some er \<and> (sv_pc s \<in> {Selecting, Shutting, Draining}) \<longrightarrow> sv_errs s = [listener_value er]) \<and>
     (sv_pc s = Returned None \<longrightarrow> sv_end s = Some (Some ErrServerClosed)) \<and>
     (\<forall>er. sv_pc s = Returned (Some er) \<longrightarrow>
        (\<exists>m. listen_failed s m \<and> (er = name @ '': listen: '' @ m \<or> er = m)) \<or>
        sv_shutdown s \<and> (\<exists>m. er = name @ '': shutdown: '' @ m))"

lemma serve_start_inv: "serve_inv name serve_start"
  by (simp add: serve_inv_def serve_start_def)

lemma serve_step_inv: "serve_step name s s' \<Longrightarrow> serve_inv name s \<Longrightarrow> serve_inv name s'"
  by (induction rule: serve_step.induct)
     (auto simp: serve_inv_def listen_failed_def listener_value_def split: if_splits)

lemma serve_reach_inv: "(serve_step name)\<^sup>*\<^sup>* serve_start s \<Longrightarrow> serve_inv name s"
  by (induction rule: rtranclp_induct) (auto intro: serve_start_inv serve_step_inv)

fun pc_work :: "serve_pc \<Rightarrow> nat" where
  "pc_work Selecting = 3"
| "pc_work Shutting = 2"
| "pc_work Draining = 1"
| "pc_work (Returned r) = 0"

definition serve_work :: "serve \<Rightarrow> nat" where
  "serve_work s = of_bool (\<not> sv_ctx s) + of_bool (sv_end s = None) + pc_work (sv_pc s)"

lemma serve_step_work: "serve_step name s s' \<Longrightarrow> serve_work s' < serve_work s"
  by (induction rule: serve_step.induct) (simp_all add: serve_work_def)

lemma serve_steps_bounded: "(serve_step name ^^ n) s s' \<Longrightarrow> n + serve_work s' \<le> serve_work s"
  by (induction n arbitrary: s') (auto dest!: serve_step_work, fastforce dest: serve_step_work)

lemma serve_waits:
  assumes "serve_inv name s" "\<nexists>s'. serve_step name s s'"
  shows "\<exists>r. sv_pc s = Returned r"
proof (cases "sv_pc s")
  case Selecting
  with assms have "sv_ctx s" using serve_step.cancel by blast
  with Selecting assms(2) show ?thesis using serve_step.cancelled by blast
next
  case Shutting
  with assms(2) show ?thesis using serve_step.shutdown_ends by blast
next
  case Draining
  show ?thesis
  proof (cases "sv_end s")
    case None
    with assms(1) have "sv_errs s = []" by (simp add: serve_inv_def)
    with None assms(2) serve_step.listener [of s "''x''"] show ?thesis by (auto simp: ErrServerClosed_def)
  next
    case (Some er)
    with assms(1) Draining have "sv_errs s = [listener_value er]" by (simp add: serve_inv_def)
    with Draining assms(2) serve_step.drained show ?thesis by blast
  qed
qed simp

text \<open>
  C25: How a server ends. Whatever the order of cancellation, failure of the listener and shutdown,
  a server that runs has at most five steps to go and no step is missing before it returns. It
  returns without error only when its context was cancelled, \<open>Shutdown\<close> was called and the listener
  was closed by it; an error is the listener's, or that of a shutdown that did not complete. So a
  listener that failed is always reported to the caller. As a background server it makes the
  process exit with code 1; for the HTTP transport the very same error ends with code 0.
\<close>
theorem serve_reports:
  assumes "(serve_step name)\<^sup>*\<^sup>* serve_start s"
  shows "((serve_step name ^^ n) serve_start s' \<longrightarrow> n \<le> 5) \<and>
    ((\<nexists>s'. serve_step name s s') \<longrightarrow> (\<exists>r. sv_pc s = Returned r)) \<and>
    (sv_pc s = Returned None \<longrightarrow> sv_ctx s \<and> sv_shutdown s \<and> sv_end s = Some (Some ErrServerClosed)) \<and>
    (sv_pc s = Returned (Some er) \<longrightarrow>
       (\<exists>m. listen_failed s m \<and> (er = name @ '': listen: '' @ m \<or> er = m)) \<or>
       sv_ctx s \<and> (\<exists>m. er = name @ '': shutdown: '' @ m)) \<and>
    (listen_failed s m \<and> sv_pc s = Returned r \<longrightarrow>
       (mn_background env = Some r \<and> mn_run env = None \<longrightarrow> mr_code (main_end env c (mn_run env) evs) = 1) \<and>
       (mn_listen env = map_option (Pair False) r \<and> mn_background env = None \<and>
        Served ''http'' \<in> set (mr_events (gateway_start ops env flags)) \<longrightarrow>
          mr_code (gateway_start ops env flags) = 0))"
proof -
  have inv: "serve_inv name s" by (rule serve_reach_inv [OF assms])
  have "n \<le> 5" if "(serve_step name ^^ n) serve_start s'"
    using serve_steps_bounded [OF that] by (simp add: serve_work_def serve_start_def)
  moreover have "r \<noteq> None" if "listen_failed s m" "sv_pc s = Returned r" for m r
    using inv that by (auto simp: serve_inv_def listen_failed_def)
  moreover have "mr_code (main_end env c (mn_run env) evs) = 1"
    if "mn_background env = Some (Some x)" "mn_run env = None" for x
    using that by (simp add: main_defs)
  ultimately show ?thesis
    using inv serve_waits [OF inv] http_listener_lost [of ops env flags] by (auto simp: serve_inv_def)
qed

theorem serve_reports_witness:
  "\<exists>s. (serve_step ''proxy: http'')\<^sup>*\<^sup>* serve_start s \<and>
     map_option snd (mn_listen demo_listen_env) = (case sv_pc s of Returned r \<Rightarrow> r | _ \<Rightarrow> None) \<and>
     mr_code (gateway_start (sqlite_ops 0 0) demo_listen_env demo_flags) = 0"
proof -
  let ?m = "''listen tcp :4422: bind: address already in use''"
  let ?r = "Some (''proxy: http'' @ '': listen: '' @ ?m)"
  let ?s1 = "serve_start\<lparr>sv_end := Some (Some ?m), sv_errs := [Some ?m]\<rparr>"
  let ?s2 = "?s1\<lparr>sv_errs := [], sv_pc := Returned ?r\<rparr>"
  have "serve_step ''proxy: http'' serve_start ?s1"
    using serve_step.listener [of serve_start ?m "''proxy: http''"]
    by (simp add: serve_start_def listener_value_def ErrServerClosed_def)
  moreover have "serve_step ''proxy: http'' ?s1 ?s2"
    using serve_step.received [of ?s1 "Some ?m" "[]" "''proxy: http''"] by (simp add: serve_start_def)
  ultimately have run: "(serve_step ''proxy: http'')\<^sup>*\<^sup>* serve_start ?s2"
    by (meson converse_rtranclp_into_rtranclp rtranclp.rtrancl_refl)
  have l: "listen_failed ?s2 ?m" by (simp add: listen_failed_def ErrServerClosed_def)
  have e: "mn_listen demo_listen_env = map_option (Pair False) ?r" "mn_background demo_listen_env = None"
    by (simp_all add: demo_listen_env_def)
  from serve_reports [OF run, of _ _ _ ?m ?r demo_listen_env _ _ "sqlite_ops 0 0" demo_flags] l e demo_serves
  have "mr_code (gateway_start (sqlite_ops 0 0) demo_listen_env demo_flags) = 0" by simp
  with run e(1) show ?thesis by (intro exI [of _ ?s2]) simp
qed

end
