(* ===== verification/Stdio_Process.thy ===== *)
theory Stdio_Process
  imports App_Main
begin

text \<open>
  The upstream process of the stdio proxy: \<open>Run\<close>, \<open>shutdownUpstream\<close> and \<open>waitForPipes\<close> of
  \<open>internal/proxy/stdio.go\<close> as a step relation of the waiting function, the child and the context.
  What \<open>Run\<close> does to the pending calls is the step \<open>End\<close> of theory \<open>Stdio\<close>; here is when it does
  it, with which outcome, what becomes of the child and what the process exits with.
\<close>

subsection \<open>The child\<close>

datatype signal = Interrupted bool | Killed

text \<open>
  \<open>Finishing\<close> and \<open>Ended\<close> carry the outcome for the pending calls and the result of \<open>Run\<close>. The
  second waits for the pipes in \<open>waitForPipes\<close>.
\<close>

datatype run_pc =
  Running
| Interrupting
| Waiting_Grace
| Waiting_Exit
| Finishing string "err option"
| Ended string "err option"

text \<open>
  \<open>ch_exit\<close> is what \<open>Wait\<close> returned once the child ended, \<open>ch_waitErr\<close> the channel it is sent to,
  \<open>ch_signals\<close> the signals sent, with the success of an interrupt.
\<close>

record child =
  ch_ctx :: bool
  ch_exit :: "err option option"
  ch_waitErr :: "err option list"
  ch_signals :: "signal list"
  ch_pc :: run_pc

definition Run_begin :: "string \<Rightarrow> err option \<Rightarrow> err option \<Rightarrow> err option \<Rightarrow> child res" where
  "Run_begin upstream stdin stdout start =
     (if upstream = [] then Inl ''proxy: stdio: upstream is required''
      else
        (case stdin of
           Some er \<Rightarrow> Inl (''proxy: stdio: stdin pipe: '' @ er)
         | None \<Rightarrow>
        (case stdout of
           Some er \<Rightarrow> Inl (''proxy: stdio: stdout pipe: '' @ er)
         | None \<Rightarrow>
        (case start of
           Some er \<Rightarrow> Inl (''proxy: stdio: start upstream: '' @ er)
         | None \<Rightarrow> Inr \<lparr>ch_ctx = False, ch_exit = None, ch_waitErr = [], ch_signals = [], ch_pc = Running\<rparr>))))"

definition wait_error :: "err option \<Rightarrow> err option" where
  "wait_error er = map_option (\<lambda>m. ''proxy: stdio: wait: '' @ m) er"

text \<open>
  A child may end at any time, with or without an error. \<open>cmd.Process\<close> is set once the child was
  started. The rules \<open>grace_over\<close> and \<open>pipes_over\<close> are the timers and their alternatives.
\<close>

inductive run_step :: "child \<Rightarrow> child \<Rightarrow> bool" where
  cancel: "\<not> ch_ctx s \<Longrightarrow> run_step s (s\<lparr>ch_ctx := True\<rparr>)"
| exit: "ch_exit s = None \<Longrightarrow> run_step s (s\<lparr>ch_exit := Some er, ch_waitErr := ch_waitErr s @ [er]\<rparr>)"
| exited: "ch_pc s = Running \<Longrightarrow> ch_waitErr s = er # rest \<Longrightarrow>
    run_step s (s\<lparr>ch_waitErr := rest, ch_pc := Finishing OutcomeUpstreamError
      (wait_error er)\<rparr>)"
| cancelled: "ch_pc s = Running \<Longrightarrow> ch_ctx s \<Longrightarrow> run_step s (s\<lparr>ch_pc := Interrupting\<rparr>)"
| interrupt: "ch_pc s = Interrupting \<Longrightarrow>
    run_step s (s\<lparr>ch_signals := ch_signals s @ [Interrupted True], ch_pc := Waiting_Grace\<rparr>)"
| interrupt_fails: "ch_pc s = Interrupting \<Longrightarrow>
    run_step s (s\<lparr>ch_signals := ch_signals s @ [Interrupted False, Killed], ch_pc := Waiting_Exit\<rparr>)"
| graceful: "ch_pc s = Waiting_Grace \<Longrightarrow> ch_waitErr s = er # rest \<Longrightarrow>
    run_step s (s\<lparr>ch_waitErr := rest, ch_pc := Finishing OutcomeCancelled None\<rparr>)"
| grace_over: "ch_pc s = Waiting_Grace \<Longrightarrow>
    run_step s (s\<lparr>ch_signals := ch_signals s @ [Killed], ch_pc := Waiting_Exit\<rparr>)"
| reaped: "ch_pc s = Waiting_Exit \<Longrightarrow> ch_waitErr s = er # rest \<Longrightarrow>
    run_step s (s\<lparr>ch_waitErr := rest, ch_pc := Finishing OutcomeCancelled None\<rparr>)"
| pipes_over: "ch_pc s = Finishing outcome r \<Longrightarrow> run_step s (s\<lparr>ch_pc := Ended outcome r\<rparr>)"

subsection \<open>Invariant and progress\<close>

definition finishing :: "run_pc \<Rightarrow> (string \<times> err option) option" where
  "finishing pc = (case pc of Finishing out r \<Rightarrow> Some (out, r) | Ended out r \<Rightarrow> Some (out, r) | _ \<Rightarrow> None)"

lemma finishing_simps [simp]:
  "finishing Running = None" "finishing Interrupting = None" "finishing Waiting_Grace = None"
  "finishing Waiting_Exit = None" "finishing (Finishing out r) = Some (out, r)" "finishing (Ended out r) = Some (out, r)"
  by (simp_all add: finishing_def)

definition run_inv :: "child \<Rightarrow> bool" where
  "run_inv s \<longleftrightarrow>
     (ch_pc s \<in> {Interrupting, Waiting_Grace, Waiting_Exit} \<longrightarrow> ch_ctx s) \<and>
     (finishing (ch_pc s) = None \<longrightarrow> ch_waitErr s = (case ch_exit s of None \<Rightarrow> [] | Some er \<Rightarrow> [er])) \<and>
     (ch_pc s \<in> {Running, Interrupting} \<longrightarrow> ch_signals s = []) \<and>
     (ch_pc s = Waiting_Grace \<longrightarrow> ch_signals s = [Interrupted True]) \<and>
     (ch_pc s = Waiting_Exit \<longrightarrow> ch_signals s \<in> {[Interrupted True, Killed], [Interrupted False, Killed]}) \<and>
     (\<forall>out r. finishing (ch_pc s) = Some (out, r) \<longrightarrow>
        (\<exists>er. ch_exit s = Some er \<and>
           (out = OutcomeUpstreamError \<and> ch_signals s = [] \<and>
              r = wait_error er \<or>
            out = OutcomeCancelled \<and> ch_ctx s \<and> r = None \<and>
              ch_signals s \<in> {[Interrupted True], [Interrupted True, Killed], [Interrupted False, Killed]})))"

lemma Run_begin_inv: "Run_begin upstream i out st = Inr s \<Longrightarrow> run_inv s"
  by (auto simp: Run_begin_def run_inv_def split: if_splits option.splits)

lemma run_step_inv: "run_step s s' \<Longrightarrow> run_inv s \<Longrightarrow> run_inv s'"
  by (induction rule: run_step.induct) (auto simp: run_inv_def split: option.splits)

lemma run_reach_inv: "run_step\<^sup>*\<^sup>* s0 s \<Longrightarrow> run_inv s0 \<Longrightarrow> run_inv s"
  by (induction rule: rtranclp_induct) (auto intro: run_step_inv)

fun run_pc_work :: "run_pc \<Rightarrow> nat" where
  "run_pc_work Running = 5"
| "run_pc_work Interrupting = 4"
| "run_pc_work Waiting_Grace = 3"
| "run_pc_work Waiting_Exit = 2"
| "run_pc_work (Finishing out r) = 1"
| "run_pc_work (Ended out r) = 0"

definition run_work :: "child \<Rightarrow> nat" where
  "run_work s = of_bool (\<not> ch_ctx s) + of_bool (ch_exit s = None) + run_pc_work (ch_pc s)"

lemma run_step_work: "run_step s s' \<Longrightarrow> run_work s' < run_work s"
  by (induction rule: run_step.induct) (simp_all add: run_work_def)

lemma run_steps_bounded: "(run_step ^^ n) s s' \<Longrightarrow> n + run_work s' \<le> run_work s"
  by (induction n arbitrary: s') (auto dest!: run_step_work, fastforce dest: run_step_work)

lemma run_waits:
  assumes "run_inv s" "\<nexists>s'. run_step s s'"
  shows "\<exists>out r. ch_pc s = Ended out r"
proof -
  obtain er where x: "ch_exit s = Some er" using assms(2) run_step.exit by fastforce
  have w: "finishing (ch_pc s) = None \<Longrightarrow> ch_waitErr s = [er]" using assms(1) x by (simp add: run_inv_def)
  show ?thesis
    using assms(2) w run_step.exited [of s er "[]"] run_step.interrupt [of s] run_step.graceful [of s er "[]"]
      run_step.reaped [of s er "[]"] run_step.pipes_over [of s]
    by (cases "ch_pc s") auto
qed

text \<open>
  C24: How the stdio proxy and its upstream end. After a successful start, in every order of
  cancellation, exit and time-outs, \<open>Run\<close> returns after at most seven steps, and only when the
  child has ended and was waited for. The pending calls are ended as cancelled exactly on the path
  of the context, where the result is no error whatever the child's status is; the child is killed
  only after the interrupt failed or was given its time. Otherwise the child ended by itself,
  received no signal, and its error is the result; it makes the process exit with code 1.
\<close>
theorem stdio_process_ends:
  assumes "Run_begin upstream i out st = Inr s0" and "run_step\<^sup>*\<^sup>* s0 s"
  shows "((run_step ^^ n) s0 s' \<longrightarrow> n \<le> 7) \<and>
    ((\<nexists>s'. run_step s s') \<longrightarrow> (\<exists>outcome r. ch_pc s = Ended outcome r)) \<and>
    (Killed \<in> set (ch_signals s) \<longrightarrow>
       ch_ctx s \<and> ch_signals s \<in> {[Interrupted True, Killed], [Interrupted False, Killed]}) \<and>
    (ch_pc s = Ended outcome r \<longrightarrow>
       (\<exists>er. ch_exit s = Some er \<and>
          (if outcome = OutcomeCancelled then ch_ctx s \<and> ch_signals s \<noteq> [] \<and> r = None
           else outcome = OutcomeUpstreamError \<and> ch_signals s = [] \<and>
             r = wait_error er)) \<and>
       (mn_run env = map_option (Pair False) r \<and> mn_background env = None \<longrightarrow>
          mr_code (main_end env c (mn_run env) evs) = (if r = None then 0 else 1)))"
proof -
  have inv: "run_inv s" using run_reach_inv [OF assms(2)] Run_begin_inv [OF assms(1)] by blast
  have "run_work s0 = 7"
    using assms(1) by (auto simp: Run_begin_def run_work_def split: if_splits option.splits)
  then have "n \<le> 7" if "(run_step ^^ n) s0 s'"
    using run_steps_bounded [OF that] by simp
  moreover have "\<exists>er. ch_exit s = Some er \<and>
      (if outcome = OutcomeCancelled then ch_ctx s \<and> ch_signals s \<noteq> [] \<and> r = None
       else outcome = OutcomeUpstreamError \<and> ch_signals s = [] \<and> r = wait_error er)"
    if e: "ch_pc s = Ended outcome r"
  proof -
    have ne: "OutcomeUpstreamError \<noteq> OutcomeCancelled" by code_simp
    from inv e obtain er where x: "ch_exit s = Some er" and
      "outcome = OutcomeUpstreamError \<and> ch_signals s = [] \<and> r = wait_error er \<or>
       outcome = OutcomeCancelled \<and> ch_ctx s \<and> r = None \<and> ch_signals s \<noteq> []"
      by (auto simp: run_inv_def)
    with ne show ?thesis by (intro exI [of _ er]) auto
  qed
  moreover have "mr_code (main_end env c (mn_run env) evs) = (if r = None then 0 else 1)"
    if "mn_run env = map_option (Pair False) r" "mn_background env = None"
    using that by (cases r) (simp_all add: main_defs)
  moreover have "ch_ctx s \<and> ch_signals s \<in> {[Interrupted True, Killed], [Interrupted False, Killed]}"
    if "Killed \<in> set (ch_signals s)"
    using inv that by (cases "ch_pc s") (auto simp: run_inv_def)
  ultimately show ?thesis using run_waits [OF inv] by (intro conjI impI) simp_all
qed

theorem stdio_process_ends_witness:
  "\<exists>s0 s. Run_begin ''server'' None None None = Inr s0 \<and> run_step\<^sup>*\<^sup>* s0 s \<and>
     ch_pc s = Ended OutcomeCancelled None \<and> ch_signals s = [Interrupted False, Killed] \<and>
     ch_exit s = Some (Some ''signal: killed'') \<and>
     mr_code (main_end demo_listen_env demo_app (mn_run demo_listen_env) []) = 0"
proof -
  let ?s0 = "\<lparr>ch_ctx = False, ch_exit = None, ch_waitErr = [], ch_signals = [], ch_pc = Running\<rparr>"
  let ?s1 = "?s0\<lparr>ch_ctx := True\<rparr>"
  let ?s2 = "?s1\<lparr>ch_pc := Interrupting\<rparr>"
  let ?s3 = "?s2\<lparr>ch_signals := [Interrupted False, Killed], ch_pc := Waiting_Exit\<rparr>"
  let ?s4 = "?s3\<lparr>ch_exit := Some (Some ''signal: killed''), ch_waitErr := [Some ''signal: killed'']\<rparr>"
  let ?s5 = "?s4\<lparr>ch_waitErr := [], ch_pc := Finishing OutcomeCancelled None\<rparr>"
  let ?s6 = "?s5\<lparr>ch_pc := Ended OutcomeCancelled None\<rparr>"
  have b: "Run_begin ''server'' None None None = Inr ?s0" by (simp add: Run_begin_def)
  have "run_step ?s0 ?s1" "run_step ?s1 ?s2" "run_step ?s2 ?s3" "run_step ?s3 ?s4" "run_step ?s4 ?s5" "run_step ?s5 ?s6"
    using run_step.cancel [of ?s0] run_step.cancelled [of ?s1] run_step.interrupt_fails [of ?s2]
      run_step.exit [of ?s3 "Some ''signal: killed''"] run_step.reaped [of ?s4 "Some ''signal: killed''" "[]"]
      run_step.pipes_over [of ?s5]
    by simp_all
  then have run: "run_step\<^sup>*\<^sup>* ?s0 ?s6" by (meson converse_rtranclp_into_rtranclp rtranclp.rtrancl_refl)
  have e: "mn_run demo_listen_env = None" "mn_background demo_listen_env = None"
    by (simp_all add: demo_listen_env_def)
  from stdio_process_ends [OF b run, of _ _ OutcomeCancelled None demo_listen_env demo_app "[]"] e
  have "mr_code (main_end demo_listen_env demo_app (mn_run demo_listen_env) []) = 0" by simp
  with b run show ?thesis by (intro exI [of _ ?s0] exI [of _ ?s6]) simp
qed

end
