(* ===== verification/Dashboard_Page.thy ===== *)
theory Dashboard_Page
  imports Dashboard
begin

text \<open>
  The script of the dashboard page (\<open>pageTemplate\<close> in \<open>internal/dashboard/server.go\<close>), as far as it
  builds markup from audit records. \<open>page_env\<close> holds what the browser's run time answers. Payloads
  pass through \<open>escapeHTML\<close> and stay text; the other columns do not.
\<close>

subsection \<open>Escaping\<close>

definition squote :: char where "squote = CHR 0x27"

definition escape_char :: "char \<Rightarrow> string" where
  "escape_char c =
     (if c = CHR ''&'' then ''&amp;''
      else if c = CHR ''<'' then ''&lt;''
      else if c = CHR ''>'' then ''&gt;''
      else if c = dquote then ''&quot;''
      else if c = squote then ''&#039;''
      else [c])"

definition escapeHTML :: "string \<Rightarrow> string" where
  "escapeHTML s = concat (map escape_char s)"

definition markup_chars :: "char set" where
  "markup_chars = {CHR ''<'', CHR ''>'', dquote, squote}"

text \<open>What a browser reads in an element's text: the character references above are decoded.\<close>

function read_text :: "string \<Rightarrow> string" where
  "read_text [] = []"
| "read_text (c # cs) =
     (if c = CHR ''&'' then
        (if prefix ''amp;'' cs then CHR ''&'' # read_text (drop 4 cs)
         else if prefix ''lt;'' cs then CHR ''<'' # read_text (drop 3 cs)
         else if prefix ''gt;'' cs then CHR ''>'' # read_text (drop 3 cs)
         else if prefix ''quot;'' cs then dquote # read_text (drop 5 cs)
         else if prefix ''#039;'' cs then squote # read_text (drop 5 cs)
         else c # read_text cs)
      else c # read_text cs)"
  by pat_completeness auto

termination
  by (relation "measure length") auto

lemma escapeHTML_simps [simp]:
  "escapeHTML [] = []" "escapeHTML (c # s) = escape_char c @ escapeHTML s"
  by (simp_all add: escapeHTML_def)

lemma read_text_char: "read_text (escape_char c @ s) = c # read_text s"
  by (auto simp: escape_char_def)

lemma read_text_escape: "read_text (escapeHTML s) = s"
  by (induction s) (simp_all add: read_text_char)

lemma escape_char_plain: "set (escape_char c) \<inter> markup_chars = {}"
  by (simp add: escape_char_def markup_chars_def squote_def)

lemma escapeHTML_plain: "set (escapeHTML s) \<inter> markup_chars = {}"
  using escape_char_plain by (auto simp: escapeHTML_def)

subsection \<open>The rows of an entry\<close>

text \<open>
  \<open>toLocaleString\<close> on the time stamp, and \<open>JSON.stringify\<close> on a payload, where \<open>None\<close> says that the
  value counts as false (an absent payload does, like \<open>null\<close>, \<open>false\<close>, zero and the empty string).
\<close>

record page_env =
  pg_locale :: "go_time \<Rightarrow> string"
  pg_stringify :: "string \<Rightarrow> string option"
  pg_error :: "rpc_error \<Rightarrow> string"

definition pretty :: "page_env \<Rightarrow> string \<Rightarrow> string" where
  "pretty w v = (case pg_stringify w v of None \<Rightarrow> [] | Some s \<Rightarrow> s)"

definition pretty_outcome :: "page_env \<Rightarrow> entry \<Rightarrow> string" where
  "pretty_outcome w e =
     (case pg_stringify w (e_Result e) of
        Some s \<Rightarrow> s
      | None \<Rightarrow> (case e_Error e of None \<Rightarrow> [] | Some er \<Rightarrow> pg_error w er))"

definition row_html :: "page_env \<Rightarrow> entry \<Rightarrow> string" where
  "row_html w e =
     ''<td>'' @ pg_locale w (e_Timestamp e) @ ''</td><td>'' @ e_Direction e @
     ''</td><td class='' @ [squote] @ ''method'' @ [squote] @ ''>'' @ e_Method e @ ''</td><td>'' @ e_ToolName e @
     ''</td><td>'' @ e_ClientID e @ ''</td><td>'' @ Itoa (e_DurationMs e) @ '' ms</td><td class='' @ [squote] @
     (if e_Error e \<noteq> None then ''error'' else []) @ [squote] @ ''>'' @
     (if e_Error e \<noteq> None then ''error'' else ''ok'') @ ''</td>''"

definition details_open :: string where
  "details_open = ''<td colspan='' @ [squote] @ ''7'' @ [squote] @ ''><div class='' @ [squote] @ ''payloads'' @
     [squote] @ ''><pre>''"

definition details_html :: "page_env \<Rightarrow> entry \<Rightarrow> string" where
  "details_html w e =
     details_open @ escapeHTML (pretty w (e_Params e)) @ ''</pre><pre>'' @ escapeHTML (pretty_outcome w e) @
     ''</pre></div></td>''"

definition markup_of :: "string \<Rightarrow> string" where
  "markup_of s = filter (\<lambda>c. c \<in> markup_chars) s"

lemma markup_of_append [simp]: "markup_of (s @ t) = markup_of s @ markup_of t"
  by (simp add: markup_of_def)

lemma markup_of_escaped [simp]: "markup_of (escapeHTML s) = []"
  using escapeHTML_plain [of s] by (auto simp: markup_of_def filter_empty_conv)

lemma details_markup:
  "markup_of (details_html w e) = markup_of details_open @ markup_of ''</pre><pre>'' @ markup_of ''</pre></div></td>''"
  by (simp only: details_html_def markup_of_append markup_of_escaped append_Nil)

lemma row_method: "\<exists>a b. row_html w e = a @ e_Method e @ b"
proof
  show "\<exists>b. row_html w e = (''<td>'' @ pg_locale w (e_Timestamp e) @ ''</td><td>'' @ e_Direction e @
     ''</td><td class='' @ [squote] @ ''method'' @ [squote] @ ''>'') @ e_Method e @ b"
    unfolding row_html_def append_assoc by blast
qed

text \<open>
  C27: What of a record the page shows as text. A payload is shown as it is: the browser reads the
  escaped text back, and whatever the payloads of a record contain, the markup of its details is
  that of an empty record. The first row is built without escaping: the method of a recorded call,
  which is the client's text, is part of the markup of the row, character by character.
\<close>
theorem dashboard_markup:
  assumes "prepare p l ulid now e = Inr e'"
  shows "read_text (escapeHTML s) = s \<and> set (escapeHTML s) \<inter> markup_chars = {} \<and>
    markup_of (details_html w e') = markup_of (details_html w zero_entry) \<and>
    (\<exists>a b. row_html w e' = a @ e_Method e @ b \<and>
       markup_of (row_html w e') = markup_of a @ markup_of (e_Method e) @ markup_of b)"
proof -
  obtain a b where "row_html w e' = a @ e_Method e' @ b" using row_method by blast
  then have "row_html w e' = a @ e_Method e @ b \<and>
      markup_of (row_html w e') = markup_of a @ markup_of (e_Method e) @ markup_of b"
    using prepare_preserves [OF assms] by simp
  then show ?thesis
    using read_text_escape escapeHTML_plain unfolding details_markup by blast
qed

definition demo_page :: page_env where
  "demo_page = \<lparr>pg_locale = (\<lambda>_. ''now''), pg_stringify = (\<lambda>s. if s = [] then None else Some s),
     pg_error = (\<lambda>_. ''error'')\<rparr>"

definition page_logger :: "entry list logger" where
  "page_logger =
     \<lparr>lg_store = memory_ops, lg_signer = None, lg_integritySigner = None, lg_redactor = None, lg_trace = False,
      lg_transport = ''http'', lg_clientID = ''c'', lg_serverID = ''s'', lg_metrics = False, lg_durable = False\<rparr>"

theorem dashboard_markup_witness:
  "\<exists>e' a b. prepare \<lparr>p_hmac = (\<lambda>k m. m), p_jcs = Inr, p_float = Some\<rparr> page_logger ''i'' 7
       (zero_entry\<lparr>e_Method := ''<img src=x>'', e_Params := ''1''\<rparr>) = Inr e' \<and>
     row_html demo_page e' = a @ ''<img src=x>'' @ b \<and>
     markup_of (details_html demo_page e') = markup_of (details_html demo_page zero_entry)"
proof -
  let ?p = "\<lparr>p_hmac = (\<lambda>k m. m), p_jcs = Inr, p_float = Some\<rparr>"
  let ?e = "zero_entry\<lparr>e_Method := ''<img src=x>'', e_Params := ''1''\<rparr>"
  have "case prepare ?p page_logger ''i'' 7 ?e of Inr _ \<Rightarrow> True | Inl _ \<Rightarrow> False" by code_simp
  then obtain e' where e': "prepare ?p page_logger ''i'' 7 ?e = Inr e'" by (auto split: sum.splits)
  from dashboard_markup [OF e', of "[]" demo_page] e' show ?thesis by auto
qed

end
