(* ===== verification/Spec2Isabelle.thy ===== *)
theory Spec2Isabelle
  imports Policy Retry Middleware Mcp Auth Integrity Logger Operation Sqlite Instrumented Async Jsonl Jsonl_Contract Jsonl_Async Stdio Http_Proxy Verify_Cli Evidence Sqlite_Evidence App_Main Serve Stdio_Process Dashboard Dashboard_Page Metrics Otel
begin

text \<open>
  This development verifies \<open>mcp-audit\<close>, a gateway that stands between clients and servers of
  the Model Context Protocol, decides which calls pass, and keeps signed evidence of every call.

  \<^bold>\<open>The program and its parts.\<close> A request enters through one of two proxies: lines on
  standard input (\<open>internal/proxy/stdio.go\<close>) or HTTP (\<open>internal/proxy/http.go\<close>). The HTTP proxy
  authenticates it (\<open>internal/auth\<close>), checks origin, host and protocol headers (\<open>internal/mcp\<close>),
  both ask the policy engine (\<open>internal/policy\<close>) and the rate limiter (\<open>internal/middleware\<close>), and
  open an operation (\<open>internal/audit/operation.go\<close>) before they forward the bytes. The response,
  a timeout or a disconnect finalizes the operation: the logger (\<open>internal/audit/logger.go\<close>) fills
  in, redacts and signs one record (\<open>signer.go\<close>, \<open>internal/audit/integrity\<close>) and appends it to a
  store (\<open>internal/audit/storage\<close>: SQLite, JSON lines, and the asynchronous and instrumented
  wrappers). The stored evidence is checked offline by \<open>mcp-audit verify\<close>
  (\<open>internal/audit/verify\<close>, \<open>cmd/mcp-audit/verify.go\<close>).

  \<^bold>\<open>Theories.\<close>
  \<^item> \<open>Go_Base\<close>, \<open>Go_Time\<close>, \<open>Json\<close>, \<open>Json_Codec\<close>, \<open>Go_Http\<close>, \<open>Go_Net\<close>: what the sources use of Go and
    its standard library: package \<open>strings\<close>, decimal numbers and 64-bit wrap-around, calendar
    times and RFC 3339, the JSON scanner, decoder and encoder, headers, URLs and addresses.
    Strings are byte strings; an error is its text; a result is a sum with the error on the left.
  \<^item> \<open>Policy\<close>, \<open>Retry\<close>, \<open>Middleware\<close>, \<open>Mcp\<close>, \<open>Auth\<close>: the policy engine, backoff and
    \<open>Retry-After\<close>, redaction and rate limiting, request inspection, authenticators. Evaluation is
    the first matching rule; delays stay in bounds except in one overflow; nothing under a
    sensitive key survives redaction; the limiter is a private bucket per key; accepted headers
    agree with the body.
  \<^item> \<open>Audit_Entry\<close>, \<open>Integrity\<close>, \<open>Logger\<close>, \<open>Operation\<close>: records with their JSON forms, signatures,
    preparation and the life cycle of an operation. The locale \<open>audit_store\<close> in \<open>Operation\<close> is the
    contract of a store; within it, an operation is recorded at most once however its attempts
    fail. A record that is prepared verifies.
  \<^item> \<open>Sqlite\<close>, \<open>Instrumented\<close>, \<open>Async\<close>, \<open>Jsonl\<close>: the stores. SQLite and the instrumented wrapper
    interpret \<open>audit_store\<close>; the asynchronous store is a step relation of concurrent clients and
    the writer, which loses no accepted entry; an append to the JSON lines store is all or nothing
    on disk over write failures and rotation.
  \<^item> \<open>Json_Roundtrip\<close>, \<open>Entry_Roundtrip\<close>: the encoder's output for strings, integers, times, raw
    messages and structs lexes and parses back, so an entry is decoded as it was, with compact raw
    messages. \<open>Jsonl_Contract\<close>: with this the JSON lines store interprets \<open>audit_store\<close> too, and
    queries answer from all records. \<open>Jsonl_Async\<close>: the locale \<open>batch_store\<close> of \<open>Async\<close>, the contract
    under which the asynchronous store acknowledges, holds of both stores. \<open>Evidence\<close> and \<open>Sqlite_Evidence\<close>: what either store holds, read
    by the verifier from its file or its table, is verified.
  \<^item> \<open>Rpc\<close>, \<open>Stdio\<close>, \<open>Http_Access\<close>, \<open>Http_Proxy\<close>: the proxies. \<open>Rpc\<close> holds what both share: lenient
    decoding, pending calls, and the gateway state with ghost ledgers of accepted, finalized and
    lost operations; the locale \<open>call_recorder\<close> is its contract. \<open>Stdio\<close> is a step relation of the
    pipes, the cleanup timer and shutdown; \<open>Http_Proxy\<close> is the handler with retries and event
    streams. Every accepted operation is accounted for, only allowed lines are forwarded, and the
    exceptions the code has (reused identifiers, undecodable messages, partly denied batches,
    server requests that look like responses) are theorems.
  \<^item> \<open>Verify\<close>, \<open>Verify_Cli\<close>: verification of stored evidence. The locale \<open>evidence_reader\<close> is the
    contract of the readers for both formats; the report is the summary of the items of an
    artifact, a checkpoint accepts its own artifact and binds the sequence of records, and the
    exit code of the command means what a script takes it to mean.
  \<^item> \<open>App_Config\<close>, \<open>App_Flags\<close>, \<open>App_Main\<close>: configuration, command line and \<open>main\<close>
    (\<open>cmd/mcp-audit/main.go\<close>). Settings given as flags are read back. A validated
    configuration is well-formed for everything that is built from it; what the configured gateway
    signs, the verification command accepts in the same environment; exit codes and the orderly
    close, with the error of the HTTP listener that is lost.
  \<^item> \<open>Serve\<close>, \<open>Stdio_Process\<close>: how the parts that run beside \<open>main\<close> end, as step relations: the three
    \<open>ListenAndServe\<close> functions return in bounded steps and report a failed listener, and \<open>Run\<close> of the
    stdio proxy returns only when the upstream process has ended and was waited for.
  \<^item> \<open>Dashboard\<close>: the dashboard (\<open>internal/dashboard\<close>), as the states that sequences of requests can
    reach: only holders of the token are served, and the limiter stays bounded in every sweep order.
    \<open>Dashboard_Page\<close>: the markup its script builds from records; payloads stay text, methods do not.
  \<^item> \<open>Metrics\<close>: the recorder (\<open>internal/metrics\<close>): its counters are exact sums of the calls.
  \<^item> \<open>Otel_Span\<close>, \<open>Otel\<close>: the trace exporter (\<open>internal/otel\<close>): what a span carries, the bounded
    retries of one export, and the queue and its worker as a step relation in which every accepted
    span is delivered, counted as dropped, or still there. \<open>App_Main\<close> builds both from the configuration.
  \<^item> \<open>Spec2Isabelle\<close>: properties of the logger, operation and stores together.

  \<^bold>\<open>State and operations.\<close> A Go struct is a record, a method a function that returns the changed
  state, a failing call a branch on an error value. What is outside the program is an argument:
  HMAC, SHA-256, RFC 8785 canonicalization, token buckets, JWT verification and key sets, float
  formatting, and for every call to the operating system or the database engine a schedule that
  says whether and how it fails, including failures after the effect took place. A goroutine is a
  rule of a step relation, and theorems about such relations hold for all interleavings.

  \<^bold>\<open>Bounds.\<close> Recursion is structural or comes with a measure. Fuel appears in the search for an
  archive name, where one more than the number of files is enough (\<open>Jsonl.nextArchivePath_free\<close>);
  the attempts of a finalization are bounded by the constant of the source, and the retry loop by
  the configured number (\<open>Http_Proxy.upstream_retries_bounded\<close>). The 64-bit conversions that can
  overflow are written out (\<open>wrap64\<close>); lengths and counters that cannot reach 64 bits are numbers.

  \<^bold>\<open>Not modelled.\<close> The proxies and stores keep the calls they make to the metrics recorder, and the
  logger the entries it hands to the trace exporter; the Prometheus client is its documented
  behaviour, without help texts and buckets. Sockets, TLS, the programs of child processes, the
  decoding of configuration files, and the layout and timers of the dashboard page are the
  environment, and log messages are left out. White space and letter case are those of ASCII.
  Durations of storage writes are left out of metrics. Allocations do not fail.
\<close>

section \<open>A configuration for examples\<close>

text \<open>An instrumented SQLite store with signing switched on and toy primitives.\<close>

definition demo_prims :: prims where
  "demo_prims = \<lparr>p_hmac = (\<lambda>k m. CHR ''x'' # k), p_jcs = Inr, p_float = Some\<rparr>"

definition demo_logger :: "sqlite instrumented logger" where
  "demo_logger =
     \<lparr>lg_store = instrumented_ops \<lparr>ic_metrics = True, ic_backend = ''sqlite'', ic_mode = ''sync''\<rparr>
                  (sqlite_ops 0 0),
      lg_signer = Some (NewSigner ''k''), lg_integritySigner = Some (NewIntegritySigner ''k'' []),
      lg_redactor = Some (NewRedactor True []), lg_trace = True, lg_transport = ''stdio'',
      lg_clientID = ''c'', lg_serverID = ''s'', lg_metrics = True, lg_durable = True\<rparr>"

definition demo_world :: "sql_env list \<Rightarrow> sqlite instrumented world" where
  "demo_world envs =
     \<lparr>w_store = \<lparr>in_store = \<lparr>db_rows = [], db_envs = envs\<rparr>, in_writes = []\<rparr>,
      w_metrics = [], w_traces = []\<rparr>"

definition demo_operation :: operation where
  "demo_operation =
     \<lparr>o_entry = zero_entry\<lparr>e_AuditOperationID := ''u'', e_Method := ''tools/call''\<rparr>,
      o_startedAt = 5, o_finalized = False, o_prepared = None, o_completion = None,
      o_attempted = False\<rparr>"

definition demo_completion :: completion where
  "demo_completion =
     \<lparr>cp_Outcome = OutcomeSuccess, cp_Direction = DirectionServerToClient, cp_Result = ''1'',
      cp_Error = None\<rparr>"

definition lost_commit :: sql_env where
  "lost_commit = sql_fine\<lparr>se_commit := Some (True, ''disk I/O error'')\<rparr>"

section \<open>Operations are recorded exactly once\<close>

text \<open>
  C2: The terminal event of an operation, for any store. A call of \<open>Finalize\<close> on a live operation
  succeeds exactly when it turns an operation that was not finalized into a finalized one; the
  record is frozen by the first call, together with its completion, and a call with another
  completion changes nothing; once finalized, every further call is refused.
\<close>
theorem Finalize_once:
  assumes "Finalize p l ulid now c (Some op) w = (r, oo, w')"
  shows "\<exists>op'. oo = Some op' \<and>
     (r = None \<longleftrightarrow> \<not> o_finalized op \<and> o_finalized op') \<and>
     (r = None \<longrightarrow> Outcome_Valid (cp_Outcome c) \<and> o_completion op' = Some c) \<and>
     (\<forall>e. o_prepared op = Some e \<longrightarrow> o_prepared op' = Some e \<and> o_completion op' = o_completion op) \<and>
     (o_prepared op \<noteq> None \<and> o_completion op \<noteq> Some c \<longrightarrow> op' = op \<and> w' = w \<and> r \<noteq> None) \<and>
     (o_finalized op \<longrightarrow> op' = op \<and> w' = w \<and>
        (Outcome_Valid (cp_Outcome c) \<longrightarrow> r = Some ErrOperationFinalized))"
proof (cases "Outcome_Valid (cp_Outcome c) \<and> \<not> o_finalized op")
  case False
  with assms show ?thesis by (auto simp: Finalize_def split: if_splits)
next
  case True
  show ?thesis
  proof (cases "freeze p l ulid now c op")
    case (Inl er)
    with assms True show ?thesis by (auto simp: Finalize_def)
  next
    case (Inr op1)
    obtain er op2 w2 where a: "attempts 3 l (the (o_prepared op1)) None op1 w = (er, op2, w2)"
      by (metis prod_cases3)
    with assms True Inr have eq: "oo = Some op2" "r = er" "w' = w2" by (auto simp: Finalize_def)
    note f = freeze_cases [OF Inr]
    from attempts_result [OF a] f True eq show ?thesis by (intro exI [of _ op2]) auto
  qed
qed

lemma demo_finalizes:
  "case Finalize demo_prims demo_logger ''i'' 7 demo_completion (Some demo_operation)
        (demo_world [lost_commit]) of
     (r, oo, w) \<Rightarrow> r = None \<and> oo \<noteq> None \<and> o_finalized (the oo) \<and> o_prepared (the oo) \<noteq> None \<and>
       length (db_rows (in_store (w_store w))) = 1"
  by code_simp

theorem Finalize_once_witness:
  "\<exists>op' w'. Finalize demo_prims demo_logger ''i'' 7 demo_completion (Some demo_operation)
      (demo_world [lost_commit]) = (None, Some op', w') \<and> o_finalized op'"
proof -
  obtain r oo w where f: "Finalize demo_prims demo_logger ''i'' 7 demo_completion
      (Some demo_operation) (demo_world [lost_commit]) = (r, oo, w)" by (metis prod_cases3)
  from Finalize_once [OF f] f demo_finalizes show ?thesis by auto
qed

text \<open>
  C1: At most once, and exactly once when finalized. Take an operation as the proxies create it,
  recorded through the instrumented SQLite store, and any interleaving of \<open>Finalize\<close> calls (with
  any completions, and identifiers that are fresh when drawn) with any activity on other
  records, with any failures of the database, including commits that take effect although
  they report an error. Then the store never has two records of the operation; once it is
  finalized it has exactly one, the record frozen by the first call, with a terminal outcome and
  the operation's correlation identifier.
\<close>
theorem operation_exactly_once:
  fixes c :: instr_config
  defines "contents \<equiv> sqlite_contents \<circ> in_store" and "ok \<equiv> sqlite_ok \<circ> in_store"
  assumes new: "NewOperation (Some l) (Inr u) now0 entry0 started = Inr op" and "e_ID entry0 = []"
    and store: "lg_store l = instrumented_ops c (sqlite_ops offset now1)"
    and ok: "ok (w_store w)"
    and run: "(op_step contents ok (\<lambda>_. True) p l)\<^sup>*\<^sup>* (op, w) (op', w')"
  shows "case o_prepared op' of
      None \<Rightarrow> \<not> o_finalized op'
    | Some e \<Rightarrow> size (with_id (e_ID e) (contents (w_store w'))) \<le> 1 \<and>
        (o_finalized op' \<longrightarrow> with_id (e_ID e) (contents (w_store w')) = {#sqlite_stored e#}) \<and>
        Outcome_Valid (e_Outcome e) \<and> e_AuditOperationID e = u"
  unfolding contents_def ok_def
  by (rule isql.exactly_once [OF new assms(4) store refl ok [unfolded ok_def] run [unfolded contents_def ok_def]])

theorem operation_exactly_once_witness:
  "\<exists>op' w' e. (op_step (sqlite_contents \<circ> in_store) (sqlite_ok \<circ> in_store) (\<lambda>_. True) demo_prims demo_logger)\<^sup>*\<^sup>*
       (demo_operation, demo_world [lost_commit]) (op', w') \<and>
     o_finalized op' \<and> o_prepared op' = Some e \<and>
     with_id (e_ID e) (sqlite_contents (in_store (w_store w'))) = {#sqlite_stored e#}"
proof -
  obtain r oo w where f: "Finalize demo_prims demo_logger ''i'' 7 demo_completion
      (Some demo_operation) (demo_world [lost_commit]) = (r, oo, w)" by (metis prod_cases3)
  with demo_finalizes obtain op' where oo: "oo = Some op'" "o_finalized op'" "o_prepared op' \<noteq> None"
    by auto
  have "op_step (sqlite_contents \<circ> in_store) (sqlite_ok \<circ> in_store) (\<lambda>_. True) demo_prims demo_logger
      (demo_operation, demo_world [lost_commit]) (op', w)"
    using f oo(1) by (auto intro!: op_step.Finalize simp: demo_world_def sqlite_contents_def with_id_def option.pred_True)
  then have run: "(op_step (sqlite_contents \<circ> in_store) (sqlite_ok \<circ> in_store) (\<lambda>_. True) demo_prims demo_logger)\<^sup>*\<^sup>*
      (demo_operation, demo_world [lost_commit]) (op', w)" by blast
  have new: "NewOperation (Some demo_logger) (Inr ''u'') 0
      (zero_entry\<lparr>e_Method := ''tools/call''\<rparr>) 5 = Inr demo_operation"
    by (simp add: NewOperation_def demo_operation_def zero_entry_def)
  have id: "e_ID (zero_entry\<lparr>e_Method := ''tools/call''\<rparr>) = []" by (simp add: zero_entry_def)
  have st: "lg_store demo_logger = instrumented_ops
      \<lparr>ic_metrics = True, ic_backend = ''sqlite'', ic_mode = ''sync''\<rparr> (sqlite_ops 0 0)"
    by (simp add: demo_logger_def)
  have ok: "(sqlite_ok \<circ> in_store) (w_store (demo_world [lost_commit]))"
    by (simp add: demo_world_def sqlite_ok_def)
  from oo(3) obtain e where e: "o_prepared op' = Some e" by blast
  from operation_exactly_once [OF new id st ok run] oo(2) e
  have "with_id (e_ID e) (sqlite_contents (in_store (w_store w))) = {#sqlite_stored e#}" by simp
  with run oo(2) e show ?thesis by blast
qed

definition demo_jsonl_logger :: "jsonl instrumented logger" where
  "demo_jsonl_logger =
     \<lparr>lg_store = instrumented_ops \<lparr>ic_metrics = True, ic_backend = ''jsonl'', ic_mode = ''sync''\<rparr> (jsonl_ops Inr 0 0),
      lg_signer = None, lg_integritySigner = Some (NewIntegritySigner ''k'' []),
      lg_redactor = None, lg_trace = False, lg_transport = ''stdio'', lg_clientID = ''c'', lg_serverID = ''s'',
      lg_metrics = False, lg_durable = True\<rparr>"

definition demo_jsonl_world :: "jsonl_env list \<Rightarrow> jsonl instrumented world" where
  "demo_jsonl_world envs =
     \<lparr>w_store = \<lparr>in_store = demo_jsonl (demo_rotating 0) envs, in_writes = []\<rparr>, w_metrics = [], w_traces = []\<rparr>"

definition failed_sync :: jsonl_env where
  "failed_sync = (jsonl_fine 0)\<lparr>je_sync := Some ''input/output error''\<rparr>"

lemma demo_jsonl_finalizes:
  "case Finalize demo_prims demo_jsonl_logger ''i'' 7 demo_completion (Some demo_operation)
        (demo_jsonl_world [failed_sync]) of
     (r, oo, w) \<Rightarrow> r = None \<and> oo \<noteq> None \<and> o_finalized (the oo) \<and> o_prepared (the oo) \<noteq> None \<and>
       storable (the (o_prepared (the oo))) \<and> length (line_of (the (o_prepared (the oo)))) < 600"
  by code_simp

text \<open>
  C4: The same holds for the JSON lines store. Over the instrumented JSON lines store without
  retention limits, with any failures of the file system other than of the truncation that
  rolls an append back, with rotation, retries and other activity, an operation whose record
  has a line that can be read back is recorded at most once, exactly once when finalized, and
  the record is the frozen one in compact form.
\<close>
theorem jsonl_exactly_once:
  fixes c :: instr_config
  defines "contents \<equiv> jsonl_contents \<circ> in_store" and "ok \<equiv> jsonl_ok \<circ> in_store"
  assumes new: "NewOperation (Some l) (Inr u) now0 entry0 started = Inr op" and "e_ID entry0 = []"
    and store: "lg_store l = instrumented_ops c (jsonl_ops jcs offset now1)"
    and ok: "ok (w_store w)"
    and run: "(op_step contents ok admitted p l)\<^sup>*\<^sup>* (op, w) (op', w')"
  shows "case o_prepared op' of
      None \<Rightarrow> \<not> o_finalized op'
    | Some e \<Rightarrow> size (with_id (e_ID e) (contents (w_store w'))) \<le> 1 \<and>
        (o_finalized op' \<longrightarrow> with_id (e_ID e) (contents (w_store w')) = {#compact_entry e#}) \<and>
        Outcome_Valid (e_Outcome e) \<and> e_AuditOperationID e = u"
  unfolding contents_def ok_def
  by (rule ijsonl.exactly_once [OF new assms(4) store refl ok [unfolded ok_def] run [unfolded contents_def ok_def]])

theorem jsonl_exactly_once_witness:
  "\<exists>op' w' e. (op_step (jsonl_contents \<circ> in_store) (jsonl_ok \<circ> in_store) admitted demo_prims demo_jsonl_logger)\<^sup>*\<^sup>*
       (demo_operation, demo_jsonl_world [failed_sync]) (op', w') \<and>
     o_finalized op' \<and> o_prepared op' = Some e \<and>
     with_id (e_ID e) (jsonl_contents (in_store (w_store w'))) = {#compact_entry e#}"
proof -
  let ?w = "demo_jsonl_world [failed_sync]"
  obtain r oo w where f: "Finalize demo_prims demo_jsonl_logger ''i'' 7 demo_completion
      (Some demo_operation) ?w = (r, oo, w)" by (metis prod_cases3)
  with demo_jsonl_finalizes obtain op' e where oo: "oo = Some op'" "o_finalized op'" "o_prepared op' = Some e"
    "storable e" "length (line_of e) < 600" by auto
  then have ad: "admitted e" by (simp add: admitted_def maxLineBytes_def)
  have "jenv_ok failed_sync"
    by (simp add: jenv_ok_def failed_sync_def jsonl_fine_def) code_simp
  then have ok: "jsonl_ok (in_store (w_store ?w))" "jsonl_contents (in_store (w_store ?w)) = {#}"
    by (simp_all add: jsonl_ok_def jsonl_contents_def clean_def files_wf_def demo_jsonl_def keeps_all_def
        demo_rotating_def named_def evidence_def evidence_of_def chunk_def demo_jsonl_world_def)
  have "op_step (jsonl_contents \<circ> in_store) (jsonl_ok \<circ> in_store) admitted demo_prims demo_jsonl_logger
      (demo_operation, ?w) (op', w)"
    using f oo ad by (auto intro!: op_step.Finalize simp: ok(2) with_id_def)
  then have run: "(op_step (jsonl_contents \<circ> in_store) (jsonl_ok \<circ> in_store) admitted demo_prims demo_jsonl_logger)\<^sup>*\<^sup>*
      (demo_operation, ?w) (op', w)" by blast
  have new: "NewOperation (Some demo_jsonl_logger) (Inr ''u'') 0
      (zero_entry\<lparr>e_Method := ''tools/call''\<rparr>) 5 = Inr demo_operation"
    by (simp add: NewOperation_def demo_operation_def zero_entry_def)
  have id: "e_ID (zero_entry\<lparr>e_Method := ''tools/call''\<rparr>) = []" by (simp add: zero_entry_def)
  have st: "lg_store demo_jsonl_logger = instrumented_ops
      \<lparr>ic_metrics = True, ic_backend = ''jsonl'', ic_mode = ''sync''\<rparr> (jsonl_ops Inr 0 0)"
    by (simp add: demo_jsonl_logger_def)
  have ok': "(jsonl_ok \<circ> in_store) (w_store ?w)" using ok(1) by simp
  from jsonl_exactly_once [OF new id st ok' run] oo(2,3)
  have "with_id (e_ID e) (jsonl_contents (in_store (w_store w))) = {#compact_entry e#}" by simp
  with run oo(2,3) show ?thesis by blast
qed

text \<open>
  C3: What the logger stores verifies. With both signers on, the record that preparation returns
  carries a legacy signature and integrity metadata that verify against that very record, after
  defaults are filled in and redaction is applied, under the signers' keys.
\<close>
theorem prepared_verifies:
  assumes "prepare p l ulid now e = Inr e'"
    and "lg_signer l = Some s" "sg_secret s \<noteq> []"
    and "lg_integritySigner l = Some v" "is_secret v \<noteq> []" "keys (is_keyID v) = Some (is_secret v)"
    and "\<And>k m. p_hmac p k m \<noteq> []"
  shows "Signer_Verify (p_hmac p) (Some s) e' \<and>
     Verifier_Verify (p_hmac p) (p_jcs p) (Some keys) (IntegrityEntryV2 e') (e_Integrity e') = None"
proof -
  let ?e = "redact_entry p l (fill_defaults l ulid now e)"
  let ?s = "sign_legacy p l ?e"
  have sl: "?s = ?e\<lparr>e_Signature := Signer_Sign (p_hmac p) (Some s) ?e\<rparr>"
    using assms(2) by (simp add: sign_legacy_def)
  obtain md where e': "e' = ?s\<lparr>e_Integrity := md\<rparr>"
    using assms(1) unfolding prepare_def Let_def by (auto split: sum.splits if_splits intro: that [of "e_Integrity ?s"])
  note prepare_verifies_v2(2) [where keys = keys, OF assms(1,4,5,6)]
  moreover have "EncodeToString m \<noteq> []" if "m \<noteq> []" for m
    using that by (cases m) (auto simp: EncodeToString_def hex_byte_def)
  then have "Signer_Verify (p_hmac p) (Some s) e'"
    using assms(3,7)
    by (simp add: Verify_legacy_iff e' sl legacy_message_def Signer_Sign_def Signer_Enabled_def)
  ultimately show ?thesis by simp
qed

theorem prepared_verifies_witness:
  "\<exists>e'. prepare demo_prims demo_logger ''i'' 7 (o_entry demo_operation) = Inr e' \<and>
     Signer_Verify (p_hmac demo_prims) (Some (NewSigner ''k'')) e'"
proof -
  have "case prepare demo_prims demo_logger ''i'' 7 (o_entry demo_operation) of
      Inr _ \<Rightarrow> True | _ \<Rightarrow> False" by code_simp
  then obtain e' where e': "prepare demo_prims demo_logger ''i'' 7 (o_entry demo_operation) = Inr e'"
    by (auto split: sum.splits)
  have "Signer_Verify (p_hmac demo_prims) (Some (NewSigner ''k'')) e' \<and>
     Verifier_Verify (p_hmac demo_prims) (p_jcs demo_prims) (Some [''default'' \<mapsto> ''k''])
       (IntegrityEntryV2 e') (e_Integrity e') = None"
    by (rule prepared_verifies [where v = "NewIntegritySigner ''k'' []", OF e'])
      (simp_all add: demo_logger_def demo_prims_def NewSigner_def NewIntegritySigner_def DefaultKeyID_def)
  with e' show ?thesis by blast
qed

end
